(* ===== verification/JsNum.thy ===== *)
theory JsNum
  imports Prelude "HOL-Library.Log_Nat"
begin

text \<open>
  JavaScript numbers. A finite double is the rational it denotes; every arithmetic
  operation computes the exact rational result and rounds it with \<open>fl\<close>, which is IEEE 754
  binary64 rounding to nearest, ties to even, with subnormals and overflow to an infinity.
  The sign of zero is dropped: no operation modelled here distinguishes \<open>-0\<close> from \<open>0\<close>
  (divisions are guarded by \<open>=== 0\<close> and \<open>String(-0)\<close> is \<open>"0"\<close>).

  \<open>num_to_string\<close> is \<open>String(x)\<close> (the shortest decimal that rounds back to \<open>x\<close>) and
  \<open>string_to_num\<close> is \<open>Number(s)\<close>.
\<close>

datatype jsnum = Fin rat | NaN | PInf | NInf

named_theorems num_simps \<open>evaluation of number operations\<close>

subsection \<open>Rounding\<close>

definition pow2 :: "int \<Rightarrow> rat" where
  "pow2 k = (if 0 \<le> k then of_int (2 ^ nat k) else 1 / of_int (2 ^ nat (- k)))"

text \<open>For \<open>r \<noteq> 0\<close> the exponent \<open>e\<close> with \<open>2^e \<le> \<bar>r\<bar> < 2^(e+1)\<close>.\<close>

definition binexp :: "rat \<Rightarrow> int" where
  "binexp r =
     (let (n, d) = quotient_of \<bar>r\<bar>; k = bitlen n - bitlen d
      in if \<bar>r\<bar> < pow2 k then k - 1 else k)"

definition round_even :: "rat \<Rightarrow> int" where
  "round_even r =
     (let f = \<lfloor>r\<rfloor>; d = r - of_int f
      in if d < 1 / 2 then f else if 1 / 2 < d then f + 1 else if even f then f else f + 1)"

definition fl :: "rat \<Rightarrow> jsnum" where
  "fl r =
     (if r = 0 then Fin 0
      else let q = max (binexp r - 52) (- 1074);
               v = of_int (round_even (r / pow2 q)) * pow2 q
           in if of_int (2 ^ 1024) \<le> \<bar>v\<bar> then (if 0 < v then PInf else NInf) else Fin v)"

definition num :: "int \<Rightarrow> jsnum" where
  "num n = fl (of_int n)"

lemma pow2_pos [simp]: "0 < pow2 k"
  by (simp add: pow2_def)

lemma pow2_neq0 [simp]: "pow2 k \<noteq> 0"
  using pow2_pos [of k] by linarith

lemma pow2_nat: "pow2 (int n) = 2 ^ n"
  by (simp add: pow2_def)

lemma pow2_succ: "pow2 (k + 1) = 2 * pow2 k"
proof (cases "0 \<le> k")
  case True
  then show ?thesis by (simp add: pow2_def nat_add_distrib)
next
  case False
  show ?thesis
  proof (cases "k = -1")
    case True
    then show ?thesis by (simp add: pow2_def)
  next
    case F: False
    with False have "nat (- k) = Suc (nat (- (k + 1)))" by simp
    with False F show ?thesis by (simp add: pow2_def)
  qed
qed

lemma pow2_add_nat: "pow2 (k + int n) = pow2 k * 2 ^ n"
proof (induction n)
  case (Suc n)
  have "pow2 (k + int (Suc n)) = pow2 ((k + int n) + 1)" by (simp add: algebra_simps)
  then show ?case using Suc by (simp add: pow2_succ)
qed simp

lemma pow2_mono: "i \<le> j \<Longrightarrow> pow2 i \<le> pow2 j"
proof -
  assume "i \<le> j"
  then have "pow2 j = pow2 i * 2 ^ nat (j - i)" using pow2_add_nat [of i "nat (j - i)"] by simp
  moreover have "1 \<le> (2::rat) ^ nat (j - i)" by (rule one_le_power) simp
  ultimately show ?thesis using mult_left_mono [of 1 "2 ^ nat (j - i)" "pow2 i"] pow2_pos [of i]
    by simp
qed

lemma bitlen_pow2:
  assumes "0 < (x::int)"
  shows "pow2 (bitlen x - 1) \<le> of_int x" and "of_int x < pow2 (bitlen x)"
proof -
  have b: "2 ^ nat (bitlen x - 1) \<le> x" "x < 2 ^ nat (bitlen x)"
    using bitlen_bounds [OF assms] by auto
  have p: "0 < bitlen x" using assms b(2) by (metis bitlen_eq_zero_iff bitlen_nonneg not_less order_le_less)
  have "(of_int (2 ^ nat (bitlen x - 1)) :: rat) \<le> of_int x" using b(1) by (rule of_int_le_iff [THEN iffD2])
  then show "pow2 (bitlen x - 1) \<le> of_int x" using p by (simp add: pow2_def)
  have "(of_int x :: rat) < of_int (2 ^ nat (bitlen x))" using b(2) by (rule of_int_less_iff [THEN iffD2])
  then show "of_int x < pow2 (bitlen x)" using p by (simp add: pow2_def)
qed

lemma pow2_diff: "pow2 (i - j) = pow2 i / pow2 j"
proof (cases "j \<le> i")
  case True
  then show ?thesis using pow2_add_nat [of j "nat (i - j)"] pow2_nat [of "nat (i - j)"]
    by (simp add: field_simps)
next
  case False
  then have "pow2 j = pow2 i * 2 ^ nat (j - i)" using pow2_add_nat [of i "nat (j - i)"] by simp
  moreover have "pow2 (i - j) = 1 / 2 ^ nat (j - i)" using False by (simp add: pow2_def)
  ultimately show ?thesis by (simp add: field_simps)
qed

lemma binexp_bounds:
  assumes "r \<noteq> 0"
  shows "pow2 (binexp r) \<le> \<bar>r\<bar>" and "\<bar>r\<bar> < pow2 (binexp r + 1)"
proof -
  obtain n d where q: "quotient_of \<bar>r\<bar> = (n, d)" by (cases "quotient_of \<bar>r\<bar>")
  have d: "0 < d" using quotient_of_denom_pos [OF q] .
  have r: "\<bar>r\<bar> = of_int n / of_int d" using quotient_of_div [OF q] .
  have "0 < of_int n / (of_int d :: rat)" using assms r by (metis zero_less_abs_iff)
  then have n: "0 < n" using d by (simp add: zero_less_divide_iff)
  let ?k = "bitlen n - bitlen d"
  have nb: "pow2 (bitlen n - 1) \<le> of_int n" "of_int n < pow2 (bitlen n)" using bitlen_pow2 [OF n] by auto
  have db: "pow2 (bitlen d - 1) \<le> of_int d" "of_int d < pow2 (bitlen d)" using bitlen_pow2 [OF d] by auto
  have dp: "(0::rat) < of_int d" using d by simp
  have "\<bar>r\<bar> < pow2 (bitlen n) / pow2 (bitlen d - 1)"
  proof -
    have "of_int n / of_int d < pow2 (bitlen n) / of_int d" using nb(2) dp by (rule divide_strict_right_mono)
    also have "\<dots> \<le> pow2 (bitlen n) / pow2 (bitlen d - 1)"
      using db(1) dp by (intro divide_left_mono) (auto intro: less_imp_le)
    finally show ?thesis by (simp add: r)
  qed
  also have "\<dots> = pow2 (?k + 1)" using pow2_diff [of "bitlen n" "bitlen d - 1"] by (simp add: algebra_simps)
  finally have hi: "\<bar>r\<bar> < pow2 (?k + 1)" .
  have "pow2 (bitlen n - 1) / pow2 (bitlen d) \<le> of_int n / of_int d"
    using nb(1) db(2) dp n by (intro frac_le) (auto intro: less_imp_le)
  then have lo: "pow2 (?k - 1) \<le> \<bar>r\<bar>" using pow2_diff [of "bitlen n - 1" "bitlen d"] r
    by (simp add: algebra_simps)
  have b: "binexp r = (if \<bar>r\<bar> < pow2 ?k then ?k - 1 else ?k)" by (simp add: binexp_def q)
  show "pow2 (binexp r) \<le> \<bar>r\<bar>" using lo b by auto
  show "\<bar>r\<bar> < pow2 (binexp r + 1)" using hi b by auto
qed

lemma round_even_int [simp]: "round_even (of_int n) = n"
  by (simp add: round_even_def)

lemma round_even_error: "\<bar>of_int (round_even r) - r\<bar> \<le> 1 / 2"
proof -
  have "of_int \<lfloor>r\<rfloor> \<le> r" "r < of_int \<lfloor>r\<rfloor> + 1" by linarith+
  then show ?thesis by (auto simp: round_even_def Let_def)
qed

text \<open>Integers below \<open>2^53\<close> in absolute value are represented exactly.\<close>

lemma fl_exact:
  assumes "r = of_int m * pow2 q" "\<bar>m\<bar> < 2 ^ 53" "- 1074 \<le> q" "q \<le> 971"
  shows "fl r = Fin r"
proof (cases "r = 0")
  case False
  let ?q = "max (binexp r - 52) (- 1074)"
  have mm: "\<bar>of_int m\<bar> < (2::rat) ^ 53"
    using assms(2) by (metis of_int_abs of_int_less_numeral_power_cancel_iff of_int_less_iff of_int_power of_int_numeral)
  have ab: "\<bar>r\<bar> = \<bar>of_int m\<bar> * pow2 q" using assms(1) by (simp add: abs_mult less_imp_le)
  then have rb: "\<bar>r\<bar> < pow2 (q + 53)"
    using mm pow2_add_nat [of q 53] mult_strict_right_mono [of "\<bar>of_int m\<bar>" "2 ^ 53" "pow2 q"]
    by (simp add: mult.commute)
  have "binexp r - 52 \<le> q"
  proof (rule ccontr)
    assume "\<not> ?thesis"
    then have "pow2 (q + 53) \<le> pow2 (binexp r)" by (intro pow2_mono) simp
    with binexp_bounds(1) [OF False] rb show False by linarith
  qed
  then have qq: "?q \<le> q" using assms(3) by simp
  then have e: "pow2 q = pow2 ?q * 2 ^ nat (q - ?q)" using pow2_add_nat [of ?q "nat (q - ?q)"] by simp
  have "r = of_int m * (pow2 ?q * 2 ^ nat (q - ?q))" unfolding e [symmetric] by (rule assms(1))
  then have "r = of_int (m * 2 ^ nat (q - ?q)) * pow2 ?q" by (simp only: of_int_mult of_int_power of_int_numeral ac_simps)
  then have "r / pow2 ?q = of_int (m * 2 ^ nat (q - ?q))"
    by (metis nonzero_mult_div_cancel_right pow2_neq0)
  then have v: "of_int (round_even (r / pow2 ?q)) * pow2 ?q = r"
    by (metis round_even_int nonzero_eq_divide_eq pow2_neq0)
  have "pow2 (q + 53) \<le> pow2 1024" using assms(4) by (intro pow2_mono) simp
  moreover have "pow2 1024 = of_int (2 ^ 1024)" by (simp only: pow2_def nat_numeral zero_le_numeral if_True)
  ultimately have "\<not> of_int (2 ^ 1024) \<le> \<bar>r\<bar>" using rb by linarith
  then show ?thesis unfolding fl_def Let_def v using False by (simp only: if_False)
qed (simp add: fl_def)

lemma fl_int: "\<bar>n\<bar> < 2 ^ 53 \<Longrightarrow> fl (of_int n) = Fin (of_int n)"
  using fl_exact [of "of_int n" n 0] by (simp add: pow2_def)

lemma num_exact [num_simps]: "\<bar>n\<bar> < 2 ^ 53 \<Longrightarrow> num n = Fin (of_int n)"
  by (simp add: num_def fl_int)

subsection \<open>Arithmetic and comparison\<close>

fun n_neg :: "jsnum \<Rightarrow> jsnum" where
  "n_neg (Fin a) = Fin (- a)"
| "n_neg PInf = NInf"
| "n_neg NInf = PInf"
| "n_neg NaN = NaN"

fun n_add :: "jsnum \<Rightarrow> jsnum \<Rightarrow> jsnum" where
  "n_add (Fin a) (Fin b) = fl (a + b)"
| "n_add NaN _ = NaN"
| "n_add _ NaN = NaN"
| "n_add PInf NInf = NaN"
| "n_add NInf PInf = NaN"
| "n_add PInf _ = PInf"
| "n_add NInf _ = NInf"
| "n_add _ y = y"

definition n_sub :: "jsnum \<Rightarrow> jsnum \<Rightarrow> jsnum" where
  "n_sub a b = n_add a (n_neg b)"

definition inf_of_sign :: "rat \<Rightarrow> jsnum" where
  "inf_of_sign s = (if s = 0 then NaN else if 0 < s then PInf else NInf)"

fun n_sign :: "jsnum \<Rightarrow> rat" where
  "n_sign (Fin a) = sgn a"
| "n_sign PInf = 1"
| "n_sign NInf = -1"
| "n_sign NaN = 0"

fun n_mul :: "jsnum \<Rightarrow> jsnum \<Rightarrow> jsnum" where
  "n_mul (Fin a) (Fin b) = fl (a * b)"
| "n_mul NaN _ = NaN"
| "n_mul _ NaN = NaN"
| "n_mul x y = inf_of_sign (n_sign x * n_sign y)"

text \<open>Division by a divisor that is not zero; the code never divides by zero.\<close>

fun n_div :: "jsnum \<Rightarrow> jsnum \<Rightarrow> jsnum" where
  "n_div (Fin a) (Fin b) = (if b = 0 then inf_of_sign (sgn a) else fl (a / b))"
| "n_div NaN _ = NaN"
| "n_div _ NaN = NaN"
| "n_div (Fin a) _ = Fin 0"
| "n_div x (Fin b) = inf_of_sign (n_sign x * (if b = 0 then 1 else sgn b))"
| "n_div _ _ = NaN"

fun n_lt :: "jsnum \<Rightarrow> jsnum \<Rightarrow> bool" where
  "n_lt NaN _ = False"
| "n_lt _ NaN = False"
| "n_lt (Fin a) (Fin b) = (a < b)"
| "n_lt (Fin _) y = (y = PInf)"
| "n_lt NInf y = (y \<noteq> NInf)"
| "n_lt PInf _ = False"

fun n_eq :: "jsnum \<Rightarrow> jsnum \<Rightarrow> bool" where
  "n_eq NaN _ = False"
| "n_eq _ NaN = False"
| "n_eq x y = (x = y)"

definition n_le :: "jsnum \<Rightarrow> jsnum \<Rightarrow> bool" where
  "n_le a b \<longleftrightarrow> n_lt a b \<or> n_eq a b"

fun is_finite :: "jsnum \<Rightarrow> bool" where
  "is_finite (Fin _) = True"
| "is_finite _ = False"

fun is_integer :: "jsnum \<Rightarrow> bool" where
  "is_integer (Fin a) = (of_int \<lfloor>a\<rfloor> = a)"
| "is_integer _ = False"

fun n_abs :: "jsnum \<Rightarrow> jsnum" where
  "n_abs (Fin a) = Fin \<bar>a\<bar>"
| "n_abs NInf = PInf"
| "n_abs x = x"

fun n_floor :: "jsnum \<Rightarrow> jsnum" where
  "n_floor (Fin a) = Fin (of_int \<lfloor>a\<rfloor>)"
| "n_floor x = x"

fun n_ceil :: "jsnum \<Rightarrow> jsnum" where
  "n_ceil (Fin a) = Fin (of_int \<lceil>a\<rceil>)"
| "n_ceil x = x"

text \<open>\<open>Math.round\<close>: to the nearest integer, ties towards plus infinity.\<close>

fun n_round :: "jsnum \<Rightarrow> jsnum" where
  "n_round (Fin a) = Fin (of_int \<lfloor>a + 1 / 2\<rfloor>)"
| "n_round x = x"

text \<open>The remainder of truncating division, with the sign of the dividend.\<close>

fun n_rem :: "jsnum \<Rightarrow> jsnum \<Rightarrow> jsnum" where
  "n_rem (Fin a) (Fin b) =
     (if b = 0 then NaN
      else Fin (a - b * of_int (if 0 \<le> a / b then \<lfloor>a / b\<rfloor> else \<lceil>a / b\<rceil>)))"
| "n_rem NaN _ = NaN"
| "n_rem _ NaN = NaN"
| "n_rem (Fin a) _ = Fin a"
| "n_rem _ _ = NaN"

fun n_truthy :: "jsnum \<Rightarrow> bool" where
  "n_truthy (Fin a) = (a \<noteq> 0)"
| "n_truthy NaN = False"
| "n_truthy _ = True"

text \<open>Truncation of an index argument to an integer clamped to \<open>[0, n]\<close>.\<close>

fun clamp_index :: "nat \<Rightarrow> jsnum \<Rightarrow> nat" where
  "clamp_index n (Fin a) = min n (nat \<lfloor>a\<rfloor>)"
| "clamp_index n PInf = n"
| "clamp_index n _ = 0"

lemma n_lt_irrefl [simp]: "\<not> n_lt a a"
  by (cases a) auto

lemma n_lt_trans: "n_lt a b \<Longrightarrow> n_lt b c \<Longrightarrow> n_lt a c"
  by (cases a; cases b; cases c) auto

lemma n_le_trans: "n_le a b \<Longrightarrow> n_le b c \<Longrightarrow> n_le a c"
  by (cases a; cases b; cases c) (auto simp: n_le_def)

lemma n_le_Fin [simp]: "n_le (Fin a) (Fin b) \<longleftrightarrow> a \<le> b"
  by (auto simp: n_le_def)

lemma n_le_total: "a \<noteq> NaN \<Longrightarrow> b \<noteq> NaN \<Longrightarrow> n_le a b \<or> n_lt b a"
  by (cases a; cases b) (auto simp: n_le_def)

lemma not_n_lt: "a \<noteq> NaN \<Longrightarrow> b \<noteq> NaN \<Longrightarrow> \<not> n_lt a b \<longleftrightarrow> n_le b a"
  by (cases a; cases b) (auto simp: n_le_def)

lemma n_sub_Fin: "n_sub (Fin a) (Fin b) = fl (a - b)"
  by (simp add: n_sub_def)

text \<open>Rounding keeps the sign, so comparing through a difference agrees with comparing.\<close>

lemma round_even_nonneg: "0 \<le> r \<Longrightarrow> 0 \<le> round_even r"
  by (auto simp: round_even_def Let_def)

lemma round_even_neg: "r \<le> - 1 \<Longrightarrow> round_even r \<le> - 1"
proof -
  assume r: "r \<le> - 1"
  show ?thesis
  proof (cases "r = of_int \<lfloor>r\<rfloor>")
    case True
    then have "round_even r = \<lfloor>r\<rfloor>" by (metis round_even_int)
    then show ?thesis using r by linarith
  next
    case False
    then have "\<lfloor>r\<rfloor> < -1" using r by linarith
    then show ?thesis by (auto simp: round_even_def Let_def)
  qed
qed

lemma round_even_pos: "1 \<le> r \<Longrightarrow> 1 \<le> round_even r"
  by (auto simp: round_even_def Let_def le_floor_iff)

subsection \<open>\<open>String(x)\<close>\<close>

definition pow10 :: "int \<Rightarrow> rat" where
  "pow10 k = (if 0 \<le> k then of_int (10 ^ nat k) else 1 / of_int (10 ^ nat (- k)))"

text \<open>For \<open>x > 0\<close> the \<open>n\<close> with \<open>10^(n-1) \<le> x < 10^n\<close>.\<close>

definition dec_exp :: "rat \<Rightarrow> int" where
  "dec_exp x =
     (let (p, q) = quotient_of x;
          k = int (length (nat_digits (nat p))) - int (length (nat_digits (nat q)))
      in if x < pow10 k then k else k + 1)"

text \<open>
  The decimal with \<open>k\<close> significant digits that rounds to \<open>x\<close>, nearest to \<open>x\<close> if there
  are two, as its digits and the position of the decimal point.
\<close>

definition decimal :: "rat \<Rightarrow> nat \<Rightarrow> (nat \<times> int) option" where
  "decimal x k =
     (let n = dec_exp x; sc = pow10 (n - int k); lo = \<lfloor>x / sc\<rfloor>;
          near = (if round_even (x / sc) = lo then [lo, lo + 1] else [lo + 1, lo])
      in case filter (\<lambda>s. fl (of_int s * sc) = Fin x) near of
           [] \<Rightarrow> None
         | s # _ \<Rightarrow> Some (if s = 10 ^ k then (10 ^ (k - 1), n + 1) else (nat s, n)))"

definition shortest :: "rat \<Rightarrow> string \<times> int" where
  "shortest x =
     (case List.map_filter (decimal x) [1..<18] of
        (s, n) # _ \<Rightarrow> (nat_digits s, n)
      | [] \<Rightarrow> ([], 0))"

definition format_decimal :: "string \<Rightarrow> int \<Rightarrow> string" where
  "format_decimal ds n =
     (let k = int (length ds)
      in if k \<le> n \<and> n \<le> 21 then ds @ replicate (nat (n - k)) CHR ''0''
         else if 0 < n \<and> n \<le> 21 then take (nat n) ds @ ''.'' @ drop (nat n) ds
         else if - 6 < n \<and> n \<le> 0 then ''0.'' @ replicate (nat (- n)) CHR ''0'' @ ds
         else let e = n - 1;
                  es = (if 0 \<le> e then ''+'' else ''-'') @ nat_digits (nat \<bar>e\<bar>)
              in (if k = 1 then ds else take 1 ds @ ''.'' @ drop 1 ds) @ ''e'' @ es)"

fun num_to_string :: "jsnum \<Rightarrow> string" where
  "num_to_string NaN = ''NaN''"
| "num_to_string PInf = ''Infinity''"
| "num_to_string NInf = ''-Infinity''"
| "num_to_string (Fin r) =
     (if r = 0 then ''0''
      else (if r < 0 then ''-'' else []) @ (case shortest \<bar>r\<bar> of (ds, n) \<Rightarrow> format_decimal ds n))"

subsection \<open>\<open>Number(s)\<close>\<close>

definition digit_val :: "char \<Rightarrow> nat" where
  "digit_val c =
     (if is_digit_char c then cu c - 48
      else if is_lower_az c then cu c - 87
      else if is_upper_az c then cu c - 55 else 99)"

fun digits_val :: "nat \<Rightarrow> nat \<Rightarrow> string \<Rightarrow> nat" where
  "digits_val base acc [] = acc"
| "digits_val base acc (c # cs) = digits_val base (base * acc + digit_val c) cs"

definition radix_num :: "nat \<Rightarrow> string \<Rightarrow> jsnum" where
  "radix_num base ds =
     (if ds \<noteq> [] \<and> list_all (\<lambda>c. digit_val c < base) ds
      then fl (of_nat (digits_val base 0 ds)) else NaN)"

definition exponent_part :: "string \<Rightarrow> int option" where
  "exponent_part r =
     (case r of
        [] \<Rightarrow> Some 0
      | c # cs \<Rightarrow>
          if c \<noteq> CHR ''e'' \<and> c \<noteq> CHR ''E'' then None
          else let (sg, ds) = (case cs of
                                 [] \<Rightarrow> (1, [])
                               | d # t \<Rightarrow> if d = CHR ''-'' then (- 1, t)
                                          else if d = CHR ''+'' then (1, t) else (1, cs))
               in if ds \<noteq> [] \<and> list_all is_digit_char ds
                  then Some (sg * int (digits_val 10 0 ds)) else None)"

definition unsigned_decimal :: "string \<Rightarrow> rat option" where
  "unsigned_decimal s =
     (let ip = takeWhile is_digit_char s; r1 = dropWhile is_digit_char s;
          (fp, r2) = (if r1 \<noteq> [] \<and> hd r1 = CHR ''.''
                      then (takeWhile is_digit_char (tl r1), dropWhile is_digit_char (tl r1))
                      else ([], r1))
      in if ip = [] \<and> fp = [] then None
         else map_option (\<lambda>e. of_nat (digits_val 10 0 (ip @ fp)) * pow10 (e - int (length fp)))
                (exponent_part r2))"

definition signed_num :: "bool \<Rightarrow> string \<Rightarrow> jsnum" where
  "signed_num ng s =
     (if s = ''Infinity'' then (if ng then NInf else PInf)
      else case unsigned_decimal s of
             None \<Rightarrow> NaN
           | Some r \<Rightarrow> fl (if ng then - r else r))"

definition string_to_num :: "string \<Rightarrow> jsnum" where
  "string_to_num str =
     (let s = trim str
      in if s = [] then Fin 0
         else if take 2 s \<in> {''0x'', ''0X''} then radix_num 16 (drop 2 s)
         else if take 2 s \<in> {''0o'', ''0O''} then radix_num 8 (drop 2 s)
         else if take 2 s \<in> {''0b'', ''0B''} then radix_num 2 (drop 2 s)
         else if hd s = CHR ''-'' then signed_num True (tl s)
         else if hd s = CHR ''+'' then signed_num False (tl s)
         else signed_num False s)"

lemma string_to_num_trim [simp]: "string_to_num (trim s) = string_to_num s"
  by (simp add: string_to_num_def)

end
