(* ===== verification/JsValue.thy ===== *)
theory JsValue
  imports JsNum
begin

text \<open>
  JavaScript values as the code's \<open>unknown\<close> and \<open>Record<string, unknown>\<close> carry them.
  Arrays and objects carry an address: \<open>===\<close> compares references, so two arrays with the
  same elements are equal only when they are the same array. The host record collects
  what the language leaves to the engine (the clock, collation, the regular expression
  matcher, \<open>Math.pow\<close>, URL and date parsing).
\<close>

datatype jsval =
    Undef
  | JNull
  | JBool bool
  | JNum jsnum
  | JStr string
  | JArr nat "jsval list"
  | JObj nat "(string \<times> jsval) list"

type_synonym obj = "(string \<times> jsval) list"

named_theorems js_simps \<open>evaluation of operations on values\<close>

subsection \<open>Property access\<close>

definition get :: "obj \<Rightarrow> string \<Rightarrow> jsval" where
  "get m k = (case map_of m k of None \<Rightarrow> Undef | Some v \<Rightarrow> v)"

fun nullish :: "jsval \<Rightarrow> bool" where
  "nullish Undef = True"
| "nullish JNull = True"
| "nullish _ = False"

text \<open>The code's \<open>a ?? b\<close>.\<close>

definition coalesce :: "jsval \<Rightarrow> jsval \<Rightarrow> jsval" where
  "coalesce a b = (if nullish a then b else a)"

text \<open>\<open>v[k]\<close> on a value that was cast to an object; arrays have no such named property here.\<close>

fun field_of :: "jsval \<Rightarrow> string \<Rightarrow> jsval" where
  "field_of (JObj _ m) k = get m k"
| "field_of _ k = Undef"

subsection \<open>Conversions and equality\<close>

fun truthy :: "jsval \<Rightarrow> bool" where
  "truthy Undef = False"
| "truthy JNull = False"
| "truthy (JBool b) = b"
| "truthy (JNum n) = n_truthy n"
| "truthy (JStr s) = (s \<noteq> [])"
| "truthy (JArr _ _) = True"
| "truthy (JObj _ _) = True"

fun strict_eq :: "jsval \<Rightarrow> jsval \<Rightarrow> bool" where
  "strict_eq Undef Undef = True"
| "strict_eq JNull JNull = True"
| "strict_eq (JBool a) (JBool b) = (a = b)"
| "strict_eq (JNum a) (JNum b) = n_eq a b"
| "strict_eq (JStr a) (JStr b) = (a = b)"
| "strict_eq (JArr a _) (JArr b _) = (a = b)"
| "strict_eq (JObj a _) (JObj b _) = (a = b)"
| "strict_eq _ _ = False"

text \<open>\<open>Array.prototype.includes\<close> compares with SameValueZero: \<open>NaN\<close> equals itself.\<close>

definition same_value_zero :: "jsval \<Rightarrow> jsval \<Rightarrow> bool" where
  "same_value_zero a b \<longleftrightarrow> (a = JNum NaN \<and> b = JNum NaN) \<or> strict_eq a b"

fun js_string :: "jsval \<Rightarrow> string"
  and js_elem_string :: "jsval \<Rightarrow> string" where
  "js_string Undef = ''undefined''"
| "js_string JNull = ''null''"
| "js_string (JBool b) = (if b then ''true'' else ''false'')"
| "js_string (JNum n) = num_to_string n"
| "js_string (JStr s) = s"
| "js_string (JArr _ vs) = join '','' (map js_elem_string vs)"
| "js_string (JObj _ _) = ''[object Object]''"
| "js_elem_string v = (if nullish v then [] else js_string v)"

fun js_number :: "jsval \<Rightarrow> jsnum" where
  "js_number Undef = NaN"
| "js_number JNull = Fin 0"
| "js_number (JBool b) = Fin (if b then 1 else 0)"
| "js_number (JNum n) = n"
| "js_number (JStr s) = string_to_num s"
| "js_number (JArr a vs) = string_to_num (js_string (JArr a vs))"
| "js_number (JObj _ _) = NaN"

fun is_str :: "jsval \<Rightarrow> bool" where
  "is_str (JStr _) = True"
| "is_str _ = False"

fun is_num :: "jsval \<Rightarrow> bool" where
  "is_num (JNum _) = True"
| "is_num _ = False"

fun is_arr :: "jsval \<Rightarrow> bool" where
  "is_arr (JArr _ _) = True"
| "is_arr _ = False"

fun is_obj :: "jsval \<Rightarrow> bool" where
  "is_obj (JObj _ _) = True"
| "is_obj _ = False"

text \<open>\<open>typeof v === 'object' && v !== null\<close>.\<close>

definition is_object_like :: "jsval \<Rightarrow> bool" where
  "is_object_like v \<longleftrightarrow> is_arr v \<or> is_obj v"

definition str_eq :: "jsval \<Rightarrow> string \<Rightarrow> bool" where
  "str_eq v s \<longleftrightarrow> v = JStr s"

lemma strict_eq_sym: "strict_eq a b = strict_eq b a"
proof (induction a b rule: strict_eq.induct)
  case (4 a b)
  then show ?case by (cases a; cases b) auto
qed auto

lemma strict_eq_refl: "a \<noteq> JNum NaN \<Longrightarrow> strict_eq a a"
proof (cases a)
  case (JNum x)
  moreover assume "a \<noteq> JNum NaN"
  ultimately show ?thesis by (cases x) auto
qed auto

lemma strict_eq_truthy: "strict_eq a b \<Longrightarrow> truthy a = truthy b"
proof (induction a b rule: strict_eq.induct)
  case (4 a b)
  then show ?case by (cases a; cases b) auto
qed auto

lemma strict_eq_JStr [simp]: "strict_eq v (JStr s) \<longleftrightarrow> v = JStr s" "strict_eq (JStr s) v \<longleftrightarrow> v = JStr s"
  by (cases v; auto)+

lemma get_obj_set [obj_simps]: "get (obj_set k v m) j = (if j = k then v else get m j)"
  by (simp add: get_def)

lemma get_Nil [simp]: "get [] k = Undef"
  by (simp add: get_def)

lemma get_Cons: "get ((j, v) # m) k = (if k = j then v else get m k)"
  by (simp add: get_def)

subsection \<open>What the engine decides\<close>

record host =
  h_year :: int
  h_month :: nat
  h_day :: nat
  h_now_iso :: string
  h_now_ms :: jsnum
  h_locale_compare :: "string \<Rightarrow> string \<Rightarrow> int"
  h_regex :: "string \<Rightarrow> string \<Rightarrow> (string \<Rightarrow> bool) option"
  h_pow10 :: "jsnum \<Rightarrow> jsnum"
  h_url_protocol :: "string \<Rightarrow> string option"
  h_date_parse :: "string \<Rightarrow> jsnum"

definition int_to_string :: "int \<Rightarrow> string" where
  "int_to_string i = (if i < 0 then ''-'' @ nat_digits (nat (- i)) else nat_digits (nat i))"

text \<open>
  What the language promises of a collation: it orders strings totally (up to ties) and
  only equal strings need compare equal to themselves.
\<close>

definition collation :: "(string \<Rightarrow> string \<Rightarrow> int) \<Rightarrow> bool" where
  "collation cmp \<longleftrightarrow>
     (\<forall>a. cmp a a = 0) \<and>
     (\<forall>a b. sgn (cmp a b) = - sgn (cmp b a)) \<and>
     (\<forall>a b c. cmp a b \<le> 0 \<longrightarrow> cmp b c \<le> 0 \<longrightarrow> cmp a c \<le> 0)"

lemma collation_total: "collation cmp \<Longrightarrow> cmp a b \<le> 0 \<or> cmp b a \<le> 0"
proof -
  assume "collation cmp"
  then have "sgn (cmp a b) = - sgn (cmp b a)" unfolding collation_def by blast
  then show ?thesis by (simp add: sgn_if split: if_splits)
qed

lemma collation_trans: "collation cmp \<Longrightarrow> cmp a b \<le> 0 \<Longrightarrow> cmp b c \<le> 0 \<Longrightarrow> cmp a c \<le> 0"
  unfolding collation_def by blast

lemma collation_neg: "collation cmp \<Longrightarrow> cmp a b < 0 \<longleftrightarrow> \<not> cmp b a \<le> 0"
proof -
  assume "collation cmp"
  then have "sgn (cmp a b) = - sgn (cmp b a)" unfolding collation_def by blast
  then show ?thesis by (simp add: sgn_if split: if_splits)
qed

text \<open>Collation by code units, a concrete instance for closed examples.\<close>

definition code_unit_compare :: "string \<Rightarrow> string \<Rightarrow> int" where
  "code_unit_compare a b = (if a < b then - 1 else if a = b then 0 else 1)"

lemma collation_code_unit: "collation code_unit_compare"
  by (auto simp: collation_def code_unit_compare_def)

definition host0 :: host where
  "host0 = \<lparr> h_year = 2026, h_month = 0, h_day = 5, h_now_iso = ''2026-01-05T00:00:00.000Z'',
     h_now_ms = Fin 1767571200000, h_locale_compare = code_unit_compare,
     h_regex = (\<lambda>p f. Some (\<lambda>s. s = p)), h_pow10 = (\<lambda>_. Fin 1),
     h_url_protocol = (\<lambda>_. None), h_date_parse = (\<lambda>_. NaN) \<rparr>"

end
