(* ===== verification/FormTypes.thy ===== *)
theory FormTypes
  imports JsValue
begin

text \<open>
  The data of \<open>packages/form-schema/src/index.ts\<close>: the expression language, the 48 question
  shapes and the form. Each interface is a record, the discriminated union \<open>Question\<close> is
  the record of the common fields (\<open>QuestionBase\<close>) with a \<open>kind\<close>. An optional property is an
  \<open>option\<close>; numbers are \<open>jsnum\<close>. \<open>OpUnknown\<close>, \<open>BUnknown\<close> and \<open>KOther\<close> stand for what a
  form written by a newer build may carry and this build does not know (see \<open>EngineVersion\<close>).
\<close>

subsection \<open>Expressions\<close>

datatype builtin =
    B_today | B_now | B_len | B_sum | B_count | B_coalesce | B_lower | B_upper
  | B_trim | B_contains | B_starts_with | B_ends_with | B_substring | B_abs | B_round
  | B_floor | B_ceil | B_min_of | B_max_of | B_selected
  | BUnknown string

datatype operand =
    Ref string
  | Lit jsval
  | Call builtin "operand list"

datatype binop =
    OpEq | OpNeq | OpGt | OpGte | OpLt | OpLte
  | OpIn
  | OpAdd | OpSub | OpMul | OpDiv

datatype expression =
    Bin binop operand operand
  | And "expression list"
  | Or "expression list"
  | Not expression
  | Between operand operand operand
  | Matches operand operand "string option"
  | Concat "operand list"
  | Cond expression operand operand
  | OpUnknown string

subsection \<open>Common shapes\<close>

record choice =
  ch_value :: string
  ch_label :: string
  ch_pickListId :: "string option"

record bind_to =
  bt_layerKey :: "string option"
  bt_layerItemId :: "string option"
  bt_column :: "string option"

datatype question_width = W_full | W_half | W_third | W_two_thirds | W_quarter | W_three_quarters

record question_layout =
  ql_width :: "question_width option"

text \<open>\<open>boolean | Expression | undefined\<close>, the type of \<open>required\<close> and \<open>readOnly\<close>.\<close>

datatype flag = FUndef | FBool bool | FExpr expression

record question_base =
  qb_id :: string
  qb_label :: string
  qb_hint :: "string option"
  qb_guidanceHint :: "string option"
  qb_visible :: "bool option"
  qb_visibleIf :: "expression option"
  qb_required :: flag
  qb_constraint :: "expression option"
  qb_message :: "string option"
  qb_readOnly :: flag
  qb_calculate :: "expression option"
  qb_bindTo :: "bind_to option"
  qb_layout :: "question_layout option"
  qb_meta :: "obj option"

subsection \<open>Question shapes\<close>

record text_question =
  tx_placeholder :: "string option"
  tx_maxLength :: "jsnum option"
  tx_pattern :: "string option"
  tx_obscured :: "bool option"

record multiline_question =
  ml_placeholder :: "string option"
  ml_maxLength :: "jsnum option"
  ml_rows :: "jsnum option"

record email_question =
  em_placeholder :: "string option"
  em_maxLength :: "jsnum option"

record url_question =
  ur_placeholder :: "string option"
  ur_maxLength :: "jsnum option"
  ur_allowedProtocols :: "string list option"

record phone_question =
  ph_placeholder :: "string option"
  ph_defaultCountry :: "string option"

record regex_question =
  rx_placeholder :: "string option"
  rx_pattern :: string
  rx_flags :: "string option"
  rx_maxLength :: "jsnum option"

record number_question =
  nm_min :: "jsnum option"
  nm_max :: "jsnum option"
  nm_step :: "jsnum option"
  nm_currency :: "string option"
  nm_thousandsSeparator :: "bool option"

record integer_question =
  in_min :: "jsnum option"
  in_max :: "jsnum option"

record boolean_question =
  bo_trueLabel :: "string option"
  bo_falseLabel :: "string option"

datatype select_appearance = Radio | Dropdown

record select_one_question =
  so_choices :: "choice list"
  so_appearance :: "select_appearance option"
  so_pickListId :: "string option"

record select_many_question =
  sm_choices :: "choice list"
  sm_minSelected :: "jsnum option"
  sm_maxSelected :: "jsnum option"
  sm_pickListId :: "string option"

record matrix_row =
  mr_id :: string
  mr_label :: string

record matrix_column =
  mc_value :: string
  mc_label :: string

record matrix_single_question =
  ms_rows :: "matrix_row list"
  ms_columns :: "matrix_column list"
  ms_rowsPickListId :: "string option"
  ms_perRowRequired :: "bool option"

record matrix_multi_question =
  mm_rows :: "matrix_row list"
  mm_columns :: "matrix_column list"
  mm_rowsPickListId :: "string option"
  mm_perRowMinSelected :: "jsnum option"
  mm_perRowMaxSelected :: "jsnum option"

record matrix_dropdown_column =
  dc_value :: string
  dc_label :: string
  dc_choices :: "choice list"

record matrix_dropdown_question =
  md_rows :: "matrix_row list"
  md_columns :: "matrix_dropdown_column list"
  md_rowsPickListId :: "string option"

datatype rating_shape = Star | Heart | Thumb

record matrix_rating_question =
  mt_rows :: "matrix_row list"
  mt_rowsPickListId :: "string option"
  mt_max :: "jsnum option"
  mt_shape :: "rating_shape option"
  mt_perRowRequired :: "bool option"

record ranking_question =
  rk_choices :: "choice list"
  rk_pickListId :: "string option"
  rk_minRanked :: "jsnum option"
  rk_maxRanked :: "jsnum option"

record date_question =
  da_min :: "string option"
  da_max :: "string option"

record time_question =
  ti_min :: "string option"
  ti_max :: "string option"

record datetime_question =
  dt_min :: "string option"
  dt_max :: "string option"

datatype name_component = NC_prefix | NC_first | NC_middle | NC_last | NC_suffix

record name_question =
  na_components :: "name_component list option"
  na_requiredComponents :: "name_component list option"

datatype address_component = AC_street1 | AC_street2 | AC_city | AC_region | AC_postal | AC_country

record address_question =
  ad_components :: "address_component list option"
  ad_requiredComponents :: "address_component list option"

record photo_question =
  po_maxCount :: "jsnum option"
  po_maxBytes :: "jsnum option"

record audio_question =
  au_maxCount :: "jsnum option"
  au_maxBytes :: "jsnum option"
  au_maxDurationSec :: "jsnum option"

record barcode_question =
  bc_formats :: "string list option"
  bc_allowManualEntry :: "bool option"

record sketch_question =
  sk_backgroundImageUrl :: "string option"
  sk_aspectRatio :: "jsnum option"
  sk_maxBytes :: "jsnum option"

record video_question =
  vi_maxCount :: "jsnum option"
  vi_maxBytes :: "jsnum option"
  vi_maxDurationSec :: "jsnum option"

record file_question =
  fi_maxCount :: "jsnum option"
  fi_maxBytes :: "jsnum option"
  fi_accept :: "string option"

record image_choice =
  ic_value :: string
  ic_label :: string
  ic_imageUrl :: string
  ic_alt :: "string option"

record image_choice_question =
  iq_choices :: "image_choice list"
  iq_multi :: "bool option"
  iq_minSelected :: "jsnum option"
  iq_maxSelected :: "jsnum option"

record image_display_question =
  id_imageUrl :: string
  id_alt :: "string option"
  id_caption :: "string option"

record image_hotspot_question =
  ih_imageUrl :: string
  ih_alt :: "string option"
  ih_maxPoints :: "jsnum option"

datatype geo_capture = GC_auto | GC_gps | GC_map | GC_manual

record geopoint_question =
  gp_capture :: "geo_capture option"

record pick_feature_question =
  pf_sourceItemId :: string
  pf_sourceLayerKey :: "string option"
  pf_snapshotFields :: "string list option"
  pf_withinBoundaryId :: "string option"

datatype route_profile = RP_driving | RP_walking | RP_cycling | RP_truck

record route_question =
  ro_profile :: "route_profile option"
  ro_minWaypoints :: "jsnum option"
  ro_maxWaypoints :: "jsnum option"

datatype buffer_input = BI_point | BI_line

record area_buffer_question =
  ab_inputKind :: "buffer_input option"
  ab_defaultDistanceMeters :: "jsnum option"
  ab_lockDistance :: "bool option"
  ab_maxDistanceMeters :: "jsnum option"

record rating_question =
  ra_max :: "jsnum option"
  ra_shape :: "rating_shape option"

record likert_question =
  li_points :: "jsnum option"
  li_leftLabel :: "string option"
  li_rightLabel :: "string option"
  li_centerLabel :: "string option"

record nps_question =
  np_caption :: "string option"

record slider_question =
  sl_min :: jsnum
  sl_max :: jsnum
  sl_step :: "jsnum option"
  sl_showValue :: "bool option"

datatype calc_format = CF_text | CF_number | CF_date

record calculated_question =
  ca_format :: "calc_format option"

datatype note_appearance = NA_plain | NA_markdown

record note_question =
  no_appearance :: "note_appearance option"

record divider_question =
  di_caption :: "string option"

record acknowledge_question =
  ak_body :: string
  ak_appearance :: "note_appearance option"
  ak_agreeLabel :: "string option"

record hidden_question =
  hi_defaultValue :: "jsval option"

record page_question =
  pg_title :: "string option"

record repeat_spec =
  rp_min :: "jsnum option"
  rp_max :: "jsnum option"
  rp_addLabel :: "string option"

datatype (plugins only: code size) question = Question (qbase: question_base) (qkind: kind)
  and kind =
    KText text_question
  | KMultiline multiline_question
  | KEmail email_question
  | KUrl url_question
  | KPhone phone_question
  | KRegex regex_question
  | KNumber number_question
  | KInteger integer_question
  | KBoolean boolean_question
  | KSelectOne select_one_question
  | KSelectMany select_many_question
  | KMatrixSingle matrix_single_question
  | KMatrixMulti matrix_multi_question
  | KMatrixDropdown matrix_dropdown_question
  | KMatrixRating matrix_rating_question
  | KRanking ranking_question
  | KDate date_question
  | KTime time_question
  | KDateTime datetime_question
  | KName name_question
  | KAddress address_question
  | KPhoto photo_question
  | KAudio audio_question
  | KVideo video_question
  | KBarcode barcode_question
  | KSketch sketch_question
  | KFile file_question
  | KImageChoice image_choice_question
  | KImageDisplay image_display_question
  | KImageHotspot image_hotspot_question
  | KSignature
  | KGeoPoint geopoint_question
  | KGeoTrace
  | KGeoShape
  | KPickFeature pick_feature_question
  | KRoute route_question
  | KAreaBuffer area_buffer_question
  | KRating rating_question
  | KLikert likert_question
  | KNps nps_question
  | KSlider slider_question
  | KCalculated calculated_question
  | KNote note_question
  | KDivider divider_question
  | KAcknowledge acknowledge_question
  | KHidden hidden_question
  | KPage page_question
  | KGroup "repeat_spec option" "question list"
  | KOther string "question list"

abbreviation qid :: "question \<Rightarrow> string" where
  "qid q \<equiv> qb_id (qbase q)"

subsection \<open>The form\<close>

record notify_config =
  nf_extraRecipients :: "string list option"
  nf_notifyOwner :: "bool option"

record response_view =
  rv_mapId :: "string option"
  rv_tools :: "string list option"
  rv_defaultLookbackDays :: "jsnum option"
  rv_hideSubmitter :: "bool option"

record form_schema =
  fs_schemaVersion :: jsnum
  fs_id :: string
  fs_title :: string
  fs_description :: "string option"
  fs_questions :: "question list"
  fs_geometryQuestionId :: "string option"
  fs_linkedLayerId :: "string option"
  fs_linkedLayerKey :: "string option"
  fs_notify :: "notify_config option"
  fs_responseView :: "response_view option"
  fs_meta :: "obj option"
  fs_requiredEngineVersion :: "jsnum option"

subsection \<open>Question types\<close>

datatype (plugins only: code size) qtype =
    T_text | T_multiline | T_email | T_url | T_phone | T_regex | T_number | T_integer | T_boolean
  | T_select_one | T_select_many | T_matrix_single | T_matrix_multi | T_matrix_dropdown
  | T_matrix_rating | T_ranking | T_date | T_time | T_datetime | T_name | T_address | T_photo
  | T_audio | T_video | T_barcode | T_sketch | T_file | T_image_choice | T_image_display
  | T_image_hotspot | T_signature | T_geopoint | T_geotrace | T_geoshape | T_pick_feature
  | T_route | T_area_buffer | T_rating | T_likert | T_nps | T_slider | T_calculated | T_note
  | T_divider | T_acknowledge | T_hidden | T_page | T_group

definition QUESTION_TYPES :: "qtype list" where
  "QUESTION_TYPES =
     [T_text, T_multiline, T_email, T_url, T_phone, T_regex, T_number, T_integer, T_boolean,
      T_select_one, T_select_many, T_matrix_single, T_matrix_multi, T_matrix_dropdown,
      T_matrix_rating, T_ranking, T_date, T_time, T_datetime, T_name, T_address, T_photo,
      T_audio, T_video, T_barcode, T_sketch, T_file, T_image_choice, T_image_display,
      T_image_hotspot, T_signature, T_geopoint, T_geotrace, T_geoshape, T_pick_feature,
      T_route, T_area_buffer, T_rating, T_likert, T_nps, T_slider, T_calculated, T_note,
      T_divider, T_acknowledge, T_hidden, T_page, T_group]"

text \<open>The \<open>type\<close> discriminant of a question, absent for a type this build does not know.\<close>

primrec type_of :: "kind \<Rightarrow> qtype option" where
  "type_of (KText _) = Some T_text"
| "type_of (KMultiline _) = Some T_multiline"
| "type_of (KEmail _) = Some T_email"
| "type_of (KUrl _) = Some T_url"
| "type_of (KPhone _) = Some T_phone"
| "type_of (KRegex _) = Some T_regex"
| "type_of (KNumber _) = Some T_number"
| "type_of (KInteger _) = Some T_integer"
| "type_of (KBoolean _) = Some T_boolean"
| "type_of (KSelectOne _) = Some T_select_one"
| "type_of (KSelectMany _) = Some T_select_many"
| "type_of (KMatrixSingle _) = Some T_matrix_single"
| "type_of (KMatrixMulti _) = Some T_matrix_multi"
| "type_of (KMatrixDropdown _) = Some T_matrix_dropdown"
| "type_of (KMatrixRating _) = Some T_matrix_rating"
| "type_of (KRanking _) = Some T_ranking"
| "type_of (KDate _) = Some T_date"
| "type_of (KTime _) = Some T_time"
| "type_of (KDateTime _) = Some T_datetime"
| "type_of (KName _) = Some T_name"
| "type_of (KAddress _) = Some T_address"
| "type_of (KPhoto _) = Some T_photo"
| "type_of (KAudio _) = Some T_audio"
| "type_of (KVideo _) = Some T_video"
| "type_of (KBarcode _) = Some T_barcode"
| "type_of (KSketch _) = Some T_sketch"
| "type_of (KFile _) = Some T_file"
| "type_of (KImageChoice _) = Some T_image_choice"
| "type_of (KImageDisplay _) = Some T_image_display"
| "type_of (KImageHotspot _) = Some T_image_hotspot"
| "type_of KSignature = Some T_signature"
| "type_of (KGeoPoint _) = Some T_geopoint"
| "type_of KGeoTrace = Some T_geotrace"
| "type_of KGeoShape = Some T_geoshape"
| "type_of (KPickFeature _) = Some T_pick_feature"
| "type_of (KRoute _) = Some T_route"
| "type_of (KAreaBuffer _) = Some T_area_buffer"
| "type_of (KRating _) = Some T_rating"
| "type_of (KLikert _) = Some T_likert"
| "type_of (KNps _) = Some T_nps"
| "type_of (KSlider _) = Some T_slider"
| "type_of (KCalculated _) = Some T_calculated"
| "type_of (KNote _) = Some T_note"
| "type_of (KDivider _) = Some T_divider"
| "type_of (KAcknowledge _) = Some T_acknowledge"
| "type_of (KHidden _) = Some T_hidden"
| "type_of (KPage _) = Some T_page"
| "type_of (KGroup _ _) = Some T_group"
| "type_of (KOther _ _) = None"

definition UNCAPTURABLE_QUESTION_TYPES :: "qtype list" where
  "UNCAPTURABLE_QUESTION_TYPES = [T_geotrace, T_geoshape, T_pick_feature, T_route, T_area_buffer]"

definition is_uncapturable :: "kind \<Rightarrow> bool" where
  "is_uncapturable k \<longleftrightarrow>
     (case type_of k of None \<Rightarrow> False | Some t \<Rightarrow> t \<in> set UNCAPTURABLE_QUESTION_TYPES)"

text \<open>Pages, notes, dividers and images hold no value; the walkers skip them.\<close>

definition is_display_only :: "kind \<Rightarrow> bool" where
  "is_display_only k \<longleftrightarrow>
     type_of k \<in> {Some T_page, Some T_note, Some T_divider, Some T_image_display}"

fun group_of :: "kind \<Rightarrow> (repeat_spec option \<times> question list) option" where
  "group_of (KGroup r cs) = Some (r, cs)"
| "group_of _ = None"

lemma qtype_listed: "t \<in> set QUESTION_TYPES"
  by (cases t) (simp_all add: QUESTION_TYPES_def)

lemma group_of_Some: "group_of k = Some (r, cs) \<longleftrightarrow> k = KGroup r cs"
  by (cases k) auto

lemma type_of_group: "type_of k = Some T_group \<longleftrightarrow> (\<exists>r cs. k = KGroup r cs)"
  by (cases k) auto

end
