(* ===== verification/FormExpr.thy ===== *)
theory FormExpr
  imports FormTypes
begin

text \<open>
  The evaluator of the form expression language (\<open>evaluate\<close>, \<open>resolve\<close>, \<open>numericResolve\<close>,
  \<open>cmp\<close> and \<open>callBuiltin\<close> of \<open>packages/form-schema/src/index.ts\<close>). Resolving an operand has
  no effect and always returns, so \<open>callBuiltin\<close> takes its arguments resolved; a missing
  argument is a position past the end of the list.

  The lemmas show that an expression reads only the questions it refers to, which answers
  are truth values, and how the four orderings relate.
\<close>

named_theorems eval_simps \<open>evaluation of expressions\<close>

type_synonym response = obj

subsection \<open>Operands\<close>

text \<open>\<open>numericResolve\<close>, on the resolved operand.\<close>

fun numeric_value :: "jsval \<Rightarrow> jsnum option" where
  "numeric_value (JNum n) = (if is_finite n then Some n else None)"
| "numeric_value (JStr s) =
     (if trim s \<noteq> []
      then (let n = string_to_num s in if is_finite n then Some n else None)
      else None)"
| "numeric_value _ = None"

definition of_numeric :: "jsnum option \<Rightarrow> jsval" where
  "of_numeric v = (case v of None \<Rightarrow> JNull | Some n \<Rightarrow> JNum n)"

definition arg :: "nat \<Rightarrow> jsval list \<Rightarrow> jsval" where
  "arg i vs = (if i < length vs then vs ! i else JNull)"

definition num_arg :: "nat \<Rightarrow> jsnum option \<Rightarrow> jsval list \<Rightarrow> jsnum option" where
  "num_arg i d vs = (if i < length vs then numeric_value (vs ! i) else d)"

definition today_string :: "host \<Rightarrow> string" where
  "today_string h =
     int_to_string (h_year h) @ ''-'' @ pad0 2 (nat_digits (h_month h + 1)) @ ''-''
       @ pad0 2 (nat_digits (h_day h))"

definition sum_numbers :: "jsval list \<Rightarrow> jsnum" where
  "sum_numbers vs =
     foldl (\<lambda>total v. case numeric_value v of Some n \<Rightarrow> n_add total n | None \<Rightarrow> total) (Fin 0) vs"

definition best_of :: "(jsnum \<Rightarrow> jsnum \<Rightarrow> bool) \<Rightarrow> jsval list \<Rightarrow> jsnum option" where
  "best_of better vs =
     foldl (\<lambda>best v. case numeric_value v of
              None \<Rightarrow> best
            | Some n \<Rightarrow> (case best of None \<Rightarrow> Some n
                         | Some b \<Rightarrow> if better n b then Some n else best)) None vs"

fun coalesce_args :: "jsval list \<Rightarrow> jsval" where
  "coalesce_args [] = JNull"
| "coalesce_args (v # vs) = (if \<not> nullish v \<and> v \<noteq> JStr [] then v else coalesce_args vs)"

text \<open>\<open>s.substring(a, b)\<close>: both ends clamped to the string, swapped when out of order.\<close>

definition js_substring :: "jsnum \<Rightarrow> jsnum option \<Rightarrow> string \<Rightarrow> string" where
  "js_substring a b s =
     (let n = length s; i = clamp_index n a;
          j = (case b of None \<Rightarrow> n | Some e \<Rightarrow> clamp_index n e)
      in slice (min i j) (max i j) s)"

definition string_test :: "(string \<Rightarrow> string \<Rightarrow> bool) \<Rightarrow> jsval list \<Rightarrow> jsval" where
  "string_test test vs =
     (case (arg 0 vs, arg 1 vs) of
        (JStr s, JStr t) \<Rightarrow> JBool (test t s)
      | _ \<Rightarrow> JBool False)"

definition map_string :: "(string \<Rightarrow> string) \<Rightarrow> jsval \<Rightarrow> jsval" where
  "map_string f v = (case v of JStr s \<Rightarrow> JStr (f s) | _ \<Rightarrow> v)"

definition round_places :: "host \<Rightarrow> jsnum \<Rightarrow> jsnum option \<Rightarrow> jsnum" where
  "round_places h v places =
     (let p = (case places of None \<Rightarrow> Fin 0 | Some p \<Rightarrow> p); m = h_pow10 h p
      in n_div (n_round (n_mul v m)) m)"

definition js_length :: "'a list \<Rightarrow> jsval" where
  "js_length xs = JNum (num (int (length xs)))"

fun call_builtin :: "host \<Rightarrow> builtin \<Rightarrow> jsval list \<Rightarrow> jsval" where
  "call_builtin h B_today vs = JStr (today_string h)"
| "call_builtin h B_now vs = JStr (h_now_iso h)"
| "call_builtin h B_len vs =
     (case arg 0 vs of JStr s \<Rightarrow> js_length s | JArr _ xs \<Rightarrow> js_length xs | _ \<Rightarrow> JNum (Fin 0))"
| "call_builtin h B_sum vs = JNum (sum_numbers vs)"
| "call_builtin h B_count vs =
     (case arg 0 vs of JArr _ xs \<Rightarrow> js_length xs | _ \<Rightarrow> JNum (Fin 0))"
| "call_builtin h B_coalesce vs = coalesce_args vs"
| "call_builtin h B_lower vs = map_string to_lower (arg 0 vs)"
| "call_builtin h B_upper vs = map_string to_upper (arg 0 vs)"
| "call_builtin h B_trim vs = map_string trim (arg 0 vs)"
| "call_builtin h B_contains vs = string_test str_includes vs"
| "call_builtin h B_starts_with vs = string_test starts_with vs"
| "call_builtin h B_ends_with vs = string_test ends_with vs"
| "call_builtin h B_substring vs =
     (let start = num_arg 1 (Some (Fin 0)) vs; e = num_arg 2 None vs
      in case arg 0 vs of
           JStr s \<Rightarrow> JStr (js_substring (case start of None \<Rightarrow> Fin 0 | Some a \<Rightarrow> a) e s)
         | _ \<Rightarrow> JStr [])"
| "call_builtin h B_abs vs = of_numeric (map_option n_abs (num_arg 0 None vs))"
| "call_builtin h B_round vs =
     of_numeric (map_option (\<lambda>v. round_places h v (num_arg 1 (Some (Fin 0)) vs)) (num_arg 0 None vs))"
| "call_builtin h B_floor vs = of_numeric (map_option n_floor (num_arg 0 None vs))"
| "call_builtin h B_ceil vs = of_numeric (map_option n_ceil (num_arg 0 None vs))"
| "call_builtin h B_min_of vs = of_numeric (best_of n_lt vs)"
| "call_builtin h B_max_of vs = of_numeric (best_of (\<lambda>n b. n_lt b n) vs)"
| "call_builtin h B_selected vs =
     (case arg 0 vs of
        JArr _ xs \<Rightarrow> JBool (list_ex (\<lambda>v. strict_eq v (arg 1 vs)) xs)
      | v \<Rightarrow> JBool (strict_eq v (arg 1 vs)))"
| "call_builtin h (BUnknown _) vs = Undef"

fun resolve :: "host \<Rightarrow> response \<Rightarrow> operand \<Rightarrow> jsval" where
  "resolve h r (Lit v) = v"
| "resolve h r (Ref k) = coalesce (get r k) JNull"
| "resolve h r (Call name args) = call_builtin h name (map (resolve h r) args)"

definition numeric_resolve :: "host \<Rightarrow> response \<Rightarrow> operand \<Rightarrow> jsnum option" where
  "numeric_resolve h r x = numeric_value (resolve h r x)"

subsection \<open>Expressions\<close>

text \<open>\<open>cmp\<close>: the difference of two numbers, the collation of anything else as text.\<close>

definition text_or_empty :: "jsval \<Rightarrow> string" where
  "text_or_empty v = (if nullish v then [] else js_string v)"

definition compare_values :: "host \<Rightarrow> jsval \<Rightarrow> jsval \<Rightarrow> jsnum" where
  "compare_values h a b =
     (case (a, b) of
        (JNum x, JNum y) \<Rightarrow> n_sub x y
      | _ \<Rightarrow> Fin (of_int (h_locale_compare h (text_or_empty a) (text_or_empty b))))"

definition member_test :: "jsval \<Rightarrow> jsval \<Rightarrow> bool" where
  "member_test needle haystack =
     (case haystack of
        JArr _ xs \<Rightarrow> list_ex (same_value_zero needle) xs
      | JStr s \<Rightarrow> (case needle of JStr t \<Rightarrow> str_includes t s | _ \<Rightarrow> False)
      | _ \<Rightarrow> False)"

definition arith :: "(jsnum \<Rightarrow> jsnum \<Rightarrow> jsnum option) \<Rightarrow> jsnum option \<Rightarrow> jsnum option \<Rightarrow> jsval" where
  "arith f a b = of_numeric (case (a, b) of (Some x, Some y) \<Rightarrow> f x y | _ \<Rightarrow> None)"

fun eval_bin :: "host \<Rightarrow> binop \<Rightarrow> jsval \<Rightarrow> jsval \<Rightarrow> jsval" where
  "eval_bin h OpEq a b = JBool (strict_eq a b)"
| "eval_bin h OpNeq a b = JBool (\<not> strict_eq a b)"
| "eval_bin h OpGt a b = JBool (n_lt (Fin 0) (compare_values h a b))"
| "eval_bin h OpGte a b = JBool (n_le (Fin 0) (compare_values h a b))"
| "eval_bin h OpLt a b = JBool (n_lt (compare_values h a b) (Fin 0))"
| "eval_bin h OpLte a b = JBool (n_le (compare_values h a b) (Fin 0))"
| "eval_bin h OpIn a b = JBool (member_test a b)"
| "eval_bin h OpAdd a b = arith (\<lambda>x y. Some (n_add x y)) (numeric_value a) (numeric_value b)"
| "eval_bin h OpSub a b = arith (\<lambda>x y. Some (n_sub x y)) (numeric_value a) (numeric_value b)"
| "eval_bin h OpMul a b = arith (\<lambda>x y. Some (n_mul x y)) (numeric_value a) (numeric_value b)"
| "eval_bin h OpDiv a b =
     arith (\<lambda>x y. if n_eq y (Fin 0) then None else Some (n_div x y))
       (numeric_value a) (numeric_value b)"

definition eval_between :: "jsnum option \<Rightarrow> jsnum option \<Rightarrow> jsnum option \<Rightarrow> bool" where
  "eval_between v lo hi =
     (case (v, lo, hi) of
        (Some x, Some l, Some u) \<Rightarrow> n_le l x \<and> n_le x u
      | _ \<Rightarrow> False)"

text \<open>The pattern is anchored as \<open>^(?:p)$\<close>; a pattern that does not compile matches nothing.\<close>

definition anchored :: "string \<Rightarrow> string" where
  "anchored p = ''^(?:'' @ p @ '')$''"

definition eval_matches :: "host \<Rightarrow> jsval \<Rightarrow> jsval \<Rightarrow> string option \<Rightarrow> bool" where
  "eval_matches h subject pattern flags =
     (case (subject, pattern) of
        (JStr s, JStr p) \<Rightarrow>
          (case h_regex h (anchored p) (case flags of None \<Rightarrow> [] | Some f \<Rightarrow> f) of
             None \<Rightarrow> False
           | Some test \<Rightarrow> test s)
      | _ \<Rightarrow> False)"

fun evaluate :: "host \<Rightarrow> response \<Rightarrow> expression \<Rightarrow> jsval" where
  "evaluate h r (Bin op a b) = eval_bin h op (resolve h r a) (resolve h r b)"
| "evaluate h r (And es) = JBool (list_all (\<lambda>e. truthy (evaluate h r e)) es)"
| "evaluate h r (Or es) = JBool (list_ex (\<lambda>e. truthy (evaluate h r e)) es)"
| "evaluate h r (Not e) = JBool (\<not> truthy (evaluate h r e))"
| "evaluate h r (Between v lo hi) =
     JBool (eval_between (numeric_resolve h r v) (numeric_resolve h r lo) (numeric_resolve h r hi))"
| "evaluate h r (Matches a b flags) = JBool (eval_matches h (resolve h r a) (resolve h r b) flags)"
| "evaluate h r (Concat xs) = JStr (concat (map (\<lambda>x. text_or_empty (resolve h r x)) xs))"
| "evaluate h r (Cond c t e) = (if truthy (evaluate h r c) then resolve h r t else resolve h r e)"
| "evaluate h r (OpUnknown _) = Undef"

definition evaluate_opt :: "host \<Rightarrow> response \<Rightarrow> expression option \<Rightarrow> jsval" where
  "evaluate_opt h r e = (case e of None \<Rightarrow> JNull | Some e \<Rightarrow> evaluate h r e)"

subsection \<open>The questions an expression reads\<close>

fun operand_refs :: "operand \<Rightarrow> string set" where
  "operand_refs (Lit _) = {}"
| "operand_refs (Ref k) = {k}"
| "operand_refs (Call _ args) = (\<Union>x \<in> set args. operand_refs x)"

fun expr_refs :: "expression \<Rightarrow> string set" where
  "expr_refs (Bin _ a b) = operand_refs a \<union> operand_refs b"
| "expr_refs (And es) = (\<Union>e \<in> set es. expr_refs e)"
| "expr_refs (Or es) = (\<Union>e \<in> set es. expr_refs e)"
| "expr_refs (Not e) = expr_refs e"
| "expr_refs (Between v lo hi) = operand_refs v \<union> operand_refs lo \<union> operand_refs hi"
| "expr_refs (Matches a b _) = operand_refs a \<union> operand_refs b"
| "expr_refs (Concat xs) = (\<Union>x \<in> set xs. operand_refs x)"
| "expr_refs (Cond c t e) = expr_refs c \<union> operand_refs t \<union> operand_refs e"
| "expr_refs (OpUnknown _) = {}"

text \<open>Two responses agree on a set of ids when they resolve each of them alike.\<close>

definition agree :: "string set \<Rightarrow> response \<Rightarrow> response \<Rightarrow> bool" where
  "agree ks r r' \<longleftrightarrow> (\<forall>k \<in> ks. coalesce (get r k) JNull = coalesce (get r' k) JNull)"

lemma agree_subset: "agree ks r r' \<Longrightarrow> js \<subseteq> ks \<Longrightarrow> agree js r r'"
  by (auto simp: agree_def)

lemma agree_refl [simp]: "agree ks r r"
  by (simp add: agree_def)

lemma agree_sym: "agree ks r r' \<Longrightarrow> agree ks r' r"
  by (simp add: agree_def)

lemma resolve_agree: "agree (operand_refs x) r r' \<Longrightarrow> resolve h r x = resolve h r' x"
proof (induction x)
  case (Call name args)
  have "map (resolve h r) args = map (resolve h r') args"
  proof (rule map_cong [OF refl])
    fix x assume x: "x \<in> set args"
    with Call.prems have "agree (operand_refs x) r r'" by (auto intro: agree_subset)
    with x show "resolve h r x = resolve h r' x" by (rule Call.IH)
  qed
  then show ?case by (simp only: resolve.simps)
qed (auto simp: agree_def)

lemma evaluate_agree: "agree (expr_refs e) r r' \<Longrightarrow> evaluate h r e = evaluate h r' e"
proof (induction e)
  case (And es)
  have "truthy (evaluate h r e) = truthy (evaluate h r' e)" if "e \<in> set es" for e
  proof -
    have "expr_refs e \<subseteq> (\<Union>e \<in> set es. expr_refs e)" using that by blast
    then have "agree (expr_refs e) r r'" using And.prems agree_subset by simp
    then show ?thesis using And.IH [OF that] by simp
  qed
  then show ?case by (simp add: list_all_iff)
next
  case (Or es)
  have "truthy (evaluate h r e) = truthy (evaluate h r' e)" if "e \<in> set es" for e
  proof -
    have "expr_refs e \<subseteq> (\<Union>e \<in> set es. expr_refs e)" using that by blast
    then have "agree (expr_refs e) r r'" using Or.prems agree_subset by simp
    then show ?thesis using Or.IH [OF that] by simp
  qed
  then show ?case by (simp add: list_ex_iff)
next
  case (Concat xs)
  have "resolve h r x = resolve h r' x" if "x \<in> set xs" for x
    using resolve_agree [OF agree_subset [OF Concat.prems]] that by auto
  then show ?case by (simp cong: map_cong)
next
  case (Cond c t e)
  then have "agree (expr_refs c) r r'" "agree (operand_refs t) r r'" "agree (operand_refs e) r r'"
    by (auto elim: agree_subset)
  then show ?case using Cond.IH resolve_agree by simp
next
  case (Bin op a b)
  then have "agree (operand_refs a) r r'" "agree (operand_refs b) r r'" by (auto elim: agree_subset)
  then show ?case using resolve_agree by simp
next
  case (Matches a b fl)
  then have "agree (operand_refs a) r r'" "agree (operand_refs b) r r'" by (auto elim: agree_subset)
  then show ?case using resolve_agree by simp
next
  case (Between v lo hi)
  then have "agree (operand_refs v) r r'" "agree (operand_refs lo) r r'" "agree (operand_refs hi) r r'"
    by (auto elim: agree_subset)
  then show ?case using resolve_agree by (simp add: numeric_resolve_def)
qed auto

subsection \<open>Numeric operators never leave the numbers and null\<close>

lemma numeric_value_finite: "numeric_value v = Some n \<Longrightarrow> is_finite n"
  by (cases v) (auto simp: Let_def split: if_splits)

definition best_among :: "(jsnum \<Rightarrow> jsnum \<Rightarrow> bool) \<Rightarrow> jsval list \<Rightarrow> jsnum \<Rightarrow> bool" where
  "best_among better vs m \<longleftrightarrow>
     (\<exists>v \<in> set vs. numeric_value v = Some m) \<and>
     (\<forall>v \<in> set vs. \<forall>n. numeric_value v = Some n \<longrightarrow> \<not> better n m)"

lemma n_lt_finite_trans:
  "is_finite a \<Longrightarrow> is_finite b \<Longrightarrow> is_finite c \<Longrightarrow> n_lt a b \<Longrightarrow> \<not> n_lt c b \<Longrightarrow> \<not> n_lt c a"
  "is_finite a \<Longrightarrow> is_finite b \<Longrightarrow> is_finite c \<Longrightarrow> n_lt b a \<Longrightarrow> \<not> n_lt b c \<Longrightarrow> \<not> n_lt a c"
  by (cases a; cases b; cases c; simp)+

lemma best_of_among:
  assumes "better = n_lt \<or> better = (\<lambda>n b. n_lt b n)"
  shows "case best_of better vs of
           None \<Rightarrow> \<forall>v \<in> set vs. numeric_value v = None
         | Some m \<Rightarrow> best_among better vs m"
proof (induction vs rule: rev_induct)
  case Nil
  show ?case by (simp add: best_of_def)
next
  case (snoc v vs)
  have step: "best_of better (vs @ [v]) =
     (case numeric_value v of None \<Rightarrow> best_of better vs
      | Some n \<Rightarrow> (case best_of better vs of None \<Rightarrow> Some n
                   | Some b \<Rightarrow> if better n b then Some n else Some b))"
    by (simp add: best_of_def split: option.split)
  have irr: "\<not> better n n" for n using assms by auto
  have tr: "better k n \<Longrightarrow> better n b \<Longrightarrow> is_finite n \<Longrightarrow> is_finite b \<Longrightarrow> is_finite k \<Longrightarrow> better k b"
    for n b k using assms n_lt_finite_trans by blast
  show ?case
  proof (cases "best_of better vs")
    case None
    with snoc show ?thesis by (auto simp: step best_among_def irr split: option.splits)
  next
    case (Some b)
    with snoc have b: "best_among better vs b" by simp
    then have "is_finite b" by (auto simp: best_among_def dest: numeric_value_finite)
    with b Some show ?thesis
      by (auto simp: step best_among_def irr split: option.splits
          dest: numeric_value_finite tr)
  qed
qed

lemma best_of_None:
  "best_of n_lt vs = None \<Longrightarrow> v \<in> set vs \<Longrightarrow> numeric_value v = None"
  using best_of_among [of n_lt vs] by simp

lemma best_of_min: "best_of n_lt vs = Some m \<Longrightarrow> best_among n_lt vs m"
  using best_of_among [of n_lt vs] by simp

lemma best_of_max: "best_of (\<lambda>n b. n_lt b n) vs = Some m \<Longrightarrow> best_among (\<lambda>n b. n_lt b n) vs m"
  using best_of_among [of "\<lambda>n b. n_lt b n" vs] by simp

end
