(* ===== verification/FormValidate.thy ===== *)
theory FormValidate
  imports FormExpr
begin

text \<open>
  The validator of \<open>packages/form-schema/src/index.ts\<close>: visibility, requiredness, emptiness,
  the checks of each question type and the walk over the form with its repeat groups.
  An error message is \<open>Some\<close> of its text. The one exception the code lets escape, a pattern
  of a text question that does not compile, is the \<open>Inl\<close> of the result.
\<close>

datatype js_error = SyntaxError | TypeError | RangeError

type_synonym 'a result = "js_error + 'a"

named_theorems check_simps \<open>the checks of the question types\<close>

subsection \<open>Visibility, requiredness, emptiness\<close>

definition is_visible :: "host \<Rightarrow> question_base \<Rightarrow> response \<Rightarrow> bool" where
  "is_visible h b r =
     (if qb_visible b = Some False then False
      else case qb_visibleIf b of None \<Rightarrow> True | Some e \<Rightarrow> truthy (evaluate h r e))"

definition flag_value :: "host \<Rightarrow> flag \<Rightarrow> response \<Rightarrow> bool" where
  "flag_value h f r = (case f of FUndef \<Rightarrow> False | FBool v \<Rightarrow> v | FExpr e \<Rightarrow> truthy (evaluate h r e))"

definition is_required :: "host \<Rightarrow> question_base \<Rightarrow> response \<Rightarrow> bool" where
  "is_required h b r = flag_value h (qb_required b) r"

fun is_empty :: "jsval \<Rightarrow> bool" where
  "is_empty Undef = True"
| "is_empty JNull = True"
| "is_empty (JStr s) = (trim s = [])"
| "is_empty (JArr _ vs) = (vs = [])"
| "is_empty (JObj _ m) = (\<forall>p \<in> set m. is_empty (snd p))"
| "is_empty (JBool _) = False"
| "is_empty (JNum _) = False"

primrec label_for_name_component :: "name_component \<Rightarrow> string" where
  "label_for_name_component NC_prefix = ''Prefix''"
| "label_for_name_component NC_first = ''First name''"
| "label_for_name_component NC_middle = ''Middle name''"
| "label_for_name_component NC_last = ''Last name''"
| "label_for_name_component NC_suffix = ''Suffix''"

primrec name_component_key :: "name_component \<Rightarrow> string" where
  "name_component_key NC_prefix = ''prefix''"
| "name_component_key NC_first = ''first''"
| "name_component_key NC_middle = ''middle''"
| "name_component_key NC_last = ''last''"
| "name_component_key NC_suffix = ''suffix''"

primrec label_for_address_component :: "address_component \<Rightarrow> string" where
  "label_for_address_component AC_street1 = ''Street address''"
| "label_for_address_component AC_street2 = ''Apt / suite''"
| "label_for_address_component AC_city = ''City''"
| "label_for_address_component AC_region = ''State / region''"
| "label_for_address_component AC_postal = ''Postal code''"
| "label_for_address_component AC_country = ''Country''"

primrec address_component_key :: "address_component \<Rightarrow> string" where
  "address_component_key AC_street1 = ''street1''"
| "address_component_key AC_street2 = ''street2''"
| "address_component_key AC_city = ''city''"
| "address_component_key AC_region = ''region''"
| "address_component_key AC_postal = ''postal''"
| "address_component_key AC_country = ''country''"

subsection \<open>Shared pieces of the type checks\<close>

definition len :: "'a list \<Rightarrow> jsnum" where
  "len xs = num (int (length xs))"

definition below :: "jsnum \<Rightarrow> jsnum option \<Rightarrow> bool" where
  "below n lo = (case lo of None \<Rightarrow> False | Some m \<Rightarrow> n_lt n m)"

definition above :: "jsnum \<Rightarrow> jsnum option \<Rightarrow> bool" where
  "above n hi = (case hi of None \<Rightarrow> False | Some m \<Rightarrow> n_lt m n)"

definition show_num :: "jsnum option \<Rightarrow> string" where
  "show_num n = (case n of None \<Rightarrow> ''undefined'' | Some m \<Rightarrow> num_to_string m)"

text \<open>\<open>q.maxLength && value.length > q.maxLength\<close>: a cap of zero is no cap.\<close>

definition too_long :: "jsnum option \<Rightarrow> string \<Rightarrow> bool" where
  "too_long cap s =
     (case cap of None \<Rightarrow> False | Some m \<Rightarrow> n_truthy m \<and> n_lt m (len s))"

definition max_length_error :: "jsnum option \<Rightarrow> string" where
  "max_length_error cap = ''Must be '' @ show_num cap @ '' characters or fewer.''"

text \<open>A missing cell of a matrix: \<open>undefined\<close>, \<open>null\<close> or the empty string.\<close>

definition blank_cell :: "jsval \<Rightarrow> bool" where
  "blank_cell v \<longleftrightarrow> nullish v \<or> v = JStr []"

definition is_one_of :: "string list \<Rightarrow> jsval \<Rightarrow> bool" where
  "is_one_of vs v = (case v of JStr s \<Rightarrow> s \<in> set vs | _ \<Rightarrow> False)"

text \<open>The first error over a list, as the code's loop with an early return finds it.\<close>

fun first_error :: "('a \<Rightarrow> string option) \<Rightarrow> 'a list \<Rightarrow> string option" where
  "first_error f [] = None"
| "first_error f (x # xs) = (case f x of Some e \<Rightarrow> Some e | None \<Rightarrow> first_error f xs)"

text \<open>Run a check, then the next if it found nothing.\<close>

definition or_else :: "string option \<Rightarrow> string option \<Rightarrow> string option" where
  "or_else a b = (case a of Some e \<Rightarrow> Some e | None \<Rightarrow> b)"

lemma first_error_None [check_simps]: "first_error f xs = None \<longleftrightarrow> (\<forall>x \<in> set xs. f x = None)"
  by (induction xs) (auto split: option.split)

lemma or_else_None [check_simps]: "or_else a b = None \<longleftrightarrow> a = None \<and> b = None"
  by (simp add: or_else_def split: option.split)

subsection \<open>Text, email, URL, phone, pattern\<close>

definition check_text :: "host \<Rightarrow> jsnum option \<Rightarrow> string option \<Rightarrow> jsval \<Rightarrow> string option result" where
  "check_text h cap pattern v =
     (case v of
        JStr s \<Rightarrow>
          if too_long cap s then Inr (Some (max_length_error cap))
          else (case pattern of
                  None \<Rightarrow> Inr None
                | Some p \<Rightarrow>
                    if p = [] then Inr None
                    else (case h_regex h (anchored p) [] of
                            None \<Rightarrow> Inl SyntaxError
                          | Some test \<Rightarrow>
                              Inr (if test s then None
                                   else Some ''Does not match the required format.'')))
      | _ \<Rightarrow> Inr (Some ''Expected text.''))"

definition email_shape :: "string \<Rightarrow> bool" where
  "email_shape s \<longleftrightarrow>
     (\<not> list_ex is_space s \<and>
      (case index_of CHR ''@'' s of
         None \<Rightarrow> False
       | Some i \<Rightarrow>
           \<not> i < 1 \<and> Some i = last_index_of CHR ''@'' s \<and> i \<noteq> length s - 1 \<and>
           (let domain = drop (i + 1) s
            in str_includes ''.'' domain \<and> \<not> starts_with ''.'' domain \<and> \<not> ends_with ''.'' domain)))"

definition check_email :: "jsnum option \<Rightarrow> jsval \<Rightarrow> string option" where
  "check_email cap v =
     (case v of
        JStr s \<Rightarrow>
          if too_long cap s then Some (max_length_error cap)
          else if email_shape s then None else Some ''Enter a valid email address.''
      | _ \<Rightarrow> Some ''Expected text.'')"

definition strip_colon :: "string \<Rightarrow> string" where
  "strip_colon p = (if ends_with '':'' p then butlast p else p)"

definition check_url :: "host \<Rightarrow> url_question \<Rightarrow> jsval \<Rightarrow> string option" where
  "check_url h q v =
     (case v of
        JStr s \<Rightarrow>
          if too_long (ur_maxLength q) s then Some (max_length_error (ur_maxLength q))
          else (case h_url_protocol h s of
                  None \<Rightarrow> Some ''Enter a valid URL.''
                | Some protocol \<Rightarrow>
                    (case ur_allowedProtocols q of
                       None \<Rightarrow> None
                     | Some ps \<Rightarrow>
                         if ps \<noteq> [] \<and> strip_colon protocol \<notin> set ps
                         then Some (''URL must use '' @ join '' or '' ps @ ''.'') else None))
      | _ \<Rightarrow> Some ''Expected text.'')"

definition phone_shape :: "string \<Rightarrow> bool" where
  "phone_shape s =
     (let cleaned = filter (\<lambda>c. \<not> is_space c \<and> c \<notin> set ''().-'') s;
          ds = (if starts_with ''+'' cleaned then tl cleaned else cleaned)
      in list_all is_digit_char ds \<and> 7 \<le> length ds \<and> length ds \<le> 16)"

definition check_phone :: "jsval \<Rightarrow> string option" where
  "check_phone v =
     (case v of
        JStr s \<Rightarrow> if phone_shape s then None else Some ''Enter a valid phone number.''
      | _ \<Rightarrow> Some ''Expected text.'')"

definition check_regex :: "host \<Rightarrow> string option \<Rightarrow> regex_question \<Rightarrow> jsval \<Rightarrow> string option" where
  "check_regex h message q v =
     (case v of
        JStr s \<Rightarrow>
          if too_long (rx_maxLength q) s then Some (max_length_error (rx_maxLength q))
          else (case h_regex h (anchored (rx_pattern q)) (case rx_flags q of None \<Rightarrow> [] | Some f \<Rightarrow> f) of
                  None \<Rightarrow> None
                | Some test \<Rightarrow>
                    if test s then None
                    else Some (case message of Some m \<Rightarrow> m
                               | None \<Rightarrow> ''Does not match the required format.''))
      | _ \<Rightarrow> Some ''Expected text.'')"

subsection \<open>Numbers, choices\<close>

definition check_number :: "bool \<Rightarrow> jsnum option \<Rightarrow> jsnum option \<Rightarrow> jsval \<Rightarrow> string option" where
  "check_number whole lo hi v =
     (let n = js_number v
      in if \<not> is_finite n then Some ''Expected a number.''
         else if whole \<and> \<not> is_integer n then Some ''Expected a whole number.''
         else if below n lo then Some (''Must be at least '' @ show_num lo @ ''.'')
         else if above n hi then Some (''Must be at most '' @ show_num hi @ ''.'')
         else None)"

definition check_count :: "jsnum option \<Rightarrow> jsnum option \<Rightarrow> 'a list \<Rightarrow> string option" where
  "check_count lo hi vs =
     (if below (len vs) lo then Some (''Pick at least '' @ show_num lo @ ''.'')
      else if above (len vs) hi then Some (''Pick at most '' @ show_num hi @ ''.'')
      else None)"

definition check_select_many :: "select_many_question \<Rightarrow> jsval \<Rightarrow> string option" where
  "check_select_many q v =
     (case v of
        JArr _ vs \<Rightarrow> check_count (sm_minSelected q) (sm_maxSelected q) vs
      | _ \<Rightarrow> Some ''Pick from the options.'')"

definition row_error :: "matrix_row \<Rightarrow> string \<Rightarrow> string" where
  "row_error row what = ''Row \"'' @ mr_label row @ ''\"'' @ what"

definition rows_required :: "bool option \<Rightarrow> matrix_row list \<Rightarrow> obj \<Rightarrow> string option" where
  "rows_required req rows m =
     (if req = Some True
      then first_error (\<lambda>row. if blank_cell (get m (mr_id row))
                              then Some (row_error row '' is required.'') else None) rows
      else None)"

definition check_matrix_single :: "matrix_single_question \<Rightarrow> jsval \<Rightarrow> string option" where
  "check_matrix_single q v =
     (case v of
        JObj _ m \<Rightarrow>
          or_else
            (first_error (\<lambda>row.
               let c = get m (mr_id row)
               in if blank_cell c then None
                  else if \<not> is_one_of (map mc_value (ms_columns q)) c
                  then Some (row_error row '' has an unrecognized value.'') else None) (ms_rows q))
            (rows_required (ms_perRowRequired q) (ms_rows q) m)
      | _ \<Rightarrow> Some ''Expected one choice per row.'')"

definition check_matrix_multi :: "matrix_multi_question \<Rightarrow> jsval \<Rightarrow> string option" where
  "check_matrix_multi q v =
     (case v of
        JObj _ m \<Rightarrow>
          first_error (\<lambda>row.
            let c = get m (mr_id row)
            in if nullish c then None
               else case c of
                      JArr _ xs \<Rightarrow>
                        if list_ex (\<lambda>x. \<not> is_one_of (map mc_value (mm_columns q)) x) xs
                        then Some (row_error row '' has an unrecognized value.'')
                        else if below (len xs) (mm_perRowMinSelected q)
                        then Some (row_error row ('': pick at least '' @ show_num (mm_perRowMinSelected q) @ ''.''))
                        else if above (len xs) (mm_perRowMaxSelected q)
                        then Some (row_error row ('': pick at most '' @ show_num (mm_perRowMaxSelected q) @ ''.''))
                        else None
                    | _ \<Rightarrow> Some (row_error row '' has an unexpected value.'')) (mm_rows q)
      | _ \<Rightarrow> Some ''Expected selections per row.'')"

text \<open>\<open>new Map(columns.map(c => [c.value, c]))\<close>: a later column with the same value wins.\<close>

definition find_column :: "string \<Rightarrow> matrix_dropdown_column list \<Rightarrow> matrix_dropdown_column option" where
  "find_column k cols = find (\<lambda>c. dc_value c = k) (rev cols)"

definition check_dropdown_cell ::
  "matrix_dropdown_question \<Rightarrow> matrix_row \<Rightarrow> string \<times> jsval \<Rightarrow> string option" where
  "check_dropdown_cell q row cell =
     (case cell of (k, v) \<Rightarrow>
        if blank_cell v then None
        else case find_column k (md_columns q) of
               None \<Rightarrow> Some (row_error row ('': unknown column \"'' @ k @ ''\".''))
             | Some col \<Rightarrow>
                 if is_one_of (map ch_value (dc_choices col)) v then None
                 else Some (row_error row ('', column \"'' @ dc_label col @ ''\" has an unrecognized choice.'')))"

definition check_matrix_dropdown :: "matrix_dropdown_question \<Rightarrow> jsval \<Rightarrow> string option" where
  "check_matrix_dropdown q v =
     (case v of
        JObj _ m \<Rightarrow>
          first_error (\<lambda>row.
            let cells = get m (mr_id row)
            in if nullish cells then None
               else case cells of
                      JObj _ cs \<Rightarrow> first_error (check_dropdown_cell q row) cs
                    | _ \<Rightarrow> Some (row_error row '' has an unexpected value.'')) (md_rows q)
      | _ \<Rightarrow> Some ''Expected selections per row.'')"

definition integer_between :: "jsnum \<Rightarrow> jsnum \<Rightarrow> jsval \<Rightarrow> bool" where
  "integer_between lo hi v =
     (case v of JNum n \<Rightarrow> is_integer n \<and> \<not> n_lt n lo \<and> \<not> n_lt hi n | _ \<Rightarrow> False)"

definition default_to :: "jsnum \<Rightarrow> jsnum option \<Rightarrow> jsnum" where
  "default_to d n = (case n of None \<Rightarrow> d | Some m \<Rightarrow> m)"

definition check_matrix_rating :: "matrix_rating_question \<Rightarrow> jsval \<Rightarrow> string option" where
  "check_matrix_rating q v =
     (case v of
        JObj _ m \<Rightarrow>
          or_else
            (first_error (\<lambda>row.
               let c = get m (mr_id row)
               in if blank_cell c then None
                  else if integer_between (Fin 1) (default_to (Fin 5) (mt_max q)) c then None
                  else Some (row_error row '' has an unexpected rating.'')) (mt_rows q))
            (rows_required (mt_perRowRequired q) (mt_rows q) m)
      | _ \<Rightarrow> Some ''Expected a rating per row.'')"

fun ranking_values :: "string list \<Rightarrow> string list \<Rightarrow> jsval list \<Rightarrow> string option" where
  "ranking_values valid seen [] = None"
| "ranking_values valid seen (v # vs) =
     (case v of
        JStr s \<Rightarrow>
          if s \<notin> set valid then Some ''List contains an unrecognized choice.''
          else if s \<in> set seen then Some ''List contains a duplicate choice.''
          else ranking_values valid (s # seen) vs
      | _ \<Rightarrow> Some ''List contains an unrecognized choice.'')"

definition check_ranking :: "ranking_question \<Rightarrow> jsval \<Rightarrow> string option" where
  "check_ranking q v =
     (case v of
        JArr _ vs \<Rightarrow>
          or_else (ranking_values (map ch_value (rk_choices q)) [] vs)
            (let lo = default_to (Fin 0) (rk_minRanked q);
                 hi = default_to (len (rk_choices q)) (rk_maxRanked q)
             in if n_lt (len vs) lo then Some (''Rank at least '' @ num_to_string lo @ ''.'')
                else if n_lt hi (len vs) then Some (''Rank at most '' @ num_to_string hi @ ''.'')
                else None)
      | _ \<Rightarrow> Some ''Expected an ordered list.'')"

subsection \<open>Names, addresses, attachments\<close>

definition missing_component :: "obj \<Rightarrow> string \<Rightarrow> bool" where
  "missing_component m k = (case get m k of JStr s \<Rightarrow> trim s = [] | _ \<Rightarrow> True)"

text \<open>\<open>q.required ? \<dots> : \<dots>\<close>: an expression is an object, so it counts as required here.\<close>

definition flag_truthy :: "flag \<Rightarrow> bool" where
  "flag_truthy f = (case f of FUndef \<Rightarrow> False | FBool b \<Rightarrow> b | FExpr _ \<Rightarrow> True)"

definition check_name :: "flag \<Rightarrow> name_question \<Rightarrow> jsval \<Rightarrow> string option" where
  "check_name required q v =
     (case v of
        JObj _ m \<Rightarrow>
          first_error (\<lambda>c. if missing_component m (name_component_key c)
                           then Some (label_for_name_component c @ '' is required.'') else None)
            (case na_requiredComponents q of
               Some cs \<Rightarrow> cs
             | None \<Rightarrow> if flag_truthy required then [NC_first, NC_last] else [])
      | _ \<Rightarrow> Some ''Expected a name object.'')"

definition check_address :: "address_question \<Rightarrow> jsval \<Rightarrow> string option" where
  "check_address q v =
     (case v of
        JObj _ m \<Rightarrow>
          first_error (\<lambda>c. if missing_component m (address_component_key c)
                           then Some (label_for_address_component c @ '' is required.'') else None)
            (case ad_requiredComponents q of Some cs \<Rightarrow> cs | None \<Rightarrow> [])
      | _ \<Rightarrow> Some ''Expected an address object.'')"

definition check_photo :: "photo_question \<Rightarrow> jsval \<Rightarrow> string option" where
  "check_photo q v =
     (case v of
        JArr _ vs \<Rightarrow>
          if above (len vs) (po_maxCount q)
          then Some (''Up to '' @ show_num (po_maxCount q) @ '' attachments allowed.'') else None
      | _ \<Rightarrow> Some ''Expected one or more attachments.'')"

definition check_barcode :: "jsval \<Rightarrow> string option" where
  "check_barcode v = (if is_str v then None else Some ''Expected a barcode value.'')"

definition check_sketch :: "sketch_question \<Rightarrow> jsval \<Rightarrow> string option" where
  "check_sketch q v =
     (case v of
        JStr s \<Rightarrow>
          if above (n_mul (len s) (Fin (3 / 4))) (sk_maxBytes q)
          then Some (''Sketch must be '' @ show_num (sk_maxBytes q) @ '' bytes or smaller.'') else None
      | _ \<Rightarrow> Some ''Expected a sketch image.'')"

definition over_size :: "jsnum option \<Rightarrow> jsval \<Rightarrow> bool" where
  "over_size cap v = (case field_of v ''sizeBytes'' of JNum n \<Rightarrow> above n cap | _ \<Rightarrow> False)"

definition check_clip :: "string \<Rightarrow> jsnum option \<Rightarrow> jsnum option \<Rightarrow> jsval \<Rightarrow> string option" where
  "check_clip kind_label maxCount maxBytes v =
     (case v of
        JArr _ vs \<Rightarrow>
          if above (len vs) maxCount
          then Some (''Up to '' @ show_num maxCount @ '' '' @ kind_label @ ''s allowed.'')
          else first_error (\<lambda>c.
                 if \<not> is_object_like c \<or> \<not> is_str (field_of c ''dataUrl'') \<or> \<not> is_str (field_of c ''mimeType'')
                 then Some (kind_label @ '' entry has an unexpected shape.'')
                 else if over_size maxBytes c
                 then Some (kind_label @ ''s must be '' @ show_num maxBytes @ '' bytes or smaller.'')
                 else None) vs
      | _ \<Rightarrow> Some (''Expected one or more '' @ kind_label @ ''s.''))"

definition check_file :: "file_question \<Rightarrow> jsval \<Rightarrow> string option" where
  "check_file q v =
     (case v of
        JArr _ vs \<Rightarrow>
          if above (len vs) (fi_maxCount q)
          then Some (''Up to '' @ show_num (fi_maxCount q) @ '' files allowed.'')
          else first_error (\<lambda>c.
                 if \<not> is_object_like c \<or> \<not> is_str (field_of c ''name'') \<or> \<not> is_str (field_of c ''dataUrl'')
                 then Some ''File entry has an unexpected shape.''
                 else if over_size (fi_maxBytes q) c
                 then Some (''Files must be '' @ show_num (fi_maxBytes q) @ '' bytes or smaller.'')
                 else None) vs
      | _ \<Rightarrow> Some ''Expected one or more files.'')"

definition check_image_choice :: "image_choice_question \<Rightarrow> jsval \<Rightarrow> string option" where
  "check_image_choice q v =
     (let valid = map ic_value (iq_choices q)
      in if iq_multi q = Some True
         then (case v of
                 JArr _ vs \<Rightarrow>
                   if list_ex (\<lambda>x. \<not> is_one_of valid x) vs
                   then Some ''Selection contains an unrecognized option.''
                   else check_count (iq_minSelected q) (iq_maxSelected q) vs
               | _ \<Rightarrow> Some ''Pick one or more options.'')
         else if is_one_of valid v then None else Some ''Pick one option.'')"

subsection \<open>Acknowledgement, hotspot, signature, places, scales\<close>

definition check_acknowledge :: "jsval \<Rightarrow> string option" where
  "check_acknowledge v =
     (if is_obj v \<and> field_of v ''acknowledged'' = JBool True then None
      else Some ''Please acknowledge to continue.'')"

definition hotspot_point :: "jsval \<Rightarrow> string option" where
  "hotspot_point p =
     (if \<not> is_object_like p then Some ''Point format is invalid.''
      else case (field_of p ''x'', field_of p ''y'') of
             (JNum x, JNum y) \<Rightarrow>
               if n_lt x (Fin 0) \<or> n_lt (Fin 1) x \<or> n_lt y (Fin 0) \<or> n_lt (Fin 1) y
               then Some ''Point is outside the image.'' else None
           | _ \<Rightarrow> Some ''Point format is invalid.'')"

definition check_hotspot :: "image_hotspot_question \<Rightarrow> jsval \<Rightarrow> string option" where
  "check_hotspot q v =
     (case v of
        JArr _ vs \<Rightarrow>
          (let mx = default_to (Fin 1) (ih_maxPoints q)
           in if n_lt mx (len vs) then Some (''Up to '' @ num_to_string mx @ '' points allowed.'')
              else first_error hotspot_point vs)
      | _ \<Rightarrow> Some ''Expected one or more points.'')"

definition MAX_SIGNATURE_DATA_URL_CHARS :: nat where
  "MAX_SIGNATURE_DATA_URL_CHARS = 512 * 1024"

definition is_signature_data_url :: "string \<Rightarrow> bool" where
  "is_signature_data_url v \<longleftrightarrow>
     starts_with ''data:image/png;base64,'' v \<and> length v \<le> MAX_SIGNATURE_DATA_URL_CHARS"

definition is_signature_url :: "string \<Rightarrow> bool" where
  "is_signature_url v \<longleftrightarrow>
     starts_with ''/api/portal/storage/'' v \<or>
     starts_with ''http://'' (map lower_char (take 8 v)) \<or> starts_with ''https://'' (map lower_char (take 8 v))"

definition check_signature :: "jsval \<Rightarrow> string option" where
  "check_signature v =
     (let bad = Some ''Expected a signature image.''
      in case v of
           JStr s \<Rightarrow> if is_signature_data_url s then None else bad
         | JArr _ vs \<Rightarrow>
             if 1 < length vs then Some ''Only one signature is allowed.''
             else (case vs of
                     [] \<Rightarrow> bad
                   | a # _ \<Rightarrow>
                       if \<not> is_object_like a then bad
                       else (case field_of a ''url'' of
                               JStr u \<Rightarrow> if is_signature_url u then None else bad
                             | _ \<Rightarrow> (case field_of a ''dataUrl'' of
                                       JStr d \<Rightarrow> if is_signature_data_url d then None else bad
                                     | _ \<Rightarrow> bad)))
         | _ \<Rightarrow> bad)"

definition check_pick_feature :: "jsval \<Rightarrow> string option" where
  "check_pick_feature v =
     (if is_obj v \<and> is_str (field_of v ''featureId'') \<and> field_of v ''featureId'' \<noteq> JStr []
      then None else Some ''Pick a feature on the map.'')"

definition lon_lat_pair :: "jsval \<Rightarrow> bool" where
  "lon_lat_pair wp = (case wp of JArr _ (a # b # _) \<Rightarrow> is_num a \<and> is_num b | _ \<Rightarrow> False)"

definition check_route :: "route_question \<Rightarrow> jsval \<Rightarrow> string option" where
  "check_route q v =
     (let lo = default_to (Fin 2) (ro_minWaypoints q); hi = default_to (Fin 10) (ro_maxWaypoints q);
          few = Some (''Pick at least '' @ num_to_string lo @ '' stops on the map.'')
      in case field_of v ''waypoints'' of
           JArr _ wps \<Rightarrow>
             if n_lt (len wps) lo then few
             else if n_lt hi (len wps)
             then Some (''At most '' @ num_to_string hi @ '' stops allowed.'')
             else if list_ex (\<lambda>wp. \<not> lon_lat_pair wp) wps
             then Some ''Each stop must be a [lon, lat] pair.'' else None
         | _ \<Rightarrow> few)"

definition check_area_buffer :: "area_buffer_question \<Rightarrow> jsval \<Rightarrow> string option" where
  "check_area_buffer q v =
     (case field_of v ''distanceMeters'' of
        JNum d \<Rightarrow>
          if \<not> n_truthy d \<or> \<not> is_object_like (field_of v ''input'')
          then Some ''Capture a location and a buffer distance.''
          else if above d (ab_maxDistanceMeters q)
          then Some (''Buffer must be '' @ show_num (ab_maxDistanceMeters q) @ '' meters or less.'')
          else None
      | _ \<Rightarrow> Some ''Capture a location and a buffer distance.'')"

definition check_likert :: "likert_question \<Rightarrow> jsval \<Rightarrow> string option" where
  "check_likert q v =
     (if integer_between (Fin 1) (default_to (Fin 5) (li_points q)) v then None
      else Some ''Pick a point on the scale.'')"

definition check_nps :: "jsval \<Rightarrow> string option" where
  "check_nps v =
     (if integer_between (Fin 0) (Fin 10) v then None else Some ''Pick a number from 0 to 10.'')"

end
