(* ===== verification/FormChecks.thy ===== *)
theory FormChecks
  imports FormValidate
begin

text \<open>
  What the checks of \<open>FormValidate\<close> accept: the grammar behind the index arithmetic of the
  email check, the shape of a phone number, the permutations behind the loop of the ranking
  check, the rows of a matrix.
\<close>

subsection \<open>Email\<close>

text \<open>A local part, one \<open>@\<close>, a domain with an inner dot, no white space anywhere.\<close>

definition email_grammar :: "string \<Rightarrow> bool" where
  "email_grammar s \<longleftrightarrow>
     (\<exists>local dom. s = local @ CHR ''@'' # dom \<and> local \<noteq> [] \<and> CHR ''@'' \<notin> set local \<and>
        CHR ''@'' \<notin> set dom \<and> CHR ''.'' \<in> set dom \<and> hd dom \<noteq> CHR ''.'' \<and> last dom \<noteq> CHR ''.'' \<and>
        (\<forall>c \<in> set s. \<not> is_space c))"

lemma str_includes_char: "str_includes [c] s \<longleftrightarrow> c \<in> set s"
  by (induction s) (auto simp: starts_with_def)

lemma starts_with_char: "s \<noteq> [] \<Longrightarrow> starts_with [c] s \<longleftrightarrow> hd s = c"
  by (cases s) (auto simp: starts_with_def)

lemma ends_with_char: "s \<noteq> [] \<Longrightarrow> ends_with [c] s \<longleftrightarrow> last s = c"
  by (simp add: ends_with_def starts_with_char hd_rev)

lemma index_of_append: "c \<notin> set xs \<Longrightarrow> index_of c (xs @ c # ys) = Some (length xs)"
  by (induction xs) auto

lemma last_index_of_append: "c \<notin> set ys \<Longrightarrow> last_index_of c (xs @ c # ys) = Some (length xs)"
proof (induction xs)
  case Nil
  then have "last_index_of c ys = None" by (simp add: last_index_of_None)
  then show ?case by simp
qed simp

lemma email_shape_grammar: "email_shape s \<longleftrightarrow> email_grammar s"
proof
  assume e: "email_shape s"
  then obtain i where i: "index_of CHR ''@'' s = Some i" "1 \<le> i"
      and l: "last_index_of CHR ''@'' s = Some i" and len: "i \<noteq> length s - 1"
      and sp: "\<not> list_ex is_space s"
    by (auto simp: email_shape_def Let_def Suc_le_eq split: option.splits)
  let ?d = "drop (Suc i) s"
  from i(1) have lt: "i < length s" "s ! i = CHR ''@''" "CHR ''@'' \<notin> set (take i s)"
    by (auto simp: index_of_Some)
  then have s: "s = take i s @ CHR ''@'' # ?d" by (metis id_take_nth_drop)
  have d: "?d \<noteq> []" using lt(1) len by simp
  have dots: "str_includes ''.'' ?d" "\<not> starts_with ''.'' ?d" "\<not> ends_with ''.'' ?d"
    using e i(1) by (auto simp: email_shape_def Let_def)
  have "CHR ''@'' \<notin> set ?d" using last_index_of_SomeD [OF l] by simp
  moreover have "take i s \<noteq> []" using i(2) lt(1) by auto
  ultimately show "email_grammar s"
    using s lt(3) d dots sp unfolding email_grammar_def
    by (intro exI [of _ "take i s"] exI [of _ ?d])
       (simp add: str_includes_char starts_with_char ends_with_char list_ex_iff)
next
  assume "email_grammar s"
  then obtain l d where s: "s = l @ CHR ''@'' # d" "l \<noteq> []" "CHR ''@'' \<notin> set l" "CHR ''@'' \<notin> set d"
      and d: "CHR ''.'' \<in> set d" "hd d \<noteq> CHR ''.''" "last d \<noteq> CHR ''.''"
      and sp: "\<forall>c \<in> set s. \<not> is_space c"
    unfolding email_grammar_def by blast
  have "d \<noteq> []" using d(1) by auto
  then show "email_shape s"
    using s d sp
    by (simp add: email_shape_def index_of_append last_index_of_append list_ex_iff
        str_includes_char starts_with_char ends_with_char Suc_le_eq)
qed

subsection \<open>Ranking\<close>

lemma map_JStr_Cons:
  "(\<exists>ts. JStr s # vs = map JStr ts \<and> P ts) \<longleftrightarrow> (\<exists>ss. vs = map JStr ss \<and> P (s # ss))"
  by (auto simp: Cons_eq_map_conv)

lemma ranking_values_None:
  "ranking_values valid seen vs = None \<longleftrightarrow>
   (\<exists>ss. vs = map JStr ss \<and> distinct ss \<and> set ss \<subseteq> set valid \<and> set ss \<inter> set seen = {})"
proof (induction vs arbitrary: seen)
  case (Cons v vs)
  show ?case
  proof (cases v)
    case (JStr s)
    then have "ranking_values valid seen (v # vs) = None \<longleftrightarrow>
       s \<in> set valid \<and> s \<notin> set seen \<and> ranking_values valid (s # seen) vs = None" by simp
    also have "\<dots> \<longleftrightarrow> s \<in> set valid \<and> s \<notin> set seen \<and>
       (\<exists>ss. vs = map JStr ss \<and> distinct ss \<and> set ss \<subseteq> set valid \<and> set ss \<inter> set (s # seen) = {})"
      using Cons by simp
    also have "\<dots> \<longleftrightarrow> (\<exists>ts. v # vs = map JStr ts \<and> distinct ts \<and> set ts \<subseteq> set valid \<and> set ts \<inter> set seen = {})"
      unfolding JStr map_JStr_Cons by auto
    finally show ?thesis .
  qed (auto simp: Cons_eq_map_conv)
qed simp

lemma len_Fin: "length xs < 2 ^ 53 \<Longrightarrow> len xs = Fin (of_nat (length xs))"
proof -
  assume "length xs < 2 ^ 53"
  then have "\<bar>int (length xs)\<bar> < 2 ^ 53"
    by (metis abs_of_nat of_nat_less_iff of_nat_numeral of_nat_power)
  then show ?thesis by (simp add: len_def num_exact)
qed

subsection \<open>Properties\<close>

text \<open>The email check accepts exactly the texts within the length limit that have a local
  part, a single \<open>@\<close> and a domain with a dot strictly inside it, and no white space.\<close>

theorem check_email_iff:
  "check_email cap v = None \<longleftrightarrow> (\<exists>s. v = JStr s \<and> \<not> too_long cap s \<and> email_grammar s)"
  by (cases v) (auto simp: check_email_def email_shape_grammar)

text \<open>The ranking check accepts exactly the lists of pairwise distinct values of the
  question's choices whose number lies within \<open>minRanked\<close> and \<open>maxRanked\<close>; both bounds
  default to what every such list satisfies.\<close>

theorem check_ranking_iff:
  "check_ranking q v = None \<longleftrightarrow>
   (\<exists>a ss. v = JArr a (map JStr ss) \<and> distinct ss \<and> set ss \<subseteq> set (map ch_value (rk_choices q)) \<and>
      \<not> n_lt (len ss) (default_to (Fin 0) (rk_minRanked q)) \<and>
      \<not> n_lt (default_to (len (rk_choices q)) (rk_maxRanked q)) (len ss))"
proof (cases v)
  case (JArr a vs)
  have l: "len (map JStr ss) = len ss" for ss by (simp add: len_def)
  show ?thesis
    unfolding JArr check_ranking_def
    by (auto simp: or_else_None ranking_values_None Let_def l split: if_splits)
qed (auto simp: check_ranking_def)

end
