(* ===== verification/FormWalk.thy ===== *)
theory FormWalk
  imports FormValidate
begin

text \<open>
  The walk of the validator (\<open>validateType\<close>, \<open>validateQuestionList\<close>, \<open>validate\<close> of
  \<open>packages/form-schema/src/index.ts\<close>). \<open>occurrences\<close> is its specification: the list of
  question occurrences a response has, in order, each with the path reported for it and the
  object its expressions read; the lemmas show that \<open>validate\<close> is the check of each
  occurrence and nothing else.
\<close>

subsection \<open>Results over lists\<close>

primrec map_result :: "('a \<Rightarrow> 'b result) \<Rightarrow> 'a list \<Rightarrow> 'b list result" where
  "map_result f [] = Inr []"
| "map_result f (x # xs) =
     (case f x of Inl e \<Rightarrow> Inl e
      | Inr y \<Rightarrow> (case map_result f xs of Inl e \<Rightarrow> Inl e | Inr ys \<Rightarrow> Inr (y # ys)))"

fun seq_results :: "'a list result list \<Rightarrow> 'a list result" where
  "seq_results [] = Inr []"
| "seq_results (Inl e # rs) = Inl e"
| "seq_results (Inr xs # rs) =
     (case seq_results rs of Inl e \<Rightarrow> Inl e | Inr ys \<Rightarrow> Inr (xs @ ys))"

definition append_results :: "'a list result \<Rightarrow> 'a list result \<Rightarrow> 'a list result" where
  "append_results a b = seq_results [a, b]"

lemma seq_results_append: "seq_results (as @ bs) = append_results (seq_results as) (seq_results bs)"
proof (induction as rule: seq_results.induct)
  case 1
  then show ?case by (cases "seq_results bs") (simp_all add: append_results_def)
next
  case (2 e rs)
  then show ?case by (simp add: append_results_def)
next
  case (3 xs rs)
  then show ?case by (auto simp: append_results_def split: sum.splits)
qed

lemma seq_results_Cons: "seq_results (a # bs) = append_results a (seq_results bs)"
  by (cases a) (auto simp: append_results_def split: sum.split)

lemma seq_results_single [simp]: "seq_results [a] = a"
  by (cases a) auto

lemma seq_results_concat: "seq_results (map (\<lambda>xs. seq_results xs) xss) = seq_results (concat xss)"
  by (induction xss) (simp_all add: seq_results_Cons seq_results_append)

lemma seq_results_Inr_iff:
  "seq_results rs = Inr ys \<longleftrightarrow> (\<exists>xss. rs = map Inr xss \<and> ys = concat xss)"
proof (induction rs arbitrary: ys rule: seq_results.induct)
  case (3 xs rs)
  have "seq_results (Inr xs # rs) = Inr ys \<longleftrightarrow> (\<exists>zs. seq_results rs = Inr zs \<and> ys = xs @ zs)"
    by (cases "seq_results rs") auto
  also have "\<dots> \<longleftrightarrow> (\<exists>xss. rs = map Inr xss \<and> ys = xs @ concat xss)"
    using 3 by auto
  also have "\<dots> \<longleftrightarrow> (\<exists>xss. Inr xs # rs = map Inr xss \<and> ys = concat xss)"
    by (auto simp: Cons_eq_map_conv)
  finally show ?case .
qed auto

lemma seq_results_Nil_iff: "seq_results rs = Inr [] \<longleftrightarrow> (\<forall>r \<in> set rs. r = Inr [])"
  by (induction rs rule: seq_results.induct) (auto split: sum.splits)

lemma seq_results_set:
  "seq_results rs = Inr ys \<Longrightarrow> y \<in> set ys \<longleftrightarrow> (\<exists>xs. Inr xs \<in> set rs \<and> y \<in> set xs)"
  by (force simp: seq_results_Inr_iff image_iff)

lemma seq_results_nested:
  assumes "\<And>x. x \<in> set xs \<Longrightarrow> f x = seq_results (map g (k x))"
  shows "seq_results (map f xs) = seq_results (map g (concat (map k xs)))"
  using assms by (induction xs) (simp_all add: seq_results_Cons seq_results_append)

lemma seq_results_Inl:
  "seq_results rs = Inl e \<Longrightarrow> Inl e \<in> set rs"
  by (induction rs rule: seq_results.induct) (auto split: sum.splits)

lemma seq_results_total: "\<forall>r \<in> set rs. \<not> isl r \<Longrightarrow> \<not> isl (seq_results rs)"
  by (induction rs rule: seq_results.induct) (auto split: sum.splits)

subsection \<open>The check of a question's type\<close>

definition expect :: "bool \<Rightarrow> string \<Rightarrow> string option" where
  "expect ok message = (if ok then None else Some message)"

definition is_bool :: "jsval \<Rightarrow> bool" where
  "is_bool v = (case v of JBool _ \<Rightarrow> True | _ \<Rightarrow> False)"

fun check_type :: "host \<Rightarrow> question_base \<Rightarrow> kind \<Rightarrow> jsval \<Rightarrow> string option result" where
  "check_type h b (KText q) v = check_text h (tx_maxLength q) (tx_pattern q) v"
| "check_type h b (KMultiline q) v = check_text h (ml_maxLength q) None v"
| "check_type h b (KEmail q) v = Inr (check_email (em_maxLength q) v)"
| "check_type h b (KUrl q) v = Inr (check_url h q v)"
| "check_type h b (KPhone q) v = Inr (check_phone v)"
| "check_type h b (KRegex q) v = Inr (check_regex h (qb_message b) q v)"
| "check_type h b (KNumber q) v = Inr (check_number False (nm_min q) (nm_max q) v)"
| "check_type h b (KInteger q) v = Inr (check_number True (in_min q) (in_max q) v)"
| "check_type h b (KBoolean q) v = Inr (expect (is_bool v) ''Expected yes or no.'')"
| "check_type h b (KSelectOne q) v = Inr (expect (is_str v) ''Pick one option.'')"
| "check_type h b (KSelectMany q) v = Inr (check_select_many q v)"
| "check_type h b (KMatrixSingle q) v = Inr (check_matrix_single q v)"
| "check_type h b (KMatrixMulti q) v = Inr (check_matrix_multi q v)"
| "check_type h b (KMatrixDropdown q) v = Inr (check_matrix_dropdown q v)"
| "check_type h b (KMatrixRating q) v = Inr (check_matrix_rating q v)"
| "check_type h b (KRanking q) v = Inr (check_ranking q v)"
| "check_type h b (KDate q) v = Inr (expect (is_str v) ''Expected a valid value.'')"
| "check_type h b (KTime q) v = Inr (expect (is_str v) ''Expected a valid value.'')"
| "check_type h b (KDateTime q) v = Inr (expect (is_str v) ''Expected a valid value.'')"
| "check_type h b (KName q) v = Inr (check_name (qb_required b) q v)"
| "check_type h b (KAddress q) v = Inr (check_address q v)"
| "check_type h b (KPhoto q) v = Inr (check_photo q v)"
| "check_type h b (KAudio q) v = Inr (check_clip ''audio clip'' (au_maxCount q) (au_maxBytes q) v)"
| "check_type h b (KVideo q) v = Inr (check_clip ''video clip'' (vi_maxCount q) (vi_maxBytes q) v)"
| "check_type h b (KBarcode q) v = Inr (check_barcode v)"
| "check_type h b (KSketch q) v = Inr (check_sketch q v)"
| "check_type h b (KFile q) v = Inr (check_file q v)"
| "check_type h b (KImageChoice q) v = Inr (check_image_choice q v)"
| "check_type h b (KImageHotspot q) v = Inr (check_hotspot q v)"
| "check_type h b KSignature v = Inr (check_signature v)"
| "check_type h b (KPickFeature q) v = Inr (check_pick_feature v)"
| "check_type h b (KRoute q) v = Inr (check_route q v)"
| "check_type h b (KAreaBuffer q) v = Inr (check_area_buffer q v)"
| "check_type h b (KLikert q) v = Inr (check_likert q v)"
| "check_type h b (KNps q) v = Inr (check_nps v)"
| "check_type h b (KAcknowledge q) v = Inr (check_acknowledge v)"
| "check_type h b (KImageDisplay q) v = Inr None"
| "check_type h b (KGeoPoint q) v = Inr None"
| "check_type h b KGeoTrace v = Inr None"
| "check_type h b KGeoShape v = Inr None"
| "check_type h b (KRating q) v = Inr None"
| "check_type h b (KSlider q) v = Inr None"
| "check_type h b (KCalculated q) v = Inr None"
| "check_type h b (KNote q) v = Inr None"
| "check_type h b (KDivider q) v = Inr None"
| "check_type h b (KHidden q) v = Inr None"
| "check_type h b (KPage q) v = Inr None"
| "check_type h b (KGroup rp cs) v = Inr None"
| "check_type h b (KOther t cs) v = Inr None"

text \<open>Matrix questions that ask for every row are checked even when nothing is filled in.\<close>

fun asks_every_row :: "kind \<Rightarrow> bool" where
  "asks_every_row (KMatrixSingle q) = (ms_perRowRequired q = Some True)"
| "asks_every_row (KMatrixMulti q) =
     (case mm_perRowMinSelected q of None \<Rightarrow> False | Some n \<Rightarrow> n_truthy n)"
| "asks_every_row (KMatrixRating q) = (mt_perRowRequired q = Some True)"
| "asks_every_row _ = False"

subsection \<open>The check of one occurrence\<close>

record validation_error =
  ve_questionId :: string
  ve_message :: string

definition one_error :: "string \<Rightarrow> string \<Rightarrow> validation_error list" where
  "one_error path message = [\<lparr> ve_questionId = path, ve_message = message \<rparr>]"

definition validate_question ::
  "host \<Rightarrow> response \<Rightarrow> string \<Rightarrow> question_base \<Rightarrow> kind \<Rightarrow> validation_error list result" where
  "validate_question h r path b k =
     (if \<not> is_visible h b r then Inr []
      else let v = get r (qb_id b)
           in if is_required h b r \<and> is_empty v \<and> \<not> is_uncapturable k
              then Inr (one_error path ''This field is required.'')
              else if is_empty v \<and> \<not> asks_every_row k then Inr []
              else case check_type h b k v of
                     Inl e \<Rightarrow> Inl e
                   | Inr (Some m) \<Rightarrow> Inr (one_error path m)
                   | Inr None \<Rightarrow>
                       (case qb_constraint b of
                          None \<Rightarrow> Inr []
                        | Some c \<Rightarrow>
                            if truthy (evaluate h r c) then Inr []
                            else Inr (one_error path
                                   (case qb_message b of Some m \<Rightarrow> m | None \<Rightarrow> ''Value is not valid.''))))"

subsection \<open>Repeat groups\<close>

text \<open>
  An instance that is not a plain object reads as an empty one. The instances of a repeat
  group come with their paths: \<open><prefix><groupId>[<i>].\<close>.
\<close>

definition instance_obj :: "jsval \<Rightarrow> response" where
  "instance_obj v = (case v of JObj _ m \<Rightarrow> m | _ \<Rightarrow> [])"

definition instance_prefix :: "string \<Rightarrow> string \<Rightarrow> nat \<Rightarrow> string" where
  "instance_prefix p g i = p @ g @ ''['' @ nat_digits i @ ''].''"

definition instances :: "response \<Rightarrow> string \<Rightarrow> string \<Rightarrow> (string \<times> response) list" where
  "instances r p g =
     (case get r g of
        JArr _ vs \<Rightarrow> map (\<lambda>i. (instance_prefix p g i, instance_obj (vs ! i))) [0..<length vs]
      | _ \<Rightarrow> [])"

lemma group_of_size: "group_of k = Some (rp, cs) \<Longrightarrow> size_list size cs < size k"
  by (simp add: group_of_Some)

lemma group_of_size_question:
  "group_of k = Some (rp, cs) \<Longrightarrow> size_list size cs < size (Question b k) + size_list size qs"
  using group_of_size by fastforce

function (sequential) validate_list ::
  "host \<Rightarrow> response \<Rightarrow> string \<Rightarrow> question list \<Rightarrow> validation_error list result" where
  "validate_list h r p [] = Inr []"
| "validate_list h r p (Question b k # qs) =
     append_results
       (if is_display_only k then Inr []
        else case group_of k of
               None \<Rightarrow> validate_question h r (p @ qb_id b) b k
             | Some (Some rp, cs) \<Rightarrow>
                 if \<not> is_visible h b r then Inr []
                 else seq_results (map (\<lambda>(p', inst). validate_list h inst p' cs) (instances r p (qb_id b)))
             | Some (None, cs) \<Rightarrow> validate_list h r p cs)
       (validate_list h r p qs)"
  by pat_completeness auto
termination
  by (relation "measure (\<lambda>(h, r, p, qs). size_list size qs)")
     (auto dest: group_of_size intro: group_of_size_question simp: less_Suc_eq_le)

record validation_result =
  vr_ok :: bool
  vr_errors :: "validation_error list"

definition validate :: "host \<Rightarrow> form_schema \<Rightarrow> response \<Rightarrow> validation_result result" where
  "validate h form r =
     (case validate_list h r [] (fs_questions form) of
        Inl e \<Rightarrow> Inl e
      | Inr errors \<Rightarrow> Inr \<lparr> vr_ok = (length errors = 0), vr_errors = errors \<rparr>)"

subsection \<open>Specification: the occurrences of a response\<close>

record occurrence =
  oc_path :: string
  oc_base :: question_base
  oc_kind :: kind
  oc_response :: response

function (sequential) occurrences :: "host \<Rightarrow> response \<Rightarrow> string \<Rightarrow> question list \<Rightarrow> occurrence list" where
  "occurrences h r p [] = []"
| "occurrences h r p (Question b k # qs) =
     (if is_display_only k then []
      else case group_of k of
             None \<Rightarrow> [\<lparr> oc_path = p @ qb_id b, oc_base = b, oc_kind = k, oc_response = r \<rparr>]
           | Some (Some rp, cs) \<Rightarrow>
               if \<not> is_visible h b r then []
               else concat (map (\<lambda>(p', inst). occurrences h inst p' cs) (instances r p (qb_id b)))
           | Some (None, cs) \<Rightarrow> occurrences h r p cs)
     @ occurrences h r p qs"
  by pat_completeness auto
termination
  by (relation "measure (\<lambda>(h, r, p, qs). size_list size qs)")
     (auto dest: group_of_size intro: group_of_size_question simp: less_Suc_eq_le)

definition validate_occurrence :: "host \<Rightarrow> occurrence \<Rightarrow> validation_error list result" where
  "validate_occurrence h oc =
     validate_question h (oc_response oc) (oc_path oc) (oc_base oc) (oc_kind oc)"

lemma append_results_Nil [simp]: "append_results (Inr []) r = r"
  by (cases r) (auto simp: append_results_def)

lemma validate_list_occurrences:
  "validate_list h r p qs = seq_results (map (validate_occurrence h) (occurrences h r p qs))"
proof (induction h r p qs rule: occurrences.induct)
  case (1 h r p)
  then show ?case by simp
next
  case (2 h r p b k qs)
  show ?case
  proof (cases "is_display_only k")
    case True
    with 2 show ?thesis by (simp add: seq_results_append)
  next
    case nd: False
    show ?thesis
    proof (cases "group_of k")
      case None
      with nd 2 show ?thesis
        by (simp add: seq_results_Cons validate_occurrence_def)
    next
      case (Some g)
      obtain rp cs where g: "g = (rp, cs)" by (cases g)
      show ?thesis
      proof (cases rp)
        case None
        with nd Some g 2 show ?thesis by (simp add: seq_results_append)
      next
        case rep: (Some x)
        show ?thesis
        proof (cases "is_visible h b r")
          case True
          have "seq_results (map (\<lambda>(p', inst). validate_list h inst p' cs) (instances r p (qb_id b))) =
                seq_results (map (validate_occurrence h)
                  (concat (map (\<lambda>(p', inst). occurrences h inst p' cs) (instances r p (qb_id b)))))"
            using 2 nd Some g rep True by (intro seq_results_nested) auto
          then show ?thesis using nd Some g rep True 2 by (simp add: seq_results_append)
        qed (use nd Some g rep 2 in simp)
      qed
    qed
  qed
qed


text \<open>The same occurrences by rules: which question, reached how.\<close>

inductive occurs :: "host \<Rightarrow> response \<Rightarrow> string \<Rightarrow> question list \<Rightarrow> occurrence \<Rightarrow> bool" for h where
  leaf: "Question b k \<in> set qs \<Longrightarrow> \<not> is_display_only k \<Longrightarrow> group_of k = None \<Longrightarrow>
    occurs h r p qs \<lparr> oc_path = p @ qb_id b, oc_base = b, oc_kind = k, oc_response = r \<rparr>"
| in_group: "Question b (KGroup None cs) \<in> set qs \<Longrightarrow> occurs h r p cs oc \<Longrightarrow> occurs h r p qs oc"
| in_repeat: "Question b (KGroup (Some rp) cs) \<in> set qs \<Longrightarrow> is_visible h b r \<Longrightarrow>
    get r (qb_id b) = JArr a vs \<Longrightarrow> i < length vs \<Longrightarrow>
    occurs h (instance_obj (vs ! i)) (instance_prefix p (qb_id b) i) cs oc \<Longrightarrow>
    occurs h r p qs oc"

inductive_cases occurs_NilE: "occurs h r p [] oc"

lemma set_instances:
  "(p', inst) \<in> set (instances r p g) \<longleftrightarrow>
     (\<exists>a vs i. get r g = JArr a vs \<and> i < length vs \<and> p' = instance_prefix p g i \<and>
        inst = instance_obj (vs ! i))"
  by (cases "get r g") (auto simp: instances_def)

lemma occurs_Cons: "occurs h r p qs oc \<Longrightarrow> occurs h r p (q # qs) oc"
  by (erule occurs.cases) (auto intro: occurs.intros)

lemma group_not_display [simp]: "\<not> is_display_only (KGroup rp cs)"
  by (simp add: is_display_only_def)

lemma occurrences_sound: "oc \<in> set (occurrences h r p qs) \<Longrightarrow> occurs h r p qs oc"
proof (induction h r p qs rule: occurrences.induct)
  case (2 h r p b k qs)
  show ?case
  proof (cases "oc \<in> set (occurrences h r p qs)")
    case True
    with 2 show ?thesis by (simp add: occurs_Cons)
  next
    case rest: False
    with "2.prems" have nd: "\<not> is_display_only k" by auto
    show ?thesis
    proof (cases "group_of k")
      case None
      with rest nd "2.prems" show ?thesis by (auto intro: occurs.leaf)
    next
      case (Some g)
      obtain rp cs where g: "g = (rp, cs)" by (cases g)
      with Some have k: "k = KGroup rp cs" by (simp add: group_of_Some)
      show ?thesis
      proof (cases rp)
        case None
        with rest nd Some g "2.prems" have "oc \<in> set (occurrences h r p cs)" by auto
        with 2 nd Some g None have "occurs h r p cs oc" by simp
        with k None show ?thesis by (auto intro: occurs.in_group)
      next
        case rep: (Some x)
        with rest nd Some g "2.prems" have vis: "is_visible h b r" by (auto split: if_splits)
        with rep rest nd Some g "2.prems" obtain p' inst
          where i: "(p', inst) \<in> set (instances r p (qb_id b))" "oc \<in> set (occurrences h inst p' cs)"
          by auto
        have "oc \<in> set (occurrences h inst p' cs) \<Longrightarrow> occurs h inst p' cs oc"
          using "2.IH"(2) nd Some g rep vis i(1) by auto
        with i(2) have "occurs h inst p' cs oc" by blast
        with i(1) vis k rep show ?thesis by (auto simp: set_instances intro: occurs.in_repeat)
      qed
    qed
  qed
qed simp

lemma occurrences_member:
  "Question b k \<in> set qs \<Longrightarrow> oc \<in> set (occurrences h r p [Question b k]) \<Longrightarrow>
   oc \<in> set (occurrences h r p qs)"
proof (induction qs)
  case (Cons q qs)
  then show ?case by (cases q) auto
qed simp

lemma occurs_complete: "occurs h r p qs oc \<Longrightarrow> oc \<in> set (occurrences h r p qs)"
proof (induction rule: occurs.induct)
  case (leaf b k qs r p)
  then show ?case by (auto intro: occurrences_member)
next
  case (in_group b cs qs r p oc)
  then show ?case by (auto intro: occurrences_member)
next
  case (in_repeat b rp cs qs r a vs i p oc)
  then have "(instance_prefix p (qb_id b) i, instance_obj (vs ! i)) \<in> set (instances r p (qb_id b))"
    by (auto simp: set_instances)
  with in_repeat have "oc \<in> set (occurrences h r p [Question b (KGroup (Some rp) cs)])" by auto
  with in_repeat show ?case by (rule_tac occurrences_member)
qed

lemma occurs_iff: "occurs h r p qs oc \<longleftrightarrow> oc \<in> set (occurrences h r p qs)"
  using occurrences_sound occurs_complete by blast

text \<open>What a question has to satisfy, in the words of the schema.\<close>

definition acceptable :: "host \<Rightarrow> occurrence \<Rightarrow> bool" where
  "acceptable h oc \<longleftrightarrow>
     (let b = oc_base oc; k = oc_kind oc; r = oc_response oc; v = get r (qb_id b)
      in is_visible h b r \<longrightarrow>
           (is_required h b r \<longrightarrow> is_empty v \<longrightarrow> is_uncapturable k) \<and>
           (is_empty v \<longrightarrow> asks_every_row k \<longrightarrow> check_type h b k v = Inr None) \<and>
           (\<not> is_empty v \<longrightarrow> check_type h b k v = Inr None) \<and>
           (\<not> is_empty v \<or> asks_every_row k \<longrightarrow>
              (\<forall>c. qb_constraint b = Some c \<longrightarrow> truthy (evaluate h r c))))"

lemma acceptable_iff: "acceptable h oc \<longleftrightarrow> validate_occurrence h oc = Inr []"
  by (auto simp: acceptable_def validate_occurrence_def validate_question_def Let_def one_error_def
      split: sum.splits option.splits if_splits)

lemma validate_occurrence_shape:
  "validate_occurrence h oc = Inr es \<Longrightarrow>
   es = [] \<or> (\<exists>m. es = [\<lparr> ve_questionId = oc_path oc, ve_message = m \<rparr>])"
  by (auto simp: validate_occurrence_def validate_question_def Let_def one_error_def
      split: sum.splits option.splits if_splits)

lemma validate_errors:
  "validate h form r = Inr res \<Longrightarrow>
   seq_results (map (validate_occurrence h) (occurrences h r [] (fs_questions form))) = Inr (vr_errors res)
   \<and> vr_ok res = (vr_errors res = [])"
  by (auto simp: validate_def validate_list_occurrences split: sum.splits)

lemma error_occurrence:
  assumes "validate h form r = Inr res"
  shows "e \<in> set (vr_errors res) \<longleftrightarrow>
    (\<exists>oc. occurs h r [] (fs_questions form) oc \<and> ve_questionId e = oc_path oc \<and>
       validate_occurrence h oc = Inr [e])"
proof -
  let ?ocs = "occurrences h r [] (fs_questions form)"
  have "e \<in> set (vr_errors res) \<longleftrightarrow> (\<exists>xs. Inr xs \<in> set (map (validate_occurrence h) ?ocs) \<and> e \<in> set xs)"
    using validate_errors [OF assms] by (intro seq_results_set) simp
  also have "\<dots> \<longleftrightarrow> (\<exists>oc \<in> set ?ocs. \<exists>xs. validate_occurrence h oc = Inr xs \<and> e \<in> set xs)"
    by (auto simp: image_iff) metis+
  also have "\<dots> \<longleftrightarrow> (\<exists>oc \<in> set ?ocs. ve_questionId e = oc_path oc \<and> validate_occurrence h oc = Inr [e])"
    using validate_occurrence_shape by fastforce
  finally show ?thesis by (auto simp: occurs_iff)
qed

subsection \<open>Properties\<close>

text \<open>A question with nothing set, for closed examples.\<close>

definition plain_base :: "string \<Rightarrow> question_base" where
  "plain_base i = \<lparr> qb_id = i, qb_label = i, qb_hint = None, qb_guidanceHint = None,
     qb_visible = None, qb_visibleIf = None, qb_required = FUndef, qb_constraint = None,
     qb_message = None, qb_readOnly = FUndef, qb_calculate = None, qb_bindTo = None,
     qb_layout = None, qb_meta = None \<rparr>"

definition plain_form :: "question list \<Rightarrow> form_schema" where
  "plain_form qs = \<lparr> fs_schemaVersion = Fin 1, fs_id = ''form'', fs_title = ''Form'',
     fs_description = None, fs_questions = qs, fs_geometryQuestionId = None,
     fs_linkedLayerId = None, fs_linkedLayerKey = None, fs_notify = None, fs_responseView = None,
     fs_meta = None, fs_requiredEngineVersion = None \<rparr>"

definition yes_no :: kind where
  "yes_no = KBoolean \<lparr> bo_trueLabel = None, bo_falseLabel = None \<rparr>"

lemmas plain_simps = plain_base_def plain_form_def yes_no_def

text \<open>C1: \<open>validate\<close> accepts a response exactly when every question occurrence it has (one per
  instance inside a repeat group that is shown) is acceptable: when visible, answered if it is
  required and can be captured, of the shape its type asks for, and within its constraint.\<close>

theorem validate_accepts_iff:
  "(\<exists>res. validate h form r = Inr res \<and> vr_ok res) \<longleftrightarrow>
   (\<forall>oc. occurs h r [] (fs_questions form) oc \<longrightarrow> acceptable h oc)"
proof -
  let ?rs = "map (validate_occurrence h) (occurrences h r [] (fs_questions form))"
  have "(\<exists>res. validate h form r = Inr res \<and> vr_ok res) \<longleftrightarrow> seq_results ?rs = Inr []"
    by (auto simp: validate_def validate_list_occurrences split: sum.split)
  then show ?thesis by (auto simp: seq_results_Nil_iff acceptable_iff occurs_iff)
qed

lemma validate_accepts_iff_witness:
  "\<exists>res. validate host0 (plain_form [Question (plain_base ''a'') yes_no]) [(''a'', JBool True)] = Inr res \<and> vr_ok res"
proof -
  have "acceptable host0 oc"
    if "occurs host0 [(''a'', JBool True)] [] (fs_questions (plain_form [Question (plain_base ''a'') yes_no])) oc" for oc
    using that unfolding occurs_iff
    by (simp add: plain_simps is_display_only_def acceptable_def is_required_def flag_value_def get_def
        is_bool_def expect_def)
  then show ?thesis using validate_accepts_iff by blast
qed

text \<open>C37: the errors of \<open>validate\<close> are exactly those of the occurrences: each error names the
  path of a question the response reaches and carries the message of that question's own
  check, and every occurrence that is not acceptable is reported.\<close>

theorem validate_errors_exact:
  assumes "validate h form r = Inr res"
  shows "e \<in> set (vr_errors res) \<longleftrightarrow>
    (\<exists>oc. occurs h r [] (fs_questions form) oc \<and> ve_questionId e = oc_path oc \<and>
       validate_occurrence h oc = Inr [e])"
  using assms by (rule error_occurrence)

lemma validate_errors_exact_witness:
  "\<exists>oc. occurs host0 [(''a'', JNum (Fin 1))] []
     (fs_questions (plain_form [Question (plain_base ''a'') yes_no])) oc \<and>
     ''a'' = oc_path oc \<and>
     validate_occurrence host0 oc = Inr [\<lparr> ve_questionId = ''a'', ve_message = ''Expected yes or no.'' \<rparr>]"
proof -
  let ?f = "plain_form [Question (plain_base ''a'') yes_no]"
  let ?e = "\<lparr> ve_questionId = ''a'', ve_message = ''Expected yes or no.'' \<rparr>"
  have v: "validate host0 ?f [(''a'', JNum (Fin 1))] = Inr \<lparr> vr_ok = False, vr_errors = [?e] \<rparr>"
    by (simp add: validate_def validate_question_def plain_simps is_display_only_def is_visible_def
        is_required_def flag_value_def get_def expect_def is_bool_def one_error_def append_results_def)
  show ?thesis using validate_errors_exact [OF v, of ?e] by simp
qed

text \<open>Validation throws only for one reason, the pattern of a text question that the
  regular expression engine refuses; every other failure is reported as an error.\<close>

theorem validate_throws:
  assumes "validate h form r = Inl e"
  shows "e = SyntaxError \<and>
    (\<exists>oc q p. occurs h r [] (fs_questions form) oc \<and> oc_kind oc = KText q \<and> tx_pattern q = Some p \<and>
       h_regex h (anchored p) [] = None)"
proof -
  have "seq_results (map (validate_occurrence h) (occurrences h r [] (fs_questions form))) = Inl e"
    using assms by (auto simp: validate_def validate_list_occurrences split: sum.splits)
  then obtain oc where oc: "oc \<in> set (occurrences h r [] (fs_questions form))"
      and "validate_occurrence h oc = Inl e"
    using seq_results_Inl by fastforce
  then have "check_type h (oc_base oc) (oc_kind oc) (get (oc_response oc) (qb_id (oc_base oc))) = Inl e"
    by (auto simp: validate_occurrence_def validate_question_def Let_def
        split: if_splits sum.splits option.splits)
  then show ?thesis
    using oc by (cases "oc_kind oc")
      (auto simp: check_text_def occurs_iff split: jsval.splits if_splits option.splits)
qed

definition bad_pattern_form :: form_schema where
  "bad_pattern_form = plain_form [Question (plain_base ''code'')
     (KText \<lparr> tx_placeholder = None, tx_maxLength = None, tx_pattern = Some ''('', tx_obscured = None \<rparr>)]"

lemma validate_throws_witness:
  "validate (host0 \<lparr> h_regex := \<lambda>p f. None \<rparr>) bad_pattern_form [(''code'', JStr ''x'')] = Inl SyntaxError \<and>
   (\<exists>oc q p. occurs (host0 \<lparr> h_regex := \<lambda>p f. None \<rparr>) [(''code'', JStr ''x'')] []
        (fs_questions bad_pattern_form) oc \<and>
        oc_kind oc = KText q \<and> tx_pattern q = Some p \<and>
        h_regex (host0 \<lparr> h_regex := \<lambda>p f. None \<rparr>) (anchored p) [] = None)"
proof -
  let ?h = "host0 \<lparr> h_regex := \<lambda>p f. None \<rparr>"
  have "trim ''x'' = ''x''" by (simp add: trim_def is_space_def cu_def)
  then have v: "validate ?h bad_pattern_form [(''code'', JStr ''x'')] = Inl SyntaxError"
    by (simp add: bad_pattern_form_def validate_def validate_question_def plain_simps
        is_display_only_def is_visible_def is_required_def flag_value_def get_def check_text_def
        too_long_def append_results_def)
  then show ?thesis using validate_throws [OF v] by simp
qed

end
