(* ===== verification/FormState.thy ===== *)
theory FormState
  imports FormWalk
begin

text \<open>
  What the runtime derives from a form and a response in progress: the flat walk
  (\<open>walkQuestions\<close>, \<open>findQuestion\<close>), the calculation pass (\<open>applyCalculations\<close>), the pruning
  before submit (\<open>pruneHidden\<close>), all of \<open>packages/form-schema/src/index.ts\<close>, and the
  per-question state of \<open>runtime-state.ts\<close>.

  The locale \<open>reader\<close> is what the calculation pass needs of an evaluator: an expression
  depends only on the ids it refers to. Its lemmas show which values a pass writes and that
  repeated passes settle when no calculation depends on itself.
\<close>

subsection \<open>The flat walk\<close>

function (sequential) walk_list :: "question list \<Rightarrow> question list" where
  "walk_list [] = []"
| "walk_list (Question b k # qs) =
     Question b k # (case group_of k of None \<Rightarrow> [] | Some (rp, cs) \<Rightarrow> walk_list cs) @ walk_list qs"
  by pat_completeness auto
termination
  by (relation "measure (size_list size)")
     (auto dest: group_of_size intro: group_of_size_question simp: less_Suc_eq_le)

definition walk_questions :: "form_schema \<Rightarrow> question list" where
  "walk_questions form = walk_list (fs_questions form)"

definition find_question :: "form_schema \<Rightarrow> string \<Rightarrow> question option" where
  "find_question form i = find (\<lambda>q. qid q = i) (walk_questions form)"

subsection \<open>Calculations\<close>

type_synonym 'e calc = "string \<times> 'e"

definition calculations :: "form_schema \<Rightarrow> expression calc list" where
  "calculations form =
     concat (map (\<lambda>q. case qb_calculate (qbase q) of None \<Rightarrow> [] | Some e \<Rightarrow> [(qid q, e)])
       (walk_questions form))"

text \<open>One write of the pass: the value is computed from \<open>r\<close>, the response the pass was
  given, and stored in \<open>acc\<close> unless it is already there.\<close>

definition calc_step :: "(response \<Rightarrow> 'e \<Rightarrow> jsval) \<Rightarrow> response \<Rightarrow> response \<Rightarrow> 'e calc \<Rightarrow> response" where
  "calc_step ev r acc c =
     (let computed = ev r (snd c)
      in if strict_eq (get acc (fst c)) computed then acc else obj_set (fst c) computed acc)"

definition calc_pass :: "(response \<Rightarrow> 'e \<Rightarrow> jsval) \<Rightarrow> 'e calc list \<Rightarrow> response \<Rightarrow> response" where
  "calc_pass ev cs r = foldl (calc_step ev r) r cs"

definition apply_calculations :: "host \<Rightarrow> form_schema \<Rightarrow> response \<Rightarrow> response" where
  "apply_calculations h form r = calc_pass (evaluate h) (calculations form) r"

subsection \<open>Pruning\<close>

function (sequential) prune_list :: "host \<Rightarrow> response \<Rightarrow> obj \<Rightarrow> question list \<Rightarrow> obj" where
  "prune_list h r out [] = out"
| "prune_list h r out (Question b k # qs) =
     prune_list h r
       (if is_display_only k then out
        else case group_of k of
               Some (None, cs) \<Rightarrow> prune_list h r out cs
             | _ \<Rightarrow> if is_visible h b r \<and> has_key (qb_id b) r
                    then obj_set (qb_id b) (get r (qb_id b)) out else out)
       qs"
  by pat_completeness auto
termination
  by (relation "measure (\<lambda>(h, r, out, qs). size_list size qs)")
     (auto dest: group_of_size intro: group_of_size_question simp: less_Suc_eq_le)

definition prune_hidden :: "host \<Rightarrow> form_schema \<Rightarrow> response \<Rightarrow> obj" where
  "prune_hidden h form r = prune_list h r [] (fs_questions form)"

subsection \<open>Runtime state\<close>

definition is_read_only :: "host \<Rightarrow> question_base \<Rightarrow> kind \<Rightarrow> response \<Rightarrow> bool" where
  "is_read_only h b k r =
     (if type_of k = Some T_calculated \<or> qb_calculate b \<noteq> None then True
      else flag_value h (qb_readOnly b) r)"

record question_state =
  qs_path :: string
  qs_id :: string
  qs_visible :: bool
  qs_required :: bool
  qs_readOnly :: bool

function (sequential) state_list ::
  "host \<Rightarrow> response \<Rightarrow> string \<Rightarrow> bool \<Rightarrow> question list \<Rightarrow> question_state list" where
  "state_list h r p shown [] = []"
| "state_list h r p shown (Question b k # qs) =
     (let visible = shown \<and> is_visible h b r
      in \<lparr> qs_path = p @ qb_id b, qs_id = qb_id b, qs_visible = visible,
           qs_required = is_required h b r, qs_readOnly = is_read_only h b k r \<rparr>
         # (case group_of k of
              None \<Rightarrow> []
            | Some (Some rp, cs) \<Rightarrow>
                concat (map (\<lambda>(p', inst). state_list h inst p' visible cs) (instances r p (qb_id b)))
            | Some (None, cs) \<Rightarrow> state_list h r p visible cs)
         @ state_list h r p shown qs)"
  by pat_completeness auto
termination
  by (relation "measure (\<lambda>(h, r, p, shown, qs). size_list size qs)")
     (auto dest: group_of_size intro: group_of_size_question simp: less_Suc_eq_le)

definition evaluate_form_state :: "host \<Rightarrow> form_schema \<Rightarrow> response \<Rightarrow> question_state list" where
  "evaluate_form_state h form r = state_list h r [] True (fs_questions form)"

subsection \<open>Lemmas: the walk\<close>

inductive in_form :: "question list \<Rightarrow> question \<Rightarrow> bool" where
  here: "q \<in> set qs \<Longrightarrow> in_form qs q"
| inside: "Question b (KGroup rp cs) \<in> set qs \<Longrightarrow> in_form cs q \<Longrightarrow> in_form qs q"

lemma walk_list_append: "walk_list (as @ bs) = walk_list as @ walk_list bs"
  by (induction as rule: walk_list.induct) (auto split: option.splits)

lemma in_form_Cons: "in_form qs q \<Longrightarrow> in_form (x # qs) q"
  by (erule in_form.cases) (auto intro: in_form.intros)

lemma walk_list_sound: "q \<in> set (walk_list qs) \<Longrightarrow> in_form qs q"
proof (induction qs rule: walk_list.induct)
  case (2 b k qs)
  consider "q = Question b k" | "q \<in> set (walk_list qs)"
    | rp cs where "group_of k = Some (rp, cs)" "q \<in> set (walk_list cs)"
    using "2.prems" by (cases "group_of k") auto
  then show ?case
  proof cases
    case 3
    with 2 have "in_form cs q" by blast
    with 3 show ?thesis by (auto simp: group_of_Some intro: in_form.inside)
  qed (use 2 in \<open>auto intro: in_form.here in_form_Cons\<close>)
qed simp

lemma walk_list_split: "x \<in> set qs \<Longrightarrow> set (walk_list [x]) \<subseteq> set (walk_list qs)"
proof (induction qs)
  case (Cons q qs)
  have "walk_list (q # qs) = walk_list [q] @ walk_list qs"
    using walk_list_append [of "[q]" qs] by simp
  with Cons show ?case by auto
qed simp

lemma walk_list_self: "q \<in> set (walk_list [q])"
  by (cases q) simp

lemma walk_list_complete: "in_form qs q \<Longrightarrow> q \<in> set (walk_list qs)"
proof (induction rule: in_form.induct)
  case (here q qs)
  then show ?case using walk_list_split [of q qs] walk_list_self [of q] by blast
next
  case (inside b rp cs qs q)
  then show ?case using walk_list_split [of "Question b (KGroup rp cs)" qs] by auto
qed

lemma walk_list_iff: "q \<in> set (walk_list qs) \<longleftrightarrow> in_form qs q"
  using walk_list_sound walk_list_complete by blast

subsection \<open>Lemmas: one pass writes what it computed from the response it was given\<close>

definition settled :: "jsval \<Rightarrow> jsval \<Rightarrow> bool" where
  "settled old new \<longleftrightarrow> old = new \<or> strict_eq old new"

lemma get_calc_step:
  "get (calc_step ev r acc c) k =
     (if k = fst c \<and> \<not> strict_eq (get acc (fst c)) (ev r (snd c)) then ev r (snd c) else get acc k)"
  by (simp add: calc_step_def Let_def get_obj_set)

lemma calc_fold_other: "k \<notin> fst ` set cs \<Longrightarrow> get (foldl (calc_step ev r) acc cs) k = get acc k"
  by (induction cs arbitrary: acc) (auto simp: get_calc_step)

lemma calc_fold_written:
  "distinct (map fst cs) \<Longrightarrow> (k, e) \<in> set cs \<Longrightarrow>
   get (foldl (calc_step ev r) acc cs) k =
     (if strict_eq (get acc k) (ev r e) then get acc k else ev r e)"
proof (induction cs arbitrary: acc)
  case (Cons c cs)
  show ?case
  proof (cases "c = (k, e)")
    case True
    then have "k \<notin> fst ` set cs" using Cons.prems(1) by auto
    then show ?thesis using True by (simp add: calc_fold_other get_calc_step)
  next
    case False
    with Cons.prems have m: "(k, e) \<in> set cs" and "fst c \<noteq> k" by (auto simp: image_iff)
    then have "get (calc_step ev r acc c) k = get acc k" by (auto simp: get_calc_step)
    then show ?thesis using Cons m by simp
  qed
qed simp

lemma calc_pass_other: "k \<notin> fst ` set cs \<Longrightarrow> get (calc_pass ev cs r) k = get r k"
  by (simp add: calc_pass_def calc_fold_other)

lemma calc_pass_written:
  "distinct (map fst cs) \<Longrightarrow> (k, e) \<in> set cs \<Longrightarrow>
   get (calc_pass ev cs r) k = (if strict_eq (get r k) (ev r e) then get r k else ev r e)"
  by (simp add: calc_pass_def calc_fold_written)

lemma calc_pass_settles:
  "distinct (map fst cs) \<Longrightarrow> (k, e) \<in> set cs \<Longrightarrow> settled (get (calc_pass ev cs r) k) (ev r e)"
  by (simp add: calc_pass_written settled_def)

lemma obj_wf_calc_fold: "obj_wf acc \<Longrightarrow> obj_wf (foldl (calc_step ev r) acc cs)"
  by (induction cs arbitrary: acc) (auto simp: calc_step_def Let_def)

lemma obj_wf_calc_pass: "obj_wf r \<Longrightarrow> obj_wf (calc_pass ev cs r)"
  by (simp add: calc_pass_def obj_wf_calc_fold)

lemma obj_set_same: "get m k = v \<Longrightarrow> v \<noteq> Undef \<Longrightarrow> obj_set k v m = m"
  by (induction m) (auto simp: get_Cons split: if_splits)

lemma calc_step_settled: "settled (get acc (fst c)) (ev r (snd c)) \<Longrightarrow> calc_step ev r acc c = acc"
proof -
  assume s: "settled (get acc (fst c)) (ev r (snd c))"
  show ?thesis
  proof (cases "strict_eq (get acc (fst c)) (ev r (snd c))")
    case False
    with s have e: "get acc (fst c) = ev r (snd c)" by (simp add: settled_def)
    with False have "ev r (snd c) \<noteq> Undef" by auto
    with e show ?thesis by (simp add: calc_step_def Let_def obj_set_same)
  qed (simp add: calc_step_def Let_def)
qed

lemma calc_pass_fixed: "\<forall>(k, e) \<in> set cs. settled (get r k) (ev r e) \<Longrightarrow> calc_pass ev cs r = r"
proof -
  assume s: "\<forall>(k, e) \<in> set cs. settled (get r k) (ev r e)"
  have "foldl (calc_step ev r) r ds = r" if "set ds \<subseteq> set cs" for ds
    using that by (induction ds) (use s in \<open>auto simp: calc_step_settled split_def\<close>)
  then show ?thesis by (simp add: calc_pass_def)
qed

subsection \<open>The interface of an evaluator, and the passes over it\<close>

definition calc_passes :: "(response \<Rightarrow> 'e \<Rightarrow> jsval) \<Rightarrow> 'e calc list \<Rightarrow> nat \<Rightarrow> response \<Rightarrow> response" where
  "calc_passes ev cs n r = (calc_pass ev cs ^^ n) r"

text \<open>A ranking of the calculations: each depends on calculations of smaller rank only.\<close>

definition ranked :: "('e \<Rightarrow> string set) \<Rightarrow> 'e calc list \<Rightarrow> (string \<Rightarrow> nat) \<Rightarrow> bool" where
  "ranked reads cs rank \<longleftrightarrow>
     (\<forall>(k, e) \<in> set cs. \<forall>j \<in> reads e. j \<in> fst ` set cs \<longrightarrow> rank j < rank k)"

lemma calc_passes_0 [simp]: "calc_passes ev cs 0 r = r"
  by (simp add: calc_passes_def)

lemma calc_passes_Suc: "calc_passes ev cs (Suc n) r = calc_pass ev cs (calc_passes ev cs n r)"
  by (simp add: calc_passes_def)

lemma calc_passes_other: "k \<notin> fst ` set cs \<Longrightarrow> get (calc_passes ev cs n r) k = get r k"
  by (induction n) (simp_all add: calc_passes_Suc calc_pass_other)

locale reader =
  fixes ev :: "response \<Rightarrow> 'e \<Rightarrow> jsval" and reads :: "'e \<Rightarrow> string set"
  assumes ev_agree: "agree (reads e) r r' \<Longrightarrow> ev r e = ev r' e"
begin

lemma ev_frame: "k \<notin> reads e \<Longrightarrow> ev (obj_set k v r) e = ev r e"
  by (rule ev_agree) (auto simp: agree_def get_obj_set)

lemma pass_ev_frame: "reads e \<inter> fst ` set cs = {} \<Longrightarrow> ev (calc_pass ev cs r) e = ev r e"
  by (rule ev_agree) (auto simp: agree_def calc_pass_other disjoint_iff)

lemma rank_stable:
  assumes d: "distinct (map fst cs)" and rk: "ranked reads cs rank"
  shows "(k, e) \<in> set cs \<Longrightarrow> rank k < n \<Longrightarrow> settled (get (calc_passes ev cs n r) k) (ev (calc_passes ev cs n r) e)"
proof (induction "rank k" arbitrary: k e n rule: less_induct)
  case less
  obtain m where n: "n = Suc m" using less.prems(2) by (cases n) auto
  let ?a = "calc_passes ev cs m r"
  have low: "get (calc_pass ev cs ?a) j = get ?a j" if "j \<in> reads e" for j
  proof (cases "j \<in> fst ` set cs")
    case True
    then obtain e' where e': "(j, e') \<in> set cs" by auto
    have "rank j < rank k" using rk less.prems(1) that True by (fastforce simp: ranked_def)
    moreover from this have "rank j < m" using less.prems(2) n by simp
    ultimately have "settled (get ?a j) (ev ?a e')" using less.hyps e' by blast
    then show ?thesis using calc_pass_written [OF d e', of ev ?a] by (auto simp: settled_def)
  qed (rule calc_pass_other)
  have "ev (calc_pass ev cs ?a) e = ev ?a e"
    by (rule ev_agree) (use low in \<open>auto simp: agree_def\<close>)
  then show ?case
    using calc_pass_settles [OF d less.prems(1), of ev ?a] by (simp add: n calc_passes_Suc)
qed

lemma passes_settle:
  assumes "distinct (map fst cs)" and "ranked reads cs rank" and "\<forall>k \<in> fst ` set cs. rank k < n"
  shows "calc_pass ev cs (calc_passes ev cs n r) = calc_passes ev cs n r"
  by (rule calc_pass_fixed) (use assms rank_stable in force)

end

interpretation form_reader: reader "evaluate h" expr_refs for h
  by unfold_locales (rule evaluate_agree)

subsection \<open>Lemmas: what is pruned\<close>

text \<open>The questions whose answers are top-level keys: through groups that do not repeat.\<close>

inductive flat_in :: "question list \<Rightarrow> question \<Rightarrow> bool" where
  here: "q \<in> set qs \<Longrightarrow> flat_in qs q"
| inside: "Question b (KGroup None cs) \<in> set qs \<Longrightarrow> flat_in cs q \<Longrightarrow> flat_in qs q"

inductive_cases flat_in_E: "flat_in qs q"

definition holds_answer :: "kind \<Rightarrow> bool" where
  "holds_answer k \<longleftrightarrow> \<not> is_display_only k \<and> (\<forall>cs. k \<noteq> KGroup None cs)"

definition kept :: "host \<Rightarrow> response \<Rightarrow> question list \<Rightarrow> string \<Rightarrow> bool" where
  "kept h r qs i \<longleftrightarrow>
     (\<exists>b k. flat_in qs (Question b k) \<and> holds_answer k \<and> is_visible h b r \<and> qb_id b = i)"

lemma flat_in_Nil [simp]: "\<not> flat_in [] q"
  by (auto elim: flat_in_E)

lemma flat_in_more: "flat_in qs q \<Longrightarrow> flat_in (x # qs) q"
  by (erule flat_in.cases) (meson flat_in.here flat_in.inside list.set_intros(2))+

lemma flat_in_Cons:
  "flat_in (x # qs) q \<longleftrightarrow> q = x \<or> (\<exists>b cs. x = Question b (KGroup None cs) \<and> flat_in cs q) \<or> flat_in qs q"
proof
  assume "flat_in (x # qs) q"
  then show "q = x \<or> (\<exists>b cs. x = Question b (KGroup None cs) \<and> flat_in cs q) \<or> flat_in qs q"
    by cases (auto dest: flat_in.here flat_in.inside)
next
  assume "q = x \<or> (\<exists>b cs. x = Question b (KGroup None cs) \<and> flat_in cs q) \<or> flat_in qs q"
  then show "flat_in (x # qs) q"
    by (elim disjE exE conjE) (auto intro: flat_in.here flat_in.inside flat_in_more)
qed

lemma kept_Cons:
  "kept h r (Question b k # qs) i \<longleftrightarrow>
   (\<exists>cs. k = KGroup None cs \<and> kept h r cs i) \<or> holds_answer k \<and> is_visible h b r \<and> qb_id b = i \<or>
   kept h r qs i"
  unfolding kept_def flat_in_Cons by auto

lemma prune_list_map:
  "map_of (prune_list h r out qs) i = (if kept h r qs i \<and> has_key i r then map_of r i else map_of out i)"
proof (induction h r out qs rule: prune_list.induct)
  case (1 h r out)
  then show ?case by (simp add: kept_def)
next
  case (2 h r out b k qs)
  have some: "Some (get r j) = map_of r j" if "has_key j r" for j
    using that by (auto simp: has_key_map_of get_def)
  show ?case
  proof (cases "\<exists>cs. k = KGroup None cs")
    case True
    with 2 show ?thesis by (auto simp: kept_Cons holds_answer_def)
  next
    case ng: False
    then have g: "case group_of k of Some (None, cs) \<Rightarrow> X cs | _ \<Rightarrow> Y" if "Y" for X Y
      using that by (auto simp: group_of_Some split: option.split)
    have "prune_list h r out (Question b k # qs) =
       prune_list h r (if \<not> is_display_only k \<and> is_visible h b r \<and> has_key (qb_id b) r
                       then obj_set (qb_id b) (get r (qb_id b)) out else out) qs"
      using ng by (auto simp: group_of_Some split: option.splits)
    moreover have "map_of (prune_list h r (if \<not> is_display_only k \<and> is_visible h b r \<and> has_key (qb_id b) r
                       then obj_set (qb_id b) (get r (qb_id b)) out else out) qs) i =
       (if kept h r qs i \<and> has_key i r then map_of r i
        else map_of (if \<not> is_display_only k \<and> is_visible h b r \<and> has_key (qb_id b) r
                       then obj_set (qb_id b) (get r (qb_id b)) out else out) i)"
      using 2(2) ng by (auto simp: group_of_Some split: option.splits if_splits)
    ultimately show ?thesis
      using ng by (auto simp: kept_Cons holds_answer_def some)
  qed
qed

lemma prune_list_wf: "obj_wf out \<Longrightarrow> obj_wf (prune_list h r out qs)"
  by (induction h r out qs rule: prune_list.induct) (auto split: option.splits)

subsection \<open>Lemmas: the state lists every occurrence\<close>

lemma state_list_member:
  "q \<in> set qs \<Longrightarrow> set (state_list h r p shown [q]) \<subseteq> set (state_list h r p shown qs)"
proof (induction qs)
  case (Cons x qs)
  have "set (state_list h r p shown (x # qs)) = set (state_list h r p shown [x]) \<union> set (state_list h r p shown qs)"
    by (cases x) (auto simp: Let_def)
  with Cons show ?case by auto
qed simp

definition groups_open :: "question list \<Rightarrow> bool" where
  "groups_open qs \<longleftrightarrow>
     (\<forall>b cs. in_form qs (Question b (KGroup None cs)) \<longrightarrow> qb_visible b \<noteq> Some False \<and> qb_visibleIf b = None)"

lemma groups_open_sub: "groups_open qs \<Longrightarrow> Question b (KGroup rp cs) \<in> set qs \<Longrightarrow> groups_open cs"
  unfolding groups_open_def by (blast intro: in_form.inside)

lemma groups_open_visible:
  "groups_open qs \<Longrightarrow> Question b (KGroup None cs) \<in> set qs \<Longrightarrow> is_visible h b r"
  using in_form.here [of "Question b (KGroup None cs)" qs]
  by (auto simp: groups_open_def is_visible_def)

definition state_of :: "host \<Rightarrow> occurrence \<Rightarrow> bool \<Rightarrow> question_state" where
  "state_of h oc visible =
     \<lparr> qs_path = oc_path oc, qs_id = qb_id (oc_base oc), qs_visible = visible,
       qs_required = is_required h (oc_base oc) (oc_response oc),
       qs_readOnly = is_read_only h (oc_base oc) (oc_kind oc) (oc_response oc) \<rparr>"

lemma state_covers:
  "occurs h r p qs oc \<Longrightarrow>
   \<exists>v. state_of h oc v \<in> set (state_list h r p shown qs) \<and>
     (shown \<and> groups_open qs \<longrightarrow> v = is_visible h (oc_base oc) (oc_response oc))"
proof (induction arbitrary: shown rule: occurs.induct)
  case (leaf b k qs r p)
  let ?oc = "\<lparr> oc_path = p @ qb_id b, oc_base = b, oc_kind = k, oc_response = r \<rparr>"
  have "state_of h ?oc (shown \<and> is_visible h b r) \<in> set (state_list h r p shown [Question b k])"
    by (simp add: state_of_def Let_def)
  then show ?case using state_list_member [OF leaf(1)] by fastforce
next
  case (in_group b cs qs r p oc)
  obtain v where v: "state_of h oc v \<in> set (state_list h r p (shown \<and> is_visible h b r) cs)"
      "(shown \<and> is_visible h b r) \<and> groups_open cs \<longrightarrow> v = is_visible h (oc_base oc) (oc_response oc)"
    using in_group.IH by blast
  then have "state_of h oc v \<in> set (state_list h r p shown [Question b (KGroup None cs)])"
    by (simp add: Let_def)
  then have "state_of h oc v \<in> set (state_list h r p shown qs)"
    using state_list_member [OF in_group(1)] by blast
  then show ?case using v(2) groups_open_sub groups_open_visible in_group(1) by blast
next
  case (in_repeat b rp cs qs r a vs i p oc)
  let ?p' = "instance_prefix p (qb_id b) i"
  obtain v where v: "state_of h oc v \<in> set (state_list h (instance_obj (vs ! i)) ?p' shown cs)"
      "shown \<and> groups_open cs \<longrightarrow> v = is_visible h (oc_base oc) (oc_response oc)"
    using in_repeat.IH by blast
  have "(?p', instance_obj (vs ! i)) \<in> set (instances r p (qb_id b))"
    using in_repeat by (auto simp: set_instances)
  with v(1) in_repeat(2)
  have "state_of h oc v \<in> set (state_list h r p shown [Question b (KGroup (Some rp) cs)])"
    by (force simp: Let_def)
  then have "state_of h oc v \<in> set (state_list h r p shown qs)"
    using state_list_member [OF in_repeat(1)] by blast
  then show ?case using v(2) groups_open_sub in_repeat(1) by blast
qed

subsection \<open>Properties\<close>

text \<open>every error of the validator names a question the runtime state lists under the
  same path, and, in a form whose plain (not repeating) groups are never hidden, one the state
  shows to the respondent.\<close>

theorem errors_point_at_listed_questions:
  assumes "validate h form r = Inr res" and "e \<in> set (vr_errors res)"
  shows "\<exists>s \<in> set (evaluate_form_state h form r). qs_path s = ve_questionId e \<and>
     (groups_open (fs_questions form) \<longrightarrow> qs_visible s)"
proof -
  obtain oc where oc: "occurs h r [] (fs_questions form) oc" "ve_questionId e = oc_path oc"
      and x: "validate_occurrence h oc = Inr [e]"
    using error_occurrence [OF assms(1)] assms(2) by blast
  have vis: "is_visible h (oc_base oc) (oc_response oc)"
    using x by (auto simp: validate_occurrence_def validate_question_def split: if_splits)
  obtain v where "state_of h oc v \<in> set (evaluate_form_state h form r)"
      "groups_open (fs_questions form) \<longrightarrow> v = is_visible h (oc_base oc) (oc_response oc)"
    using state_covers [OF oc(1), of True] by (auto simp: evaluate_form_state_def)
  then show ?thesis using vis oc(2) by (intro bexI) (auto simp: state_of_def)
qed

text \<open>A form with a hidden group around a required yes/no question.\<close>

definition hidden_group_form :: form_schema where
  "hidden_group_form = plain_form
     [Question (plain_base ''g'' \<lparr> qb_visible := Some False \<rparr>)
        (KGroup None [Question (plain_base ''a'' \<lparr> qb_required := FBool True \<rparr>) yes_no])]"

lemmas hidden_group_simps = hidden_group_form_def plain_simps validate_def validate_question_def
  is_display_only_def is_visible_def is_required_def flag_value_def is_uncapturable_def
  UNCAPTURABLE_QUESTION_TYPES_def one_error_def append_results_def

lemma errors_point_at_listed_questions_witness:
  "\<exists>s \<in> set (evaluate_form_state host0 hidden_group_form []). qs_path s = ''a'' \<and>
     (groups_open (fs_questions hidden_group_form) \<longrightarrow> qs_visible s)"
proof -
  let ?e = "\<lparr> ve_questionId = ''a'', ve_message = ''This field is required.'' \<rparr>"
  have "validate host0 hidden_group_form [] = Inr \<lparr> vr_ok = False, vr_errors = [?e] \<rparr>"
    by (simp add: hidden_group_simps)
  then show ?thesis using errors_point_at_listed_questions [of host0 hidden_group_form "[]" _ ?e] by simp
qed

text \<open>the agreement stops at hidden plain groups. The runtime state hides the children of a
  hidden group, the validator still checks them: the form below cannot be submitted, and the
  error points at a question the respondent is not shown.\<close>

theorem hidden_group_blocks_submission:
  "validate host0 hidden_group_form [] =
     Inr \<lparr> vr_ok = False,
           vr_errors = [\<lparr> ve_questionId = ''a'', ve_message = ''This field is required.'' \<rparr>] \<rparr> \<and>
   map (\<lambda>s. (qs_path s, qs_visible s)) (evaluate_form_state host0 hidden_group_form []) =
     [(''g'', False), (''a'', False)]"
  by (simp add: hidden_group_simps evaluate_form_state_def is_read_only_def)

text \<open>Pruning keeps exactly the answers of the shown questions that answer at top level
  (through groups that do not repeat; a shown repeat group keeps its whole array), unchanged,
  and drops every other key.\<close>

theorem prune_hidden_exact:
  "map_of (prune_hidden h form r) i =
     (if (\<exists>b k. flat_in (fs_questions form) (Question b k) \<and> holds_answer k \<and> is_visible h b r \<and> qb_id b = i)
      then map_of r i else None)"
  by (auto simp: prune_hidden_def prune_list_map kept_def has_key_map_of)

text \<open>A calculation pass leaves every answer that is not calculated as it was, and stores
  for each calculated question the value its expression has in the response given to the
  pass (up to strict equality, under which a value already there is kept).\<close>

theorem apply_calculations_frame:
  "(\<not> (\<exists>q. in_form (fs_questions form) q \<and> qid q = k \<and> qb_calculate (qbase q) \<noteq> None) \<longrightarrow>
      get (apply_calculations h form r) k = get r k) \<and>
   (distinct (map fst (calculations form)) \<longrightarrow> (k, e) \<in> set (calculations form) \<longrightarrow>
      settled (get (apply_calculations h form r) k) (evaluate h r e))"
proof (intro conjI impI)
  assume "\<not> (\<exists>q. in_form (fs_questions form) q \<and> qid q = k \<and> qb_calculate (qbase q) \<noteq> None)"
  then have "k \<notin> fst ` set (calculations form)"
    by (auto simp: calculations_def walk_questions_def walk_list_iff split: option.splits)
  then show "get (apply_calculations h form r) k = get r k"
    by (simp add: apply_calculations_def calc_pass_other)
qed (simp add: apply_calculations_def calc_pass_settles)

lemma apply_calculations_frame_witness:
  "settled (get (apply_calculations host0 (plain_form
      [Question (plain_base ''c'' \<lparr> qb_calculate := Some (Not (And [])) \<rparr>) yes_no]) []) ''c'') (JBool False)"
  using apply_calculations_frame [of "plain_form
      [Question (plain_base ''c'' \<lparr> qb_calculate := Some (Not (And [])) \<rparr>) yes_no]" "''c''" host0 "[]" "Not (And [])"]
  by (simp add: calculations_def walk_questions_def plain_simps)

text \<open>C16: when no calculation depends on itself through others, passes settle: after as many as
  the longest chain of dependencies a further pass changes nothing. (One pass is not enough in
  general, since each computes from the response it was given.)\<close>

theorem apply_calculations_converges:
  assumes "distinct (map fst (calculations form))"
    and "ranked expr_refs (calculations form) rank"
    and "\<forall>k \<in> fst ` set (calculations form). rank k < n"
  shows "apply_calculations h form ((apply_calculations h form ^^ n) r) = (apply_calculations h form ^^ n) r"
proof -
  have "(apply_calculations h form ^^ m) r = calc_passes (evaluate h) (calculations form) m r" for m
    by (induction m) (simp_all add: calc_passes_Suc apply_calculations_def)
  then show ?thesis
    using form_reader.passes_settle [OF assms] by (simp add: apply_calculations_def)
qed

text \<open>\<open>b\<close> copies \<open>c\<close>, which is always false: two passes are needed.\<close>

definition chained_form :: form_schema where
  "chained_form = plain_form
     [Question (plain_base ''b'' \<lparr> qb_calculate := Some (Cond (And []) (Ref ''c'') (Lit JNull)) \<rparr>) yes_no,
      Question (plain_base ''c'' \<lparr> qb_calculate := Some (Not (And [])) \<rparr>) yes_no]"

lemma apply_calculations_converges_witness:
  "apply_calculations host0 chained_form ((apply_calculations host0 chained_form ^^ 2) []) =
     (apply_calculations host0 chained_form ^^ 2) [] \<and>
   (apply_calculations host0 chained_form ^^ 2) [] = [(''b'', JBool False), (''c'', JBool False)] \<and>
   apply_calculations host0 chained_form [] = [(''b'', JNull), (''c'', JBool False)]"
proof -
  let ?rank = "\<lambda>k. if k = ''b'' then 1 else (0::nat)"
  have c: "calculations chained_form =
      [(''b'', Cond (And []) (Ref ''c'') (Lit JNull)), (''c'', Not (And []))]"
    by (simp add: calculations_def walk_questions_def chained_form_def plain_simps)
  have "apply_calculations host0 chained_form ((apply_calculations host0 chained_form ^^ 2) []) =
      (apply_calculations host0 chained_form ^^ 2) []"
    by (rule apply_calculations_converges [where rank = ?rank]) (auto simp: c ranked_def)
  then show ?thesis
    by (simp add: c apply_calculations_def calc_pass_def calc_step_def numeral_2_eq_2 coalesce_def get_def Let_def)
qed

end
