(* ===== verification/EngineVersion.thy ===== *)
theory EngineVersion
  imports FormTypes
begin

text \<open>
  \<open>packages/form-schema/src/engine-version.ts\<close>: the version of the evaluator a form needs, from
  tables of the question types, operators and builtins. The walk carries the requirement
  collected so far; the lemmas describe it by the set of features of a form.
\<close>

subsection \<open>Names and tables\<close>

primrec qtype_name :: "qtype \<Rightarrow> string" where
  "qtype_name T_text = ''text''"
| "qtype_name T_multiline = ''multiline''"
| "qtype_name T_email = ''email''"
| "qtype_name T_url = ''url''"
| "qtype_name T_phone = ''phone''"
| "qtype_name T_regex = ''regex''"
| "qtype_name T_number = ''number''"
| "qtype_name T_integer = ''integer''"
| "qtype_name T_boolean = ''boolean''"
| "qtype_name T_select_one = ''select-one''"
| "qtype_name T_select_many = ''select-many''"
| "qtype_name T_matrix_single = ''matrix-single''"
| "qtype_name T_matrix_multi = ''matrix-multi''"
| "qtype_name T_matrix_dropdown = ''matrix-dropdown''"
| "qtype_name T_matrix_rating = ''matrix-rating''"
| "qtype_name T_ranking = ''ranking''"
| "qtype_name T_date = ''date''"
| "qtype_name T_time = ''time''"
| "qtype_name T_datetime = ''datetime''"
| "qtype_name T_name = ''name''"
| "qtype_name T_address = ''address''"
| "qtype_name T_photo = ''photo''"
| "qtype_name T_audio = ''audio''"
| "qtype_name T_video = ''video''"
| "qtype_name T_barcode = ''barcode''"
| "qtype_name T_sketch = ''sketch''"
| "qtype_name T_file = ''file''"
| "qtype_name T_image_choice = ''image-choice''"
| "qtype_name T_image_display = ''image-display''"
| "qtype_name T_image_hotspot = ''image-hotspot''"
| "qtype_name T_signature = ''signature''"
| "qtype_name T_geopoint = ''geopoint''"
| "qtype_name T_geotrace = ''geotrace''"
| "qtype_name T_geoshape = ''geoshape''"
| "qtype_name T_pick_feature = ''pick-feature''"
| "qtype_name T_route = ''route''"
| "qtype_name T_area_buffer = ''area-buffer''"
| "qtype_name T_rating = ''rating''"
| "qtype_name T_likert = ''likert''"
| "qtype_name T_nps = ''nps''"
| "qtype_name T_slider = ''slider''"
| "qtype_name T_calculated = ''calculated''"
| "qtype_name T_note = ''note''"
| "qtype_name T_divider = ''divider''"
| "qtype_name T_acknowledge = ''acknowledge''"
| "qtype_name T_hidden = ''hidden''"
| "qtype_name T_page = ''page''"
| "qtype_name T_group = ''group''"

primrec builtin_name :: "builtin \<Rightarrow> string" where
  "builtin_name B_today = ''today''"
| "builtin_name B_now = ''now''"
| "builtin_name B_len = ''len''"
| "builtin_name B_sum = ''sum''"
| "builtin_name B_count = ''count''"
| "builtin_name B_coalesce = ''coalesce''"
| "builtin_name B_lower = ''lower''"
| "builtin_name B_upper = ''upper''"
| "builtin_name B_trim = ''trim''"
| "builtin_name B_contains = ''contains''"
| "builtin_name B_starts_with = ''starts_with''"
| "builtin_name B_ends_with = ''ends_with''"
| "builtin_name B_substring = ''substring''"
| "builtin_name B_abs = ''abs''"
| "builtin_name B_round = ''round''"
| "builtin_name B_floor = ''floor''"
| "builtin_name B_ceil = ''ceil''"
| "builtin_name B_min_of = ''min_of''"
| "builtin_name B_max_of = ''max_of''"
| "builtin_name B_selected = ''selected''"
| "builtin_name (BUnknown n) = n"

primrec binop_name :: "binop \<Rightarrow> string" where
  "binop_name OpEq = ''eq''"
| "binop_name OpNeq = ''neq''"
| "binop_name OpGt = ''gt''"
| "binop_name OpGte = ''gte''"
| "binop_name OpLt = ''lt''"
| "binop_name OpLte = ''lte''"
| "binop_name OpIn = ''in''"
| "binop_name OpAdd = ''add''"
| "binop_name OpSub = ''sub''"
| "binop_name OpMul = ''mul''"
| "binop_name OpDiv = ''div''"

fun op_name :: "expression \<Rightarrow> string" where
  "op_name (Bin op _ _) = binop_name op"
| "op_name (And _) = ''and''"
| "op_name (Or _) = ''or''"
| "op_name (Not _) = ''not''"
| "op_name (Between _ _ _) = ''between''"
| "op_name (Matches _ _ _) = ''matches''"
| "op_name (Concat _) = ''concat''"
| "op_name (Cond _ _ _) = ''if''"
| "op_name (OpUnknown n) = n"

fun kind_name :: "kind \<Rightarrow> string" where
  "kind_name k = (case type_of k of Some t \<Rightarrow> qtype_name t
                  | None \<Rightarrow> (case k of KOther n _ \<Rightarrow> n | _ \<Rightarrow> []))"

definition ENGINE_VERSION :: nat where
  "ENGINE_VERSION = 1"

definition UNKNOWN_VERSION :: nat where
  "UNKNOWN_VERSION = ENGINE_VERSION + 1"

definition QUESTION_TYPE_ENGINE_VERSION :: "(string \<times> nat) list" where
  "QUESTION_TYPE_ENGINE_VERSION =
     [(''text'', 1), (''multiline'', 1), (''email'', 1), (''url'', 1), (''phone'', 1),
      (''regex'', 1), (''number'', 1), (''integer'', 1), (''boolean'', 1), (''select-one'', 1),
      (''select-many'', 1), (''matrix-single'', 1), (''matrix-multi'', 1),
      (''matrix-dropdown'', 1), (''matrix-rating'', 1), (''ranking'', 1), (''date'', 1),
      (''time'', 1), (''datetime'', 1), (''name'', 1), (''address'', 1), (''photo'', 1),
      (''audio'', 1), (''video'', 1), (''barcode'', 1), (''sketch'', 1), (''file'', 1),
      (''image-choice'', 1), (''image-display'', 1), (''image-hotspot'', 1), (''signature'', 1),
      (''geopoint'', 1), (''geotrace'', 1), (''geoshape'', 1), (''pick-feature'', 1),
      (''route'', 1), (''area-buffer'', 1), (''rating'', 1), (''likert'', 1), (''nps'', 1),
      (''slider'', 1), (''calculated'', 1), (''note'', 1), (''divider'', 1),
      (''acknowledge'', 1), (''hidden'', 1), (''page'', 1), (''group'', 1)]"

definition EXPRESSION_OP_ENGINE_VERSION :: "(string \<times> nat) list" where
  "EXPRESSION_OP_ENGINE_VERSION =
     [(''eq'', 1), (''neq'', 1), (''gt'', 1), (''gte'', 1), (''lt'', 1), (''lte'', 1),
      (''and'', 1), (''or'', 1), (''not'', 1), (''in'', 1), (''between'', 1), (''matches'', 1),
      (''add'', 1), (''sub'', 1), (''mul'', 1), (''div'', 1), (''concat'', 1), (''if'', 1)]"

definition BUILTIN_ENGINE_VERSION :: "(string \<times> nat) list" where
  "BUILTIN_ENGINE_VERSION =
     [(''today'', 1), (''now'', 1), (''len'', 1), (''sum'', 1), (''count'', 1),
      (''coalesce'', 1), (''lower'', 1), (''upper'', 1), (''trim'', 1), (''contains'', 1),
      (''starts_with'', 1), (''ends_with'', 1), (''substring'', 1), (''abs'', 1), (''round'', 1),
      (''floor'', 1), (''ceil'', 1), (''min_of'', 1), (''max_of'', 1), (''selected'', 1)]"

definition FORM_SCHEMA_ENGINE_VERSION :: "(jsnum \<times> nat) list" where
  "FORM_SCHEMA_ENGINE_VERSION = [(Fin 1, 1)]"

lemmas engine_tables = QUESTION_TYPE_ENGINE_VERSION_def EXPRESSION_OP_ENGINE_VERSION_def
  BUILTIN_ENGINE_VERSION_def FORM_SCHEMA_ENGINE_VERSION_def

subsection \<open>The walk\<close>

text \<open>\<open>er_unknown\<close> is the set of labels, in the order they were first added.\<close>

record engine_requirement =
  er_version :: nat
  er_unknown :: "string list"

definition set_add :: "'a \<Rightarrow> 'a list \<Rightarrow> 'a list" where
  "set_add x xs = (if x \<in> set xs then xs else xs @ [x])"

definition need :: "nat option \<Rightarrow> string \<Rightarrow> engine_requirement \<Rightarrow> engine_requirement" where
  "need v label s =
     (case v of
        None \<Rightarrow> s\<lparr> er_unknown := set_add label (er_unknown s), er_version := max (er_version s) UNKNOWN_VERSION \<rparr>
      | Some n \<Rightarrow> s\<lparr> er_version := max (er_version s) n \<rparr>)"

definition need_builtin :: "string \<Rightarrow> engine_requirement \<Rightarrow> engine_requirement" where
  "need_builtin name = need (map_of BUILTIN_ENGINE_VERSION name) (''builtin:'' @ name)"

definition need_op :: "string \<Rightarrow> engine_requirement \<Rightarrow> engine_requirement" where
  "need_op name = need (map_of EXPRESSION_OP_ENGINE_VERSION name) (''op:'' @ name)"

definition need_type :: "string \<Rightarrow> engine_requirement \<Rightarrow> engine_requirement" where
  "need_type name = need (map_of QUESTION_TYPE_ENGINE_VERSION name) (''question-type:'' @ name)"

fun walk_operand :: "operand \<Rightarrow> engine_requirement \<Rightarrow> engine_requirement" where
  "walk_operand (Call f args) s = fold walk_operand args (need_builtin (builtin_name f) s)"
| "walk_operand (Ref _) s = s"
| "walk_operand (Lit _) s = s"

fun walk_expression :: "expression \<Rightarrow> engine_requirement \<Rightarrow> engine_requirement" where
  "walk_expression (And es) s = fold walk_expression es (need_op ''and'' s)"
| "walk_expression (Or es) s = fold walk_expression es (need_op ''or'' s)"
| "walk_expression (Not e) s = walk_expression e (need_op ''not'' s)"
| "walk_expression (Between v lo hi) s = walk_operand hi (walk_operand lo (walk_operand v (need_op ''between'' s)))"
| "walk_expression (Concat xs) s = fold walk_operand xs (need_op ''concat'' s)"
| "walk_expression (Cond c t e) s = walk_operand e (walk_operand t (walk_expression c (need_op ''if'' s)))"
| "walk_expression (Bin op a b) s = walk_operand b (walk_operand a (need_op (binop_name op) s))"
| "walk_expression (Matches a b _) s = walk_operand b (walk_operand a (need_op ''matches'' s))"
| "walk_expression (OpUnknown n) s = need_op n s"

definition walk_opt :: "expression option \<Rightarrow> engine_requirement \<Rightarrow> engine_requirement" where
  "walk_opt e s = (case e of None \<Rightarrow> s | Some e \<Rightarrow> walk_expression e s)"

definition walk_flag :: "flag \<Rightarrow> engine_requirement \<Rightarrow> engine_requirement" where
  "walk_flag f s = (case f of FExpr e \<Rightarrow> walk_expression e s | _ \<Rightarrow> s)"

definition walk_base :: "question_base \<Rightarrow> engine_requirement \<Rightarrow> engine_requirement" where
  "walk_base b s =
     walk_opt (qb_calculate b) (walk_flag (qb_readOnly b) (walk_opt (qb_constraint b)
       (walk_flag (qb_required b) (walk_opt (qb_visibleIf b) s))))"

fun children_of :: "kind \<Rightarrow> question list" where
  "children_of (KGroup _ cs) = cs"
| "children_of (KOther _ cs) = cs"
| "children_of _ = []"

lemma children_size: "q \<in> set (children_of k) \<Longrightarrow> size q < size k"
  by (cases k) (auto dest: size_list_estimation' [of _ _ _ size] simp: less_Suc_eq_le intro: size_list_estimation')

function walk_question :: "question \<Rightarrow> engine_requirement \<Rightarrow> engine_requirement" where
  "walk_question (Question b k) s =
     fold walk_question (children_of k) (walk_base b (need_type (kind_name k) s))"
  by pat_completeness auto
termination
  by (relation "measure (\<lambda>(q, s). size q)") (auto dest: children_size)

definition need_schema :: "jsnum \<Rightarrow> engine_requirement \<Rightarrow> engine_requirement" where
  "need_schema v = need (map_of FORM_SCHEMA_ENGINE_VERSION v) (''schema-version:'' @ num_to_string v)"

definition engine_requirement :: "form_schema \<Rightarrow> engine_requirement" where
  "engine_requirement form =
     (let s = fold walk_question (fs_questions form)
                (need_schema (fs_schemaVersion form) \<lparr> er_version = 1, er_unknown = [] \<rparr>)
      in s\<lparr> er_unknown := sort (er_unknown s) \<rparr>)"

definition required_engine_version :: "form_schema \<Rightarrow> nat" where
  "required_engine_version form = er_version (engine_requirement form)"

definition engine_supports :: "form_schema \<Rightarrow> bool" where
  "engine_supports form \<longleftrightarrow> required_engine_version form \<le> ENGINE_VERSION"

subsection \<open>Specification: the features of a form\<close>

datatype feature = F_type string | F_op string | F_builtin string | F_schema jsnum

fun feature_version :: "feature \<Rightarrow> nat option" where
  "feature_version (F_type n) = map_of QUESTION_TYPE_ENGINE_VERSION n"
| "feature_version (F_op n) = map_of EXPRESSION_OP_ENGINE_VERSION n"
| "feature_version (F_builtin n) = map_of BUILTIN_ENGINE_VERSION n"
| "feature_version (F_schema v) = map_of FORM_SCHEMA_ENGINE_VERSION v"

fun feature_label :: "feature \<Rightarrow> string" where
  "feature_label (F_type n) = ''question-type:'' @ n"
| "feature_label (F_op n) = ''op:'' @ n"
| "feature_label (F_builtin n) = ''builtin:'' @ n"
| "feature_label (F_schema v) = ''schema-version:'' @ num_to_string v"

fun operand_features :: "operand \<Rightarrow> feature set" where
  "operand_features (Call f args) = insert (F_builtin (builtin_name f)) (\<Union>x \<in> set args. operand_features x)"
| "operand_features _ = {}"

fun expr_features :: "expression \<Rightarrow> feature set" where
  "expr_features (And es) = insert (F_op ''and'') (\<Union>e \<in> set es. expr_features e)"
| "expr_features (Or es) = insert (F_op ''or'') (\<Union>e \<in> set es. expr_features e)"
| "expr_features (Not e) = insert (F_op ''not'') (expr_features e)"
| "expr_features (Between v lo hi) =
     insert (F_op ''between'') (operand_features v \<union> operand_features lo \<union> operand_features hi)"
| "expr_features (Concat xs) = insert (F_op ''concat'') (\<Union>x \<in> set xs. operand_features x)"
| "expr_features (Cond c t e) =
     insert (F_op ''if'') (expr_features c \<union> operand_features t \<union> operand_features e)"
| "expr_features (Bin op a b) = insert (F_op (binop_name op)) (operand_features a \<union> operand_features b)"
| "expr_features (Matches a b _) = insert (F_op ''matches'') (operand_features a \<union> operand_features b)"
| "expr_features (OpUnknown n) = {F_op n}"

definition flag_features :: "flag \<Rightarrow> feature set" where
  "flag_features f = (case f of FExpr e \<Rightarrow> expr_features e | _ \<Rightarrow> {})"

definition opt_features :: "expression option \<Rightarrow> feature set" where
  "opt_features e = (case e of None \<Rightarrow> {} | Some e \<Rightarrow> expr_features e)"

definition base_features :: "question_base \<Rightarrow> feature set" where
  "base_features b = opt_features (qb_visibleIf b) \<union> flag_features (qb_required b) \<union>
     opt_features (qb_constraint b) \<union> flag_features (qb_readOnly b) \<union> opt_features (qb_calculate b)"

function question_features :: "question \<Rightarrow> feature set" where
  "question_features (Question b k) =
     insert (F_type (kind_name k)) (base_features b \<union> (\<Union>q \<in> set (children_of k). question_features q))"
  by pat_completeness auto
termination
  by (relation "measure size") (auto dest: children_size)

definition form_features :: "form_schema \<Rightarrow> feature set" where
  "form_features form =
     insert (F_schema (fs_schemaVersion form)) (\<Union>q \<in> set (fs_questions form). question_features q)"

subsection \<open>The walk collects the features\<close>

text \<open>\<open>collects F s s'\<close>: from \<open>s\<close> the walk reached \<open>s'\<close> having needed exactly the features of \<open>F\<close>.\<close>

definition collects :: "feature set \<Rightarrow> engine_requirement \<Rightarrow> engine_requirement \<Rightarrow> bool" where
  "collects F s s' \<longleftrightarrow>
     (\<forall>n. er_version s' \<le> n \<longleftrightarrow>
        er_version s \<le> n \<and> (\<forall>f \<in> F. (case feature_version f of None \<Rightarrow> UNKNOWN_VERSION | Some v \<Rightarrow> v) \<le> n)) \<and>
     set (er_unknown s') = set (er_unknown s) \<union> {feature_label f |f. f \<in> F \<and> feature_version f = None} \<and>
     (distinct (er_unknown s) \<longrightarrow> distinct (er_unknown s'))"

named_theorems collect_intros

lemma collects_refl [collect_intros]: "collects {} s s"
  by (simp add: collects_def)

lemma collects_trans: "collects G t u \<Longrightarrow> collects F s t \<Longrightarrow> collects (F \<union> G) s u"
  unfolding collects_def by auto

lemma collects_need: "collects {f} s (need (feature_version f) (feature_label f) s)"
  by (auto simp: collects_def need_def set_add_def split: option.splits)

lemma collects_need_builtin: "collects {F_builtin n} s (need_builtin n s)"
  using collects_need [of "F_builtin n"] by (simp add: need_builtin_def)

lemma collects_need_op: "collects {F_op n} s (need_op n s)"
  using collects_need [of "F_op n"] by (simp add: need_op_def)

lemma collects_need_type: "collects {F_type n} s (need_type n s)"
  using collects_need [of "F_type n"] by (simp add: need_type_def)

lemma collects_need_schema: "collects {F_schema v} s (need_schema v s)"
  using collects_need [of "F_schema v"] by (simp add: need_schema_def)

lemma collects_insert: "collects G t u \<Longrightarrow> collects {f} s t \<Longrightarrow> collects (insert f G) s u"
  using collects_trans [of G t u "{f}" s] by simp

lemma collects_fold:
  "(\<And>x s. x \<in> set xs \<Longrightarrow> collects (F x) s (step x s)) \<Longrightarrow> collects (\<Union>x \<in> set xs. F x) s (fold step xs s)"
proof (induction xs arbitrary: s)
  case (Cons x xs)
  then show ?case using collects_trans [where F = "F x" and s = s and t = "step x s"] by simp
qed (simp add: collects_refl)

lemma collects_operand: "collects (operand_features x) s (walk_operand x s)"
proof (induction x s rule: walk_operand.induct)
  case (1 f args s)
  show ?case
    by (simp only: operand_features.simps walk_operand.simps)
       (rule collects_need_builtin collects_fold collects_insert 1 | assumption)+
qed (simp_all add: collects_refl)

lemmas collects_rules = collects_need_op collects_operand collects_fold collects_trans collects_insert

lemma collects_expression: "collects (expr_features e) s (walk_expression e s)"
proof (induction e s rule: walk_expression.induct)
  case (1 es s)
  show ?case by (simp only: expr_features.simps walk_expression.simps) (rule collects_rules 1 | assumption)+
next
  case (2 es s)
  show ?case by (simp only: expr_features.simps walk_expression.simps) (rule collects_rules 2 | assumption)+
next
  case (3 e s)
  show ?case by (simp only: expr_features.simps walk_expression.simps) (rule collects_rules 3)+
next
  case (6 c t e s)
  show ?case
    by (simp only: expr_features.simps walk_expression.simps) (rule collects_rules 6)+
qed (simp_all only: expr_features.simps walk_expression.simps, (rule collects_rules)+)

lemma collects_opt: "collects (opt_features e) s (walk_opt e s)"
  by (simp add: opt_features_def walk_opt_def collects_refl collects_expression split: option.split)

lemma collects_flag: "collects (flag_features f) s (walk_flag f s)"
  by (simp add: flag_features_def walk_flag_def collects_refl collects_expression split: flag.split)

lemma collects_base: "collects (base_features b) s (walk_base b s)"
  unfolding base_features_def walk_base_def
  by (rule collects_trans collects_opt collects_flag)+

lemma collects_question: "collects (question_features q) s (walk_question q s)"
proof (induction q s rule: walk_question.induct)
  case (1 b k s)
  show ?case
    by (simp only: question_features.simps walk_question.simps)
       (rule collects_need_type collects_fold collects_trans collects_base collects_insert 1 | assumption)+
qed

lemma collects_form:
  "\<exists>s. collects (form_features form) \<lparr> er_version = 1, er_unknown = [] \<rparr> s \<and>
       engine_requirement form = s\<lparr> er_unknown := sort (er_unknown s) \<rparr>"
  unfolding form_features_def engine_requirement_def Let_def
  by (rule exI conjI refl collects_need_schema collects_fold collects_question collects_insert)+

lemma feature_version_bounds: "feature_version f = Some v \<Longrightarrow> v = ENGINE_VERSION"
proof -
  have all: "\<forall>p \<in> set QUESTION_TYPE_ENGINE_VERSION. snd p = 1" "\<forall>p \<in> set EXPRESSION_OP_ENGINE_VERSION. snd p = 1"
      "\<forall>p \<in> set BUILTIN_ENGINE_VERSION. snd p = 1" "\<forall>p \<in> set FORM_SCHEMA_ENGINE_VERSION. snd p = 1"
    by (simp_all add: engine_tables)
  show "feature_version f = Some v \<Longrightarrow> v = ENGINE_VERSION"
    by (cases f) (use all in \<open>auto simp: ENGINE_VERSION_def dest!: map_of_SomeD\<close>)
qed

lemma engine_requirement_features:
  "(engine_supports form \<longleftrightarrow> (\<forall>f \<in> form_features form. feature_version f \<noteq> None)) \<and>
   required_engine_version form = (if engine_supports form then ENGINE_VERSION else UNKNOWN_VERSION) \<and>
   set (er_unknown (engine_requirement form)) =
     {feature_label f |f. f \<in> form_features form \<and> feature_version f = None} \<and>
   sorted (er_unknown (engine_requirement form)) \<and> distinct (er_unknown (engine_requirement form))"
proof -
  obtain s where c: "collects (form_features form) \<lparr> er_version = 1, er_unknown = [] \<rparr> s"
      and e: "engine_requirement form = s\<lparr> er_unknown := sort (er_unknown s) \<rparr>"
    using collects_form by blast
  let ?w = "\<lambda>f. case feature_version f of None \<Rightarrow> UNKNOWN_VERSION | Some v \<Rightarrow> v"
  have le: "er_version s \<le> n \<longleftrightarrow> 1 \<le> n \<and> (\<forall>f \<in> form_features form. ?w f \<le> n)" for n
    using c by (simp add: collects_def)
  have w: "?w f \<le> ENGINE_VERSION \<longleftrightarrow> feature_version f \<noteq> None" for f
    by (auto simp: UNKNOWN_VERSION_def dest: feature_version_bounds split: option.split)
  have "?w f \<le> UNKNOWN_VERSION" for f
    by (auto simp: UNKNOWN_VERSION_def dest: feature_version_bounds split: option.split)
  then have hi: "er_version s \<le> UNKNOWN_VERSION" by (simp add: le UNKNOWN_VERSION_def ENGINE_VERSION_def)
  have lo: "1 \<le> er_version s" using le [of "er_version s"] by simp
  have sup: "engine_supports form \<longleftrightarrow> (\<forall>f \<in> form_features form. feature_version f \<noteq> None)"
    by (simp add: engine_supports_def required_engine_version_def e le w) (simp add: ENGINE_VERSION_def)
  moreover have "required_engine_version form = (if engine_supports form then ENGINE_VERSION else UNKNOWN_VERSION)"
    using lo hi by (auto simp: engine_supports_def required_engine_version_def e UNKNOWN_VERSION_def ENGINE_VERSION_def)
  ultimately show ?thesis using c by (simp add: e collects_def)
qed

subsection \<open>Properties\<close>

text \<open>C38: this build supports a form exactly when it knows every feature the form uses, in any
  question, nested or not, and in any of its expressions; otherwise the required version is
  newer than this build and the labels of the unknown features are listed, sorted, once each.\<close>

theorem engine_requirement_exact:
  "(engine_supports form \<longleftrightarrow> (\<forall>f \<in> form_features form. feature_version f \<noteq> None)) \<and>
   required_engine_version form = (if engine_supports form then ENGINE_VERSION else UNKNOWN_VERSION) \<and>
   set (er_unknown (engine_requirement form)) =
     {feature_label f |f. f \<in> form_features form \<and> feature_version f = None} \<and>
   sorted (er_unknown (engine_requirement form)) \<and> distinct (er_unknown (engine_requirement form))"
  by (rule engine_requirement_features)


lemma engine_requirement_exact_witness:
  "engine_supports \<lparr> fs_schemaVersion = Fin 1, fs_id = [], fs_title = [], fs_description = None,
     fs_questions = [], fs_geometryQuestionId = None, fs_linkedLayerId = None, fs_linkedLayerKey = None,
     fs_notify = None, fs_responseView = None, fs_meta = None, fs_requiredEngineVersion = None \<rparr>"
  using engine_requirement_exact [of "\<lparr> fs_schemaVersion = Fin 1, fs_id = [], fs_title = [], fs_description = None,
     fs_questions = [], fs_geometryQuestionId = None, fs_linkedLayerId = None, fs_linkedLayerKey = None,
     fs_notify = None, fs_responseView = None, fs_meta = None, fs_requiredEngineVersion = None \<rparr>"]
  by (simp add: form_features_def FORM_SCHEMA_ENGINE_VERSION_def)

end
