(* ===== verification/FormDesign.thy ===== *)
theory FormDesign
  imports FormState EngineVersion
begin

text \<open>
  The designer's side of \<open>packages/form-schema/src/index.ts\<close>: the empty form, the question a
  palette item drops, question ids, the portable export and its import, the question types
  offered for a column. \<open>unique_question_id\<close> loops until an id is free; its termination proof
  counts the taken ids still ahead.
\<close>

subsection \<open>Empty form and default questions\<close>

definition CURRENT_FORM_SCHEMA_VERSION :: jsnum where
  "CURRENT_FORM_SCHEMA_VERSION = Fin 1"

definition empty_form :: "string \<Rightarrow> string option \<Rightarrow> form_schema" where
  "empty_form i title =
     \<lparr> fs_schemaVersion = CURRENT_FORM_SCHEMA_VERSION, fs_id = i,
       fs_title = (case title of None \<Rightarrow> ''Untitled form'' | Some t \<Rightarrow> t),
       fs_description = None, fs_questions = [], fs_geometryQuestionId = None,
       fs_linkedLayerId = None, fs_linkedLayerKey = None, fs_notify = None,
       fs_responseView = None, fs_meta = None, fs_requiredEngineVersion = None \<rparr>"

primrec default_label :: "qtype \<Rightarrow> string" where
  "default_label T_text = ''Short text''"
| "default_label T_multiline = ''Long text''"
| "default_label T_email = ''Email''"
| "default_label T_url = ''URL''"
| "default_label T_phone = ''Phone''"
| "default_label T_regex = ''Pattern''"
| "default_label T_number = ''Number''"
| "default_label T_integer = ''Whole number''"
| "default_label T_boolean = ''Yes / No''"
| "default_label T_select_one = ''Single choice''"
| "default_label T_select_many = ''Multiple choice''"
| "default_label T_matrix_single = ''Matrix (single)''"
| "default_label T_matrix_multi = ''Matrix (multi)''"
| "default_label T_matrix_dropdown = ''Matrix (dropdown)''"
| "default_label T_matrix_rating = ''Matrix (rating)''"
| "default_label T_ranking = ''Ranking''"
| "default_label T_date = ''Date''"
| "default_label T_time = ''Time''"
| "default_label T_datetime = ''Date and time''"
| "default_label T_name = ''Full name''"
| "default_label T_address = ''Address''"
| "default_label T_photo = ''Photo''"
| "default_label T_audio = ''Audio''"
| "default_label T_video = ''Video''"
| "default_label T_barcode = ''Barcode / QR''"
| "default_label T_sketch = ''Sketch''"
| "default_label T_file = ''File''"
| "default_label T_image_choice = ''Image choice''"
| "default_label T_image_display = ''Image''"
| "default_label T_image_hotspot = ''Image hotspot''"
| "default_label T_signature = ''Signature''"
| "default_label T_geopoint = ''Location (point)''"
| "default_label T_geotrace = ''Path (polyline)''"
| "default_label T_geoshape = ''Area (polygon)''"
| "default_label T_pick_feature = ''Pick a feature''"
| "default_label T_route = ''Route''"
| "default_label T_area_buffer = ''Area (buffer)''"
| "default_label T_rating = ''Rating''"
| "default_label T_likert = ''Likert''"
| "default_label T_nps = ''NPS (0-10)''"
| "default_label T_slider = ''Slider''"
| "default_label T_calculated = ''Calculated''"
| "default_label T_note = ''Note''"
| "default_label T_divider = ''Divider''"
| "default_label T_acknowledge = ''Acknowledge''"
| "default_label T_hidden = ''Hidden''"
| "default_label T_page = ''New page''"
| "default_label T_group = ''Group''"

definition option_n :: "nat \<Rightarrow> choice" where
  "option_n n = \<lparr> ch_value = ''option_'' @ nat_digits n, ch_label = ''Option '' @ nat_digits n,
                   ch_pickListId = None \<rparr>"

definition image_n :: "nat \<Rightarrow> image_choice" where
  "image_n n = \<lparr> ic_value = ''option_'' @ nat_digits n, ic_label = ''Option '' @ nat_digits n,
                  ic_imageUrl = [], ic_alt = None \<rparr>"

definition matrix_row_n :: "string \<Rightarrow> nat \<Rightarrow> matrix_row" where
  "matrix_row_n what n = \<lparr> mr_id = ''row_'' @ nat_digits n, mr_label = what @ '' '' @ nat_digits n \<rparr>"

definition column :: "string \<Rightarrow> string \<Rightarrow> matrix_column" where
  "column v l = \<lparr> mc_value = v, mc_label = l \<rparr>"

definition levels :: "choice list" where
  "levels = [\<lparr> ch_value = ''low'', ch_label = ''Low'', ch_pickListId = None \<rparr>,
     \<lparr> ch_value = ''medium'', ch_label = ''Medium'', ch_pickListId = None \<rparr>,
     \<lparr> ch_value = ''high'', ch_label = ''High'', ch_pickListId = None \<rparr>]"

primrec default_kind :: "qtype \<Rightarrow> kind" where
  "default_kind T_text =
     KText \<lparr> tx_placeholder = None, tx_maxLength = None, tx_pattern = None, tx_obscured = None \<rparr>"
| "default_kind T_multiline =
     KMultiline \<lparr> ml_placeholder = None, ml_maxLength = None, ml_rows = Some (Fin 3) \<rparr>"
| "default_kind T_email =
     KEmail \<lparr> em_placeholder = None, em_maxLength = None \<rparr>"
| "default_kind T_url =
     KUrl \<lparr> ur_placeholder = None, ur_maxLength = None, ur_allowedProtocols = None \<rparr>"
| "default_kind T_phone =
     KPhone \<lparr> ph_placeholder = None, ph_defaultCountry = None \<rparr>"
| "default_kind T_regex =
     KRegex \<lparr> rx_placeholder = None, rx_pattern = ''.+'', rx_flags = None, rx_maxLength = None \<rparr>"
| "default_kind T_number =
     KNumber \<lparr> nm_min = None, nm_max = None, nm_step = None, nm_currency = None, nm_thousandsSeparator = None \<rparr>"
| "default_kind T_integer =
     KInteger \<lparr> in_min = None, in_max = None \<rparr>"
| "default_kind T_boolean =
     KBoolean \<lparr> bo_trueLabel = None, bo_falseLabel = None \<rparr>"
| "default_kind T_select_one =
     KSelectOne \<lparr> so_choices = [option_n 1, option_n 2], so_appearance = Some Radio, so_pickListId = None \<rparr>"
| "default_kind T_select_many =
     KSelectMany \<lparr> sm_choices = [option_n 1, option_n 2], sm_minSelected = None, sm_maxSelected = None, sm_pickListId = None \<rparr>"
| "default_kind T_matrix_single =
     KMatrixSingle
       \<lparr> ms_rows = [matrix_row_n ''Statement'' 1, matrix_row_n ''Statement'' 2, matrix_row_n ''Statement'' 3], ms_columns = 
           [column ''strongly_disagree'' ''Strongly disagree'', column ''disagree'' ''Disagree'',
            column ''neutral'' ''Neutral'', column ''agree'' ''Agree'',
            column ''strongly_agree'' ''Strongly agree''], ms_rowsPickListId = None, ms_perRowRequired = None \<rparr>"
| "default_kind T_matrix_multi =
     KMatrixMulti
       \<lparr> mm_rows = [matrix_row_n ''Item'' 1, matrix_row_n ''Item'' 2, matrix_row_n ''Item'' 3], mm_columns = 
           [column ''option_a'' ''Option A'', column ''option_b'' ''Option B'', column ''option_c'' ''Option C''], mm_rowsPickListId = None, mm_perRowMinSelected = None, mm_perRowMaxSelected = None \<rparr>"
| "default_kind T_matrix_dropdown =
     KMatrixDropdown
       \<lparr> md_rows = [matrix_row_n ''Item'' 1, matrix_row_n ''Item'' 2], md_columns = 
           [\<lparr> dc_value = ''current'', dc_label = ''Current'', dc_choices = levels \<rparr>,
            \<lparr> dc_value = ''target'', dc_label = ''Target'', dc_choices = levels \<rparr>], md_rowsPickListId = None \<rparr>"
| "default_kind T_matrix_rating =
     KMatrixRating
       \<lparr> mt_rows = [matrix_row_n ''Item'' 1, matrix_row_n ''Item'' 2, matrix_row_n ''Item'' 3], mt_rowsPickListId = None, mt_max = Some (Fin 5), mt_shape = Some Star, mt_perRowRequired = None \<rparr>"
| "default_kind T_ranking =
     KRanking \<lparr> rk_choices = [option_n 1, option_n 2, option_n 3], rk_pickListId = None, rk_minRanked = None, rk_maxRanked = None \<rparr>"
| "default_kind T_date =
     KDate \<lparr> da_min = None, da_max = None \<rparr>"
| "default_kind T_time =
     KTime \<lparr> ti_min = None, ti_max = None \<rparr>"
| "default_kind T_datetime =
     KDateTime \<lparr> dt_min = None, dt_max = None \<rparr>"
| "default_kind T_name =
     KName \<lparr> na_components = Some [NC_first, NC_last], na_requiredComponents = None \<rparr>"
| "default_kind T_address =
     KAddress \<lparr> ad_components = 
         Some [AC_street1, AC_street2, AC_city, AC_region, AC_postal, AC_country], ad_requiredComponents = None \<rparr>"
| "default_kind T_photo =
     KPhoto \<lparr> po_maxCount = Some (Fin 1), po_maxBytes = None \<rparr>"
| "default_kind T_audio =
     KAudio \<lparr> au_maxCount = Some (Fin 1), au_maxBytes = None, au_maxDurationSec = None \<rparr>"
| "default_kind T_video =
     KVideo \<lparr> vi_maxCount = Some (Fin 1), vi_maxBytes = None, vi_maxDurationSec = None \<rparr>"
| "default_kind T_barcode =
     KBarcode \<lparr> bc_formats = None, bc_allowManualEntry = Some True \<rparr>"
| "default_kind T_sketch =
     KSketch \<lparr> sk_backgroundImageUrl = None, sk_aspectRatio = Some (n_div (Fin 16) (Fin 9)), sk_maxBytes = None \<rparr>"
| "default_kind T_file =
     KFile \<lparr> fi_maxCount = Some (Fin 1), fi_maxBytes = None, fi_accept = None \<rparr>"
| "default_kind T_image_choice =
     KImageChoice \<lparr> iq_choices = [image_n 1, image_n 2], iq_multi = None, iq_minSelected = None, iq_maxSelected = None \<rparr>"
| "default_kind T_image_display =
     KImageDisplay \<lparr> id_imageUrl = [], id_alt = None, id_caption = None \<rparr>"
| "default_kind T_image_hotspot =
     KImageHotspot \<lparr> ih_imageUrl = [], ih_alt = None, ih_maxPoints = Some (Fin 1) \<rparr>"
| "default_kind T_signature =
     KSignature"
| "default_kind T_geopoint =
     KGeoPoint \<lparr> gp_capture = Some GC_auto \<rparr>"
| "default_kind T_geotrace =
     KGeoTrace"
| "default_kind T_geoshape =
     KGeoShape"
| "default_kind T_pick_feature =
     KPickFeature \<lparr> pf_sourceItemId = [], pf_sourceLayerKey = None, pf_snapshotFields = None, pf_withinBoundaryId = None \<rparr>"
| "default_kind T_route =
     KRoute \<lparr> ro_profile = Some RP_driving, ro_minWaypoints = Some (Fin 2), ro_maxWaypoints = Some (Fin 10) \<rparr>"
| "default_kind T_area_buffer =
     KAreaBuffer \<lparr> ab_inputKind = Some BI_point, ab_defaultDistanceMeters = Some (Fin 50), ab_lockDistance = None, ab_maxDistanceMeters = Some (Fin 10000) \<rparr>"
| "default_kind T_rating =
     KRating \<lparr> ra_max = Some (Fin 5), ra_shape = Some Star \<rparr>"
| "default_kind T_likert =
     KLikert \<lparr> li_points = Some (Fin 5), li_leftLabel = Some ''Strongly disagree'', li_rightLabel = 
         Some ''Strongly agree'', li_centerLabel = None \<rparr>"
| "default_kind T_nps =
     KNps \<lparr> np_caption = None \<rparr>"
| "default_kind T_slider =
     KSlider \<lparr> sl_min = Fin 0, sl_max = Fin 100, sl_step = Some (Fin 1), sl_showValue = Some True \<rparr>"
| "default_kind T_calculated =
     KCalculated \<lparr> ca_format = None \<rparr>"
| "default_kind T_note =
     KNote \<lparr> no_appearance = Some NA_plain \<rparr>"
| "default_kind T_divider =
     KDivider \<lparr> di_caption = None \<rparr>"
| "default_kind T_acknowledge =
     KAcknowledge \<lparr> ak_body = ''Please read the terms and check the box to continue.'', ak_appearance = 
         None, ak_agreeLabel = None \<rparr>"
| "default_kind T_hidden =
     KHidden \<lparr> hi_defaultValue = None \<rparr>"
| "default_kind T_page =
     KPage \<lparr> pg_title = None \<rparr>"
| "default_kind T_group =
     KGroup None []"

definition default_base :: "qtype \<Rightarrow> string \<Rightarrow> question_base" where
  "default_base t i =
     \<lparr> qb_id = i,
       qb_label = (if t = T_divider then [] else if t = T_page then ''Page break'' else default_label t),
       qb_hint = None, qb_guidanceHint = None, qb_visible = None, qb_visibleIf = None,
       qb_required = FUndef, qb_constraint = None, qb_message = None, qb_readOnly = FUndef,
       qb_calculate = (if t = T_calculated then Some (Concat [Lit (JStr [])]) else None),
       qb_bindTo = None, qb_layout = None, qb_meta = None \<rparr>"

definition default_question :: "qtype \<Rightarrow> string \<Rightarrow> question" where
  "default_question t i = Question (default_base t i) (default_kind t)"

subsection \<open>Question ids\<close>

definition is_slug_char :: "char \<Rightarrow> bool" where
  "is_slug_char c \<longleftrightarrow> is_lower_az c \<or> is_digit_char c"

text \<open>\<open>s.replace(/[^a-z0-9]+/g, sep)\<close>: each maximal run of other characters becomes one \<open>sep\<close>.
  The flag says whether the character before was part of such a run.\<close>

fun squeeze :: "char \<Rightarrow> bool \<Rightarrow> string \<Rightarrow> string" where
  "squeeze sep run [] = []"
| "squeeze sep run (c # cs) =
     (if is_slug_char c then c # squeeze sep False cs
      else if run then squeeze sep True cs else sep # squeeze sep True cs)"

definition strip_underscore :: "string \<Rightarrow> string" where
  "strip_underscore s =
     (let t = (if starts_with ''_'' s then tl s else s) in if ends_with ''_'' t then butlast t else t)"

definition suggest_question_id :: "string \<Rightarrow> string" where
  "suggest_question_id label =
     (let base = take 40 (strip_underscore (squeeze CHR ''_'' False (to_lower label)))
      in if base = [] then ''question'' else base)"

definition collect_ids :: "form_schema \<Rightarrow> string list" where
  "collect_ids form = remdups (map qid (walk_questions form))"

definition suffixed :: "string \<Rightarrow> nat \<Rightarrow> string" where
  "suffixed c i = c @ ''_'' @ nat_digits i"

lemma suffixed_inject [simp]: "suffixed c i = suffixed c j \<longleftrightarrow> i = j"
  by (simp add: suffixed_def) (metis dec_val_digits)

function free_suffix :: "string list \<Rightarrow> string \<Rightarrow> nat \<Rightarrow> nat" where
  "free_suffix taken c i = (if suffixed c i \<in> set taken then free_suffix taken c (Suc i) else i)"
  by pat_completeness auto
termination
proof (relation "measure (\<lambda>(taken, c, i). card {s \<in> set taken. \<exists>j \<ge> i. s = suffixed c j})")
  fix taken c i
  assume "suffixed c i \<in> set taken"
  then have m: "suffixed c i \<in> {s \<in> set taken. \<exists>j \<ge> i. s = suffixed c j}" by blast
  have "suffixed c i \<notin> {s \<in> set taken. \<exists>j \<ge> Suc i. s = suffixed c j}" by auto
  moreover have "{s \<in> set taken. \<exists>j \<ge> Suc i. s = suffixed c j} \<subseteq> {s \<in> set taken. \<exists>j \<ge> i. s = suffixed c j}"
    by (blast dest: Suc_leD)
  ultimately have "{s \<in> set taken. \<exists>j \<ge> Suc i. s = suffixed c j} \<subset> {s \<in> set taken. \<exists>j \<ge> i. s = suffixed c j}"
    using m by blast
  then show "((taken, c, Suc i), taken, c, i) \<in>
      measure (\<lambda>(taken, c, i). card {s \<in> set taken. \<exists>j \<ge> i. s = suffixed c j})"
    by (simp add: psubset_card_mono)
qed simp

declare free_suffix.simps [simp del]

definition unique_question_id :: "form_schema \<Rightarrow> string \<Rightarrow> string" where
  "unique_question_id form c =
     (let existing = collect_ids form
      in if c \<notin> set existing then c else suffixed c (free_suffix existing c 2))"

subsection \<open>Export and import\<close>

record export_source =
  xs_portal :: "string option"
  xs_formId :: "string option"

record export_envelope =
  xe_kind :: string
  xe_schemaVersion :: jsnum
  xe_exportedAt :: string
  xe_source :: "export_source option"
  xe_form :: form_schema

definition FORM_EXPORT_KIND :: string where
  "FORM_EXPORT_KIND = ''gratisgis-form''"

definition truthy_string :: "string option \<Rightarrow> bool" where
  "truthy_string s \<longleftrightarrow> s \<noteq> None \<and> s \<noteq> Some []"

definition portable_meta :: "obj option \<Rightarrow> obj option" where
  "portable_meta m =
     (case m of
        None \<Rightarrow> None
      | Some m \<Rightarrow> (let rest = filter (\<lambda>(k, v). k \<noteq> ''linkedLayerTitle'') m
                   in if rest = [] then None else Some rest))"

definition to_export_envelope :: "host \<Rightarrow> form_schema \<Rightarrow> string option \<Rightarrow> export_envelope" where
  "to_export_envelope h form portal =
     \<lparr> xe_kind = FORM_EXPORT_KIND, xe_schemaVersion = fs_schemaVersion form,
       xe_exportedAt = h_now_iso h,
       xe_source = (if truthy_string portal then Some \<lparr> xs_portal = portal, xs_formId = Some (fs_id form) \<rparr>
                    else if fs_id form \<noteq> [] then Some \<lparr> xs_portal = None, xs_formId = Some (fs_id form) \<rparr>
                    else None),
       xe_form = (empty_form [] (Some (fs_title form)))
         \<lparr> fs_schemaVersion := fs_schemaVersion form, fs_questions := fs_questions form,
           fs_description := fs_description form, fs_geometryQuestionId := fs_geometryQuestionId form,
           fs_meta := portable_meta (fs_meta form) \<rparr> \<rparr>"

definition from_import_envelope :: "export_envelope \<Rightarrow> string \<Rightarrow> form_schema" where
  "from_import_envelope env dest =
     (let f = xe_form env
      in (empty_form dest (Some (fs_title f)))
           \<lparr> fs_schemaVersion := fs_schemaVersion f, fs_questions := fs_questions f,
             fs_description := fs_description f, fs_geometryQuestionId := fs_geometryQuestionId f,
             fs_meta := fs_meta f \<rparr>)"

text \<open>The check on an unknown blob: the error shown, or the blob itself.\<close>

definition parse_export_envelope :: "jsval \<Rightarrow> string + jsval" where
  "parse_export_envelope raw =
     (if \<not> is_object_like raw then Inl ''Not a valid form export file (expected JSON object).''
      else let kind = field_of raw ''kind''; version = field_of raw ''schemaVersion''; form = field_of raw ''form''
           in if kind \<noteq> JStr FORM_EXPORT_KIND
              then Inl (''Not a GratisGIS form export. Expected kind=\"'' @ FORM_EXPORT_KIND @ ''\", got \"''
                        @ js_string kind @ ''\".'')
              else case version of
                     JNum v \<Rightarrow>
                       if n_lt CURRENT_FORM_SCHEMA_VERSION v
                       then Inl (''This form was exported from a newer GratisGIS (schema v'' @ num_to_string v
                                 @ ''). Update this portal to import it.'')
                       else if \<not> is_object_like form then Inl ''Export is missing the form payload.''
                       else if \<not> is_str (field_of form ''title'') then Inl ''Form is missing a title.''
                       else if \<not> is_arr (field_of form ''questions'')
                       then Inl ''Form is missing the questions array.''
                       else Inr raw
                   | _ \<Rightarrow> Inl ''Export is missing a schemaVersion.'')"

definition trim_dashes :: "string \<Rightarrow> string" where
  "trim_dashes s =
     rev (dropWhile (\<lambda>c. c = CHR ''-'') (rev (dropWhile (\<lambda>c. c = CHR ''-'') s)))"

definition suggest_export_filename :: "form_schema \<Rightarrow> string" where
  "suggest_export_filename form =
     (let slug = take 60 (trim_dashes (squeeze CHR ''-'' False (to_lower (fs_title form))))
      in (if slug = [] then ''form'' else slug) @ ''.gratisgis-form.json'')"

subsection \<open>Question types for a column\<close>

definition mentions :: "string \<Rightarrow> string list \<Rightarrow> bool" where
  "mentions t words \<longleftrightarrow> list_ex (\<lambda>w. str_includes w t) words"

definition compatible_question_types :: "string \<Rightarrow> qtype list" where
  "compatible_question_types columnType =
     (let t = to_lower columnType
      in if mentions t [''text'', ''varchar'', ''char''] then [T_text, T_multiline, T_select_one]
         else if mentions t [''int'', ''smallint'', ''bigint'']
         then [T_integer, T_rating, T_slider, T_select_one]
         else if mentions t [''numeric'', ''float'', ''double'', ''real'', ''decimal'']
         then [T_number, T_slider]
         else if mentions t [''bool''] then [T_boolean]
         else if str_includes ''date'' t \<and> str_includes ''time'' t then [T_datetime]
         else if str_includes ''time'' t then [T_time]
         else if str_includes ''date'' t then [T_date]
         else if mentions t [''geometry'', ''geography'', ''point'']
         then (if mentions t [''point''] then [T_geopoint]
               else if mentions t [''line''] then [T_geotrace]
               else if mentions t [''polygon''] then [T_geoshape]
               else [T_geopoint, T_geotrace, T_geoshape])
         else if mentions t [''json''] then [T_select_many, T_multiline]
         else [])"

subsection \<open>Lemmas\<close>

lemma set_collect_ids: "i \<in> set (collect_ids form) \<longleftrightarrow> (\<exists>q. in_form (fs_questions form) q \<and> qid q = i)"
  by (auto simp: collect_ids_def walk_questions_def walk_list_iff image_iff)

lemma free_suffix_free: "suffixed c (free_suffix taken c i) \<notin> set taken"
proof (induction taken c i rule: free_suffix.induct)
  case (1 taken c i)
  then show ?case by (subst free_suffix.simps) auto
qed

lemma free_suffix_least: "i \<le> free_suffix taken c i \<and> (\<forall>j. i \<le> j \<and> j < free_suffix taken c i \<longrightarrow> suffixed c j \<in> set taken)"
proof (induction taken c i rule: free_suffix.induct)
  case (1 taken c i)
  show ?case
  proof (cases "suffixed c i \<in> set taken")
    case True
    then have e: "free_suffix taken c i = free_suffix taken c (Suc i)" by (subst free_suffix.simps) simp
    from 1 True have ih: "Suc i \<le> free_suffix taken c (Suc i)"
      "\<forall>j. Suc i \<le> j \<and> j < free_suffix taken c (Suc i) \<longrightarrow> suffixed c j \<in> set taken" by auto
    with True show ?thesis unfolding e by (metis Suc_leD le_antisym not_less_eq_eq)
  next
    case False
    then have "free_suffix taken c i = i" by (subst free_suffix.simps) simp
    then show ?thesis by auto
  qed
qed

lemma squeeze_chars: "c \<in> set (squeeze sep run s) \<Longrightarrow> is_slug_char c \<or> c = sep"
  by (induction sep run s rule: squeeze.induct) (auto split: if_splits)

lemma in_strip: "c \<in> set (strip_underscore s) \<Longrightarrow> c \<in> set s"
  by (cases s) (auto simp: strip_underscore_def Let_def split: if_splits dest: in_set_butlastD)

lemma slug_question: "\<forall>c \<in> set ''question''. is_slug_char c"
  by (simp add: is_slug_char_def is_lower_az_def cu_def)

lemma type_of_default: "type_of (default_kind t) = Some t"
  by (cases t) simp_all

lemma children_of_default: "children_of (default_kind t) = []"
  by (cases t) simp_all

lemma default_not_every_row: "\<not> asks_every_row (default_kind t)"
  by (cases t) simp_all

lemma group_of_default: "group_of (default_kind t) = (if t = T_group then Some (None, []) else None)"
  by (cases t) simp_all

lemma validate_default_list:
  "validate_list h [] p (map (\<lambda>(t, i). default_question t i) ps) = Inr []"
proof (induction ps)
  case (Cons x ps)
  have "validate_question h [] p' (default_base t i) (default_kind t) = Inr []" for p' t i
    by (simp add: validate_question_def default_base_def is_required_def flag_value_def
        default_not_every_row Let_def)
  with Cons show ?case
    by (cases x) (simp add: default_question_def group_of_default append_results_def)
qed simp

lemma qtype_table: "map_of QUESTION_TYPE_ENGINE_VERSION (qtype_name t) = Some 1"
  by (cases t) (simp_all add: QUESTION_TYPE_ENGINE_VERSION_def)

lemma default_features:
  "f \<in> question_features (default_question t i) \<Longrightarrow> feature_version f \<noteq> None"
proof -
  assume "f \<in> question_features (default_question t i)"
  then have "f = F_type (qtype_name t) \<or> f = F_op ''concat''"
    by (auto simp: default_question_def children_of_default type_of_default base_features_def
        default_base_def opt_features_def flag_features_def split: if_splits)
  then show ?thesis by (auto simp: qtype_table EXPRESSION_OP_ENGINE_VERSION_def)
qed

subsection \<open>Properties\<close>

text \<open>Whatever mix of palette items a form is built from, this build supports it, and it
  accepts the response that answers nothing.\<close>

theorem default_form_usable:
  "engine_supports ((empty_form i t)\<lparr> fs_questions := map (\<lambda>(ty, q). default_question ty q) ps \<rparr>) \<and>
   validate h ((empty_form i t)\<lparr> fs_questions := map (\<lambda>(ty, q). default_question ty q) ps \<rparr>) [] =
     Inr \<lparr> vr_ok = True, vr_errors = [] \<rparr>"
proof -
  let ?f = "(empty_form i t)\<lparr> fs_questions := map (\<lambda>(ty, q). default_question ty q) ps \<rparr>"
  have "feature_version f \<noteq> None" if "f \<in> form_features ?f" for f
    using that default_features
    by (auto simp: form_features_def empty_form_def CURRENT_FORM_SCHEMA_VERSION_def
        FORM_SCHEMA_ENGINE_VERSION_def)
  then have "engine_supports ?f" using engine_requirement_features [of ?f] by blast
  then show ?thesis by (simp add: validate_def validate_default_list empty_form_def)
qed

text \<open>The id picked for a new question is not used by any question of the form, nested
  ones included; it is the candidate when that is free and otherwise the candidate with the
  least suffix from 2 on that is free. The search always ends.\<close>

theorem unique_question_id_fresh:
  "\<not> (\<exists>q. in_form (fs_questions form) q \<and> qid q = unique_question_id form c) \<and>
   (unique_question_id form c = c \<or>
    (\<exists>i \<ge> 2. unique_question_id form c = suffixed c i \<and>
       (\<exists>q. in_form (fs_questions form) q \<and> qid q = c) \<and>
       (\<forall>j. 2 \<le> j \<longrightarrow> j < i \<longrightarrow> (\<exists>q. in_form (fs_questions form) q \<and> qid q = suffixed c j))))"
proof (cases "c \<in> set (collect_ids form)")
  case False
  then show ?thesis by (simp add: unique_question_id_def Let_def set_collect_ids)
next
  case True
  let ?n = "free_suffix (collect_ids form) c 2"
  have u: "unique_question_id form c = suffixed c ?n" using True by (simp add: unique_question_id_def Let_def)
  have "suffixed c ?n \<notin> set (collect_ids form)" by (rule free_suffix_free)
  moreover have "2 \<le> ?n" "\<forall>j. 2 \<le> j \<and> j < ?n \<longrightarrow> suffixed c j \<in> set (collect_ids form)"
    using free_suffix_least [of 2] by auto
  ultimately show ?thesis using True unfolding u set_collect_ids by blast
qed

lemma unique_question_id_fresh_witness:
  "\<not> (\<exists>q. in_form (fs_questions (plain_form [Question (plain_base ''a'') yes_no])) q \<and>
        qid q = unique_question_id (plain_form [Question (plain_base ''a'') yes_no]) ''a'')"
  using unique_question_id_fresh [of "plain_form [Question (plain_base ''a'') yes_no]" "''a''"] by blast

text \<open>A suggested id is never empty, has at most forty characters, and holds only lower-case
  letters, digits and underscores, whatever the label.\<close>

theorem suggest_question_id_wf:
  "suggest_question_id label \<noteq> [] \<and> length (suggest_question_id label) \<le> 40 \<and>
   set (suggest_question_id label) \<subseteq> {c. is_lower_az c \<or> is_digit_char c \<or> c = CHR ''_''}"
  using slug_question squeeze_chars
  by (auto simp: suggest_question_id_def Let_def is_slug_char_def dest!: in_set_takeD in_strip)

text \<open>A form exported and imported elsewhere keeps its title, description, questions, schema
  version and geometry question under the destination's id, loses every link to the portal it
  came from, and keeps the rest of its metadata.\<close>

theorem export_import_roundtrip:
  "from_import_envelope (to_export_envelope h form portal) dest =
     form \<lparr> fs_id := dest, fs_linkedLayerId := None, fs_linkedLayerKey := None, fs_notify := None,
            fs_responseView := None, fs_requiredEngineVersion := None,
            fs_meta := portable_meta (fs_meta form) \<rparr>"
  by (simp add: from_import_envelope_def to_export_envelope_def empty_form_def Let_def)

text \<open>A second export of an imported form carries the same form: what is stripped is
  stripped once, and the source names the portal's own copy.\<close>

theorem export_idempotent:
  "xe_form (to_export_envelope h (from_import_envelope (to_export_envelope h form portal) dest) portal') =
     xe_form (to_export_envelope h form portal)"
proof -
  have "portable_meta (portable_meta m) = portable_meta m" for m
    by (auto simp: portable_meta_def Let_def split: option.split)
  then show ?thesis
    by (simp add: from_import_envelope_def to_export_envelope_def empty_form_def Let_def)
qed

text \<open>No column type offers a point question alone, although the branch for point columns
  is there: \<open>point\<close> contains \<open>int\<close>, so a point column is offered the integer questions.\<close>

theorem point_columns_read_as_integers:
  "compatible_question_types t \<noteq> [T_geopoint] \<and>
   (str_includes ''point'' (to_lower t) \<longrightarrow>
      compatible_question_types t \<in> {[T_text, T_multiline, T_select_one],
                                      [T_integer, T_rating, T_slider, T_select_one]})"
proof -
  have "str_includes ''int'' s" if "str_includes ''point'' s" for s
    using that by (induction s) (auto simp: starts_with_iff)
  then show ?thesis
    by (auto simp: compatible_question_types_def mentions_def Let_def)
qed

lemma point_columns_read_as_integers_witness:
  "compatible_question_types ''geometry(Point,4326)'' \<in> {[T_text, T_multiline, T_select_one],
     [T_integer, T_rating, T_slider, T_select_one]}"
proof -
  have "str_includes ''point'' (to_lower ''geometry(Point,4326)'')"
    by code_simp
  then show ?thesis using point_columns_read_as_integers [of "''geometry(Point,4326)''"] by blast
qed

end
