(* ===== verification/QueueFold.thy ===== *)
theory QueueFold
  imports JsValue
begin

text \<open>
  \<open>packages/shared-types/src/queue-fold.ts\<close>: folding consecutive offline edits of one feature.
  The specification is the effect of an edit on the server's copy of the feature, and the
  lemmas show that sending the folded edit has the effect of sending the edits one by one.
\<close>

datatype queue_op = Q_insert | Q_update | Q_delete

record foldable_edit =
  fe_op :: queue_op
  fe_geometry :: jsval
  fe_properties :: "obj option"

datatype fold_result = Replace foldable_edit | Annihilated

definition props_of :: "obj option \<Rightarrow> obj" where
  "props_of p = (case p of None \<Rightarrow> [] | Some m \<Rightarrow> m)"

definition fold_queued_edits :: "foldable_edit \<Rightarrow> foldable_edit \<Rightarrow> fold_result" where
  "fold_queued_edits prior nxt =
     (let mergedProperties = spread (spread [] (props_of (fe_properties prior))) (props_of (fe_properties nxt));
          geometry = coalesce (fe_geometry nxt) (fe_geometry prior)
      in if fe_op prior = Q_insert \<and> fe_op nxt = Q_delete then Annihilated
         else if fe_op prior = Q_insert
         then Replace \<lparr> fe_op = Q_insert, fe_geometry = geometry, fe_properties = Some mergedProperties \<rparr>
         else if fe_op nxt = Q_delete
         then Replace \<lparr> fe_op = Q_delete, fe_geometry = JNull, fe_properties = None \<rparr>
         else if fe_op prior = Q_delete
         then Replace \<lparr> fe_op = Q_update, fe_geometry = geometry, fe_properties = Some mergedProperties \<rparr>
         else Replace \<lparr> fe_op = Q_update, fe_geometry = geometry, fe_properties = Some mergedProperties \<rparr>)"

text \<open>The loop over a chain; an empty chain throws, the \<open>None\<close> here.\<close>

fun fold_chain_from :: "foldable_edit \<Rightarrow> foldable_edit list \<Rightarrow> fold_result" where
  "fold_chain_from acc [] = Replace acc"
| "fold_chain_from acc (e # es) =
     (case fold_queued_edits acc e of
        Annihilated \<Rightarrow> Annihilated
      | Replace acc' \<Rightarrow> fold_chain_from acc' es)"

definition fold_queued_chain :: "foldable_edit list \<Rightarrow> fold_result option" where
  "fold_queued_chain chain = (case chain of [] \<Rightarrow> None | e # es \<Rightarrow> Some (fold_chain_from e es))"

fun_cases fold_chain_from_ReplaceE: "fold_chain_from acc (e # es) = Replace r"

subsection \<open>The effect of an edit on the server\<close>

text \<open>
  A stored feature is its geometry and its properties as a map. An insert is keyed by the
  client's globalId, so it creates the feature only when there is none; an update overlays
  the properties it carries and keeps the geometry when it carries none.
\<close>

type_synonym feature = "jsval \<times> (string \<rightharpoonup> jsval)"

definition edit_props :: "foldable_edit \<Rightarrow> string \<rightharpoonup> jsval" where
  "edit_props e = map_of (props_of (fe_properties e))"

definition apply_edit :: "foldable_edit \<Rightarrow> feature option \<Rightarrow> feature option" where
  "apply_edit e s =
     (case (fe_op e, s) of
        (Q_insert, None) \<Rightarrow> Some (fe_geometry e, edit_props e)
      | (Q_insert, Some f) \<Rightarrow> Some f
      | (Q_update, None) \<Rightarrow> None
      | (Q_update, Some (g, p)) \<Rightarrow> Some (coalesce (fe_geometry e) g, p ++ edit_props e)
      | (Q_delete, _) \<Rightarrow> None)"

definition apply_result :: "fold_result \<Rightarrow> feature option \<Rightarrow> feature option" where
  "apply_result r s = (case r of Replace e \<Rightarrow> apply_edit e s | Annihilated \<Rightarrow> s)"

text \<open>An edit fits a server state when the feature is there exactly if the edit is not its insert.\<close>

definition fits :: "foldable_edit \<Rightarrow> feature option \<Rightarrow> bool" where
  "fits e s \<longleftrightarrow> (fe_op e = Q_insert \<longleftrightarrow> s = None)"

definition edit_wf :: "foldable_edit \<Rightarrow> bool" where
  "edit_wf e \<longleftrightarrow> obj_wf (props_of (fe_properties e)) \<and> (fe_op e = Q_insert \<longrightarrow> fe_geometry e \<noteq> Undef)"

lemma obj_wf_merged: "obj_wf (spread (spread [] a) b)"
  by (simp add: obj_wf_spread)

lemma map_of_merged:
  "obj_wf a \<Longrightarrow> obj_wf b \<Longrightarrow> map_of (spread (spread [] a) b) = map_of a ++ map_of b"
  by (simp add: map_of_spread)

lemma coalesce_assoc: "coalesce (coalesce a b) c = coalesce a (coalesce b c)"
  by (simp add: coalesce_def)

lemma coalesce_defined: "b \<noteq> Undef \<Longrightarrow> coalesce a b \<noteq> Undef"
  by (auto simp: coalesce_def)

lemma fold_wf:
  "edit_wf prior \<Longrightarrow> edit_wf nxt \<Longrightarrow> fold_queued_edits prior nxt = Replace e \<Longrightarrow> edit_wf e"
  by (auto simp: fold_queued_edits_def edit_wf_def props_of_def Let_def obj_wf_merged coalesce_defined
      split: if_splits)

lemma fold_op:
  "fold_queued_edits prior nxt = Replace e \<Longrightarrow>
   fe_op e = (if fe_op prior = Q_insert then Q_insert else if fe_op nxt = Q_delete then Q_delete else Q_update)"
  by (auto simp: fold_queued_edits_def Let_def split: if_splits)

lemma fold_annihilated_iff:
  "fold_queued_edits prior nxt = Annihilated \<longleftrightarrow> fe_op prior = Q_insert \<and> fe_op nxt = Q_delete"
  by (simp add: fold_queued_edits_def Let_def)

lemma fold_sound:
  assumes "edit_wf prior" and "edit_wf nxt" and "fits prior s"
    and "fe_op prior \<noteq> Q_delete" and "fe_op nxt \<noteq> Q_insert"
  shows "apply_result (fold_queued_edits prior nxt) s = apply_edit nxt (apply_edit prior s)"
proof (cases s)
  case None
  with assms have p: "fe_op prior = Q_insert" by (simp add: fits_def)
  show ?thesis
  proof (cases "fe_op nxt")
    case Q_update
    with p None assms(1,2) show ?thesis
      by (simp add: fold_queued_edits_def Let_def apply_result_def apply_edit_def edit_props_def
          edit_wf_def props_of_def map_of_spread obj_wf_spread)
  qed (use p None assms(5) in \<open>simp_all add: fold_queued_edits_def apply_result_def apply_edit_def\<close>)
next
  case (Some f)
  with assms have p: "fe_op prior = Q_update" by (cases "fe_op prior") (auto simp: fits_def)
  obtain g m where f: "f = (g, m)" by (cases f)
  show ?thesis
  proof (cases "fe_op nxt")
    case Q_update
    with p Some f assms(1,2) show ?thesis
      by (simp add: fold_queued_edits_def Let_def apply_result_def apply_edit_def edit_props_def
          edit_wf_def props_of_def map_of_spread obj_wf_spread coalesce_assoc)
  qed (use p Some f assms(5) in \<open>simp_all add: fold_queued_edits_def Let_def apply_result_def apply_edit_def\<close>)
qed

subsection \<open>Edit logs\<close>

text \<open>
  What the queue relies on: a log kept as one folded entry stands for the log. \<open>ok a s\<close>: the
  entry \<open>a\<close> may be folded onto when the other side is in state \<open>s\<close>; \<open>more\<close>: entries that may
  follow; \<open>closes\<close>: entries after which nothing follows. \<open>None\<close> is a log that cancels out.
\<close>

fun fold_all :: "('e \<Rightarrow> 'e \<Rightarrow> 'e option) \<Rightarrow> 'e \<Rightarrow> 'e list \<Rightarrow> 'e option" where
  "fold_all fold2 a [] = Some a"
| "fold_all fold2 a (e # es) = (case fold2 a e of None \<Rightarrow> None | Some c \<Rightarrow> fold_all fold2 c es)"

locale edit_log =
  fixes fold2 :: "'e \<Rightarrow> 'e \<Rightarrow> 'e option" and app :: "'e \<Rightarrow> 's \<Rightarrow> 's"
    and ok :: "'e \<Rightarrow> 's \<Rightarrow> bool" and more :: "'e \<Rightarrow> bool" and closes :: "'e \<Rightarrow> bool"
  assumes fold_app: "ok a s \<Longrightarrow> more b \<Longrightarrow> fold2 a b = Some c \<Longrightarrow> app c s = app b (app a s)"
    and fold_ok: "ok a s \<Longrightarrow> more b \<Longrightarrow> \<not> closes b \<Longrightarrow> fold2 a b = Some c \<Longrightarrow> ok c s"
    and fold_none: "ok a s \<Longrightarrow> more b \<Longrightarrow> fold2 a b = None \<Longrightarrow> closes b \<and> app b (app a s) = s"
begin

lemma log_app:
  "ok a s \<Longrightarrow> \<forall>e \<in> set es. more e \<Longrightarrow> \<forall>e \<in> set (butlast es). \<not> closes e \<Longrightarrow>
   (case fold_all fold2 a es of None \<Rightarrow> s | Some c \<Rightarrow> app c s) = fold app es (app a s)"
proof (induction es arbitrary: a)
  case (Cons e es)
  then have e: "more e" by simp
  show ?case
  proof (cases "fold2 a e")
    case None
    then have cl: "closes e" "app e (app a s) = s" using fold_none Cons.prems(1) e by blast+
    with Cons.prems(3) have "es = []" by (cases es) auto
    with None cl show ?thesis by simp
  next
    case (Some c)
    then have c: "app c s = app e (app a s)" using fold_app Cons.prems(1) e by blast
    show ?thesis
    proof (cases "es = []")
      case True
      with Some c show ?thesis by simp
    next
      case False
      with Cons.prems(3) have "\<not> closes e" by simp
      then have "ok c s" using fold_ok Some Cons.prems(1) e by blast
      moreover have "\<forall>x \<in> set (butlast es). \<not> closes x" using Cons.prems(3) False by simp
      ultimately show ?thesis using Cons.IH [of c] Cons.prems(2) Some c by simp
    qed
  qed
qed simp

end

definition fold2_edits :: "foldable_edit \<Rightarrow> foldable_edit \<Rightarrow> foldable_edit option" where
  "fold2_edits a b = (case fold_queued_edits a b of Replace e \<Rightarrow> Some e | Annihilated \<Rightarrow> None)"

definition open_edit :: "foldable_edit \<Rightarrow> feature option \<Rightarrow> bool" where
  "open_edit e s \<longleftrightarrow> edit_wf e \<and> fits e s \<and> fe_op e \<noteq> Q_delete"

definition later_edit :: "foldable_edit \<Rightarrow> bool" where
  "later_edit e \<longleftrightarrow> edit_wf e \<and> fe_op e \<noteq> Q_insert"

lemma fold_chain_all:
  "fold_chain_from a es = (case fold_all fold2_edits a es of None \<Rightarrow> Annihilated | Some e \<Rightarrow> Replace e)"
  by (induction es arbitrary: a) (auto simp: fold2_edits_def split: fold_result.split)

interpretation feature_log:
  edit_log fold2_edits apply_edit open_edit later_edit "\<lambda>e. fe_op e = Q_delete"
proof unfold_locales
  fix a b c :: foldable_edit and s :: "feature option"
  assume a: "open_edit a s" and b: "later_edit b" and c: "fold2_edits a b = Some c"
  then have "fold_queued_edits a b = Replace c" by (simp add: fold2_edits_def split: fold_result.splits)
  then show "apply_edit c s = apply_edit b (apply_edit a s)"
    using fold_sound [of a b s] a b by (simp add: open_edit_def later_edit_def apply_result_def)
next
  fix a b c :: foldable_edit and s :: "feature option"
  assume a: "open_edit a s" "later_edit b" "fe_op b \<noteq> Q_delete" and c: "fold2_edits a b = Some c"
  then have r: "fold_queued_edits a b = Replace c" by (simp add: fold2_edits_def split: fold_result.splits)
  show "open_edit c s"
    using a fold_wf [OF _ _ r] fold_op [OF r] by (cases "fe_op a") (auto simp: open_edit_def later_edit_def fits_def)
next
  fix a b :: foldable_edit and s :: "feature option"
  assume a: "open_edit a s" "later_edit b" and "fold2_edits a b = None"
  then have ann: "fold_queued_edits a b = Annihilated" by (simp add: fold2_edits_def split: fold_result.splits)
  then have ops: "fe_op a = Q_insert" "fe_op b = Q_delete" by (simp_all add: fold_annihilated_iff)
  with fold_sound [of a b s] a ann show "fe_op b = Q_delete \<and> apply_edit b (apply_edit a s) = s"
    by (simp add: open_edit_def later_edit_def apply_result_def)
qed

subsection \<open>Properties\<close>

text \<open>C14: sending the fold of a chain has, on the server's copy of the feature, the effect of
  sending its edits one after the other; a chain that annihilates leaves the server as it was.
  The chain starts with the edit the server state calls for, has no second insert, and a
  delete at most at its end.\<close>

theorem fold_chain_refines_replay:
  assumes "edit_wf e" and "fits e s" and "fe_op e \<noteq> Q_delete"
    and "\<forall>x \<in> set es. edit_wf x \<and> fe_op x \<noteq> Q_insert"
    and "\<forall>x \<in> set (butlast es). fe_op x \<noteq> Q_delete"
  shows "\<exists>r. fold_queued_chain (e # es) = Some r \<and> apply_result r s = fold apply_edit es (apply_edit e s)"
proof -
  have "(case fold_all fold2_edits e es of None \<Rightarrow> s | Some c \<Rightarrow> apply_edit c s) =
      fold apply_edit es (apply_edit e s)"
    by (rule feature_log.log_app) (use assms in \<open>auto simp: open_edit_def later_edit_def\<close>)
  then show ?thesis
    by (simp add: fold_queued_chain_def fold_chain_all apply_result_def split: option.splits)
qed

definition capture :: foldable_edit where
  "capture = \<lparr> fe_op = Q_insert, fe_geometry = JStr ''here'', fe_properties = Some [(''name'', JStr ''oka''), (''kind'', JStr ''tree'')] \<rparr>"

definition fix_typo :: foldable_edit where
  "fix_typo = \<lparr> fe_op = Q_update, fe_geometry = JNull, fe_properties = Some [(''name'', JStr ''oak'')] \<rparr>"

lemma fold_chain_refines_replay_witness:
  "\<exists>r. fold_queued_chain [capture, fix_typo] = Some r \<and>
     apply_result r None = fold apply_edit [fix_typo] (apply_edit capture None)"
  by (rule fold_chain_refines_replay)
     (simp_all add: capture_def fix_typo_def edit_wf_def fits_def props_of_def obj_wf_def)

text \<open>In a folded edit every property has the value of the last edit that carried it, keys
  the later form did not show survive, the position of a capture survives edits without
  geometry, and an edit of a feature the server does not have stays its insert.\<close>

theorem fold_keeps_last_write:
  assumes "edit_wf prior" and "edit_wf nxt" and "fold_queued_edits prior nxt = Replace e"
    and "fe_op nxt \<noteq> Q_delete"
  shows "edit_props e k = (case edit_props nxt k of Some v \<Rightarrow> Some v | None \<Rightarrow> edit_props prior k) \<and>
     fe_geometry e = (if nullish (fe_geometry nxt) then fe_geometry prior else fe_geometry nxt) \<and>
     (fe_op e = Q_insert \<longleftrightarrow> fe_op prior = Q_insert)"
  using assms
  by (auto simp: fold_queued_edits_def Let_def edit_props_def props_of_def edit_wf_def map_of_spread
      obj_wf_spread map_add_def coalesce_def split: if_splits option.splits)

lemma fold_keeps_last_write_witness:
  "edit_props \<lparr> fe_op = Q_insert, fe_geometry = JStr ''here'',
      fe_properties = Some [(''name'', JStr ''oak''), (''kind'', JStr ''tree'')] \<rparr> ''kind'' =
   (case edit_props fix_typo ''kind'' of Some v \<Rightarrow> Some v | None \<Rightarrow> edit_props capture ''kind'')"
proof -
  have "fold_queued_edits capture fix_typo = Replace \<lparr> fe_op = Q_insert, fe_geometry = JStr ''here'',
      fe_properties = Some [(''name'', JStr ''oak''), (''kind'', JStr ''tree'')] \<rparr>"
    by (simp add: fold_queued_edits_def capture_def fix_typo_def props_of_def coalesce_def Let_def)
  then show ?thesis
    using fold_keeps_last_write [of capture fix_typo _ "''kind''"]
    by (simp add: capture_def fix_typo_def edit_wf_def props_of_def obj_wf_def)
qed

end
