(* ===== verification/QueueReplay.thy ===== *)
theory QueueReplay
  imports QueueFold
begin

text \<open>
  \<open>packages/shared-types/src/queue-replay.ts\<close> and \<open>sync-outcome.ts\<close>: when a queued edit may be
  replayed, which rows a pass replays and in which order, whose rows an account may send, and
  what the status of a reply means for the row. Times are milliseconds as the code's numbers,
  a stored timestamp is a string read by \<open>Date.parse\<close> (\<open>h_date_parse\<close>).
\<close>

datatype sync_status = S_pending | S_syncing | S_synced | S_failed | S_rejected

record replayable_row =
  rr_dataLayerId :: string
  rr_layerKey :: string
  rr_globalId :: string
  rr_queuedAt :: string
  rr_syncStatus :: sync_status
  rr_lastAttemptAt :: "string option"
  rr_retryCount :: "int option"

subsection \<open>Claimable rows\<close>

definition QUEUE_CLAIM_STALE_MS :: int where
  "QUEUE_CLAIM_STALE_MS = 120000"

definition RETRY_BACKOFF_MS :: "int list" where
  "RETRY_BACKOFF_MS = [0, 5000, 15000, 60000, 5 * 60000, 15 * 60000]"

definition queue_retry_delay_ms :: "int option \<Rightarrow> int" where
  "queue_retry_delay_ms retryCount =
     (let n = (case retryCount of Some c \<Rightarrow> if 0 < c then c else 0 | None \<Rightarrow> 0);
          capped = min n (int (length RETRY_BACKOFF_MS) - 1)
      in RETRY_BACKOFF_MS ! nat capped)"

definition last_attempt :: "host \<Rightarrow> 'a replayable_row_scheme \<Rightarrow> jsnum" where
  "last_attempt h row =
     (case rr_lastAttemptAt row of None \<Rightarrow> NaN | Some t \<Rightarrow> if t = [] then NaN else h_date_parse h t)"

definition is_queue_row_claimable :: "host \<Rightarrow> 'a replayable_row_scheme \<Rightarrow> jsnum \<Rightarrow> bool \<Rightarrow> bool" where
  "is_queue_row_claimable h row nowMs ignoreBackoff =
     (let tried = last_attempt h row
      in case rr_syncStatus row of
           S_rejected \<Rightarrow> False
         | S_synced \<Rightarrow> False
         | S_syncing \<Rightarrow> \<not> (is_finite tried \<and> n_lt (n_sub nowMs tried) (num QUEUE_CLAIM_STALE_MS))
         | _ \<Rightarrow>
             if ignoreBackoff then True
             else let delay = queue_retry_delay_ms (rr_retryCount row)
                  in if delay = 0 then True
                     else if \<not> is_finite tried then True
                     else n_le (num delay) (n_sub nowMs tried))"

definition is_queue_row_owned_by :: "string option \<Rightarrow> string option \<Rightarrow> bool" where
  "is_queue_row_owned_by ownerUserId currentUserId =
     (case ownerUserId of None \<Rightarrow> True | Some u \<Rightarrow> currentUserId = Some u)"

subsection \<open>Chain heads\<close>

definition feature_key :: "'a replayable_row_scheme \<Rightarrow> string" where
  "feature_key row = rr_dataLayerId row @ [CHR 0x00] @ rr_layerKey row @ [CHR 0x00] @ rr_globalId row"

definition hold_oldest ::
  "host \<Rightarrow> (string \<times> 'a replayable_row_scheme) list \<Rightarrow> 'a replayable_row_scheme \<Rightarrow>
   (string \<times> 'a replayable_row_scheme) list" where
  "hold_oldest h oldest row =
     (case map_of oldest (feature_key row) of
        None \<Rightarrow> obj_set (feature_key row) row oldest
      | Some held \<Rightarrow>
          if h_locale_compare h (rr_queuedAt row) (rr_queuedAt held) < 0
          then obj_set (feature_key row) row oldest else oldest)"

definition queue_chain_heads ::
  "host \<Rightarrow> 'a replayable_row_scheme list \<Rightarrow> jsnum \<Rightarrow> bool \<Rightarrow> 'a replayable_row_scheme list" where
  "queue_chain_heads h rows nowMs ignoreBackoff =
     sort_by (\<lambda>a b. h_locale_compare h (rr_queuedAt a) (rr_queuedAt b) \<le> 0)
       (filter (\<lambda>row. is_queue_row_claimable h row nowMs ignoreBackoff)
          (map snd (foldl (hold_oldest h) [] rows)))"

subsection \<open>Outcome of a reply\<close>

datatype replay_outcome = R_done | R_retry | R_rejected

definition TRANSIENT_4XX :: "int list" where
  "TRANSIENT_4XX = [401, 408, 425, 429]"

definition replay_outcome_for_status :: "int \<Rightarrow> queue_op \<Rightarrow> replay_outcome" where
  "replay_outcome_for_status status op =
     (if 200 \<le> status \<and> status < 300 then R_done
      else if op = Q_delete \<and> status = 404 then R_done
      else if 400 \<le> status \<and> status < 500
      then (if status \<in> set TRANSIENT_4XX then R_retry else R_rejected)
      else R_retry)"

subsection \<open>Lemmas: the heads\<close>

definition is_oldest :: "host \<Rightarrow> 'a replayable_row_scheme list \<Rightarrow> 'a replayable_row_scheme \<Rightarrow> bool" where
  "is_oldest h rows r \<longleftrightarrow> r \<in> set rows \<and>
     (\<forall>r' \<in> set rows. feature_key r' = feature_key r \<longrightarrow>
        h_locale_compare h (rr_queuedAt r) (rr_queuedAt r') \<le> 0)"

definition holds_oldest ::
  "host \<Rightarrow> 'a replayable_row_scheme list \<Rightarrow> (string \<times> 'a replayable_row_scheme) list \<Rightarrow> bool" where
  "holds_oldest h rows m \<longleftrightarrow> obj_wf m \<and>
     (\<forall>k r. map_of m k = Some r \<longrightarrow> feature_key r = k \<and> is_oldest h rows r) \<and>
     fst ` set m = feature_key ` set rows"

lemma holds_oldest_Nil: "holds_oldest h [] []"
  by (simp add: holds_oldest_def)

lemma is_oldest_other:
  "is_oldest h rows r \<Longrightarrow> feature_key x \<noteq> feature_key r \<Longrightarrow> is_oldest h (rows @ [x]) r"
  by (auto simp: is_oldest_def)

lemma holds_oldest_step:
  assumes c: "collation (h_locale_compare h)" and m: "holds_oldest h rows m"
  shows "holds_oldest h (rows @ [x]) (hold_oldest h m x)"
proof -
  let ?cmp = "\<lambda>a b. h_locale_compare h (rr_queuedAt a) (rr_queuedAt b)"
  have refl: "h_locale_compare h t t = 0" for t using c by (simp add: collation_def)
  from m have wf: "obj_wf m" and old: "\<And>k r. map_of m k = Some r \<Longrightarrow> feature_key r = k \<and> is_oldest h rows r"
    and keys: "fst ` set m = feature_key ` set rows" by (auto simp: holds_oldest_def)
  have new: "holds_oldest h (rows @ [x]) (obj_set (feature_key x) x m)" if "is_oldest h (rows @ [x]) x"
    unfolding holds_oldest_def
  proof (intro conjI allI impI)
    fix k r assume "map_of (obj_set (feature_key x) x m) k = Some r"
    then consider "k = feature_key x" "r = x" | "k \<noteq> feature_key x" "map_of m k = Some r"
      by (auto split: if_splits)
    then show "feature_key r = k" "is_oldest h (rows @ [x]) r"
      by (cases; use old that is_oldest_other in fastforce)+
  qed (use wf keys in \<open>auto simp: keys_obj_set\<close>)
  show ?thesis
  proof (cases "map_of m (feature_key x)")
    case None
    then have "feature_key x \<notin> feature_key ` set rows" using keys by (simp add: map_of_eq_None_iff)
    then have "is_oldest h (rows @ [x]) x" by (auto simp: is_oldest_def refl) (metis imageI)
    with None new show ?thesis by (simp add: hold_oldest_def)
  next
    case (Some held)
    with old have held: "feature_key held = feature_key x" "is_oldest h rows held" by blast+
    show ?thesis
    proof (cases "?cmp x held < 0")
      case True
      then have "?cmp x held \<le> 0" by simp
      then have "is_oldest h (rows @ [x]) x"
        using held refl collation_trans [OF c] unfolding is_oldest_def by (auto simp: held(1) [symmetric])
      with Some True new show ?thesis by (simp add: hold_oldest_def)
    next
      case False
      then have le: "?cmp held x \<le> 0" using collation_neg [OF c] by blast
      have "is_oldest h (rows @ [x]) r" if "map_of m k = Some r" for k r
        using old [OF that] is_oldest_other [of h rows r x] held Some that le
        by (cases "k = feature_key x") (auto simp: is_oldest_def)
      moreover have "feature_key x \<in> feature_key ` set rows"
        using held unfolding is_oldest_def by (metis imageI)
      ultimately show ?thesis
        using Some False old wf keys by (simp add: hold_oldest_def holds_oldest_def insert_absorb)
    qed
  qed
qed

lemma holds_oldest_fold:
  "collation (h_locale_compare h) \<Longrightarrow> holds_oldest h rows (foldl (hold_oldest h) [] rows)"
  by (induction rows rule: rev_induct) (simp_all add: holds_oldest_Nil holds_oldest_step)

lemma held_rows:
  assumes "holds_oldest h rows m"
  shows "r \<in> set (map snd m) \<longleftrightarrow> map_of m (feature_key r) = Some r"
proof
  assume "r \<in> set (map snd m)"
  then obtain k where "(k, r) \<in> set m" by auto
  then have "map_of m k = Some r" using assms by (simp add: holds_oldest_def obj_wf_def)
  then show "map_of m (feature_key r) = Some r" using assms by (auto simp: holds_oldest_def)
next
  assume "map_of m (feature_key r) = Some r"
  then have "(feature_key r, r) \<in> set m" by (rule map_of_SomeD)
  then show "r \<in> set (map snd m)" by force
qed

lemma distinct_held:
  assumes "holds_oldest h rows m"
  shows "distinct (map feature_key (map snd m))"
proof -
  have "map feature_key (map snd m) = map fst m"
  proof -
    have "feature_key (snd p) = fst p" if "p \<in> set m" for p
    proof -
      have "map_of m (fst p) = Some (snd p)" using that assms by (simp add: holds_oldest_def obj_wf_def)
      then show ?thesis using assms by (simp add: holds_oldest_def)
    qed
    then show ?thesis by simp
  qed
  then show ?thesis using assms unfolding holds_oldest_def obj_wf_def by (simp only:)
qed

lemma distinct_keys_sort_filter:
  "distinct (map f xs) \<Longrightarrow> distinct (map f (sort_by le (filter P xs)))"
proof -
  assume d: "distinct (map f xs)"
  then have "distinct (filter P xs)" by (simp add: distinct_map)
  moreover have "inj_on f (set (filter P xs))" using d by (auto simp: distinct_map intro: inj_on_subset)
  ultimately show ?thesis by (simp add: distinct_map)
qed

lemma heads_iff:
  assumes "collation (h_locale_compare h)"
  shows "r \<in> set (queue_chain_heads h rows now ib) \<longleftrightarrow>
     map_of (foldl (hold_oldest h) [] rows) (feature_key r) = Some r \<and> is_queue_row_claimable h r now ib"
  using held_rows [OF holds_oldest_fold [OF assms], of r rows] by (auto simp: queue_chain_heads_def)

lemma heads_oldest:
  assumes c: "collation (h_locale_compare h)" and "r \<in> set (queue_chain_heads h rows now ib)"
  shows "is_oldest h rows r \<and> is_queue_row_claimable h r now ib"
  using assms holds_oldest_fold [OF c, of rows] by (auto simp: heads_iff holds_oldest_def)

lemma heads_in_rows:
  "collation (h_locale_compare h) \<Longrightarrow> r \<in> set (queue_chain_heads h rows now ib) \<Longrightarrow> r \<in> set rows"
  using heads_oldest is_oldest_def by blast

lemma heads_distinct:
  assumes "collation (h_locale_compare h)"
  shows "distinct (map feature_key (queue_chain_heads h rows now ib))"
  unfolding queue_chain_heads_def
  by (rule distinct_keys_sort_filter) (rule distinct_held [OF holds_oldest_fold [OF assms]])

lemma heads_gate:
  assumes c: "collation (h_locale_compare h)" and "x \<in> set rows"
  shows "\<exists>o'. is_oldest h rows o' \<and> feature_key o' = feature_key x \<and>
     (\<forall>r. r \<in> set (queue_chain_heads h rows now ib) \<and> feature_key r = feature_key x \<longleftrightarrow>
          r = o' \<and> is_queue_row_claimable h o' now ib)"
proof -
  let ?m = "foldl (hold_oldest h) [] rows"
  have m: "holds_oldest h rows ?m" by (rule holds_oldest_fold [OF c])
  then have "feature_key x \<in> fst ` set ?m" using assms(2) by (auto simp: holds_oldest_def)
  then obtain o' where o': "map_of ?m (feature_key x) = Some o'"
    by (cases "map_of ?m (feature_key x)") (auto simp: map_of_eq_None_iff)
  with m have "feature_key o' = feature_key x" "is_oldest h rows o'" by (auto simp: holds_oldest_def)
  with o' show ?thesis by (intro exI [of _ o']) (auto simp: heads_iff [OF c])
qed

subsection \<open>Lemmas: waiting\<close>

lemma retry_delay_bounds: "0 \<le> queue_retry_delay_ms c \<and> queue_retry_delay_ms c \<le> 900000"
proof -
  have "i < 6 \<Longrightarrow> 0 \<le> RETRY_BACKOFF_MS ! i \<and> RETRY_BACKOFF_MS ! i \<le> 900000" for i
    by (auto simp: RETRY_BACKOFF_MS_def less_Suc_eq numeral_eq_Suc)
  then show ?thesis
    by (simp add: queue_retry_delay_ms_def Let_def RETRY_BACKOFF_MS_def nat_less_iff)
qed

lemma n_sub_ms:
  "\<bar>a\<bar> < 2 ^ 52 \<Longrightarrow> \<bar>b\<bar> < 2 ^ 52 \<Longrightarrow> n_sub (Fin (of_int a)) (Fin (of_int b)) = Fin (of_int (a - b))"
proof -
  assume "\<bar>a\<bar> < 2 ^ 52" "\<bar>b\<bar> < 2 ^ 52"
  moreover have "(2::int) ^ 53 = 2 * 2 ^ 52" by simp
  ultimately have "\<bar>a - b\<bar> < 2 ^ 53" by linarith
  then show ?thesis using fl_int [of "a - b"] by (simp add: n_sub_Fin)
qed

subsection \<open>Properties\<close>

text \<open>C36: a pass replays at most one row per feature, a row no other row of the feature is older
  than, only when it may be claimed, and in capture order; and it skips a feature entirely when
  the oldest row it looks at may not be claimed, so no edit overtakes the one it builds on.\<close>

theorem chain_heads_exact:
  assumes "collation (h_locale_compare h)"
  shows "distinct (map feature_key (queue_chain_heads h rows now ib)) \<and>
     sorted_wrt (\<lambda>a b. h_locale_compare h (rr_queuedAt a) (rr_queuedAt b) \<le> 0) (queue_chain_heads h rows now ib) \<and>
     (\<forall>r \<in> set (queue_chain_heads h rows now ib). is_oldest h rows r \<and> is_queue_row_claimable h r now ib) \<and>
     (\<forall>x \<in> set rows. (\<forall>y \<in> set rows. feature_key y = feature_key x \<longrightarrow> y \<noteq> x \<longrightarrow>
           h_locale_compare h (rr_queuedAt x) (rr_queuedAt y) < 0) \<longrightarrow>
        (if is_queue_row_claimable h x now ib then x \<in> set (queue_chain_heads h rows now ib)
         else \<forall>r \<in> set (queue_chain_heads h rows now ib). feature_key r \<noteq> feature_key x))"
proof (intro conjI ballI impI)
  show "distinct (map feature_key (queue_chain_heads h rows now ib))" by (rule heads_distinct [OF assms])
  show "sorted_wrt (\<lambda>a b. h_locale_compare h (rr_queuedAt a) (rr_queuedAt b) \<le> 0) (queue_chain_heads h rows now ib)"
    unfolding queue_chain_heads_def
    by (rule sorted_sort_by) (rule collation_total [OF assms], rule collation_trans [OF assms])
next
  fix r assume "r \<in> set (queue_chain_heads h rows now ib)"
  then show "is_oldest h rows r" "is_queue_row_claimable h r now ib" using heads_oldest [OF assms] by blast+
next
  fix x
  assume x: "x \<in> set rows"
    and old: "\<forall>y \<in> set rows. feature_key y = feature_key x \<longrightarrow> y \<noteq> x \<longrightarrow>
        h_locale_compare h (rr_queuedAt x) (rr_queuedAt y) < 0"
  obtain q where q: "is_oldest h rows q" "feature_key q = feature_key x"
     "\<And>r. r \<in> set (queue_chain_heads h rows now ib) \<and> feature_key r = feature_key x \<longleftrightarrow>
          r = q \<and> is_queue_row_claimable h q now ib"
    using heads_gate [OF assms x, of now ib] by (elim exE conjE) (rule that, assumption+, blast)
  have "q = x"
  proof (rule ccontr)
    assume "q \<noteq> x"
    then have "h_locale_compare h (rr_queuedAt x) (rr_queuedAt q) < 0"
      using old q(1,2) by (auto simp: is_oldest_def)
    then show False using q(1,2) x collation_neg [OF assms] by (auto simp: is_oldest_def)
  qed
  with q(3) show "if is_queue_row_claimable h x now ib then x \<in> set (queue_chain_heads h rows now ib)
         else \<forall>r \<in> set (queue_chain_heads h rows now ib). feature_key r \<noteq> feature_key x"
    by auto
qed

definition row1 :: replayable_row where
  "row1 = \<lparr> rr_dataLayerId = ''l'', rr_layerKey = ''k'', rr_globalId = ''g'', rr_queuedAt = ''1'',
     rr_syncStatus = S_rejected, rr_lastAttemptAt = None, rr_retryCount = None \<rparr>"

text \<open>A parked first row keeps the second row of the feature out of the pass.\<close>

lemma chain_heads_exact_witness:
  "feature_key row1 \<notin> feature_key `
     set (queue_chain_heads host0 [row1, row1\<lparr> rr_queuedAt := ''2'', rr_syncStatus := S_pending \<rparr>] (Fin 0) False)"
  (is "_ \<notin> _ ` set (queue_chain_heads _ ?rows _ _)")
proof
  assume "feature_key row1 \<in> feature_key ` set (queue_chain_heads host0 ?rows (Fin 0) False)"
  then obtain r where r: "r \<in> set (queue_chain_heads host0 ?rows (Fin 0) False)" "feature_key r = feature_key row1"
    by (rule imageE) (simp only:)
  have c: "collation (h_locale_compare host0)" by (simp add: host0_def collation_code_unit)
  have "h_locale_compare host0 ''1'' ''2'' < 0" by (simp add: host0_def code_unit_compare_def less_char_def)
  then have old: "\<forall>y \<in> set ?rows. feature_key y = feature_key row1 \<longrightarrow> y \<noteq> row1 \<longrightarrow>
      h_locale_compare host0 (rr_queuedAt row1) (rr_queuedAt y) < 0"
    by (simp add: row1_def)
  have no: "\<not> is_queue_row_claimable host0 row1 (Fin 0) False"
    by (simp add: row1_def is_queue_row_claimable_def)
  have "row1 \<in> set ?rows" by (rule list.set_intros(1))
  note * = chain_heads_exact [OF c, of ?rows "Fin 0" False, THEN conjunct2, THEN conjunct2, THEN conjunct2,
      THEN bspec, OF this, THEN mp, OF old, unfolded if_not_P [OF no]]
  show False using bspec [OF * r(1)] r(2) by (rule notE)
qed

text \<open>C39: a queued row is never stranded: fifteen minutes after its last attempt (or at once when it
  has none that can be read) it may be claimed again, whatever its number of failures and even
  if the drain that held it died, unless the server refused it for good or it is synced.\<close>

theorem never_stranded:
  assumes "rr_syncStatus row \<noteq> S_rejected" and "rr_syncStatus row \<noteq> S_synced"
    and "\<not> is_finite (last_attempt h row) \<or>
      last_attempt h row = Fin (of_int t) \<and> \<bar>t\<bar> < 2 ^ 52 \<and> \<bar>now\<bar> < 2 ^ 52 \<and> t + 900000 \<le> now"
  shows "is_queue_row_claimable h row (Fin (of_int now)) ib"
  using assms(3)
proof
  assume "\<not> is_finite (last_attempt h row)"
  then show ?thesis using assms(1,2) by (cases "rr_syncStatus row") (auto simp: is_queue_row_claimable_def Let_def)
next
  assume a: "last_attempt h row = Fin (of_int t) \<and> \<bar>t\<bar> < 2 ^ 52 \<and> \<bar>now\<bar> < 2 ^ 52 \<and> t + 900000 \<le> now"
  then have sub: "n_sub (Fin (of_int now)) (last_attempt h row) = Fin (of_int (now - t))"
    using n_sub_ms by simp
  let ?d = "queue_retry_delay_ms (rr_retryCount row)"
  have "0 \<le> ?d" "?d \<le> 900000" using retry_delay_bounds by blast+
  then have d: "num ?d = Fin (of_int ?d)" by (intro num_exact) auto
  have ms: "(120000::rat) \<le> of_int (now - t)" "(of_int ?d :: rat) \<le> of_int (now - t)"
    using a \<open>?d \<le> 900000\<close> by linarith+
  have st: "num QUEUE_CLAIM_STALE_MS = Fin 120000"
    using num_exact [of 120000] by (simp add: QUEUE_CLAIM_STALE_MS_def)
  show ?thesis
    using assms(1,2) ms
    by (cases "rr_syncStatus row") (simp_all add: is_queue_row_claimable_def Let_def sub d st not_less)
qed

lemma never_stranded_witness:
  "is_queue_row_claimable host0 (row1\<lparr> rr_syncStatus := S_failed, rr_retryCount := Some 9 \<rparr>) (Fin (of_int 5)) False"
  by (rule never_stranded) (simp_all add: row1_def last_attempt_def)

text \<open>A row a drain has just claimed is left alone by every other drain for two minutes, the
  same window for all of them, even for a person who presses Sync now.\<close>

theorem fresh_claim_excludes:
  assumes "rr_syncStatus row = S_syncing" and "last_attempt h row = Fin (of_int t)"
    and "\<bar>t\<bar> < 2 ^ 52" and "\<bar>now\<bar> < 2 ^ 52" and "now < t + 120000"
  shows "\<not> is_queue_row_claimable h row (Fin (of_int now)) ib"
proof -
  have "n_sub (Fin (of_int now)) (last_attempt h row) = Fin (of_int (now - t))"
    using n_sub_ms assms by simp
  moreover have "(of_int (now - t) :: rat) < 120000" using assms(5) by linarith
  moreover have "num QUEUE_CLAIM_STALE_MS = Fin 120000"
    using num_exact [of 120000] by (simp add: QUEUE_CLAIM_STALE_MS_def)
  ultimately show ?thesis using assms(1,2) by (simp add: is_queue_row_claimable_def Let_def)
qed

lemma fresh_claim_excludes_witness:
  "\<not> is_queue_row_claimable (host0\<lparr> h_date_parse := \<lambda>_. Fin (of_int 1000) \<rparr>)
     (row1\<lparr> rr_syncStatus := S_syncing, rr_lastAttemptAt := Some ''t'' \<rparr>) (Fin (of_int 61000)) True"
  by (rule fresh_claim_excludes [where t = 1000]) (simp_all add: row1_def last_attempt_def)

end
