(* ===== verification/OfflineStore.thy ===== *)
theory OfflineStore
  imports QueueReplay
begin

text \<open>
  The queue and pending-file stores of \<open>apps/portal-web/src/lib/offline-store.ts\<close>. An IndexedDB
  object store is the list of its records in key order; each operation is one readwrite
  transaction, which the database runs without interleaving, so it is one function here. The
  locale \<open>keyed_store\<close> is what the operations rely on of the database.
\<close>

subsection \<open>Records\<close>

record offline_message =
  om_code :: string
  om_params :: obj

record queue_record = replayable_row +
  qr_id :: string
  qr_dataCollectionId :: string
  qr_op :: queue_op
  qr_geometry :: jsval
  qr_properties :: "obj option"
  qr_schemaHash :: string
  qr_failure :: "offline_message option"
  qr_ownerUserId :: "string option"

record pending_blob =
  pb_blobId :: string
  pb_dataCollectionId :: string
  pb_dataLayerId :: string
  pb_layerKey :: string
  pb_globalId :: string
  pb_fileName :: string
  pb_mimeType :: string
  pb_sizeBytes :: jsnum
  pb_blobSize :: jsnum
  pb_capturedAt :: string
  pb_ownerUserId :: "string option"

record feature_edit_input =
  fi_dataCollectionId :: string
  fi_op :: queue_op
  fi_dataLayerId :: string
  fi_layerKey :: string
  fi_globalId :: string
  fi_geometry :: jsval
  fi_properties :: "obj option"
  fi_schemaHash :: string
  fi_ownerUserId :: string

datatype enqueue_result = Queued queue_record | Folded queue_record nat | Cancelled nat

subsection \<open>An object store with a compound key\<close>

type_synonym row_key = "string \<times> string"

definition row_key :: "queue_record \<Rightarrow> row_key" where
  "row_key r = (qr_dataCollectionId r, qr_id r)"

definition key_less :: "row_key \<Rightarrow> row_key \<Rightarrow> bool" where
  "key_less a b \<longleftrightarrow> fst a < fst b \<or> fst a = fst b \<and> snd a < snd b"

fun store_put :: "queue_record \<Rightarrow> queue_record list \<Rightarrow> queue_record list" where
  "store_put r [] = [r]"
| "store_put r (x # xs) =
     (if row_key x = row_key r then r # xs
      else if key_less (row_key r) (row_key x) then r # x # xs
      else x # store_put r xs)"

definition store_delete :: "row_key \<Rightarrow> queue_record list \<Rightarrow> queue_record list" where
  "store_delete k s = filter (\<lambda>r. row_key r \<noteq> k) s"

definition store_get :: "row_key \<Rightarrow> queue_record list \<Rightarrow> queue_record option" where
  "store_get k s = find (\<lambda>r. row_key r = k) s"

definition store_wf :: "queue_record list \<Rightarrow> bool" where
  "store_wf s \<longleftrightarrow> sorted_wrt (\<lambda>x y. key_less (row_key x) (row_key y)) s"

lemma key_less_trans: "key_less a b \<Longrightarrow> key_less b c \<Longrightarrow> key_less a c"
  unfolding key_less_def by (auto intro: less_trans)

lemma key_less_irrefl [simp]: "\<not> key_less a a"
  by (simp add: key_less_def)

lemma key_less_linear: "a \<noteq> b \<Longrightarrow> \<not> key_less a b \<Longrightarrow> key_less b a"
  by (cases a; cases b) (auto simp: key_less_def neq_iff)

text \<open>What the code relies on of a keyed store, over the set of its records.\<close>

locale keyed_store =
  fixes put :: "'r \<Rightarrow> 's \<Rightarrow> 's" and del :: "'k \<Rightarrow> 's \<Rightarrow> 's" and look :: "'k \<Rightarrow> 's \<Rightarrow> 'r option"
    and recs :: "'s \<Rightarrow> 'r set" and key :: "'r \<Rightarrow> 'k" and wf :: "'s \<Rightarrow> bool"
  assumes recs_put: "wf s \<Longrightarrow> recs (put r s) = insert r {x \<in> recs s. key x \<noteq> key r}"
    and recs_del: "wf s \<Longrightarrow> recs (del k s) = {x \<in> recs s. key x \<noteq> k}"
    and look_iff: "wf s \<Longrightarrow> look k s = Some r \<longleftrightarrow> r \<in> recs s \<and> key r = k"
    and wf_put: "wf s \<Longrightarrow> wf (put r s)"
    and wf_del: "wf s \<Longrightarrow> wf (del k s)"
begin

lemma unique: "wf s \<Longrightarrow> x \<in> recs s \<Longrightarrow> y \<in> recs s \<Longrightarrow> key x = key y \<Longrightarrow> x = y"
  using look_iff [of s "key y" x] look_iff [of s "key y" y] by auto

lemma wf_dels: "wf s \<Longrightarrow> wf (fold del ks s)"
  by (induction ks arbitrary: s) (simp_all add: wf_del)

lemma recs_dels: "wf s \<Longrightarrow> recs (fold del ks s) = {x \<in> recs s. key x \<notin> set ks}"
proof (induction ks arbitrary: s)
  case (Cons k ks)
  then show ?case using recs_del [of s k] wf_del [of s k] by auto
qed simp

lemma others_kept: "wf s \<Longrightarrow> x \<in> recs s \<Longrightarrow> key x \<noteq> key r \<Longrightarrow> x \<in> recs (put r s)"
  by (simp add: recs_put)

lemma look_None: "wf s \<Longrightarrow> look k s = None \<longleftrightarrow> (\<forall>r \<in> recs s. key r \<noteq> k)"
proof (cases "look k s")
  case None
  moreover assume "wf s"
  ultimately show ?thesis using look_iff [of s k] by auto
next
  case (Some r)
  moreover assume "wf s"
  ultimately show ?thesis using look_iff [of s k r] by auto
qed

end

lemma store_wf_Cons:
  "store_wf (x # xs) \<longleftrightarrow> (\<forall>y \<in> set xs. key_less (row_key x) (row_key y)) \<and> store_wf xs"
  by (simp add: store_wf_def)

lemma set_store_put: "store_wf s \<Longrightarrow> set (store_put r s) = insert r {x \<in> set s. row_key x \<noteq> row_key r}"
proof (induction s)
  case (Cons x xs)
  then have x: "\<forall>y \<in> set xs. key_less (row_key x) (row_key y)" and "store_wf xs"
    by (auto simp: store_wf_Cons)
  consider "row_key x = row_key r" | "key_less (row_key r) (row_key x)"
    | "row_key x \<noteq> row_key r" "\<not> key_less (row_key r) (row_key x)" by blast
  then show ?case
  proof cases
    case 1
    with x have "\<forall>y \<in> set xs. row_key y \<noteq> row_key r" by (metis key_less_irrefl)
    with 1 show ?thesis by auto
  next
    case 2
    then have "\<forall>y \<in> set (x # xs). row_key y \<noteq> row_key r"
      using x key_less_trans by (metis key_less_irrefl set_ConsD)
    with 2 show ?thesis by auto
  qed (use Cons \<open>store_wf xs\<close> in auto)
qed simp

lemma store_wf_put: "store_wf s \<Longrightarrow> store_wf (store_put r s)"
proof (induction s)
  case (Cons x xs)
  then have x: "\<forall>y \<in> set xs. key_less (row_key x) (row_key y)" and xs: "store_wf xs"
    by (auto simp: store_wf_Cons)
  consider "row_key x = row_key r" | "key_less (row_key r) (row_key x)" "row_key x \<noteq> row_key r"
    | "row_key x \<noteq> row_key r" "\<not> key_less (row_key r) (row_key x)" by blast
  then show ?case
  proof cases
    case 2
    then show ?thesis using x xs key_less_trans by (auto simp: store_wf_Cons)
  next
    case 3
    then have "key_less (row_key x) (row_key r)" using key_less_linear by metis
    then have "\<forall>y \<in> set (store_put r xs). key_less (row_key x) (row_key y)"
      using x by (simp add: set_store_put [OF xs])
    with 3 Cons.IH xs show ?thesis by (simp add: store_wf_Cons)
  qed (use x xs in \<open>simp add: store_wf_Cons\<close>)
qed (simp add: store_wf_def)

lemma store_get_iff: "store_wf s \<Longrightarrow> store_get k s = Some r \<longleftrightarrow> r \<in> set s \<and> row_key r = k"
proof (induction s)
  case (Cons x xs)
  then have "\<forall>y \<in> set xs. row_key y \<noteq> row_key x" by (metis store_wf_Cons key_less_irrefl)
  with Cons show ?case by (auto simp: store_get_def store_wf_Cons)
qed (simp add: store_get_def)

interpretation queue_store: keyed_store store_put store_delete store_get set row_key store_wf
proof unfold_locales
  fix s :: "queue_record list" and k
  assume "store_wf s"
  then show "store_wf (store_delete k s)"
    by (simp add: store_wf_def store_delete_def sorted_wrt_filter)
qed (auto simp: set_store_put store_wf_put store_get_iff store_delete_def)

subsection \<open>Queueing an edit\<close>

definition is_foldable :: "queue_record \<Rightarrow> string \<Rightarrow> bool" where
  "is_foldable row ownerUserId \<longleftrightarrow>
     (rr_syncStatus row = S_pending \<or> rr_syncStatus row = S_failed) \<and>
     is_queue_row_owned_by (qr_ownerUserId row) (Some ownerUserId)"

definition same_feature :: "feature_edit_input \<Rightarrow> queue_record \<Rightarrow> bool" where
  "same_feature edit r \<longleftrightarrow> rr_globalId r = fi_globalId edit \<and> rr_dataLayerId r = fi_dataLayerId edit \<and>
     rr_layerKey r = fi_layerKey edit"

definition edit_of :: "queue_record \<Rightarrow> foldable_edit" where
  "edit_of r = \<lparr> fe_op = qr_op r, fe_geometry = qr_geometry r, fe_properties = qr_properties r \<rparr>"

definition incoming_edit :: "feature_edit_input \<Rightarrow> foldable_edit" where
  "incoming_edit edit = \<lparr> fe_op = fi_op edit, fe_geometry = fi_geometry edit, fe_properties = fi_properties edit \<rparr>"

definition foldable_rows :: "host \<Rightarrow> feature_edit_input \<Rightarrow> queue_record list \<Rightarrow> queue_record list" where
  "foldable_rows h edit s =
     sort_by (\<lambda>a b. h_locale_compare h (rr_queuedAt a) (rr_queuedAt b) \<le> 0)
       (filter (\<lambda>r. is_foldable r (fi_ownerUserId edit))
          (filter (same_feature edit)
             (filter (\<lambda>r. qr_dataCollectionId r = fi_dataCollectionId edit) s)))"

definition fresh_record :: "host \<Rightarrow> string \<Rightarrow> feature_edit_input \<Rightarrow> queue_record" where
  "fresh_record h newId edit =
     \<lparr> rr_dataLayerId = fi_dataLayerId edit, rr_layerKey = fi_layerKey edit,
       rr_globalId = fi_globalId edit, rr_queuedAt = h_now_iso h, rr_syncStatus = S_pending,
       rr_lastAttemptAt = None, rr_retryCount = None, qr_id = newId,
       qr_dataCollectionId = fi_dataCollectionId edit, qr_op = fi_op edit,
       qr_geometry = fi_geometry edit, qr_properties = fi_properties edit,
       qr_schemaHash = fi_schemaHash edit, qr_failure = None,
       qr_ownerUserId = Some (fi_ownerUserId edit) \<rparr>"

definition folded_record :: "queue_record \<Rightarrow> foldable_edit \<Rightarrow> feature_edit_input \<Rightarrow> queue_record" where
  "folded_record keep e edit =
     keep \<lparr> qr_failure := None, rr_lastAttemptAt := None, qr_op := fe_op e,
            qr_geometry := coalesce (fe_geometry e) JNull, qr_properties := fe_properties e,
            qr_schemaHash := fi_schemaHash edit, rr_syncStatus := S_pending,
            rr_retryCount := Some 0, qr_ownerUserId := Some (fi_ownerUserId edit) \<rparr>"

text \<open>The transaction of \<open>enqueueEdit\<close>: what it returns and the store it leaves.\<close>

definition enqueue_edit ::
  "host \<Rightarrow> string \<Rightarrow> feature_edit_input \<Rightarrow> queue_record list \<Rightarrow> enqueue_result \<times> queue_record list" where
  "enqueue_edit h newId edit s =
     (case foldable_rows h edit s of
        [] \<Rightarrow> (let r = fresh_record h newId edit in (Queued r, store_put r s))
      | keep # rest \<Rightarrow>
          (let gone = filter (\<lambda>r. qr_id r \<noteq> qr_id keep) (keep # rest);
               s1 = fold store_delete (map row_key gone) s
           in case fold_queued_chain (map edit_of (keep # rest) @ [incoming_edit edit]) of
                Some (Replace e) \<Rightarrow>
                  (let r = folded_record keep e edit
                   in (Folded r (length (keep # rest)), store_put r s1))
              | _ \<Rightarrow> (Cancelled (length (keep # rest)), store_delete (row_key keep) s1)))"

subsection \<open>Listing, claiming, updating\<close>

definition list_queue_all_owners :: "string \<Rightarrow> queue_record list \<Rightarrow> queue_record list" where
  "list_queue_all_owners dc s = filter (\<lambda>r. qr_dataCollectionId r = dc) s"

definition list_queue :: "string \<Rightarrow> string option \<Rightarrow> queue_record list \<Rightarrow> queue_record list" where
  "list_queue dc u s = filter (\<lambda>r. is_queue_row_owned_by (qr_ownerUserId r) u) (list_queue_all_owners dc s)"

definition list_queue_by_status ::
  "string \<Rightarrow> sync_status \<Rightarrow> string option \<Rightarrow> queue_record list \<Rightarrow> queue_record list" where
  "list_queue_by_status dc st u s =
     filter (\<lambda>r. is_queue_row_owned_by (qr_ownerUserId r) u)
       (filter (\<lambda>r. qr_dataCollectionId r = dc \<and> rr_syncStatus r = st) s)"

definition claim_queue_row ::
  "host \<Rightarrow> row_key \<Rightarrow> (queue_record \<Rightarrow> bool) \<Rightarrow> queue_record list \<Rightarrow> queue_record option \<times> queue_record list" where
  "claim_queue_row h k canClaim s =
     (case store_get k s of
        None \<Rightarrow> (None, s)
      | Some existing \<Rightarrow>
          if \<not> canClaim existing then (None, s)
          else (let claimed = existing\<lparr> rr_syncStatus := S_syncing, rr_lastAttemptAt := Some (h_now_iso h) \<rparr>
                in (Some claimed, store_put claimed s)))"

definition update_queue_record :: "queue_record \<Rightarrow> queue_record list \<Rightarrow> queue_record list" where
  "update_queue_record r s = store_put r s"

definition delete_queue_record :: "row_key \<Rightarrow> queue_record list \<Rightarrow> queue_record list" where
  "delete_queue_record k s = store_delete k s"

definition clear_queue :: "string \<Rightarrow> queue_record list \<Rightarrow> queue_record list" where
  "clear_queue dc s = filter (\<lambda>r. qr_dataCollectionId r \<noteq> dc) s"

subsection \<open>Pending files\<close>

definition blob_of_feature :: "string \<Rightarrow> string \<Rightarrow> string \<Rightarrow> string \<Rightarrow> pending_blob \<Rightarrow> bool" where
  "blob_of_feature dc layer k gid b \<longleftrightarrow> pb_dataCollectionId b = dc \<and> pb_dataLayerId b = layer \<and>
     pb_layerKey b = k \<and> pb_globalId b = gid"

definition list_pending_blobs_for_feature ::
  "host \<Rightarrow> string \<Rightarrow> string \<Rightarrow> string \<Rightarrow> string \<Rightarrow> string option \<Rightarrow> pending_blob list \<Rightarrow> pending_blob list" where
  "list_pending_blobs_for_feature h dc layer k gid u bs =
     filter (\<lambda>b. is_queue_row_owned_by (pb_ownerUserId b) u)
       (sort_by (\<lambda>a b. h_locale_compare h (pb_capturedAt a) (pb_capturedAt b) \<le> 0)
          (filter (blob_of_feature dc layer k gid) bs))"

definition list_pending_blobs :: "string \<Rightarrow> string option \<Rightarrow> pending_blob list \<Rightarrow> pending_blob list" where
  "list_pending_blobs dc u bs =
     filter (\<lambda>b. is_queue_row_owned_by (pb_ownerUserId b) u) (filter (\<lambda>b. pb_dataCollectionId b = dc) bs)"

definition delete_pending_blob :: "string \<Rightarrow> pending_blob list \<Rightarrow> pending_blob list" where
  "delete_pending_blob i bs = filter (\<lambda>b. pb_blobId b \<noteq> i) bs"

definition delete_pending_blobs_for_feature ::
  "string \<Rightarrow> string \<Rightarrow> string \<Rightarrow> string \<Rightarrow> pending_blob list \<Rightarrow> pending_blob list" where
  "delete_pending_blobs_for_feature dc layer k gid bs =
     fold (\<lambda>b. delete_pending_blob (pb_blobId b)) (filter (blob_of_feature dc layer k gid) bs) bs"

subsection \<open>Lemmas: queueing\<close>

lemma set_foldable_rows:
  "r \<in> set (foldable_rows h edit s) \<longleftrightarrow>
     r \<in> set s \<and> qr_dataCollectionId r = fi_dataCollectionId edit \<and> same_feature edit r \<and>
     is_foldable r (fi_ownerUserId edit)"
  by (auto simp: foldable_rows_def)

lemma row_key_folded [simp]: "row_key (folded_record keep e edit) = row_key keep"
  by (simp add: row_key_def folded_record_def)

lemma enqueue_wf: "store_wf s \<Longrightarrow> store_wf (snd (enqueue_edit h i edit s))"
  by (auto simp: enqueue_edit_def Let_def store_wf_put queue_store.wf_del queue_store.wf_dels
      split: list.split option.split fold_result.split)

text \<open>Rows the edit may not fold into stay exactly as they were.\<close>

lemma gone_keys:
  assumes "store_wf s" and "foldable_rows h edit s = keep # rest"
  shows "x \<in> set s \<and> row_key x \<notin> row_key ` set [r\<leftarrow>keep # rest. qr_id r \<noteq> qr_id keep] \<and> row_key x \<noteq> row_key keep
     \<longleftrightarrow> x \<in> set s \<and> x \<notin> set (foldable_rows h edit s)"
proof -
  have dc: "qr_dataCollectionId r = qr_dataCollectionId keep" if "r \<in> set (keep # rest)" for r
    using that assms(2) set_foldable_rows [of r h edit s] set_foldable_rows [of keep h edit s] by auto
  have "row_key x \<in> row_key ` set (keep # rest) \<longleftrightarrow> x \<in> set (keep # rest)" if "x \<in> set s"
  proof
    assume "row_key x \<in> row_key ` set (keep # rest)"
    then obtain r where r: "row_key x = row_key r" "r \<in> set (keep # rest)" by (rule imageE)
    then have "r \<in> set s" using assms(2) set_foldable_rows [of r h edit s] by auto
    then have "x = r" using queue_store.unique [OF assms(1) that] r(1) by blast
    then show "x \<in> set (keep # rest)" using r(2) by simp
  qed auto
  moreover have "row_key x \<in> row_key ` set (keep # rest) \<longleftrightarrow>
      row_key x \<in> row_key ` set [r\<leftarrow>keep # rest. qr_id r \<noteq> qr_id keep] \<or> row_key x = row_key keep"
  proof
    assume "row_key x \<in> row_key ` set (keep # rest)"
    then obtain r where r: "row_key x = row_key r" "r \<in> set (keep # rest)" by (rule imageE)
    then show "row_key x \<in> row_key ` set [r\<leftarrow>keep # rest. qr_id r \<noteq> qr_id keep] \<or> row_key x = row_key keep"
    proof (cases "qr_id r = qr_id keep")
      case True
      then show ?thesis using dc [OF r(2)] r(1) by (simp add: row_key_def)
    next
      case False
      then have "r \<in> set [r\<leftarrow>keep # rest. qr_id r \<noteq> qr_id keep]" using r(2) by auto
      then show ?thesis unfolding r(1) by (intro disjI1 imageI)
    qed
  qed auto
  ultimately show ?thesis unfolding assms(2) by blast
qed

lemma enqueue_rows:
  assumes wf: "store_wf s" and ne: "foldable_rows h edit s \<noteq> []"
  shows "set (snd (enqueue_edit h i edit s)) =
     {x \<in> set s. x \<notin> set (foldable_rows h edit s)} \<union>
     (case fst (enqueue_edit h i edit s) of Folded r _ \<Rightarrow> {r} | _ \<Rightarrow> {})"
proof -
  obtain keep rest where f: "foldable_rows h edit s = keep # rest" using ne by (cases "foldable_rows h edit s") auto
  let ?gone = "map row_key [r\<leftarrow>keep # rest. qr_id r \<noteq> qr_id keep]"
  let ?s1 = "fold store_delete ?gone s"
  have wf1: "store_wf ?s1" by (rule queue_store.wf_dels [OF wf])
  have s1: "set ?s1 = {x \<in> set s. row_key x \<notin> set ?gone}" by (rule queue_store.recs_dels [OF wf])
  have kept: "{x \<in> set ?s1. row_key x \<noteq> row_key keep} = {x \<in> set s. x \<notin> set (foldable_rows h edit s)}"
    unfolding s1 using gone_keys [OF wf f] by auto
  show ?thesis
  proof (cases "fold_queued_chain (map edit_of (keep # rest) @ [incoming_edit edit])")
    case None
    then show ?thesis using kept queue_store.recs_del [OF wf1]
      unfolding enqueue_edit_def f by (simp add: Let_def)
  next
    case (Some res)
    show ?thesis
    proof (cases res)
      case (Replace e)
      with Some show ?thesis using kept queue_store.recs_put [OF wf1]
        unfolding enqueue_edit_def f by (simp add: Let_def Un_commute)
    next
      case Annihilated
      with Some show ?thesis using kept queue_store.recs_del [OF wf1]
        unfolding enqueue_edit_def f by (simp add: Let_def)
    qed
  qed
qed

lemma enqueue_first:
  assumes "store_wf s" and "foldable_rows h edit s = []"
  shows "fst (enqueue_edit h i edit s) = Queued (fresh_record h i edit) \<and>
     set (snd (enqueue_edit h i edit s)) =
       insert (fresh_record h i edit) {x \<in> set s. row_key x \<noteq> (fi_dataCollectionId edit, i)}"
proof -
  have "row_key (fresh_record h i edit) = (fi_dataCollectionId edit, i)"
    by (simp add: row_key_def fresh_record_def)
  then show ?thesis using assms by (simp add: enqueue_edit_def Let_def queue_store.recs_put)
qed

lemma fresh_record_foldable:
  "is_foldable (fresh_record h i edit) (fi_ownerUserId edit) \<and> same_feature edit (fresh_record h i edit) \<and>
   qr_dataCollectionId (fresh_record h i edit) = fi_dataCollectionId edit"
  by (simp add: is_foldable_def same_feature_def fresh_record_def is_queue_row_owned_by_def)

lemma folded_record_foldable:
  "same_feature edit keep \<Longrightarrow> qr_dataCollectionId keep = fi_dataCollectionId edit \<Longrightarrow>
   is_foldable (folded_record keep e edit) (fi_ownerUserId edit) \<and> same_feature edit (folded_record keep e edit) \<and>
   qr_dataCollectionId (folded_record keep e edit) = fi_dataCollectionId edit"
  by (simp add: is_foldable_def same_feature_def folded_record_def is_queue_row_owned_by_def)

text \<open>The row an edit leaves behind, if any.\<close>

definition left_row :: "enqueue_result \<Rightarrow> queue_record option" where
  "left_row res = (case res of Queued r \<Rightarrow> Some r | Folded r _ \<Rightarrow> Some r | Cancelled _ \<Rightarrow> None)"

definition mergeable :: "feature_edit_input \<Rightarrow> queue_record \<Rightarrow> bool" where
  "mergeable edit r \<longleftrightarrow> qr_dataCollectionId r = fi_dataCollectionId edit \<and> same_feature edit r \<and>
     is_foldable r (fi_ownerUserId edit)"

lemma enqueue_left_row:
  assumes wf: "store_wf s" and fresh: "\<forall>x \<in> set s. row_key x \<noteq> (fi_dataCollectionId edit, i)"
  shows "set (snd (enqueue_edit h i edit s)) =
     {x \<in> set s. \<not> mergeable edit x} \<union> set_option (left_row (fst (enqueue_edit h i edit s)))"
proof (cases "foldable_rows h edit s = []")
  case True
  then have "\<forall>x \<in> set s. \<not> mergeable edit x"
    using set_foldable_rows [of _ h edit s] by (auto simp: mergeable_def)
  then show ?thesis using enqueue_first [OF wf True] fresh by (auto simp: left_row_def)
next
  case False
  have "fst (enqueue_edit h i edit s) \<noteq> Queued r" for r
    using False by (cases "foldable_rows h edit s")
      (auto simp: enqueue_edit_def Let_def split: option.split fold_result.split)
  then show ?thesis
    using enqueue_rows [OF wf False]
    by (auto simp: left_row_def mergeable_def set_foldable_rows split: enqueue_result.splits)
qed

lemma left_row_mergeable:
  "left_row (fst (enqueue_edit h i edit s)) = Some r \<Longrightarrow>
   mergeable edit r \<and> rr_syncStatus r = S_pending \<and> qr_ownerUserId r = Some (fi_ownerUserId edit)"
proof (cases "foldable_rows h edit s")
  case Nil
  moreover assume "left_row (fst (enqueue_edit h i edit s)) = Some r"
  ultimately have "r = fresh_record h i edit" by (simp add: enqueue_edit_def left_row_def Let_def)
  then show ?thesis using fresh_record_foldable [of h i edit] by (auto simp: mergeable_def fresh_record_def)
next
  case (Cons keep rest)
  moreover assume "left_row (fst (enqueue_edit h i edit s)) = Some r"
  ultimately obtain e where r: "r = folded_record keep e edit"
    by (auto simp: enqueue_edit_def left_row_def Let_def split: option.splits fold_result.splits)
  have "keep \<in> set (foldable_rows h edit s)" using Cons by simp
  then show ?thesis using folded_record_foldable [of edit keep e]
    by (auto simp: r set_foldable_rows mergeable_def folded_record_def)
qed

subsection \<open>Properties\<close>

text \<open>queueing an edit replaces the outstanding rows it may fold into (those of the same
  feature and account that no drain holds and nobody has to decide about) by at most one row,
  and leaves every other row of the queue exactly as it was.\<close>

theorem enqueue_edit_exact:
  assumes "store_wf s" and "\<forall>x \<in> set s. row_key x \<noteq> (fi_dataCollectionId edit, newId)"
    and "enqueue_edit h newId edit s = (res, s')"
  shows "store_wf s' \<and>
     {x \<in> set s'. \<not> mergeable edit x} = {x \<in> set s. \<not> mergeable edit x} \<and>
     {x \<in> set s'. mergeable edit x} = set_option (left_row res)"
  using enqueue_wf [OF assms(1), of h newId edit] enqueue_left_row [OF assms(1,2), of h]
    left_row_mergeable [of h newId edit s] assms(3)
  by auto

definition edit1 :: feature_edit_input where
  "edit1 = \<lparr> fi_dataCollectionId = ''d'', fi_op = Q_update, fi_dataLayerId = ''l'', fi_layerKey = ''k'',
     fi_globalId = ''g'', fi_geometry = JNull, fi_properties = Some [(''name'', JStr ''oak'')],
     fi_schemaHash = ''h'', fi_ownerUserId = ''u'' \<rparr>"

definition queued1 :: queue_record where
  "queued1 = fresh_record host0 ''1''
     (edit1\<lparr> fi_op := Q_insert, fi_geometry := JStr ''here'', fi_properties := Some [(''name'', JStr ''oka'')] \<rparr>)"

lemmas edit1_simps = edit1_def queued1_def fresh_record_def

lemma enqueue_edit_exact_witness:
  "{x \<in> set (snd (enqueue_edit host0 ''2'' edit1 [queued1])). mergeable edit1 x} =
     {queued1\<lparr> qr_properties := Some [(''name'', JStr ''oak'')], rr_retryCount := Some 0 \<rparr>}"
proof -
  let ?r = "queued1\<lparr> qr_properties := Some [(''name'', JStr ''oak'')], rr_retryCount := Some 0 \<rparr>"
  have e: "enqueue_edit host0 ''2'' edit1 [queued1] = (Folded ?r 1, [?r])"
    by (simp add: enqueue_edit_def foldable_rows_def sort_by_def edit1_simps same_feature_def is_foldable_def
        is_queue_row_owned_by_def fold_queued_chain_def fold_queued_edits_def edit_of_def incoming_edit_def
        props_of_def coalesce_def folded_record_def row_key_def Let_def)
  have "store_wf [queued1]" by (simp add: store_wf_def)
  moreover have "\<forall>x \<in> set [queued1]. row_key x \<noteq> (fi_dataCollectionId edit1, ''2'')"
    by (simp add: edit1_simps row_key_def)
  ultimately show ?thesis using enqueue_edit_exact [OF _ _ e] by (simp add: e left_row_def)
qed

text \<open>The row that is left carries the fold of what was outstanding, oldest first, with the new
  edit, in the place in line of the oldest of them, ready for a fresh attempt and owned by the
  account that made the edit; it is cancelled exactly when the fold annihilates.\<close>

theorem enqueue_edit_folds:
  assumes "enqueue_edit h newId edit s = (res, s')"
  shows "case fold_queued_chain (map edit_of (foldable_rows h edit s) @ [incoming_edit edit]) of
      None \<Rightarrow> False
    | Some Annihilated \<Rightarrow> left_row res = None
    | Some (Replace e) \<Rightarrow> (\<exists>r. left_row res = Some r \<and> qr_op r = fe_op e \<and> qr_properties r = fe_properties e \<and>
         coalesce (qr_geometry r) JNull = coalesce (fe_geometry e) JNull \<and>
         rr_syncStatus r = S_pending \<and> rr_lastAttemptAt r = None \<and> queue_retry_delay_ms (rr_retryCount r) = 0 \<and>
         qr_ownerUserId r = Some (fi_ownerUserId edit) \<and>
         (\<forall>keep rest. foldable_rows h edit s = keep # rest \<longrightarrow>
            qr_id r = qr_id keep \<and> rr_queuedAt r = rr_queuedAt keep))"
proof (cases "foldable_rows h edit s")
  case Nil
  then have "res = Queued (fresh_record h newId edit)"
    using assms by (simp add: enqueue_edit_def Let_def)
  with Nil show ?thesis
    by (simp add: fold_queued_chain_def left_row_def fresh_record_def incoming_edit_def
        queue_retry_delay_ms_def RETRY_BACKOFF_MS_def)
next
  case (Cons keep rest)
  have "fold_queued_chain (map edit_of (keep # rest) @ [incoming_edit edit]) \<noteq> None"
    by (simp add: fold_queued_chain_def)
  with Cons show ?thesis
    using assms by (auto simp: enqueue_edit_def Let_def left_row_def folded_record_def coalesce_def
        queue_retry_delay_ms_def RETRY_BACKOFF_MS_def split: option.splits fold_result.splits)
qed

lemma enqueue_edit_folds_witness:
  "case fold_queued_chain (map edit_of (foldable_rows host0 edit1 []) @ [incoming_edit edit1]) of
      Some (Replace e) \<Rightarrow> qr_properties (fresh_record host0 ''2'' edit1) = fe_properties e | _ \<Rightarrow> False"
proof -
  have "enqueue_edit host0 ''2'' edit1 [] = (Queued (fresh_record host0 ''2'' edit1), [fresh_record host0 ''2'' edit1])"
    by (simp add: enqueue_edit_def foldable_rows_def sort_by_def Let_def)
  from enqueue_edit_folds [OF this] show ?thesis
    by (simp add: foldable_rows_def sort_by_def fold_queued_chain_def left_row_def)
qed

text \<open>A claim hands out the row as it is stored, marks it as in flight and changes no other
  row; until two minutes have passed on the clock, no second claim of the row by a drain
  succeeds, whoever asks.\<close>

theorem claim_is_exclusive:
  assumes "store_wf s" and "claim_queue_row h k canClaim s = (Some c, s')"
    and "h_date_parse h' (h_now_iso h) = Fin (of_int t)" and "h_now_iso h \<noteq> []"
    and "\<bar>t\<bar> < 2 ^ 52" and "\<bar>now\<bar> < 2 ^ 52" and "now < t + 120000"
  shows "(\<exists>r. store_get k s = Some r \<and> canClaim r \<and> edit_of c = edit_of r \<and> rr_syncStatus c = S_syncing) \<and>
     store_get k s' = Some c \<and> (\<forall>x. x \<in> set s \<and> row_key x \<noteq> k \<longleftrightarrow> x \<in> set s' \<and> row_key x \<noteq> k) \<and>
     claim_queue_row h' k (\<lambda>row. is_queue_row_owned_by (qr_ownerUserId row) u \<and>
       is_queue_row_claimable h' row (Fin (of_int now)) ib) s' = (None, s')"
proof -
  obtain r where r: "store_get k s = Some r" "canClaim r"
      and c: "c = r\<lparr> rr_syncStatus := S_syncing, rr_lastAttemptAt := Some (h_now_iso h) \<rparr>" and s': "s' = store_put c s"
    using assms(2) by (auto simp: claim_queue_row_def Let_def split: option.splits if_splits)
  have kr: "row_key r = k" using r(1) store_get_iff [OF assms(1)] by blast
  then have kc: "row_key c = k" by (simp add: c row_key_def)
  have wf': "store_wf s'" by (simp add: s' store_wf_put [OF assms(1)])
  have set': "set s' = insert c {x \<in> set s. row_key x \<noteq> k}"
    using queue_store.recs_put [OF assms(1), of c] by (simp add: s' kc)
  then have get': "store_get k s' = Some c" using store_get_iff [OF wf'] kc by simp
  have "n_sub (Fin (of_int now)) (Fin (of_int t)) = Fin (of_int (now - t))" by (rule n_sub_ms) (use assms in simp_all)
  moreover have "(of_int (now - t) :: rat) < 120000" using assms(7) by linarith
  moreover have "num QUEUE_CLAIM_STALE_MS = Fin 120000"
    using num_exact [of 120000] by (simp add: QUEUE_CLAIM_STALE_MS_def)
  ultimately have "\<not> is_queue_row_claimable h' c (Fin (of_int now)) ib"
    using assms(3,4) by (simp add: c is_queue_row_claimable_def last_attempt_def Let_def)
  then have "claim_queue_row h' k (\<lambda>row. is_queue_row_owned_by (qr_ownerUserId row) u \<and>
       is_queue_row_claimable h' row (Fin (of_int now)) ib) s' = (None, s')"
    by (simp add: claim_queue_row_def get')
  moreover have "edit_of c = edit_of r" "rr_syncStatus c = S_syncing" by (simp_all add: c edit_of_def)
  ultimately show ?thesis using r get' set' kc by auto
qed

lemma claim_is_exclusive_witness:
  "claim_queue_row (host0\<lparr> h_date_parse := \<lambda>_. Fin (of_int 1000) \<rparr>) (''d'', ''1'')
     (\<lambda>row. is_queue_row_owned_by (qr_ownerUserId row) (Some ''u'') \<and>
        is_queue_row_claimable (host0\<lparr> h_date_parse := \<lambda>_. Fin (of_int 1000) \<rparr>) row (Fin (of_int 61000)) True)
     (snd (claim_queue_row host0 (''d'', ''1'') (\<lambda>_. True) [queued1])) =
   (None, snd (claim_queue_row host0 (''d'', ''1'') (\<lambda>_. True) [queued1]))"
proof -
  have wf: "store_wf [queued1]" by (simp add: store_wf_def)
  let ?c = "queued1\<lparr> rr_syncStatus := S_syncing, rr_lastAttemptAt := Some (h_now_iso host0) \<rparr>"
  have c: "claim_queue_row host0 (''d'', ''1'') (\<lambda>_. True) [queued1] = (Some ?c, [?c])"
    by (simp add: claim_queue_row_def store_get_def edit1_simps row_key_def Let_def)
  show ?thesis
    unfolding c snd_conv
    by (rule claim_is_exclusive [OF wf c, where t = 1000, THEN conjunct2, THEN conjunct2, THEN conjunct2])
       (simp_all add: host0_def)
qed

end
