(* ===== verification/OfflineSync.thy ===== *)
theory OfflineSync
  imports OfflineStore
begin

text \<open>
  \<open>apps/portal-web/src/lib/offline-sync.ts\<close>: the drain of the offline queue. The network and the
  upload of attachments inside a form answer are parameters (\<open>env\<close>), acting on a world of any
  type; a step that throws is the \<open>Inl\<close> of its result, with the world it left. One pass is
  \<open>sync_queue\<close>; \<open>sync_one\<close> is the body of its loop, which other transactions may precede.
\<close>

subsection \<open>The network\<close>

datatype api_detail = D_message string | D_body string | D_none

datatype request =
    POST_features string string string jsval obj
  | PATCH_feature string string string obj "jsval option" bool
  | DELETE_feature string string string bool
  | PRESIGN_upload string jsnum
  | PUT_bytes string string
  | REGISTER_attachment string string string string string jsnum

text \<open>What \<open>fetch\<close> gives: a network failure with the error's text, or a reply: its status, what
  \<open>parseApiErrorDetail\<close> reads of its body, and the \<open>maxBytes\<close> of a presign reply.\<close>

datatype http_reply = Unreachable string | Reply int api_detail jsnum

datatype upload_result = Uploaded obj | Upload_network string | Upload_error string

record 'w env =
  env_clock :: "'w \<Rightarrow> host"
  env_send :: "request \<Rightarrow> 'w \<Rightarrow> http_reply \<times> 'w"
  env_upload :: "obj \<Rightarrow> 'w \<Rightarrow> upload_result \<times> 'w"

record 'w device =
  dv_queue :: "queue_record list"
  dv_blobs :: "pending_blob list"
  dv_world :: 'w

subsection \<open>Failures\<close>

text \<open>\<open>ReplayUnreachable\<close>, \<open>ReplayRejected\<close>, \<open>ReplayFailure\<close>, and anything else thrown.\<close>

datatype replay_exn =
    Ex_unreachable offline_message
  | Ex_rejected offline_message
  | Ex_failure offline_message
  | Ex_other string

type_synonym ('w, 'a) act = "'w device \<Rightarrow> (replay_exn + 'a) \<times> 'w device"

definition return_act :: "'a \<Rightarrow> ('w, 'a) act" where
  "return_act a = (\<lambda>s. (Inr a, s))"

definition and_then :: "('w, 'a) act \<Rightarrow> ('a \<Rightarrow> ('w, 'b) act) \<Rightarrow> ('w, 'b) act" where
  "and_then m k = (\<lambda>s. case m s of (Inl e, s') \<Rightarrow> (Inl e, s') | (Inr a, s') \<Rightarrow> k a s')"

definition throw_act :: "replay_exn \<Rightarrow> ('w, 'a) act" where
  "throw_act e = (\<lambda>s. (Inl e, s))"

definition network_message :: "string \<Rightarrow> offline_message" where
  "network_message err =
     (if err \<noteq> [] then \<lparr> om_code = ''sync.networkUnavailableDetail'', om_params = [(''error'', JStr err)] \<rparr>
      else \<lparr> om_code = ''sync.networkUnavailable'', om_params = [] \<rparr>)"

definition replay_fetch :: "'w env \<Rightarrow> request \<Rightarrow> ('w, int \<times> api_detail \<times> jsnum) act" where
  "replay_fetch env req =
     (\<lambda>s. case env_send env req (dv_world s) of
            (Unreachable err, w) \<Rightarrow> (Inl (Ex_unreachable (network_message err)), s\<lparr> dv_world := w \<rparr>)
          | (Reply status detail cap, w) \<Rightarrow> (Inr (status, detail, cap), s\<lparr> dv_world := w \<rparr>))"

definition unexpected_reason :: "string \<Rightarrow> offline_message" where
  "unexpected_reason err = \<lparr> om_code = ''sync.unexpected'', om_params = [(''error'', JStr err)] \<rparr>"

datatype replay_step = Step_feature | Step_presign | Step_upload | Step_register

definition step_failure :: "replay_step \<Rightarrow> int \<Rightarrow> offline_message" where
  "step_failure step status =
     \<lparr> om_code = (case step of Step_presign \<Rightarrow> ''sync.attachmentPresignFailed''
                  | Step_upload \<Rightarrow> ''sync.attachmentUploadFailed''
                  | Step_register \<Rightarrow> ''sync.attachmentRegisterFailed''
                  | Step_feature \<Rightarrow> ''sync.requestFailed''),
       om_params = [(''status'', JNum (num status))] \<rparr>"

definition throw_if_not_ok ::
  "int \<times> api_detail \<times> jsnum \<Rightarrow> replay_step \<Rightarrow> queue_op \<Rightarrow> ('w, unit) act" where
  "throw_if_not_ok res step op =
     (case res of (status, detail, _) \<Rightarrow>
        let outcome = replay_outcome_for_status status op;
            reason = (case detail of
                        D_message t \<Rightarrow> \<lparr> om_code = ''sync.serverRefused'', om_params = [(''serverMessage'', JStr t)] \<rparr>
                      | D_body t \<Rightarrow> \<lparr> om_code = ''sync.serverRefusedWithStatus'',
                                      om_params = [(''serverMessage'', JStr t), (''status'', JNum (num status))] \<rparr>
                      | D_none \<Rightarrow> step_failure step status)
        in case outcome of
             R_done \<Rightarrow> return_act ()
           | R_rejected \<Rightarrow> throw_act (Ex_rejected reason)
           | R_retry \<Rightarrow> throw_act (Ex_failure reason))"

subsection \<open>Attachments of a feature\<close>

record feature_ref =
  fr_dataCollectionId :: string
  fr_dataLayerId :: string
  fr_layerKey :: string
  fr_globalId :: string

text \<open>\<open>x.toFixed(d)\<close> for a number that is finite and not negative.\<close>

definition to_fixed :: "nat \<Rightarrow> jsnum \<Rightarrow> string" where
  "to_fixed d x =
     (case x of
        Fin r \<Rightarrow>
          (let n = nat \<lfloor>r * 10 ^ d + 1 / 2\<rfloor>; ds = pad0 (d + 1) (nat_digits n); k = length ds - d
           in if d = 0 then nat_digits n else take k ds @ ''.'' @ drop k ds)
      | _ \<Rightarrow> num_to_string x)"

definition mime_or_default :: "string \<Rightarrow> string" where
  "mime_or_default m = (if m = [] then ''application/octet-stream'' else m)"

definition megabytes :: "nat \<Rightarrow> jsnum \<Rightarrow> jsval" where
  "megabytes d n = JStr (to_fixed d (n_div (n_div n (Fin 1024)) (Fin 1024)))"

definition upload_one_blob :: "'w env \<Rightarrow> feature_ref \<Rightarrow> pending_blob \<Rightarrow> ('w, unit) act" where
  "upload_one_blob env ref file =
     and_then (replay_fetch env (PRESIGN_upload (mime_or_default (pb_mimeType file)) (pb_blobSize file))) (\<lambda>presign.
     and_then (throw_if_not_ok presign Step_presign Q_update) (\<lambda>_.
       if n_lt (snd (snd presign)) (pb_sizeBytes file)
       then throw_act (Ex_rejected \<lparr> om_code = ''sync.fileTooLarge'',
              om_params = [(''fileName'', JStr (pb_fileName file)),
                           (''sizeMb'', megabytes 1 (pb_sizeBytes file)),
                           (''limitMb'', megabytes 0 (snd (snd presign)))] \<rparr>)
       else
     and_then (replay_fetch env (PUT_bytes (pb_blobId file) (mime_or_default (pb_mimeType file)))) (\<lambda>put.
     and_then (throw_if_not_ok put Step_upload Q_update) (\<lambda>_.
     and_then (replay_fetch env (REGISTER_attachment (fr_dataLayerId ref) (fr_layerKey ref) (fr_globalId ref)
                 (pb_fileName file) (mime_or_default (pb_mimeType file)) (pb_sizeBytes file))) (\<lambda>reg.
     throw_if_not_ok reg Step_register Q_update)))))"

fun upload_blobs :: "'w env \<Rightarrow> feature_ref \<Rightarrow> pending_blob list \<Rightarrow> ('w, unit) act" where
  "upload_blobs env ref [] = return_act ()"
| "upload_blobs env ref (file # files) =
     and_then (upload_one_blob env ref file) (\<lambda>_.
     and_then (\<lambda>s. (Inr (), s\<lparr> dv_blobs := delete_pending_blob (pb_blobId file) (dv_blobs s) \<rparr>)) (\<lambda>_.
     upload_blobs env ref files))"

definition upload_pending_blobs_for_feature :: "'w env \<Rightarrow> feature_ref \<Rightarrow> string \<Rightarrow> ('w, unit) act" where
  "upload_pending_blobs_for_feature env ref currentUserId =
     (\<lambda>s. upload_blobs env ref
            (list_pending_blobs_for_feature (env_clock env (dv_world s)) (fr_dataCollectionId ref)
               (fr_dataLayerId ref) (fr_layerKey ref) (fr_globalId ref) (Some currentUserId) (dv_blobs s)) s)"

definition ref_of :: "queue_record \<Rightarrow> feature_ref" where
  "ref_of r = \<lparr> fr_dataCollectionId = qr_dataCollectionId r, fr_dataLayerId = rr_dataLayerId r,
     fr_layerKey = rr_layerKey r, fr_globalId = rr_globalId r \<rparr>"

subsection \<open>Replaying one record\<close>

definition upload_pending_in_properties :: "'w env \<Rightarrow> obj option \<Rightarrow> ('w, obj) act" where
  "upload_pending_in_properties env props =
     (\<lambda>s. case env_upload env (props_of props) (dv_world s) of
            (Uploaded m, w) \<Rightarrow> (Inr m, s\<lparr> dv_world := w \<rparr>)
          | (Upload_network err, w) \<Rightarrow> (Inl (Ex_unreachable (network_message err)), s\<lparr> dv_world := w \<rparr>)
          | (Upload_error err, w) \<Rightarrow> (Inl (Ex_other err), s\<lparr> dv_world := w \<rparr>))"

definition check_only :: "'w env \<Rightarrow> request \<Rightarrow> queue_op \<Rightarrow> ('w, unit) act" where
  "check_only env req op = and_then (replay_fetch env req) (\<lambda>res. throw_if_not_ok res Step_feature op)"

definition write_feature :: "'w env \<Rightarrow> request \<Rightarrow> queue_op \<Rightarrow> ('w, unit) act" where
  "write_feature env req op = and_then (replay_fetch env req) (\<lambda>res. throw_if_not_ok res Step_feature op)"

definition replay_record :: "'w env \<Rightarrow> queue_record \<Rightarrow> string \<Rightarrow> ('w, unit) act" where
  "replay_record env r currentUserId =
     (let l = rr_dataLayerId r; k = rr_layerKey r; g = rr_globalId r
      in case qr_op r of
           Q_insert \<Rightarrow>
             and_then (upload_pending_in_properties env (qr_properties r)) (\<lambda>props.
             and_then (write_feature env (POST_features l k g (qr_geometry r) props) Q_insert) (\<lambda>_.
             upload_pending_blobs_for_feature env (ref_of r) currentUserId))
         | Q_update \<Rightarrow>
             and_then (upload_pending_in_properties env (qr_properties r)) (\<lambda>props.
             let geom = (if qr_geometry r \<noteq> JNull then Some (qr_geometry r) else None)
             in and_then (check_only env (PATCH_feature l k g props geom True) Q_update) (\<lambda>_.
                and_then (write_feature env (PATCH_feature l k g props geom False) Q_update) (\<lambda>_.
                upload_pending_blobs_for_feature env (ref_of r) currentUserId)))
         | Q_delete \<Rightarrow>
             and_then (check_only env (DELETE_feature l k g True) Q_delete) (\<lambda>_.
             and_then (write_feature env (DELETE_feature l k g False) Q_delete) (\<lambda>_.
             \<lambda>s. (Inr (), s\<lparr> dv_blobs := delete_pending_blobs_for_feature (qr_dataCollectionId r) l k g (dv_blobs s) \<rparr>))))"

subsection \<open>One pass\<close>

record sync_error =
  se_recordId :: string
  se_op :: queue_op
  se_layerLabel :: string
  se_reason :: offline_message
  se_terminal :: bool

record sync_result =
  sr_processed :: nat
  sr_synced :: nat
  sr_failed :: nat
  sr_rejected :: nat
  sr_remaining :: nat
  sr_errors :: "sync_error list"

definition reason_of :: "replay_exn \<Rightarrow> offline_message" where
  "reason_of e = (case e of Ex_unreachable m \<Rightarrow> m | Ex_rejected m \<Rightarrow> m | Ex_failure m \<Rightarrow> m
                  | Ex_other t \<Rightarrow> unexpected_reason t)"

definition log_error :: "queue_record \<Rightarrow> offline_message \<Rightarrow> bool \<Rightarrow> sync_result \<Rightarrow> sync_result" where
  "log_error record reason terminal res =
     res\<lparr> sr_errors := sr_errors res @ [\<lparr> se_recordId = qr_id record, se_op = qr_op record,
            se_layerLabel = rr_layerKey record, se_reason = reason, se_terminal = terminal \<rparr>],
          sr_processed := sr_processed res + 1 \<rparr>"

text \<open>The row a failed replay writes back, built from the record the pass listed.\<close>

definition unreachable_row :: "queue_record \<Rightarrow> queue_record" where
  "unreachable_row record =
     record\<lparr> rr_syncStatus := (if rr_syncStatus record = S_failed then S_failed else S_pending) \<rparr>"

definition failed_row :: "host \<Rightarrow> queue_record \<Rightarrow> bool \<Rightarrow> offline_message \<Rightarrow> queue_record" where
  "failed_row h record terminal reason =
     record\<lparr> rr_syncStatus := (if terminal then S_rejected else S_failed), qr_failure := Some reason,
             rr_retryCount := Some ((case rr_retryCount record of None \<Rightarrow> 0 | Some n \<Rightarrow> n) + 1),
             rr_lastAttemptAt := Some (h_now_iso h) \<rparr>"

definition can_claim :: "host \<Rightarrow> string \<Rightarrow> bool \<Rightarrow> queue_record \<Rightarrow> bool" where
  "can_claim h u ib row \<longleftrightarrow> is_queue_row_owned_by (qr_ownerUserId row) (Some u) \<and>
     is_queue_row_claimable h row (h_now_ms h) ib"

definition sync_one ::
  "'w env \<Rightarrow> string \<Rightarrow> bool \<Rightarrow> queue_record \<Rightarrow> sync_result \<times> 'w device \<Rightarrow> sync_result \<times> 'w device" where
  "sync_one env u ib record st =
     (case st of (res, s) \<Rightarrow>
        let h = env_clock env (dv_world s)
        in case claim_queue_row h (row_key record) (can_claim h u ib) (dv_queue s) of
             (None, _) \<Rightarrow> (res, s)
           | (Some claimed, q) \<Rightarrow>
               (case replay_record env record u (s\<lparr> dv_queue := q \<rparr>) of
                  (Inr _, s1) \<Rightarrow>
                    (res\<lparr> sr_synced := sr_synced res + 1, sr_processed := sr_processed res + 1 \<rparr>,
                     s1\<lparr> dv_queue := delete_queue_record (row_key record) (dv_queue s1) \<rparr>)
                | (Inl (Ex_unreachable m), s1) \<Rightarrow>
                    (log_error record m False (res\<lparr> sr_failed := sr_failed res + 1 \<rparr>),
                     s1\<lparr> dv_queue := update_queue_record (unreachable_row record) (dv_queue s1) \<rparr>)
                | (Inl e, s1) \<Rightarrow>
                    (let terminal = (case e of Ex_rejected _ \<Rightarrow> True | _ \<Rightarrow> False)
                     in (log_error record (reason_of e) terminal
                           (if terminal then res\<lparr> sr_rejected := sr_rejected res + 1 \<rparr>
                            else res\<lparr> sr_failed := sr_failed res + 1 \<rparr>),
                         s1\<lparr> dv_queue := update_queue_record
                               (failed_row (env_clock env (dv_world s1)) record terminal (reason_of e))
                               (dv_queue s1) \<rparr>))))"

definition blob_ref :: "pending_blob \<Rightarrow> feature_ref" where
  "blob_ref b = \<lparr> fr_dataCollectionId = pb_dataCollectionId b, fr_dataLayerId = pb_dataLayerId b,
     fr_layerKey = pb_layerKey b, fr_globalId = pb_globalId b \<rparr>"

text \<open>Files whose feature has no queue row, once per feature; a failure leaves the file.\<close>

definition spaced :: "string \<Rightarrow> string \<Rightarrow> string \<Rightarrow> string" where
  "spaced a b c = a @ '' '' @ b @ '' '' @ c"

fun sweep_files ::
  "'w env \<Rightarrow> string \<Rightarrow> string list \<Rightarrow> pending_blob list \<Rightarrow> 'w device \<Rightarrow> 'w device" where
  "sweep_files env u skip [] s = s"
| "sweep_files env u skip (file # files) s =
     (let key = spaced (pb_dataLayerId file) (pb_layerKey file) (pb_globalId file)
      in if key \<in> set skip then sweep_files env u skip files s
         else sweep_files env u (key # skip) files
                (snd (upload_pending_blobs_for_feature env (blob_ref file) u s)))"

definition sweep_orphaned_blobs :: "'w env \<Rightarrow> string \<Rightarrow> string \<Rightarrow> 'w device \<Rightarrow> 'w device" where
  "sweep_orphaned_blobs env dc u s =
     (let pending = list_pending_blobs dc (Some u) (dv_blobs s);
          has_row = map (\<lambda>r. spaced (rr_dataLayerId r) (rr_layerKey r) (rr_globalId r))
                      (list_queue_all_owners dc (dv_queue s))
      in sweep_files env u has_row pending s)"

definition sync_start :: "'w env \<Rightarrow> string \<Rightarrow> string \<Rightarrow> bool \<Rightarrow> 'w device \<Rightarrow> queue_record list" where
  "sync_start env dc u manual s =
     (let h = env_clock env (dv_world s)
      in queue_chain_heads h (list_queue dc (Some u) (dv_queue s)) (h_now_ms h) manual)"

definition sync_queue ::
  "'w env \<Rightarrow> string \<Rightarrow> string \<Rightarrow> bool \<Rightarrow> 'w device \<Rightarrow> sync_result \<times> 'w device" where
  "sync_queue env dc u manual s =
     (let todo = sync_start env dc u manual s;
          zero = \<lparr> sr_processed = 0, sr_synced = 0, sr_failed = 0, sr_rejected = 0,
                   sr_remaining = 0, sr_errors = [] \<rparr>;
          (res, s1) = fold (sync_one env u manual) todo (zero, s);
          s2 = sweep_orphaned_blobs env dc u s1;
          still = (\<lambda>st. length (list_queue_by_status dc st (Some u) (dv_queue s2)))
      in (res\<lparr> sr_remaining := still S_pending + still S_failed, sr_rejected := still S_rejected \<rparr>, s2))"

definition list_rejected :: "host \<Rightarrow> string \<Rightarrow> string \<Rightarrow> queue_record list \<Rightarrow> queue_record list" where
  "list_rejected h dc u s =
     sort_by (\<lambda>a b. h_locale_compare h (rr_queuedAt a) (rr_queuedAt b) \<le> 0)
       (list_queue_by_status dc S_rejected (Some u) s)"

definition retry_rejected :: "queue_record \<Rightarrow> queue_record list \<Rightarrow> queue_record list" where
  "retry_rejected r s =
     (if rr_syncStatus r \<noteq> S_rejected then s else update_queue_record (r\<lparr> rr_syncStatus := S_pending \<rparr>) s)"

definition discard_rejected :: "queue_record \<Rightarrow> 'w device \<Rightarrow> 'w device" where
  "discard_rejected r s =
     (if rr_syncStatus r \<noteq> S_rejected then s
      else s\<lparr> dv_queue := delete_queue_record (row_key r) (dv_queue s),
              dv_blobs := delete_pending_blobs_for_feature (qr_dataCollectionId r) (rr_dataLayerId r)
                            (rr_layerKey r) (rr_globalId r) (dv_blobs s) \<rparr>)"

subsection \<open>Lemmas: a replay does not touch the queue\<close>

definition keeps_queue :: "('w, 'a) act \<Rightarrow> bool" where
  "keeps_queue m \<longleftrightarrow> (\<forall>s. dv_queue (snd (m s)) = dv_queue s)"

named_theorems keeps \<open>steps that leave the queue alone\<close>

lemma keeps_return [keeps]: "keeps_queue (return_act a)"
  by (simp add: keeps_queue_def return_act_def)

lemma keeps_throw [keeps]: "keeps_queue (throw_act e)"
  by (simp add: keeps_queue_def throw_act_def)

lemma keeps_and_then [keeps]: "keeps_queue m \<Longrightarrow> (\<And>a. keeps_queue (k a)) \<Longrightarrow> keeps_queue (and_then m k)"
  unfolding keeps_queue_def and_then_def by (auto split: prod.split sum.split) (metis snd_conv)+

lemma keeps_fetch [keeps]: "keeps_queue (replay_fetch env req)"
  by (auto simp: keeps_queue_def replay_fetch_def split: prod.split http_reply.split)

lemma keeps_throw_if [keeps]: "keeps_queue (throw_if_not_ok res step op)"
  by (auto simp: throw_if_not_ok_def Let_def split: prod.split replay_outcome.split intro: keeps)

lemma keeps_upload [keeps]: "keeps_queue (upload_pending_in_properties env m)"
  by (auto simp: keeps_queue_def upload_pending_in_properties_def split: prod.split upload_result.split)

lemma keeps_one_blob [keeps]: "keeps_queue (upload_one_blob env ref b)"
  by (simp add: upload_one_blob_def keeps)

lemma keeps_blobs [keeps]: "keeps_queue (upload_blobs env ref bs)"
proof (induction bs)
  case (Cons b bs)
  have "keeps_queue (\<lambda>s. (Inr (), s\<lparr> dv_blobs := f s \<rparr>))" for f :: "'a device \<Rightarrow> pending_blob list"
    by (simp add: keeps_queue_def)
  with Cons show ?case by (simp add: keeps)
qed (simp add: keeps)

lemma keeps_feature_blobs [keeps]: "keeps_queue (upload_pending_blobs_for_feature env ref u)"
  using keeps_blobs by (auto simp: keeps_queue_def upload_pending_blobs_for_feature_def)

lemma keeps_drop_blobs [keeps]: "keeps_queue (\<lambda>s. (Inr (), s\<lparr> dv_blobs := f s \<rparr>))"
  by (simp add: keeps_queue_def)

lemma keeps_replay: "keeps_queue (replay_record env r u)"
  by (cases "qr_op r")
     (simp_all add: replay_record_def Let_def check_only_def write_feature_def keeps)

lemma replay_queue: "replay_record env r u s = (x, s') \<Longrightarrow> dv_queue s' = dv_queue s"
  using keeps_replay [of env r u] unfolding keeps_queue_def by (metis snd_conv)

lemma sweep_files_queue: "dv_queue (sweep_files env u skip files s) = dv_queue s"
proof (induction env u skip files s rule: sweep_files.induct)
  case (2 env u skip b bs s)
  then show ?case
    using keeps_feature_blobs [of env "blob_ref b" u] by (auto simp: Let_def keeps_queue_def)
qed simp

lemma sweep_queue: "dv_queue (sweep_orphaned_blobs env dc u s) = dv_queue s"
  by (simp add: sweep_orphaned_blobs_def sweep_files_queue Let_def)

subsection \<open>Lemmas: one record\<close>

lemma edit_of_rewritten [simp]:
  "edit_of (unreachable_row r) = edit_of r" "edit_of (failed_row h r t m) = edit_of r"
  "row_key (unreachable_row r) = row_key r" "row_key (failed_row h r t m) = row_key r"
  "qr_ownerUserId (unreachable_row r) = qr_ownerUserId r" "qr_ownerUserId (failed_row h r t m) = qr_ownerUserId r"
  by (simp_all add: edit_of_def unreachable_row_def failed_row_def row_key_def)

definition delivered :: "'w env \<Rightarrow> string \<Rightarrow> queue_record \<Rightarrow> bool" where
  "delivered env u r \<longleftrightarrow> (\<exists>s0 s1. replay_record env r u s0 = (Inr (), s1))"

text \<open>What the loop body may do to the queue: nothing, or take the row out after its replay was
  accepted, or write a row carrying the listed record's edit.\<close>

lemma sync_one_cases:
  assumes wf: "store_wf (dv_queue s)" and st: "sync_one env u ib record (res, s) = (res', s')"
  shows "store_wf (dv_queue s') \<and>
    (dv_queue s' = dv_queue s \<or>
     set (dv_queue s') = {x \<in> set (dv_queue s). row_key x \<noteq> row_key record} \<and> delivered env u record \<or>
     (\<exists>r. row_key r = row_key record \<and> edit_of r = edit_of record \<and>
        qr_ownerUserId r = qr_ownerUserId record \<and>
        set (dv_queue s') = insert r {x \<in> set (dv_queue s). row_key x \<noteq> row_key record}))"
proof -
  let ?h = "env_clock env (dv_world s)"
  let ?k = "row_key record"
  show ?thesis
  proof (cases "claim_queue_row ?h ?k (can_claim ?h u ib) (dv_queue s)")
    case (Pair claimed q)
    show ?thesis
    proof (cases claimed)
      case None
      with Pair st wf show ?thesis by (simp add: sync_one_def Let_def)
    next
      case (Some c)
      then obtain e where e: "store_get ?k (dv_queue s) = Some e" "can_claim ?h u ib e"
          and c: "row_key c = ?k" and q: "q = store_put c (dv_queue s)"
        using Pair store_get_iff [OF wf] by (auto simp: claim_queue_row_def Let_def row_key_def split: option.splits if_splits)
      have wq: "store_wf q" using store_wf_put [OF wf] q by simp
      have sq: "set q = insert c {x \<in> set (dv_queue s). row_key x \<noteq> ?k}"
        using queue_store.recs_put [OF wf] q c by simp
      obtain x s1 where r: "replay_record env record u (s\<lparr> dv_queue := q \<rparr>) = (x, s1)"
        by (cases "replay_record env record u (s\<lparr> dv_queue := q \<rparr>)")
      then have q1: "dv_queue s1 = q" using replay_queue by fastforce
      have put: "store_wf (store_put y q) \<and> set (store_put y q) = insert y {x \<in> set (dv_queue s). row_key x \<noteq> ?k}"
        if "row_key y = ?k" for y
        using that queue_store.recs_put [OF wq, of y] store_wf_put [OF wq] sq c by auto
      have del: "store_wf (store_delete ?k q) \<and> set (store_delete ?k q) = {x \<in> set (dv_queue s). row_key x \<noteq> ?k}"
        using queue_store.recs_del [OF wq, of ?k] queue_store.wf_del [OF wq] sq c by auto
      have "dv_queue s' = store_delete ?k q \<and> delivered env u record \<or>
          (\<exists>y. row_key y = ?k \<and> edit_of y = edit_of record \<and> qr_ownerUserId y = qr_ownerUserId record \<and>
             dv_queue s' = store_put y q)"
      proof (cases x)
        case (Inr b)
        then show ?thesis using st Pair Some r q1
          by (auto simp: sync_one_def Let_def delete_queue_record_def delivered_def)
      next
        case (Inl ex)
        have "dv_queue s' = store_put (unreachable_row record) q \<or>
            (\<exists>h t m. dv_queue s' = store_put (failed_row h record t m) q)"
        proof (cases ex)
          case (Ex_unreachable m)
          then show ?thesis using st Pair Some r q1 Inl
            by (auto simp: sync_one_def Let_def update_queue_record_def)
        next
          case (Ex_rejected m)
          then have "dv_queue s' = store_put (failed_row (env_clock env (dv_world s1)) record True (reason_of ex)) q"
            using st Pair Some r q1 Inl by (auto simp: sync_one_def Let_def update_queue_record_def)
          then show ?thesis by blast
        next
          case (Ex_failure m)
          then have "dv_queue s' = store_put (failed_row (env_clock env (dv_world s1)) record False (reason_of ex)) q"
            using st Pair Some r q1 Inl by (auto simp: sync_one_def Let_def update_queue_record_def)
          then show ?thesis by blast
        next
          case (Ex_other m)
          then have "dv_queue s' = store_put (failed_row (env_clock env (dv_world s1)) record False (reason_of ex)) q"
            using st Pair Some r q1 Inl by (auto simp: sync_one_def Let_def update_queue_record_def)
          then show ?thesis by blast
        qed
        then show ?thesis by (metis edit_of_rewritten)
      qed
      then show ?thesis using put del by metis
    qed
  qed
qed

subsection \<open>Lemmas: one pass\<close>

definition still_queued :: "queue_record \<Rightarrow> queue_record list \<Rightarrow> bool" where
  "still_queued r q \<longleftrightarrow> (\<exists>x \<in> set q. row_key x = row_key r \<and> edit_of x = edit_of r \<and>
     qr_ownerUserId x = qr_ownerUserId r)"

text \<open>A row of the queue \<open>q0\<close> the pass started from is untouched, or it was in the list of the
  pass and is still there with its edit, or its replay was accepted.\<close>

definition accounted :: "'w env \<Rightarrow> string \<Rightarrow> queue_record list \<Rightarrow> queue_record list \<Rightarrow> queue_record list \<Rightarrow> bool" where
  "accounted env u q0 todo q \<longleftrightarrow>
     (\<forall>r \<in> set q0. r \<in> set q \<or> r \<in> set todo \<and> (still_queued r q \<or> delivered env u r))"

lemma sync_one_accounted:
  assumes wf0: "store_wf q0" and sub: "set todo \<subseteq> set q0" and rec: "record \<in> set todo"
    and wf: "store_wf (dv_queue s)" and acc: "accounted env u q0 todo (dv_queue s)"
    and st: "sync_one env u ib record (res, s) = (res', s')"
  shows "store_wf (dv_queue s') \<and> accounted env u q0 todo (dv_queue s')"
proof -
  note c = sync_one_cases [OF wf st]
  have rec0: "record \<in> set q0" using sub rec by blast
  have same: "r = record" if "r \<in> set q0" "row_key r = row_key record" for r
    using queue_store.unique [OF wf0 that(1) rec0 that(2)] .
  consider (idle) "dv_queue s' = dv_queue s"
    | (gone) "set (dv_queue s') = {x \<in> set (dv_queue s). row_key x \<noteq> row_key record}" "delivered env u record"
    | (again) y where "row_key y = row_key record" "edit_of y = edit_of record"
        "qr_ownerUserId y = qr_ownerUserId record"
        "set (dv_queue s') = insert y {x \<in> set (dv_queue s). row_key x \<noteq> row_key record}"
    using c by blast
  then have "accounted env u q0 todo (dv_queue s')"
  proof cases
    case gone
    have "r \<in> set (dv_queue s') \<or> r \<in> set todo \<and> (still_queued r (dv_queue s') \<or> delivered env u r)"
      if r: "r \<in> set q0" for r
    proof (cases "row_key r = row_key record")
      case True
      then show ?thesis using same [OF r] rec gone(2) by simp
    next
      case False
      then show ?thesis using acc r gone(1) unfolding accounted_def still_queued_def by fastforce
    qed
    then show ?thesis by (simp add: accounted_def)
  next
    case again
    have "r \<in> set (dv_queue s') \<or> r \<in> set todo \<and> (still_queued r (dv_queue s') \<or> delivered env u r)"
      if r: "r \<in> set q0" for r
    proof (cases "row_key r = row_key record")
      case True
      then show ?thesis using same [OF r] rec again by (auto simp: still_queued_def)
    next
      case False
      then show ?thesis using acc r again(4) unfolding accounted_def still_queued_def by fastforce
    qed
    then show ?thesis by (simp add: accounted_def)
  qed (use acc in simp)
  with c show ?thesis by simp
qed

lemma sync_fold_accounted:
  assumes "store_wf q0" and "set todo \<subseteq> set q0"
  shows "set rs \<subseteq> set todo \<Longrightarrow> store_wf (dv_queue s) \<Longrightarrow> accounted env u q0 todo (dv_queue s) \<Longrightarrow>
    store_wf (dv_queue (snd (fold (sync_one env u ib) rs (res, s)))) \<and>
    accounted env u q0 todo (dv_queue (snd (fold (sync_one env u ib) rs (res, s))))"
proof (induction rs arbitrary: res s)
  case (Cons r rs)
  obtain res' s' where st: "sync_one env u ib r (res, s) = (res', s')" by fastforce
  have "store_wf (dv_queue s') \<and> accounted env u q0 todo (dv_queue s')"
    by (rule sync_one_accounted [OF assms _ Cons.prems(2,3) st]) (use Cons.prems(1) in simp)
  then show ?case using Cons.IH [of s' res'] Cons.prems(1) st by simp
qed simp

lemma sync_start_rows:
  assumes "collation (h_locale_compare (env_clock env (dv_world s)))"
    and "r \<in> set (sync_start env dc u manual s)"
  shows "r \<in> set (dv_queue s) \<and> qr_dataCollectionId r = dc \<and>
    is_queue_row_owned_by (qr_ownerUserId r) (Some u) \<and>
    is_queue_row_claimable (env_clock env (dv_world s)) r (h_now_ms (env_clock env (dv_world s))) manual"
proof -
  have r: "r \<in> set (queue_chain_heads (env_clock env (dv_world s)) (list_queue dc (Some u) (dv_queue s))
      (h_now_ms (env_clock env (dv_world s))) manual)"
    using assms(2) by (simp add: sync_start_def Let_def)
  show ?thesis
    using heads_in_rows [OF assms(1) r] heads_oldest [OF assms(1) r]
    by (simp add: list_queue_def list_queue_all_owners_def)
qed

lemma sync_queue_queue:
  "dv_queue (snd (sync_queue env dc u manual s)) =
   dv_queue (snd (fold (sync_one env u manual) (sync_start env dc u manual s)
     (\<lparr> sr_processed = 0, sr_synced = 0, sr_failed = 0, sr_rejected = 0, sr_remaining = 0, sr_errors = [] \<rparr>, s)))"
  by (simp add: sync_queue_def Let_def sweep_queue split: prod.split)

subsection \<open>Properties\<close>


text \<open>A server that accepts everything; the world is the log of the requests it got.\<close>

definition log_env :: "request list env" where
  "log_env = \<lparr> env_clock = (\<lambda>_. host0), env_send = (\<lambda>req w. (Reply 200 D_none (Fin 0), w @ [req])),
     env_upload = (\<lambda>m w. (Uploaded m, w)) \<rparr>"

definition dev1 :: "request list device" where
  "dev1 = \<lparr> dv_queue = [queued1], dv_blobs = [], dv_world = [] \<rparr>"

lemma host0_collation: "collation (h_locale_compare host0)"
  by (simp add: host0_def collation_code_unit)



end
