(* ===== verification/OfflineRun.thy ===== *)
theory OfflineRun
  imports OfflineSync
begin

text \<open>
  Runs of the queue in which the transactions of several drains (tabs, the service worker) and
  of the person's edits follow each other in any order. A drain holds a row from its claim
  to the transaction that writes the outcome; the record it holds is the one it listed, which
  may be out of date. The step relation assumes of time only that no replay takes two
  minutes, the bound behind \<open>QUEUE_CLAIM_STALE_MS\<close>.
\<close>

record flight =
  fl_record :: queue_record
  fl_user :: string
  fl_since :: int

record run_state =
  rs_queue :: "queue_record list"
  rs_clock :: int
  rs_flights :: "flight list"

definition host_at :: "host \<Rightarrow> (int \<Rightarrow> string) \<Rightarrow> int \<Rightarrow> host" where
  "host_at h stamp t = h\<lparr> h_now_iso := stamp t, h_now_ms := Fin (of_int t) \<rparr>"

inductive run_step :: "host \<Rightarrow> (int \<Rightarrow> string) \<Rightarrow> run_state \<Rightarrow> run_state \<Rightarrow> bool" for h stamp where
  tick: "rs_clock s \<le> t \<Longrightarrow> \<bar>t\<bar> < 2 ^ 52 \<Longrightarrow> \<forall>f \<in> set (rs_flights s). t < fl_since f + 120000 \<Longrightarrow>
    run_step h stamp s (s\<lparr> rs_clock := t \<rparr>)"
| edit: "\<forall>x \<in> set (rs_queue s). row_key x \<noteq> (fi_dataCollectionId e, i) \<Longrightarrow>
    run_step h stamp s (s\<lparr> rs_queue := snd (enqueue_edit (host_at h stamp (rs_clock s)) i e (rs_queue s)) \<rparr>)"
| claim: "claim_queue_row (host_at h stamp (rs_clock s)) (row_key record)
      (can_claim (host_at h stamp (rs_clock s)) u ib) (rs_queue s) = (Some c, q) \<Longrightarrow>
    run_step h stamp s (s\<lparr> rs_queue := q, rs_flights := rs_flights s @
      [\<lparr> fl_record = record, fl_user = u, fl_since = rs_clock s \<rparr>] \<rparr>)"
| sent: "rs_flights s = fs @ f # gs \<Longrightarrow>
    run_step h stamp s (s\<lparr> rs_queue := delete_queue_record (row_key (fl_record f)) (rs_queue s),
                        rs_flights := fs @ gs \<rparr>)"
| no_signal: "rs_flights s = fs @ f # gs \<Longrightarrow>
    run_step h stamp s (s\<lparr> rs_queue := update_queue_record (unreachable_row (fl_record f)) (rs_queue s),
                        rs_flights := fs @ gs \<rparr>)"
| refused: "rs_flights s = fs @ f # gs \<Longrightarrow>
    run_step h stamp s (s\<lparr> rs_queue := update_queue_record
                          (failed_row (host_at h stamp (rs_clock s)) (fl_record f) terminal reason) (rs_queue s),
                        rs_flights := fs @ gs \<rparr>)"
| retry: "r \<in> set (rs_queue s) \<Longrightarrow> rr_syncStatus r = S_rejected \<Longrightarrow>
    run_step h stamp s (s\<lparr> rs_queue := retry_rejected r (rs_queue s) \<rparr>)"
| discard: "r \<in> set (rs_queue s) \<Longrightarrow> rr_syncStatus r = S_rejected \<Longrightarrow>
    run_step h stamp s (s\<lparr> rs_queue := delete_queue_record (row_key r) (rs_queue s) \<rparr>)"

inductive_cases run_stepE: "run_step h stamp s s'"

definition run_init :: "run_state" where
  "run_init = \<lparr> rs_queue = [], rs_clock = 0, rs_flights = [] \<rparr>"

inductive reachable :: "host \<Rightarrow> (int \<Rightarrow> string) \<Rightarrow> run_state \<Rightarrow> bool" for h stamp where
  start: "reachable h stamp run_init"
| more: "reachable h stamp s \<Longrightarrow> run_step h stamp s s' \<Longrightarrow> reachable h stamp s'"

subsection \<open>The invariant\<close>

definition fl_key :: "flight \<Rightarrow> row_key" where
  "fl_key f = row_key (fl_record f)"

text \<open>The stored row of a flight is in flight since the flight's claim.\<close>

definition in_flight :: "(int \<Rightarrow> string) \<Rightarrow> queue_record list \<Rightarrow> flight \<Rightarrow> bool" where
  "in_flight stamp q f \<longleftrightarrow> (\<exists>x \<in> set q. row_key x = fl_key f \<and> rr_syncStatus x = S_syncing \<and>
     rr_lastAttemptAt x = Some (stamp (fl_since f)) \<and> is_queue_row_owned_by (qr_ownerUserId x) (Some (fl_user f)))"

definition run_inv :: "(int \<Rightarrow> string) \<Rightarrow> run_state \<Rightarrow> bool" where
  "run_inv stamp s \<longleftrightarrow> store_wf (rs_queue s) \<and> \<bar>rs_clock s\<bar> < 2 ^ 52 \<and> distinct (map fl_key (rs_flights s)) \<and>
     (\<forall>f \<in> set (rs_flights s). in_flight stamp (rs_queue s) f \<and> fl_since f \<le> rs_clock s \<and>
        rs_clock s < fl_since f + 120000 \<and> \<bar>fl_since f\<bar> < 2 ^ 52)"

text \<open>The clock the code reads and the timestamps it writes agree.\<close>

definition clock_ok :: "host \<Rightarrow> (int \<Rightarrow> string) \<Rightarrow> bool" where
  "clock_ok h stamp \<longleftrightarrow> (\<forall>t. stamp t \<noteq> [] \<and> h_date_parse h (stamp t) = Fin (of_int t))"

lemma in_flight_mono:
  "in_flight stamp q f \<Longrightarrow> (\<And>x. x \<in> set q \<Longrightarrow> rr_syncStatus x = S_syncing \<Longrightarrow> row_key x = fl_key f \<Longrightarrow> x \<in> set q') \<Longrightarrow>
   in_flight stamp q' f"
  unfolding in_flight_def by blast

lemma fresh_not_claimable:
  assumes "clock_ok h stamp" and "rr_syncStatus x = S_syncing" and "rr_lastAttemptAt x = Some (stamp t)"
    and "\<bar>t\<bar> < 2 ^ 52" and "\<bar>now\<bar> < 2 ^ 52" and "now < t + 120000"
  shows "\<not> can_claim (host_at h stamp now) u ib x"
proof -
  have "n_sub (Fin (of_int now)) (Fin (of_int t)) = Fin (of_int (now - t))" by (rule n_sub_ms) (use assms in simp_all)
  moreover have "(of_int (now - t) :: rat) < 120000" using assms(6) by linarith
  moreover have "num QUEUE_CLAIM_STALE_MS = Fin 120000"
    using num_exact [of 120000] by (simp add: QUEUE_CLAIM_STALE_MS_def)
  ultimately show ?thesis
    using assms(1-3) by (simp add: can_claim_def is_queue_row_claimable_def last_attempt_def host_at_def clock_ok_def Let_def)
qed

text \<open>Writing or deleting the row of one flight leaves the others in flight.\<close>

lemma landing_inv:
  assumes inv: "run_inv stamp s" and f: "rs_flights s = fs @ f # gs"
    and q: "store_wf q'" "\<And>x. x \<in> set (rs_queue s) \<Longrightarrow> row_key x \<noteq> fl_key f \<Longrightarrow> x \<in> set q'"
  shows "run_inv stamp (s\<lparr> rs_queue := q', rs_flights := fs @ gs \<rparr>)"
proof -
  have "fl_key g \<noteq> fl_key f" if "g \<in> set (fs @ gs)" for g
  proof -
    have "fl_key f \<notin> fl_key ` set (fs @ gs)" using inv f by (auto simp: run_inv_def)
    then show ?thesis using that by (metis imageI)
  qed
  moreover have "in_flight stamp (rs_queue s) g" if "g \<in> set (fs @ gs)" for g
    using inv f that by (auto simp: run_inv_def)
  ultimately have fl: "in_flight stamp q' g" if "g \<in> set (fs @ gs)" for g
    using that q(2) by (metis (no_types, lifting) in_flight_mono)
  have "distinct (map fl_key (fs @ gs))" using inv f by (simp add: run_inv_def)
  moreover have "\<forall>g \<in> set (fs @ gs). fl_since g \<le> rs_clock s \<and> rs_clock s < fl_since g + 120000 \<and> \<bar>fl_since g\<bar> < 2 ^ 52"
    using inv f by (simp add: run_inv_def ball_Un)
  ultimately show ?thesis using fl inv q(1) by (simp add: run_inv_def)
qed

lemma queue_step_inv:
  assumes inv: "run_inv stamp s" and q: "store_wf q'"
    "\<And>x. x \<in> set (rs_queue s) \<Longrightarrow> rr_syncStatus x = S_syncing \<Longrightarrow> x \<in> set q'"
  shows "run_inv stamp (s\<lparr> rs_queue := q' \<rparr>)"
  using inv q(1) in_flight_mono [of stamp "rs_queue s" _ q'] q(2) by (auto simp: run_inv_def)

lemma claim_inv:
  assumes ck: "clock_ok h stamp" and inv: "run_inv stamp s"
    and cl: "claim_queue_row (host_at h stamp (rs_clock s)) (row_key record)
      (can_claim (host_at h stamp (rs_clock s)) u ib) (rs_queue s) = (Some c, q)"
  shows "run_inv stamp (s\<lparr> rs_queue := q, rs_flights := rs_flights s @
      [\<lparr> fl_record = record, fl_user = u, fl_since = rs_clock s \<rparr>] \<rparr>)"
proof -
  let ?k = "row_key record" and ?h = "host_at h stamp (rs_clock s)"
  have wf: "store_wf (rs_queue s)" using inv by (simp add: run_inv_def)
  obtain e where e: "store_get ?k (rs_queue s) = Some e" "can_claim ?h u ib e"
      and c: "c = e\<lparr> rr_syncStatus := S_syncing, rr_lastAttemptAt := Some (stamp (rs_clock s)) \<rparr>"
      and q: "q = store_put c (rs_queue s)"
    using cl by (auto simp: claim_queue_row_def Let_def host_at_def split: option.splits if_splits)
  have ek: "e \<in> set (rs_queue s)" "row_key e = ?k" using e(1) store_get_iff [OF wf] by blast+
  have ck': "row_key c = ?k" using ek by (simp add: c row_key_def)
  have sq: "set q = insert c {x \<in> set (rs_queue s). row_key x \<noteq> ?k}"
    using queue_store.recs_put [OF wf, of c] by (simp add: q ck')
  have other: "fl_key f \<noteq> ?k" if f: "f \<in> set (rs_flights s)" for f
  proof
    assume k: "fl_key f = ?k"
    obtain x where x: "x \<in> set (rs_queue s)" "row_key x = fl_key f" "rr_syncStatus x = S_syncing"
        "rr_lastAttemptAt x = Some (stamp (fl_since f))"
      using inv f by (auto simp: run_inv_def in_flight_def)
    then have "x = e" using queue_store.unique [OF wf x(1) ek(1)] k ek(2) by simp
    moreover have "\<not> can_claim ?h u ib x"
      by (rule fresh_not_claimable [OF ck x(3,4)]) (use inv f in \<open>auto simp: run_inv_def\<close>)
    ultimately show False using e(2) by simp
  qed
  have keep: "in_flight stamp q f" if "f \<in> set (rs_flights s)" for f
  proof -
    have "in_flight stamp (rs_queue s) f" using inv that by (simp add: run_inv_def)
    then show ?thesis by (rule in_flight_mono) (use other [OF that] sq in auto)
  qed
  have own: "is_queue_row_owned_by (qr_ownerUserId c) (Some u)"
    using e(2) by (simp add: c can_claim_def)
  have new: "in_flight stamp q \<lparr> fl_record = record, fl_user = u, fl_since = rs_clock s \<rparr>"
    using sq own ck' by (auto simp: in_flight_def fl_key_def c)
  have "store_wf q" by (simp add: q store_wf_put [OF wf])
  moreover have "?k \<notin> fl_key ` set (rs_flights s)" using other by force
  moreover have "fl_key \<lparr> fl_record = record, fl_user = u, fl_since = rs_clock s \<rparr> = ?k"
    by (simp add: fl_key_def)
  ultimately show ?thesis using inv keep new by (simp add: run_inv_def)
qed

lemma step_inv:
  assumes ck: "clock_ok h stamp" and inv: "run_inv stamp s" and st: "run_step h stamp s s'"
  shows "run_inv stamp s'"
proof -
  have wf: "store_wf (rs_queue s)" using inv by (simp add: run_inv_def)
  note put = store_wf_put [OF wf] and sput = queue_store.recs_put [OF wf]
    and del = queue_store.wf_del [OF wf] and sdel = queue_store.recs_del [OF wf]
  from st show ?thesis
  proof cases
    case (tick t)
    then show ?thesis using inv by (auto simp: run_inv_def)
  next
    case (edit e i)
    have "x \<in> set (snd (enqueue_edit (host_at h stamp (rs_clock s)) i e (rs_queue s)))"
      if "x \<in> set (rs_queue s)" "rr_syncStatus x = S_syncing" for x
      using enqueue_left_row [OF wf edit(2)] that by (simp add: mergeable_def is_foldable_def)
    then show ?thesis using edit(1) enqueue_wf [OF wf] queue_step_inv [OF inv] by simp
  next
    case (claim rec u ib c q)
    then show ?thesis using claim_inv [OF ck inv] by simp
  next
    case (sent fs f gs)
    then show ?thesis using landing_inv [OF inv sent(2)] del sdel by (simp add: delete_queue_record_def fl_key_def)
  next
    case (no_signal fs f gs)
    then show ?thesis using landing_inv [OF inv no_signal(2)] put sput by (simp add: update_queue_record_def fl_key_def)
  next
    case (refused fs f gs terminal reason)
    then show ?thesis using landing_inv [OF inv refused(2)] put sput by (simp add: update_queue_record_def fl_key_def)
  next
    case (retry r)
    have "x \<in> set (retry_rejected r (rs_queue s))" if "x \<in> set (rs_queue s)" "rr_syncStatus x = S_syncing" for x
    proof -
      have "row_key x \<noteq> row_key r" using queue_store.unique [OF wf that(1) retry(2)] that(2) retry(3) by auto
      then show ?thesis using that retry(3) sput [of "r\<lparr> rr_syncStatus := S_pending \<rparr>"]
        by (simp add: retry_rejected_def update_queue_record_def row_key_def)
    qed
    moreover have "store_wf (retry_rejected r (rs_queue s))"
      using put wf by (simp add: retry_rejected_def update_queue_record_def)
    ultimately show ?thesis using retry(1) queue_step_inv [OF inv] by simp
  next
    case (discard r)
    have "x \<in> set (delete_queue_record (row_key r) (rs_queue s))"
      if "x \<in> set (rs_queue s)" "rr_syncStatus x = S_syncing" for x
      using queue_store.unique [OF wf that(1) discard(2)] that discard(3) sdel
      by (auto simp: delete_queue_record_def)
    then show ?thesis using discard(1) del queue_step_inv [OF inv] by (simp add: delete_queue_record_def)
  qed
qed

lemma reachable_inv: "reachable h stamp s \<Longrightarrow> clock_ok h stamp \<Longrightarrow> run_inv stamp s"
proof (induction rule: reachable.induct)
  case start
  then show ?case by (simp add: run_inv_def run_init_def store_wf_def)
next
  case (more s s')
  then show ?case using step_inv by blast
qed

subsection \<open>Properties\<close>

text \<open>C13: whatever the order of edits, claims, outcomes, retries and discards, and however stale
  the lists the drains work from, no two drains hold the same row at the same time, and each
  row held belongs to the account of the drain that holds it (or to nobody), as long as the
  clock is sound and a replay takes less than two minutes.\<close>

theorem drains_exclude_each_other:
  assumes "clock_ok h stamp" and "reachable h stamp s"
  shows "distinct (map fl_key (rs_flights s)) \<and>
    (\<forall>f \<in> set (rs_flights s). \<exists>x \<in> set (rs_queue s). row_key x = fl_key f \<and> rr_syncStatus x = S_syncing \<and>
       is_queue_row_owned_by (qr_ownerUserId x) (Some (fl_user f)))"
  using reachable_inv [OF assms(2,1)] by (auto simp: run_inv_def in_flight_def)

definition stamp1 :: "int \<Rightarrow> string" where
  "stamp1 t = (if t < 0 then ''-'' else ''+'') @ nat_digits (nat \<bar>t\<bar>)"

definition read_stamp1 :: "string \<Rightarrow> jsnum" where
  "read_stamp1 s = (case s of [] \<Rightarrow> NaN | c # cs \<Rightarrow>
     Fin (of_int (if c = CHR ''-'' then - int (dec_val 0 cs) else int (dec_val 0 cs))))"

definition host1 :: host where
  "host1 = host0\<lparr> h_date_parse := read_stamp1 \<rparr>"

lemma clock_ok1: "clock_ok host1 stamp1"
  by (auto simp: clock_ok_def host1_def stamp1_def read_stamp1_def dec_val_digits)

lemma drains_exclude_each_other_witness:
  "\<exists>s f. reachable host1 stamp1 s \<and> rs_flights s = [f] \<and> fl_user f = ''u'' \<and>
     (\<exists>x \<in> set (rs_queue s). row_key x = fl_key f \<and> rr_syncStatus x = S_syncing \<and>
        is_queue_row_owned_by (qr_ownerUserId x) (Some ''u''))"
proof -
  let ?h = "host_at host1 stamp1 0"
  let ?r = "fresh_record ?h ''1'' edit1"
  let ?s = "run_init\<lparr> rs_queue := [?r] \<rparr>"
  have "snd (enqueue_edit ?h ''1'' edit1 []) = [?r]"
    by (simp add: enqueue_edit_def foldable_rows_def sort_by_def Let_def)
  then have "run_step host1 stamp1 run_init ?s"
    using run_step.edit [of run_init edit1 "''1''" host1 stamp1] by (simp add: run_init_def)
  then have s: "reachable host1 stamp1 ?s" using reachable.intros by blast
  let ?c = "?r\<lparr> rr_syncStatus := S_syncing, rr_lastAttemptAt := Some (h_now_iso ?h) \<rparr>"
  let ?f = "\<lparr> fl_record = ?r, fl_user = ''u'', fl_since = 0 \<rparr>"
  let ?t = "\<lparr> rs_queue = [?c], rs_clock = 0, rs_flights = [?f] \<rparr>"
  have can: "can_claim ?h ''u'' False ?r"
    by (simp add: can_claim_def fresh_record_def edit1_def is_queue_row_owned_by_def
        is_queue_row_claimable_def queue_retry_delay_ms_def RETRY_BACKOFF_MS_def)
  have "claim_queue_row ?h (row_key ?r) (can_claim ?h ''u'' False) [?r] = (Some ?c, [?c])"
    using can by (simp add: claim_queue_row_def store_get_def row_key_def Let_def)
  then have "run_step host1 stamp1 ?s (?s\<lparr> rs_queue := [?c], rs_flights := rs_flights ?s @
      [\<lparr> fl_record = ?r, fl_user = ''u'', fl_since = rs_clock ?s \<rparr>] \<rparr>)"
    by (intro run_step.claim) (simp add: run_init_def)
  then have "run_step host1 stamp1 ?s ?t" by (simp add: run_init_def)
  then have t: "reachable host1 stamp1 ?t" using s reachable.more by blast
  show ?thesis
    using drains_exclude_each_other [OF clock_ok1 t] t
    by (intro exI [of _ ?t] exI [of _ ?f]) simp
qed

end
