(* ===== verification/SqlName.thy ===== *)
theory SqlName
  imports Prelude
begin

text \<open>
  Field names that may be written into SQL: \<open>isSqlSafeFieldName\<close> and \<open>toSqlSafeFieldName\<close> of
  \<open>packages/shared-types/src/expression.ts\<close>. The set \<open>used\<close> the caller passes, and which the
  function extends, is the list of its members in insertion order; the counter of the collision
  loop is a natural number, which the code's double is up to \<open>2 ^ 53\<close>.
\<close>

subsection \<open>The allowlist\<close>

definition MAX_SQL_SAFE_FIELD_NAME_LENGTH :: nat where
  "MAX_SQL_SAFE_FIELD_NAME_LENGTH = 63"

definition RESERVED_SQL_SAFE_FIELD_NAMES :: "string list" where
  "RESERVED_SQL_SAFE_FIELD_NAMES = [''__proto__'', ''constructor'', ''prototype'']"

definition safe_start :: "char \<Rightarrow> bool" where
  "safe_start c \<longleftrightarrow> is_upper_az c \<or> is_lower_az c \<or> c = CHR ''_''"

definition safe_char :: "char \<Rightarrow> bool" where
  "safe_char c \<longleftrightarrow> safe_start c \<or> is_digit_char c"

text \<open>The regular expression \<open>^[A-Za-z_][A-Za-z0-9_]*$\<close>.\<close>

fun sql_safe_re :: "string \<Rightarrow> bool" where
  "sql_safe_re [] = False"
| "sql_safe_re (c # cs) = (safe_start c \<and> list_all safe_char cs)"

definition is_sql_safe_field_name :: "string \<Rightarrow> bool" where
  "is_sql_safe_field_name name \<longleftrightarrow>
     0 < length name \<and> length name \<le> MAX_SQL_SAFE_FIELD_NAME_LENGTH \<and>
     sql_safe_re name \<and> to_lower name \<notin> set RESERVED_SQL_SAFE_FIELD_NAMES"

subsection \<open>Making a name safe\<close>

fun slug_walk :: "string \<Rightarrow> bool \<Rightarrow> string \<Rightarrow> string" where
  "slug_walk slug lastUnderscore [] = slug"
| "slug_walk slug lastUnderscore (c # cs) =
     (if is_upper_az c \<or> is_lower_az c \<or> is_digit_char c \<or> c = CHR ''_''
      then slug_walk (slug @ [c]) (c = CHR ''_'') cs
      else if slug \<noteq> [] \<and> \<not> lastUnderscore
      then slug_walk (slug @ ''_'') True cs
      else slug_walk slug lastUnderscore cs)"

definition sql_safe_base :: "string \<Rightarrow> string" where
  "sql_safe_base raw =
     (let trimmed = trim raw;
          base = (if is_sql_safe_field_name trimmed then trimmed
                  else let walked = slug_walk [] False trimmed;
                           slug = (if ends_with ''_'' walked then butlast walked else walked);
                           named = (if slug = [] \<or> is_digit_char (hd slug)
                                    then ''f_'' @ (if slug = [] then ''field'' else slug) else slug);
                           cut = (if MAX_SQL_SAFE_FIELD_NAME_LENGTH < length named
                                  then take MAX_SQL_SAFE_FIELD_NAME_LENGTH named else named)
                       in if is_sql_safe_field_name cut then cut else ''field'')
      in if to_lower base \<in> set RESERVED_SQL_SAFE_FIELD_NAMES then ''f_'' @ base else base)"

text \<open>\<open>s.slice(0, k)\<close>: a negative end counts from the end of the string.\<close>

definition slice_to :: "int \<Rightarrow> string \<Rightarrow> string" where
  "slice_to k s = take (nat (if k < 0 then int (length s) + k else k)) s"

definition sql_candidate :: "string \<Rightarrow> nat \<Rightarrow> string" where
  "sql_candidate base n =
     (let suffix = ''_'' @ nat_digits n
      in slice_to (int MAX_SQL_SAFE_FIELD_NAME_LENGTH - int (length suffix)) base @ suffix)"

lemma nat_digits_digit: "c \<in> set (nat_digits n) \<Longrightarrow> is_digit_char c"
proof (induction n rule: nat_digits.induct)
  case (1 n)
  have "is_digit_char (char_of (48 + m))" if "m < 10" for m :: nat
    using that by (simp add: is_digit_char_def cu_def)
  with 1 show ?case by (subst (asm) nat_digits.simps) (auto split: if_splits)
qed

lemma sql_candidate_inj: "sql_candidate b i = sql_candidate b j \<Longrightarrow> i = j"
proof -
  have u: "CHR ''_'' \<notin> set (nat_digits n)" for n
    using nat_digits_digit [of "CHR ''_''" n] by (auto simp: is_digit_char_def cu_def)
  assume "sql_candidate b i = sql_candidate b j"
  then obtain x y where e: "x @ CHR ''_'' # nat_digits i = y @ CHR ''_'' # nat_digits j"
    unfolding sql_candidate_def Let_def by (metis append.assoc append_Cons append_Nil)
  have tw: "takeWhile (\<lambda>c. c \<noteq> CHR ''_'') (rev (z @ CHR ''_'' # nat_digits n)) = rev (nat_digits n)" for z n
  proof -
    have "takeWhile (\<lambda>c. c \<noteq> CHR ''_'') (rev (nat_digits n)) = rev (nat_digits n)"
      by (rule takeWhile_eq_all_conv [THEN iffD2]) (use u [of n] in auto)
    then show ?thesis by (simp add: takeWhile_tail)
  qed
  have "rev (nat_digits i) = rev (nat_digits j)" using tw [of x i] tw [of y j] unfolding e by (rule trans [OF sym])
  then have "nat_digits i = nat_digits j" by simp
  then show ?thesis by (metis dec_val_digits)
qed

function free_candidate :: "string list \<Rightarrow> string \<Rightarrow> nat \<Rightarrow> nat" where
  "free_candidate used base n =
     (if sql_candidate base n \<in> set used then free_candidate used base (Suc n) else n)"
  by pat_completeness auto
termination
proof (relation "measure (\<lambda>(used, base, n). card (set used \<inter> sql_candidate base ` {n..}))")
  fix used base n
  let ?s = "\<lambda>n. set used \<inter> sql_candidate base ` {n..}"
  assume "sql_candidate base n \<in> set used"
  then have "sql_candidate base n \<in> ?s n" by auto
  moreover have "sql_candidate base n \<notin> ?s (Suc n)" using sql_candidate_inj by fastforce
  moreover have "?s (Suc n) \<subseteq> ?s n" by auto
  ultimately have "?s (Suc n) \<subset> ?s n" by blast
  then show "((used, base, Suc n), used, base, n) \<in> measure (\<lambda>(used, base, n). card (set used \<inter> sql_candidate base ` {n..}))"
    by (simp add: psubset_card_mono)
qed simp

declare free_candidate.simps [simp del]

definition to_sql_safe_field_name :: "string \<Rightarrow> string list option \<Rightarrow> string \<times> string list option" where
  "to_sql_safe_field_name raw used =
     (let base = sql_safe_base raw
      in case used of
           None \<Rightarrow> (base, None)
         | Some taken \<Rightarrow>
             (let name = (if base \<in> set taken then sql_candidate base (free_candidate taken base 2) else base)
              in (name, Some (taken @ [name]))))"

text \<open>
  The names of a file's columns: \<open>header.map((h) => toSqlSafeFieldName(h, used))\<close>, as
  \<open>inferFieldTypes\<close> and \<open>emitPoints\<close> of \<open>portal-api/src/ingest/csv-smart-detect.ts\<close> make them.
\<close>

fun safe_names :: "string list \<Rightarrow> string list \<Rightarrow> string list" where
  "safe_names used [] = []"
| "safe_names used (h # hs) =
     (case to_sql_safe_field_name h (Some used) of
        (name, used') \<Rightarrow> name # safe_names (case used' of Some u \<Rightarrow> u | None \<Rightarrow> used) hs)"

subsection \<open>Lemmas\<close>

lemma length_nat_digits: "n < 10 ^ Suc k \<Longrightarrow> length (nat_digits n) \<le> Suc k"
proof (induction k arbitrary: n)
  case 0
  then show ?case by (simp add: nat_digits.simps)
next
  case (Suc k)
  then have "n div 10 < 10 ^ Suc k" by (simp add: less_mult_imp_div_less)
  from Suc.IH [OF this] show ?case by (subst nat_digits.simps) simp
qed

lemma sql_safe_re_iff: "sql_safe_re s \<longleftrightarrow> s \<noteq> [] \<and> safe_start (hd s) \<and> list_all safe_char s"
  by (cases s) (auto simp: safe_char_def)

lemma sql_safe_base_safe: "is_sql_safe_field_name (sql_safe_base raw)"
proof -
  have f: "is_sql_safe_field_name ''field''"
    by (simp add: is_sql_safe_field_name_def MAX_SQL_SAFE_FIELD_NAME_LENGTH_def safe_start_def safe_char_def
        is_lower_az_def is_upper_az_def cu_def RESERVED_SQL_SAFE_FIELD_NAMES_def to_lower_def lower_char_def)
  define base where "base = (if is_sql_safe_field_name (trim raw) then trim raw
     else let walked = slug_walk [] False (trim raw);
              slug = (if ends_with ''_'' walked then butlast walked else walked);
              named = (if slug = [] \<or> is_digit_char (hd slug)
                       then ''f_'' @ (if slug = [] then ''field'' else slug) else slug);
              cut = (if MAX_SQL_SAFE_FIELD_NAME_LENGTH < length named
                     then take MAX_SQL_SAFE_FIELD_NAME_LENGTH named else named)
          in if is_sql_safe_field_name cut then cut else ''field'')"
  have b: "is_sql_safe_field_name base" using f by (simp add: base_def Let_def)
  then have "to_lower base \<notin> set RESERVED_SQL_SAFE_FIELD_NAMES" by (simp add: is_sql_safe_field_name_def)
  then have "sql_safe_base raw = base" by (simp add: sql_safe_base_def base_def [symmetric] Let_def)
  with b show ?thesis by simp
qed

lemma sql_candidate_safe:
  assumes "is_sql_safe_field_name base" and "n < 10 ^ 60"
  shows "is_sql_safe_field_name (sql_candidate base n)"
proof -
  let ?d = "nat_digits n"
  have ld: "length ?d \<le> 60" using length_nat_digits [of n 59] assms(2) by simp
  have dne: "?d \<noteq> []" by (subst nat_digits.simps) simp
  let ?k = "62 - length ?d"
  have c: "sql_candidate base n = take ?k base @ CHR ''_'' # ?d"
    using ld by (simp add: sql_candidate_def Let_def slice_to_def MAX_SQL_SAFE_FIELD_NAME_LENGTH_def
        of_nat_diff [symmetric] nat_diff_distrib)
  have b: "base \<noteq> []" "safe_start (hd base)" "list_all safe_char base"
    using assms(1) by (auto simp: is_sql_safe_field_name_def sql_safe_re_iff)
  have "list_all safe_char (take ?k base)" using b(3) by (auto simp: list_all_iff dest: in_set_takeD)
  moreover have "list_all safe_char ?d" by (auto simp: list_all_iff safe_char_def dest: nat_digits_digit)
  moreover have "safe_char CHR ''_''" by (simp add: safe_char_def safe_start_def)
  moreover have "safe_start (hd (take ?k base @ CHR ''_'' # ?d))"
    using b(1,2) ld by (cases base) (auto simp: take_Cons' safe_start_def)
  ultimately have re: "sql_safe_re (sql_candidate base n)" by (simp add: c sql_safe_re_iff)
  have len: "length (sql_candidate base n) \<le> 63" using ld by (simp add: c)
  have "last (to_lower (sql_candidate base n)) = lower_char (last ?d)"
    using dne by (simp add: c to_lower_def last_map)
  moreover have "is_digit_char (last ?d)" by (rule nat_digits_digit) (rule last_in_set [OF dne])
  then have "lower_char (last ?d) = last ?d" "is_digit_char (last ?d)"
    by (auto simp: lower_char_def is_digit_char_def is_upper_az_def)
  ultimately have "is_digit_char (last (to_lower (sql_candidate base n)))" by simp
  then have "to_lower (sql_candidate base n) \<notin> set RESERVED_SQL_SAFE_FIELD_NAMES"
    by (auto simp: RESERVED_SQL_SAFE_FIELD_NAMES_def is_digit_char_def cu_def)
  with re len show ?thesis
    by (simp add: is_sql_safe_field_name_def MAX_SQL_SAFE_FIELD_NAME_LENGTH_def c)
qed

lemma free_candidate_free: "sql_candidate base (free_candidate used base n) \<notin> set used"
proof (induction used base n rule: free_candidate.induct)
  case (1 used base n)
  then show ?case by (subst free_candidate.simps) auto
qed

lemma free_candidate_used:
  "n \<le> j \<Longrightarrow> j < free_candidate used base n \<Longrightarrow> sql_candidate base j \<in> set used"
proof (induction used base n rule: free_candidate.induct)
  case (1 used base n)
  show ?case
  proof (cases "sql_candidate base n \<in> set used")
    case True
    with 1 show ?thesis
      by (cases "j = n") (simp_all add: free_candidate.simps [of used base n])
  next
    case False
    with 1 show ?thesis by (simp add: free_candidate.simps [of used base n])
  qed
qed

lemma free_candidate_bound: "free_candidate used base n \<le> n + length used"
proof -
  let ?m = "free_candidate used base n"
  have "sql_candidate base ` {n..<?m} \<subseteq> set used" using free_candidate_used by fastforce
  then have "card (sql_candidate base ` {n..<?m}) \<le> card (set used)" by (rule card_mono [rotated]) simp
  moreover have "inj_on (sql_candidate base) {n..<?m}" using sql_candidate_inj by (rule inj_onI)
  ultimately have "?m - n \<le> card (set used)" by (simp add: card_image)
  then show ?thesis using card_length [of used] by linarith
qed

lemma to_sql_safe_field_name_step:
  assumes "length taken < 10 ^ 15"
  obtains name where "to_sql_safe_field_name raw (Some taken) = (name, Some (taken @ [name]))"
    "is_sql_safe_field_name name" "name \<notin> set taken"
    "sql_safe_base raw \<notin> set taken \<Longrightarrow> name = sql_safe_base raw"
proof (cases "sql_safe_base raw \<in> set taken")
  case True
  let ?n = "free_candidate taken (sql_safe_base raw) 2"
  have "?n < 10 ^ 60" using free_candidate_bound [of taken "sql_safe_base raw" 2] assms by simp
  then have "is_sql_safe_field_name (sql_candidate (sql_safe_base raw) ?n)"
    by (rule sql_candidate_safe [OF sql_safe_base_safe])
  with True that [of "sql_candidate (sql_safe_base raw) ?n"] free_candidate_free show thesis
    by (simp add: to_sql_safe_field_name_def Let_def)
next
  case False
  with that [of "sql_safe_base raw"] sql_safe_base_safe show thesis
    by (simp add: to_sql_safe_field_name_def Let_def)
qed

lemma sql_safe_base_id: "is_sql_safe_field_name (trim raw) \<Longrightarrow> sql_safe_base raw = trim raw"
  by (simp add: sql_safe_base_def is_sql_safe_field_name_def [of "trim raw"] Let_def)

lemma safe_names_gen:
  "length used + length hs < 10 ^ 15 \<Longrightarrow> distinct used \<Longrightarrow>
   length (safe_names used hs) = length hs \<and> distinct (used @ safe_names used hs) \<and>
   list_all is_sql_safe_field_name (safe_names used hs)"
proof (induction used hs rule: safe_names.induct)
  case (2 used h hs)
  from 2(2) have "length used < 10 ^ 15" by simp
  then obtain name where n: "to_sql_safe_field_name h (Some used) = (name, Some (used @ [name]))"
    "is_sql_safe_field_name name" "name \<notin> set used" by (rule to_sql_safe_field_name_step)
  have "length (safe_names (used @ [name]) hs) = length hs \<and>
     distinct ((used @ [name]) @ safe_names (used @ [name]) hs) \<and>
     list_all is_sql_safe_field_name (safe_names (used @ [name]) hs)"
    using 2(1) [OF n(1) [symmetric]] 2(2,3) n(3) by simp
  with n show ?case by simp
qed auto

lemma safe_names_keep:
  assumes "distinct (map trim hs)" and "\<forall>h \<in> set hs. is_sql_safe_field_name (trim h)"
    and "set used \<inter> trim ` set hs = {}"
  shows "safe_names used hs = map trim hs"
  using assms
proof (induction used hs rule: safe_names.induct)
  case (2 used h hs)
  then have "to_sql_safe_field_name h (Some used) = (trim h, Some (used @ [trim h]))"
    by (simp add: to_sql_safe_field_name_def sql_safe_base_id Let_def)
  with 2 show ?case by auto
qed auto

subsection \<open>Properties\<close>

text \<open>Whatever the headers of an uploaded file, its columns get as many names, all different and
  each one an identifier the SQL emitters accept (the collision loop ends and its suffix never
  pushes a name past the limit); headers that are already such identifiers, and differ, keep
  their names.\<close>

theorem safe_names_ok:
  assumes "length hs < 10 ^ 15"
  shows "length (safe_names [] hs) = length hs \<and> distinct (safe_names [] hs) \<and>
     (\<forall>name \<in> set (safe_names [] hs). is_sql_safe_field_name name) \<and>
     (distinct (map trim hs) \<and> (\<forall>h \<in> set hs. is_sql_safe_field_name (trim h)) \<longrightarrow>
        safe_names [] hs = map trim hs)"
  using safe_names_gen [of "[]" hs] safe_names_keep [of hs "[]"] assms by (auto simp: list_all_iff)

lemma safe_names_ok_witness: "distinct (safe_names [] [''Owner Name'', ''owner-name'', ''Owner Name'', ''constructor''])"
  using safe_names_ok [of "[''Owner Name'', ''owner-name'', ''Owner Name'', ''constructor'']"] by simp

end
