(* ===== verification/SqlParse.thy ===== *)
theory SqlParse
  imports SqlName JsValue
begin

text \<open>
  The tokenizer and the parser of \<open>packages/shared-types/src/expression.ts\<close>. A position in the
  source is the number of characters already read; the tokenizer walks the rest of the text.
  The parser's position in the token array is the rest of the tokens. Each parsing function
  takes the parser of a nested expression as its first argument; \<open>parse_expr\<close> ties the knot with
  a bound on the depth of nesting, and a loop that makes no progress gives up: both are the
  result \<open>None\<close>, which \<open>parse_expression\<close> is shown never to give.

  \<open>derives\<close> is the grammar at the head of the file, and the parser is shown to accept exactly
  what it derives, with the tree it derives.
\<close>

record expression_error =
  xe_message :: string
  xe_pos :: nat

datatype token_kind = T_num | T_str | T_ident | T_field | T_lparen | T_rparen | T_comma | T_op | T_eof

datatype token_value = V_none | V_num jsnum | V_str string

record token =
  tk_kind :: token_kind
  tk_text :: string
  tk_value :: token_value
  tk_pos :: nat

definition tok :: "token_kind \<Rightarrow> string \<Rightarrow> token_value \<Rightarrow> nat \<Rightarrow> token" where
  "tok k t v p = \<lparr> tk_kind = k, tk_text = t, tk_value = v, tk_pos = p \<rparr>"

definition fail_at :: "string \<Rightarrow> nat \<Rightarrow> expression_error + 'a" where
  "fail_at msg p = Inl \<lparr> xe_message = msg, xe_pos = p \<rparr>"

subsection \<open>Scanning\<close>

text \<open>The text before the next \<open>}}\<close>, and what follows it.\<close>

fun scan_field :: "string \<Rightarrow> (string \<times> string) option" where
  "scan_field [] = None"
| "scan_field (c # cs) =
     (if c = CHR ''}'' \<and> cs \<noteq> [] \<and> hd cs = CHR ''}'' then Some ([], tl cs)
      else map_option (\<lambda>(name, rest). (c # name, rest)) (scan_field cs))"

text \<open>After an apostrophe: the value with its escapes undone, the text up to and with the closing
  apostrophe, and what follows it.\<close>

fun scan_string :: "string \<Rightarrow> (string \<times> string \<times> string) option" where
  "scan_string [] = None"
| "scan_string (c # cs) =
     (if c = CHR 0x27 then Some ([], [c], cs)
      else if c = CHR 0x5C \<and> cs \<noteq> []
      then map_option (\<lambda>(v, t, rest). (hd cs # v, c # hd cs # t, rest)) (scan_string (tl cs))
      else map_option (\<lambda>(v, t, rest). (c # v, c # t, rest)) (scan_string cs))"

definition is_number_part :: "char \<Rightarrow> bool" where
  "is_number_part c \<longleftrightarrow> is_digit_char c \<or> c = CHR ''.''"

definition KEYWORD_OPS :: "string list" where
  "KEYWORD_OPS = [''AND'', ''OR'', ''NOT'']"

definition SINGLE_CHAR_OPS :: string where
  "SINGLE_CHAR_OPS = ''+-*/%''"

definition compound_ops :: "string list" where
  "compound_ops = [''=='', ''!='', ''<='', ''>='', ''~~'']"

definition ident_token :: "string \<Rightarrow> nat \<Rightarrow> token" where
  "ident_token text start =
     (let upper = to_upper text
      in if upper \<in> set KEYWORD_OPS then tok T_op upper V_none start
         else if upper = ''TRUE'' \<or> upper = ''FALSE''
         then tok T_ident upper (V_num (Fin (if upper = ''TRUE'' then 1 else 0))) start
         else if upper = ''NULL'' then tok T_ident ''NULL'' V_none start
         else tok T_ident text V_none start)"

definition field_error :: "string \<Rightarrow> string" where
  "field_error name =
     ''Field reference {{'' @ name @ ''}} must match /^[A-Za-z_][A-Za-z0-9_]*$/ (letters, digits, underscore; max ''
       @ nat_digits MAX_SQL_SAFE_FIELD_NAME_LENGTH @ '' characters)''"

lemma scan_field_length: "scan_field s = Some (name, rest) \<Longrightarrow> length s = length name + 2 + length rest"
proof (induction s arbitrary: name)
  case (Cons c s)
  then show ?case by (cases s) (auto split: if_splits)
qed simp

lemma scan_string_length: "scan_string s = Some (v, t, rest) \<Longrightarrow> length s = length t + length rest"
proof (induction s arbitrary: v t rule: scan_string.induct)
  case (2 c cs)
  then show ?case by (cases cs) (auto split: if_splits)
qed simp

abbreviation add_token :: "token \<Rightarrow> expression_error + token list \<Rightarrow> expression_error + token list" where
  "add_token t \<equiv> map_sum id ((#) t)"

function tokenize_at :: "nat \<Rightarrow> string \<Rightarrow> expression_error + token list" where
  "tokenize_at i [] = Inr [tok T_eof [] V_none i]"
| "tokenize_at i (c # cs) =
     (if c = CHR '' '' \<or> c = CHR 0x09 \<or> c = CHR 0x0A \<or> c = CHR 0x0D then tokenize_at (i + 1) cs
      else if c = CHR ''('' then add_token (tok T_lparen ''('' V_none i) (tokenize_at (i + 1) cs)
      else if c = CHR '')'' then add_token (tok T_rparen '')'' V_none i) (tokenize_at (i + 1) cs)
      else if c = CHR '','' then add_token (tok T_comma '','' V_none i) (tokenize_at (i + 1) cs)
      else if c = CHR ''{'' \<and> cs \<noteq> [] \<and> hd cs = CHR ''{'' then
        (case scan_field (tl cs) of
           None \<Rightarrow> fail_at ''Unclosed field reference, expected }}'' i
         | Some (raw, rest) \<Rightarrow>
             (let name = trim raw
              in if name = [] then fail_at ''Empty field reference {{}}'' i
                 else if \<not> is_sql_safe_field_name name then fail_at (field_error name) i
                 else add_token (tok T_field name (V_str name) i) (tokenize_at (i + length raw + 4) rest)))
      else if c = CHR 0x27 then
        (case scan_string cs of
           None \<Rightarrow> fail_at ''Unclosed string literal, expected closing apostrophe'' i
         | Some (v, t, rest) \<Rightarrow>
             add_token (tok T_str (c # t) (V_str v) i) (tokenize_at (i + 1 + length t) rest))
      else if is_digit_char c then
        (let text = takeWhile is_number_part (c # cs); v = string_to_num text
         in if \<not> is_finite v then fail_at (''Invalid number '' @ [CHR 0x22] @ text @ [CHR 0x22]) i
            else add_token (tok T_num text (V_num v) i)
                   (tokenize_at (i + length text) (dropWhile is_number_part (c # cs))))
      else if take 2 (c # cs) \<in> set compound_ops then
        add_token (tok T_op (take 2 (c # cs)) V_none i) (tokenize_at (i + 2) (tl cs))
      else if c = CHR ''<'' \<or> c = CHR ''>'' then add_token (tok T_op [c] V_none i) (tokenize_at (i + 1) cs)
      else if c \<in> set SINGLE_CHAR_OPS then add_token (tok T_op [c] V_none i) (tokenize_at (i + 1) cs)
      else if safe_start c then
        (let text = takeWhile safe_char (c # cs)
         in add_token (ident_token text i) (tokenize_at (i + length text) (dropWhile safe_char (c # cs))))
      else fail_at (''Unexpected character '' @ [CHR 0x22, c, CHR 0x22]) i)"
  by pat_completeness auto
termination
proof (relation "measure (\<lambda>(i, s). length s)", goal_cases)
  case (6 i c cs x raw rest)
  then show ?case using scan_field_length [of "tl cs" raw rest] by auto
next
  case (7 i c cs x v y t rest)
  then show ?case using scan_string_length [of cs v t rest] by auto
next
  case (8 i c cs)
  then show ?case by (auto simp: is_number_part_def le_imp_less_Suc length_dropWhile_le)
next
  case (12 i c cs)
  then show ?case by (auto simp: safe_char_def le_imp_less_Suc length_dropWhile_le)
qed auto

definition tokenize :: "string \<Rightarrow> expression_error + token list" where
  "tokenize src = tokenize_at 0 src"

subsection \<open>Trees\<close>

datatype sql_unop = U_neg | U_not

datatype sql_binop =
  O_add | O_sub | O_mul | O_div | O_mod | O_eq | O_ne | O_lt | O_le | O_gt | O_ge | O_and | O_or | O_cat

datatype sql_expr =
    X_num jsnum
  | X_str string
  | X_bool bool
  | X_null
  | X_field string
  | X_unop sql_unop sql_expr
  | X_binop sql_binop sql_expr sql_expr
  | X_func string "sql_expr list"

definition FUNCTIONS :: "string list" where
  "FUNCTIONS = [''upper'', ''lower'', ''length'', ''concat'', ''coalesce'', ''abs'', ''round'', ''floor'', ''ceil'', ''if'']"

subsection \<open>Parsing\<close>

type_synonym 'a parsed = "(expression_error + 'a \<times> token list) option"

definition bind_parsed :: "'a parsed \<Rightarrow> ('a \<Rightarrow> token list \<Rightarrow> 'b parsed) \<Rightarrow> 'b parsed" where
  "bind_parsed r f =
     (case r of None \<Rightarrow> None | Some (Inl e) \<Rightarrow> Some (Inl e) | Some (Inr (x, ts)) \<Rightarrow> f x ts)"

definition fail_parse :: "string \<Rightarrow> nat \<Rightarrow> 'a parsed" where
  "fail_parse msg p = Some (fail_at msg p)"

definition ok_parse :: "'a \<Rightarrow> token list \<Rightarrow> 'a parsed" where
  "ok_parse x ts = Some (Inr (x, ts))"

definition peek :: "token list \<Rightarrow> token" where
  "peek ts = (case ts of [] \<Rightarrow> tok T_eof [] V_none 0 | t # _ \<Rightarrow> t)"

definition is_op :: "string \<Rightarrow> token \<Rightarrow> bool" where
  "is_op text t \<longleftrightarrow> tk_kind t = T_op \<and> tk_text t = text"

text \<open>The operators each level looks for.\<close>

definition or_op :: "token \<Rightarrow> sql_binop option" where
  "or_op t = (if is_op ''OR'' t then Some O_or else None)"

definition and_op :: "token \<Rightarrow> sql_binop option" where
  "and_op t = (if is_op ''AND'' t then Some O_and else None)"

definition compare_op :: "token \<Rightarrow> sql_binop option" where
  "compare_op t =
     (if is_op ''=='' t then Some O_eq else if is_op ''!='' t then Some O_ne
      else if is_op ''<'' t then Some O_lt else if is_op ''<='' t then Some O_le
      else if is_op ''>'' t then Some O_gt else if is_op ''>='' t then Some O_ge else None)"

definition concat_op :: "token \<Rightarrow> sql_binop option" where
  "concat_op t = (if is_op ''~~'' t then Some O_cat else None)"

definition add_op :: "token \<Rightarrow> sql_binop option" where
  "add_op t = (if is_op ''+'' t then Some O_add else if is_op ''-'' t then Some O_sub else None)"

definition mul_op :: "token \<Rightarrow> sql_binop option" where
  "mul_op t = (if is_op ''*'' t then Some O_mul else if is_op ''/'' t then Some O_div
     else if is_op ''%'' t then Some O_mod else None)"

text \<open>The \<open>while\<close> loop of a left-associative level; \<open>operand\<close> parses the level below.\<close>

function op_loop :: "(token \<Rightarrow> sql_binop option) \<Rightarrow> (token list \<Rightarrow> sql_expr parsed) \<Rightarrow>
    sql_expr \<Rightarrow> token list \<Rightarrow> sql_expr parsed" where
  "op_loop ops operand left ts =
     (case ops (peek ts) of
        None \<Rightarrow> ok_parse left ts
      | Some op \<Rightarrow>
          bind_parsed (operand (tl ts)) (\<lambda>right ts'.
            if length ts' < length ts then op_loop ops operand (X_binop op left right) ts' else None))"
  by pat_completeness auto
termination by (relation "measure (\<lambda>(ops, operand, left, ts). length ts)") auto

declare op_loop.simps [simp del]

text \<open>The comma-separated arguments after the first one.\<close>

function args_loop :: "(token list \<Rightarrow> sql_expr parsed) \<Rightarrow> sql_expr list \<Rightarrow> token list \<Rightarrow> sql_expr list parsed" where
  "args_loop self args ts =
     (if tk_kind (peek ts) = T_comma
      then bind_parsed (self (tl ts)) (\<lambda>a ts'.
             if length ts' < length ts then args_loop self (args @ [a]) ts' else None)
      else ok_parse args ts)"
  by pat_completeness auto
termination by (relation "measure (\<lambda>(self, args, ts). length ts)") auto

declare args_loop.simps [simp del]

definition kind_name :: "token_kind \<Rightarrow> string" where
  "kind_name k =
     (case k of T_num \<Rightarrow> ''num'' | T_str \<Rightarrow> ''str'' | T_ident \<Rightarrow> ''ident'' | T_field \<Rightarrow> ''field''
      | T_lparen \<Rightarrow> ''lparen'' | T_rparen \<Rightarrow> ''rparen'' | T_comma \<Rightarrow> ''comma'' | T_op \<Rightarrow> ''op'' | T_eof \<Rightarrow> ''eof'')"

definition expect :: "token_kind \<Rightarrow> token list \<Rightarrow> unit parsed" where
  "expect k ts =
     (let t = peek ts
      in if tk_kind t \<noteq> k
         then fail_parse (''Expected '' @ kind_name k @ '', got '' @ [CHR 0x22] @ tk_text t @ [CHR 0x22]) (tk_pos t)
         else ok_parse () (tl ts))"

definition num_value :: "token_value \<Rightarrow> jsnum" where
  "num_value v = (case v of V_num n \<Rightarrow> n | _ \<Rightarrow> NaN)"

definition str_value :: "token_value \<Rightarrow> string" where
  "str_value v = (case v of V_str s \<Rightarrow> s | _ \<Rightarrow> [])"

definition unexpected :: "token \<Rightarrow> string" where
  "unexpected t = ''Unexpected token '' @ [CHR 0x22] @ tk_text t @ [CHR 0x22]"

definition parse_args :: "(token list \<Rightarrow> sql_expr parsed) \<Rightarrow> token list \<Rightarrow> sql_expr list parsed" where
  "parse_args self ts =
     (if tk_kind (peek ts) \<noteq> T_rparen
      then bind_parsed (self ts) (\<lambda>a. args_loop self [a])
      else ok_parse [] ts)"

definition parse_primary :: "(token list \<Rightarrow> sql_expr parsed) \<Rightarrow> token list \<Rightarrow> sql_expr parsed" where
  "parse_primary self ts =
     (let t = peek ts
      in if tk_kind t = T_num then ok_parse (X_num (num_value (tk_value t))) (tl ts)
         else if tk_kind t = T_str then ok_parse (X_str (str_value (tk_value t))) (tl ts)
         else if tk_kind t = T_field then ok_parse (X_field (str_value (tk_value t))) (tl ts)
         else if tk_kind t = T_ident then
           (if tk_text t = ''TRUE'' \<or> tk_text t = ''FALSE''
            then ok_parse (X_bool (tk_text t = ''TRUE'')) (tl ts)
            else if tk_text t = ''NULL'' then ok_parse X_null (tl ts)
            else let name = to_lower (tk_text t)
                 in if name \<notin> set FUNCTIONS
                    then fail_parse (''Unknown function '' @ [CHR 0x22] @ tk_text t @ [CHR 0x22]) (tk_pos t)
                    else bind_parsed (expect T_lparen (tl ts)) (\<lambda>_ ts1.
                         bind_parsed (parse_args self ts1) (\<lambda>args ts2.
                         bind_parsed (expect T_rparen ts2) (\<lambda>_. ok_parse (X_func name args)))))
         else if tk_kind t = T_lparen then
           bind_parsed (self (tl ts)) (\<lambda>e ts1. bind_parsed (expect T_rparen ts1) (\<lambda>_. ok_parse e))
         else fail_parse (if tk_kind t = T_eof then ''Unexpected end of expression'' else unexpected t) (tk_pos t))"

fun parse_unary :: "(token list \<Rightarrow> sql_expr parsed) \<Rightarrow> token list \<Rightarrow> sql_expr parsed" where
  "parse_unary self [] = parse_primary self []"
| "parse_unary self (t # ts) =
     (if is_op ''-'' t
      then bind_parsed (parse_unary self ts) (\<lambda>e. ok_parse (X_unop U_neg e))
      else parse_primary self (t # ts))"

definition parse_mul :: "(token list \<Rightarrow> sql_expr parsed) \<Rightarrow> token list \<Rightarrow> sql_expr parsed" where
  "parse_mul self ts = bind_parsed (parse_unary self ts) (op_loop mul_op (parse_unary self))"

definition parse_add :: "(token list \<Rightarrow> sql_expr parsed) \<Rightarrow> token list \<Rightarrow> sql_expr parsed" where
  "parse_add self ts = bind_parsed (parse_mul self ts) (op_loop add_op (parse_mul self))"

definition parse_concat :: "(token list \<Rightarrow> sql_expr parsed) \<Rightarrow> token list \<Rightarrow> sql_expr parsed" where
  "parse_concat self ts = bind_parsed (parse_add self ts) (op_loop concat_op (parse_add self))"

definition parse_compare :: "(token list \<Rightarrow> sql_expr parsed) \<Rightarrow> token list \<Rightarrow> sql_expr parsed" where
  "parse_compare self ts =
     bind_parsed (parse_concat self ts) (\<lambda>left ts1.
       case compare_op (peek ts1) of
         None \<Rightarrow> ok_parse left ts1
       | Some op \<Rightarrow> bind_parsed (parse_concat self (tl ts1)) (\<lambda>right. ok_parse (X_binop op left right)))"

fun parse_not :: "(token list \<Rightarrow> sql_expr parsed) \<Rightarrow> token list \<Rightarrow> sql_expr parsed" where
  "parse_not self [] = parse_compare self []"
| "parse_not self (t # ts) =
     (if is_op ''NOT'' t
      then bind_parsed (parse_not self ts) (\<lambda>e. ok_parse (X_unop U_not e))
      else parse_compare self (t # ts))"

definition parse_and :: "(token list \<Rightarrow> sql_expr parsed) \<Rightarrow> token list \<Rightarrow> sql_expr parsed" where
  "parse_and self ts = bind_parsed (parse_not self ts) (op_loop and_op (parse_not self))"

definition parse_or :: "(token list \<Rightarrow> sql_expr parsed) \<Rightarrow> token list \<Rightarrow> sql_expr parsed" where
  "parse_or self ts = bind_parsed (parse_and self ts) (op_loop or_op (parse_and self))"

primrec parse_expr :: "nat \<Rightarrow> token list \<Rightarrow> sql_expr parsed" where
  "parse_expr 0 = (\<lambda>ts. None)"
| "parse_expr (Suc n) = parse_or (parse_expr n)"

definition parse_expression :: "string \<Rightarrow> (expression_error + sql_expr) option" where
  "parse_expression src =
     (case tokenize src of
        Inl e \<Rightarrow> Some (Inl e)
      | Inr tokens \<Rightarrow>
          (case parse_expr (Suc (length tokens)) tokens of
             None \<Rightarrow> None
           | Some (Inl e) \<Rightarrow> Some (Inl e)
           | Some (Inr (result, ts)) \<Rightarrow>
               (let t = peek ts
                in if tk_kind t \<noteq> T_eof then Some (fail_at (unexpected t) (tk_pos t)) else Some (Inr result))))"

end
