(* ===== verification/SqlGrammar.thy ===== *)
theory SqlGrammar
  imports SqlParse
begin

text \<open>
  The grammar at the head of \<open>expression.ts\<close> as an inductive predicate on token lists, and the
  proof that the parser of \<open>SqlParse\<close> accepts exactly what it derives. A level of the grammar is a
  nonterminal; \<open>parse_level\<close> is its parsing function.
\<close>

datatype level = L_or | L_and | L_not | L_compare | L_concat | L_add | L_mul | L_unary | L_primary

fun level_op :: "level \<Rightarrow> token \<Rightarrow> sql_binop option" where
  "level_op L_or = or_op"
| "level_op L_and = and_op"
| "level_op L_concat = concat_op"
| "level_op L_add = add_op"
| "level_op L_mul = mul_op"
| "level_op _ = (\<lambda>t. None)"

fun below :: "level \<Rightarrow> level" where
  "below L_or = L_and"
| "below L_and = L_not"
| "below L_not = L_compare"
| "below L_compare = L_concat"
| "below L_concat = L_add"
| "below L_add = L_mul"
| "below L_mul = L_unary"
| "below L_unary = L_primary"
| "below L_primary = L_primary"

definition is_function_name :: "token \<Rightarrow> bool" where
  "is_function_name t \<longleftrightarrow> tk_kind t = T_ident \<and> tk_text t \<notin> {''TRUE'', ''FALSE'', ''NULL''} \<and>
     to_lower (tk_text t) \<in> set FUNCTIONS"

inductive derives :: "level \<Rightarrow> token list \<Rightarrow> sql_expr \<Rightarrow> bool"
  and derives_args :: "token list \<Rightarrow> sql_expr list \<Rightarrow> bool" where
  down: "derives (below l) ts e \<Longrightarrow> l \<noteq> L_primary \<Longrightarrow> derives l ts e"
| left: "derives l ts1 a \<Longrightarrow> level_op l t = Some op \<Longrightarrow> derives (below l) ts2 b \<Longrightarrow>
    derives l (ts1 @ t # ts2) (X_binop op a b)"
| compare: "derives L_concat ts1 a \<Longrightarrow> compare_op t = Some op \<Longrightarrow> derives L_concat ts2 b \<Longrightarrow>
    derives L_compare (ts1 @ t # ts2) (X_binop op a b)"
| not: "is_op ''NOT'' t \<Longrightarrow> derives L_not ts e \<Longrightarrow> derives L_not (t # ts) (X_unop U_not e)"
| neg: "is_op ''-'' t \<Longrightarrow> derives L_unary ts e \<Longrightarrow> derives L_unary (t # ts) (X_unop U_neg e)"
| num: "tk_kind t = T_num \<Longrightarrow> derives L_primary [t] (X_num (num_value (tk_value t)))"
| str: "tk_kind t = T_str \<Longrightarrow> derives L_primary [t] (X_str (str_value (tk_value t)))"
| field: "tk_kind t = T_field \<Longrightarrow> derives L_primary [t] (X_field (str_value (tk_value t)))"
| bool: "tk_kind t = T_ident \<Longrightarrow> tk_text t \<in> {''TRUE'', ''FALSE''} \<Longrightarrow>
    derives L_primary [t] (X_bool (tk_text t = ''TRUE''))"
| null: "tk_kind t = T_ident \<Longrightarrow> tk_text t = ''NULL'' \<Longrightarrow> derives L_primary [t] X_null"
| parens: "tk_kind t = T_lparen \<Longrightarrow> derives L_or ts e \<Longrightarrow> tk_kind t' = T_rparen \<Longrightarrow>
    derives L_primary (t # ts @ [t']) e"
| call0: "is_function_name f \<Longrightarrow> tk_kind t = T_lparen \<Longrightarrow> tk_kind t' = T_rparen \<Longrightarrow>
    derives L_primary [f, t, t'] (X_func (to_lower (tk_text f)) [])"
| call: "is_function_name f \<Longrightarrow> tk_kind t = T_lparen \<Longrightarrow> derives_args ts args \<Longrightarrow> tk_kind t' = T_rparen \<Longrightarrow>
    derives L_primary (f # t # ts @ [t']) (X_func (to_lower (tk_text f)) args)"
| one: "derives L_or ts e \<Longrightarrow> derives_args ts [e]"
| more: "derives_args ts args \<Longrightarrow> tk_kind t = T_comma \<Longrightarrow> derives L_or ts' e \<Longrightarrow>
    derives_args (ts @ t # ts') (args @ [e])"

subsection \<open>The parser by levels\<close>

fun parse_level :: "level \<Rightarrow> (token list \<Rightarrow> sql_expr parsed) \<Rightarrow> token list \<Rightarrow> sql_expr parsed" where
  "parse_level L_or self = parse_or self"
| "parse_level L_and self = parse_and self"
| "parse_level L_not self = parse_not self"
| "parse_level L_compare self = parse_compare self"
| "parse_level L_concat self = parse_concat self"
| "parse_level L_add self = parse_add self"
| "parse_level L_mul self = parse_mul self"
| "parse_level L_unary self = parse_unary self"
| "parse_level L_primary self = parse_primary self"

definition loops :: "level \<Rightarrow> bool" where
  "loops l \<longleftrightarrow> l \<in> {L_or, L_and, L_concat, L_add, L_mul}"

lemma loops_iff: "loops l \<longleftrightarrow> l = L_or \<or> l = L_and \<or> l = L_concat \<or> l = L_add \<or> l = L_mul"
  by (auto simp: loops_def)

lemma parse_level_loop:
  "loops l \<Longrightarrow> parse_level l self ts =
     bind_parsed (parse_level (below l) self ts) (op_loop (level_op l) (parse_level (below l) self))"
  by (cases l) (simp_all add: loops_iff parse_or_def parse_and_def parse_concat_def parse_add_def parse_mul_def)

lemma level_op_loops: "level_op l t = Some op \<Longrightarrow> loops l"
  by (cases l) (auto simp: loops_def)

subsection \<open>Soundness\<close>

text \<open>What a parser of a level yields: a prefix the grammar derives.\<close>

definition sound :: "level \<Rightarrow> (token list \<Rightarrow> sql_expr parsed) \<Rightarrow> bool" where
  "sound l p \<longleftrightarrow> (\<forall>ts e rest. p ts = Some (Inr (e, rest)) \<longrightarrow>
     (\<exists>ts1. ts = ts1 @ rest \<and> ts1 \<noteq> [] \<and> derives l ts1 e))"

lemma bind_parsed_ok:
  "bind_parsed r f = Some (Inr x) \<longleftrightarrow> (\<exists>y ts. r = Some (Inr (y, ts)) \<and> f y ts = Some (Inr x))"
  by (auto simp: bind_parsed_def split: option.splits sum.splits)

lemma ok_parse_ok: "ok_parse x ts = Some (Inr (y, ts')) \<longleftrightarrow> y = x \<and> ts' = ts"
  by (auto simp: ok_parse_def)

lemma fail_parse_ok [simp]: "fail_parse m p \<noteq> Some (Inr x)"
  by (simp add: fail_parse_def fail_at_def)

lemma expect_ok: "expect k ts = Some (Inr (u, rest)) \<longleftrightarrow> tk_kind (peek ts) = k \<and> rest = tl ts"
  by (auto simp: expect_def Let_def ok_parse_def fail_parse_def fail_at_def)

lemma peek_kind: "tk_kind (peek ts) = k \<Longrightarrow> k \<noteq> T_eof \<Longrightarrow> \<exists>t. ts = t # tl ts \<and> tk_kind t = k"
  by (cases ts) (auto simp: peek_def tok_def)

lemma level_op_peek: "level_op l (peek ts) = Some op \<Longrightarrow> \<exists>t. ts = t # tl ts \<and> level_op l t = Some op"
  by (cases l; cases ts)
    (auto simp: peek_def tok_def or_op_def and_op_def concat_op_def add_op_def mul_op_def is_op_def)

lemma compare_op_peek: "compare_op (peek ts) = Some op \<Longrightarrow> \<exists>t. ts = t # tl ts \<and> compare_op t = Some op"
  by (cases ts) (auto simp: peek_def tok_def compare_op_def is_op_def)

lemma op_loop_sound:
  assumes "sound (below l) p" and "loops l"
  shows "op_loop (level_op l) p left ts = Some (Inr (e, rest)) \<Longrightarrow> derives l ts0 left \<Longrightarrow>
     \<exists>ts1. ts = ts1 @ rest \<and> derives l (ts0 @ ts1) e"
proof (induction ts arbitrary: left ts0 rule: length_induct)
  case (1 ts)
  show ?case
  proof (cases "level_op l (peek ts)")
    case None
    with 1(2,3) show ?thesis by (subst (asm) op_loop.simps) (auto simp: ok_parse_def)
  next
    case (Some op)
    then obtain t where t: "ts = t # tl ts" "level_op l t = Some op" using level_op_peek by blast
    from 1(2) Some obtain b ts' where b: "p (tl ts) = Some (Inr (b, ts'))" "length ts' < length ts"
      "op_loop (level_op l) p (X_binop op left b) ts' = Some (Inr (e, rest))"
      by (subst (asm) op_loop.simps) (auto simp: bind_parsed_ok split: if_splits)
    obtain ts2 where ts2: "tl ts = ts2 @ ts'" "derives (below l) ts2 b"
      using assms(1) b(1) unfolding sound_def by blast
    have "derives l (ts0 @ t # ts2) (X_binop op left b)" using 1(3) t(2) ts2(2) by (rule derives_derives_args.left)
    then obtain ts3 where "ts' = ts3 @ rest" "derives l ((ts0 @ t # ts2) @ ts3) e"
      using 1(1) b(2,3) by blast
    then show ?thesis using t(1) ts2(1) by (intro exI [of _ "t # ts2 @ ts3"]) simp
  qed
qed

lemma level_sound:
  assumes "sound (below l) (parse_level (below l) self)" and "loops l"
  shows "sound l (parse_level l self)"
  unfolding sound_def
proof (intro allI impI)
  fix ts e rest assume "parse_level l self ts = Some (Inr (e, rest))"
  then obtain a ts' where a: "parse_level (below l) self ts = Some (Inr (a, ts'))"
    "op_loop (level_op l) (parse_level (below l) self) a ts' = Some (Inr (e, rest))"
    by (auto simp: parse_level_loop [OF assms(2)] bind_parsed_ok)
  obtain ts0 where ts0: "ts = ts0 @ ts'" "ts0 \<noteq> []" "derives (below l) ts0 a"
    using assms(1) a(1) unfolding sound_def by blast
  have "derives l ts0 a" by (rule derives_derives_args.down [OF ts0(3)]) (use assms(2) in \<open>auto simp: loops_def\<close>)
  from op_loop_sound [OF assms(1,2) a(2) this] ts0(1,2)
  show "\<exists>ts1. ts = ts1 @ rest \<and> ts1 \<noteq> [] \<and> derives l ts1 e" by force
qed

lemma soundD: "sound l p \<Longrightarrow> p ts = Some (Inr (e, rest)) \<Longrightarrow> \<exists>ts1. ts = ts1 @ rest \<and> ts1 \<noteq> [] \<and> derives l ts1 e"
  unfolding sound_def by blast

lemma args_loop_sound:
  assumes "sound L_or self"
  shows "args_loop self as ts = Some (Inr (args, rest)) \<Longrightarrow> derives_args ts0 as \<Longrightarrow>
     \<exists>ts1. ts = ts1 @ rest \<and> derives_args (ts0 @ ts1) args"
proof (induction ts arbitrary: as ts0 rule: length_induct)
  case (1 ts)
  show ?case
  proof (cases "tk_kind (peek ts) = T_comma")
    case False
    with 1(2,3) show ?thesis by (subst (asm) args_loop.simps) (auto simp: ok_parse_def)
  next
    case True
    then obtain t where t: "ts = t # tl ts" "tk_kind t = T_comma" using peek_kind by blast
    from 1(2) True obtain b ts' where b: "self (tl ts) = Some (Inr (b, ts'))" "length ts' < length ts"
      "args_loop self (as @ [b]) ts' = Some (Inr (args, rest))"
      by (subst (asm) args_loop.simps) (auto simp: bind_parsed_ok split: if_splits)
    obtain ts2 where ts2: "tl ts = ts2 @ ts'" "derives L_or ts2 b" using soundD [OF assms b(1)] by blast
    have "derives_args (ts0 @ t # ts2) (as @ [b])" using 1(3) t(2) ts2(2) by (rule derives_derives_args.more)
    then obtain ts3 where "ts' = ts3 @ rest" "derives_args ((ts0 @ t # ts2) @ ts3) args"
      using 1(1) b(2,3) by blast
    then show ?thesis using t(1) ts2(1) by (intro exI [of _ "t # ts2 @ ts3"]) simp
  qed
qed

lemma parse_args_sound:
  assumes "sound L_or self" and "parse_args self ts = Some (Inr (args, rest))"
  shows "args = [] \<and> rest = ts \<or> (\<exists>ts1. ts = ts1 @ rest \<and> derives_args ts1 args)"
proof (cases "tk_kind (peek ts) = T_rparen")
  case True
  with assms(2) show ?thesis by (simp add: parse_args_def ok_parse_ok)
next
  case False
  with assms(2) obtain a ts' where a: "self ts = Some (Inr (a, ts'))" "args_loop self [a] ts' = Some (Inr (args, rest))"
    by (auto simp: parse_args_def bind_parsed_ok)
  obtain ts0 where ts0: "ts = ts0 @ ts'" "derives L_or ts0 a" using soundD [OF assms(1) a(1)] by blast
  from args_loop_sound [OF assms(1) a(2) derives_derives_args.one [OF ts0(2)]] ts0(1) show ?thesis by force
qed

lemma call_sound:
  assumes self: "sound L_or self" and f: "is_function_name f"
    and r: "bind_parsed (expect T_lparen ts) (\<lambda>_ ts1. bind_parsed (parse_args self ts1) (\<lambda>args ts2.
       bind_parsed (expect T_rparen ts2) (\<lambda>_. ok_parse (X_func (to_lower (tk_text f)) args)))) = Some (Inr (e, rest))"
  shows "\<exists>ts1. f # ts = ts1 @ rest \<and> ts1 \<noteq> [] \<and> derives L_primary ts1 e"
proof -
  from r obtain args ts2 where l: "tk_kind (peek ts) = T_lparen" and a: "parse_args self (tl ts) = Some (Inr (args, ts2))"
    and e: "tk_kind (peek ts2) = T_rparen" "rest = tl ts2" "e = X_func (to_lower (tk_text f)) args"
    by (auto simp: bind_parsed_ok expect_ok ok_parse_ok)
  obtain t where t: "ts = t # tl ts" "tk_kind t = T_lparen" using peek_kind [OF l] by auto
  obtain t' where t': "ts2 = t' # rest" "tk_kind t' = T_rparen" using peek_kind [OF e(1)] e(2) by auto
  from parse_args_sound [OF self a] show ?thesis
  proof
    assume "args = [] \<and> ts2 = tl ts"
    then show ?thesis using derives_derives_args.call0 [OF f t(2) t'(2)] t(1) t'(1) e(3)
      by (intro exI [of _ "[f, t, t']"]) simp
  next
    assume "\<exists>ts1. tl ts = ts1 @ ts2 \<and> derives_args ts1 args"
    then obtain ts1 where ts1: "tl ts = ts1 @ ts2" "derives_args ts1 args" by blast
    show ?thesis using derives_derives_args.call [OF f t(2) ts1(2) t'(2)] t(1) t'(1) ts1(1) e(3)
      by (intro exI [of _ "f # t # ts1 @ [t']"]) simp
  qed
qed

lemma primary_sound:
  assumes "sound L_or self"
  shows "sound L_primary (parse_primary self)"
  unfolding sound_def
proof (intro allI impI)
  fix ts e rest assume r: "parse_primary self ts = Some (Inr (e, rest))"
  let ?t = "peek ts"
  have ne: "ts \<noteq> []" using r by (auto simp: parse_primary_def peek_def tok_def Let_def)
  then have ts: "ts = ?t # tl ts" by (cases ts) (simp_all add: peek_def)
  have single: "\<exists>ts1. ts = ts1 @ rest \<and> ts1 \<noteq> [] \<and> derives L_primary ts1 e"
    if "derives L_primary [?t] e" "rest = tl ts"
    using that ts by (intro exI [of _ "[?t]"]) simp
  consider (n) "tk_kind ?t = T_num" | (s) "tk_kind ?t = T_str" | (f) "tk_kind ?t = T_field"
    | (i) "tk_kind ?t = T_ident" | (p) "tk_kind ?t = T_lparen"
    using r by (auto simp: parse_primary_def Let_def split: if_splits)
  then show "\<exists>ts1. ts = ts1 @ rest \<and> ts1 \<noteq> [] \<and> derives L_primary ts1 e"
  proof cases
    case n
    then show ?thesis using r derives_derives_args.num [OF n] by (intro single) (simp_all add: parse_primary_def Let_def ok_parse_ok)
  next
    case s
    then show ?thesis using r derives_derives_args.str [OF s] by (intro single) (simp_all add: parse_primary_def Let_def ok_parse_ok)
  next
    case f
    then show ?thesis using r derives_derives_args.field [OF f] by (intro single) (simp_all add: parse_primary_def Let_def ok_parse_ok)
  next
    case i
    show ?thesis
    proof (cases "tk_text ?t \<in> {''TRUE'', ''FALSE'', ''NULL''}")
      case True
      then show ?thesis using r i derives_derives_args.bool [OF i] derives_derives_args.null [OF i]
        by (intro single) (auto simp: parse_primary_def Let_def ok_parse_ok split: if_splits)
    next
      case False
      with r i have "is_function_name ?t"
        by (auto simp: parse_primary_def is_function_name_def Let_def split: if_splits)
      from call_sound [OF assms this, of "tl ts" e rest] r i False show ?thesis
        by (auto simp: parse_primary_def Let_def ts [symmetric] split: if_splits)
    qed
  next
    case p
    with r obtain ts1 where e: "self (tl ts) = Some (Inr (e, ts1))" "tk_kind (peek ts1) = T_rparen" "rest = tl ts1"
      by (auto simp: parse_primary_def Let_def bind_parsed_ok expect_ok ok_parse_ok)
    obtain t' where t': "ts1 = t' # rest" "tk_kind t' = T_rparen" using peek_kind [OF e(2)] e(3) by auto
    obtain ts0 where ts0: "tl ts = ts0 @ ts1" "derives L_or ts0 e" using soundD [OF assms e(1)] by blast
    show ?thesis using derives_derives_args.parens [OF p ts0(2) t'(2)] ts ts0(1) t'(1)
      by (intro exI [of _ "?t # ts0 @ [t']"]) simp
  qed
qed

lemma unary_sound:
  assumes "sound L_primary (parse_primary self)"
  shows "sound L_unary (parse_unary self)"
proof -
  have down: "derives L_primary ts e \<Longrightarrow> derives L_unary ts e" for ts e
    using derives_derives_args.down [of L_unary] by simp
  have "parse_unary self ts = Some (Inr (e, rest)) \<Longrightarrow> \<exists>ts1. ts = ts1 @ rest \<and> ts1 \<noteq> [] \<and> derives L_unary ts1 e"
    for ts e rest
  proof (induction ts arbitrary: e)
    case Nil
    then show ?case using soundD [OF assms] down by auto
  next
    case (Cons t ts)
    show ?case
    proof (cases "is_op ''-'' t")
      case True
      with Cons.prems obtain a where a: "parse_unary self ts = Some (Inr (a, rest))" "e = X_unop U_neg a"
        by (auto simp: bind_parsed_ok ok_parse_ok)
      from Cons.IH [OF a(1)] show ?thesis using derives_derives_args.neg [OF True] a(2) by (metis append_Cons list.distinct(1))
    next
      case False
      with Cons.prems show ?thesis using soundD [OF assms, of "t # ts"] down by auto
    qed
  qed
  then show ?thesis by (simp add: sound_def)
qed

lemma not_sound:
  assumes "sound L_compare (parse_compare self)"
  shows "sound L_not (parse_not self)"
proof -
  have down: "derives L_compare ts e \<Longrightarrow> derives L_not ts e" for ts e
    using derives_derives_args.down [of L_not] by simp
  have "parse_not self ts = Some (Inr (e, rest)) \<Longrightarrow> \<exists>ts1. ts = ts1 @ rest \<and> ts1 \<noteq> [] \<and> derives L_not ts1 e"
    for ts e rest
  proof (induction ts arbitrary: e)
    case Nil
    then show ?case using soundD [OF assms] down by auto
  next
    case (Cons t ts)
    show ?case
    proof (cases "is_op ''NOT'' t")
      case True
      with Cons.prems obtain a where a: "parse_not self ts = Some (Inr (a, rest))" "e = X_unop U_not a"
        by (auto simp: bind_parsed_ok ok_parse_ok)
      from Cons.IH [OF a(1)] show ?thesis using derives_derives_args.not [OF True] a(2) by (metis append_Cons list.distinct(1))
    next
      case False
      with Cons.prems show ?thesis using soundD [OF assms, of "t # ts"] down by auto
    qed
  qed
  then show ?thesis by (simp add: sound_def)
qed

lemma compare_sound:
  assumes "sound L_concat (parse_concat self)"
  shows "sound L_compare (parse_compare self)"
  unfolding sound_def
proof (intro allI impI)
  fix ts e rest assume "parse_compare self ts = Some (Inr (e, rest))"
  then obtain a ts' where a: "parse_concat self ts = Some (Inr (a, ts'))"
    and k: "(case compare_op (peek ts') of None \<Rightarrow> ok_parse a ts'
       | Some op \<Rightarrow> bind_parsed (parse_concat self (tl ts')) (\<lambda>right. ok_parse (X_binop op a right))) = Some (Inr (e, rest))"
    by (auto simp: parse_compare_def bind_parsed_ok)
  obtain ts0 where ts0: "ts = ts0 @ ts'" "ts0 \<noteq> []" "derives L_concat ts0 a" using soundD [OF assms a] by blast
  show "\<exists>ts1. ts = ts1 @ rest \<and> ts1 \<noteq> [] \<and> derives L_compare ts1 e"
  proof (cases "compare_op (peek ts')")
    case None
    then show ?thesis using k ts0 derives_derives_args.down [of L_compare ts0 a] by (auto simp: ok_parse_ok)
  next
    case (Some op)
    then obtain t where t: "ts' = t # tl ts'" "compare_op t = Some op" using compare_op_peek by blast
    from k Some obtain b where b: "parse_concat self (tl ts') = Some (Inr (b, rest))" "e = X_binop op a b"
      by (auto simp: bind_parsed_ok ok_parse_ok)
    obtain ts2 where "tl ts' = ts2 @ rest" "derives L_concat ts2 b" using soundD [OF assms b(1)] by blast
    then show ?thesis using derives_derives_args.compare [OF ts0(3) t(2)] t(1) ts0(1) b(2)
      by (intro exI [of _ "ts0 @ t # ts2"]) simp
  qed
qed

lemma parse_level_sound:
  assumes "sound L_or self"
  shows "sound l (parse_level l self)"
proof -
  have u: "sound L_unary (parse_unary self)" by (rule unary_sound [OF primary_sound [OF assms]])
  have m: "sound L_mul (parse_mul self)" using level_sound [of L_mul self] u by (simp add: loops_iff)
  have a: "sound L_add (parse_add self)" using level_sound [of L_add self] m by (simp add: loops_iff)
  have c: "sound L_concat (parse_concat self)" using level_sound [of L_concat self] a by (simp add: loops_iff)
  have n: "sound L_not (parse_not self)" by (rule not_sound [OF compare_sound [OF c]])
  have d: "sound L_and (parse_and self)" using level_sound [of L_and self] n by (simp add: loops_iff)
  have o: "sound L_or (parse_or self)" using level_sound [of L_or self] d by (simp add: loops_iff)
  show ?thesis using u m a c n d o compare_sound [OF c] primary_sound [OF assms] by (cases l) simp_all
qed

lemma parse_expr_sound: "sound L_or (parse_expr n)"
proof (induction n)
  case 0
  then show ?case by (simp add: sound_def)
next
  case (Suc n)
  then show ?case using parse_level_sound [of "parse_expr n" L_or] by simp
qed

subsection \<open>Completeness\<close>

text \<open>The tokens that make a parser of the level read on after a complete operand.\<close>

fun ops_from :: "level \<Rightarrow> (token \<Rightarrow> sql_binop option) list" where
  "ops_from L_or = [or_op, and_op, compare_op, concat_op, add_op, mul_op]"
| "ops_from L_and = [and_op, compare_op, concat_op, add_op, mul_op]"
| "ops_from L_not = [compare_op, concat_op, add_op, mul_op]"
| "ops_from L_compare = [compare_op, concat_op, add_op, mul_op]"
| "ops_from L_concat = [concat_op, add_op, mul_op]"
| "ops_from L_add = [add_op, mul_op]"
| "ops_from L_mul = [mul_op]"
| "ops_from _ = []"

definition continues :: "level \<Rightarrow> token \<Rightarrow> bool" where
  "continues l t \<longleftrightarrow> (\<exists>f \<in> set (ops_from l). f t \<noteq> None)"

lemmas op_defs = or_op_def and_op_def compare_op_def concat_op_def add_op_def mul_op_def is_op_def

lemma continues_op: "continues l t \<Longrightarrow> tk_kind t = T_op"
  by (cases l) (auto simp: continues_def op_defs split: if_splits)

lemma level_op_not_below: "level_op l t = Some op \<Longrightarrow> \<not> continues (below l) t"
  by (cases l) (auto simp: continues_def op_defs split: if_splits)

lemma compare_op_not_concat: "compare_op t = Some op \<Longrightarrow> \<not> continues L_concat t"
  by (auto simp: continues_def op_defs split: if_splits)

lemma continues_level_op: "\<not> continues l t \<Longrightarrow> level_op l t = None"
  by (cases l) (auto simp: continues_def)

lemma continues_below: "\<not> continues l t \<Longrightarrow> \<not> continues (below l) t"
  by (cases l) (auto simp: continues_def)

lemma op_loop_stop: "\<not> continues l (peek rest) \<Longrightarrow> op_loop (level_op l) p e rest = ok_parse e rest"
  by (subst op_loop.simps) (simp add: continues_level_op)

lemma bind_ok_parse [simp]: "bind_parsed (ok_parse x ts) f = f x ts"
  by (simp add: bind_parsed_def ok_parse_def)

lemma peek_Cons [simp]: "peek (t # ts) = t"
  by (simp add: peek_def)

lemma derives_head:
  "derives l ts e \<Longrightarrow> ts \<noteq> [] \<and> tk_kind (hd ts) \<noteq> T_rparen \<and> (l \<notin> {L_or, L_and, L_not} \<longrightarrow> \<not> is_op ''NOT'' (hd ts)) \<and>
     (l = L_primary \<longrightarrow> \<not> is_op ''-'' (hd ts))"
  "derives_args ts args \<Longrightarrow> ts \<noteq> [] \<and> tk_kind (hd ts) \<noteq> T_rparen"
proof (induction l ts e and ts args rule: derives_derives_args.inducts)
  case (down l ts e)
  then show ?case by (cases l) auto
next
  case (left l ts1 a t op ts2 b)
  then have "hd (ts1 @ t # ts2) = hd ts1" by simp
  with left.IH show ?case by simp
next
  case (neg t ts e)
  then show ?case by (auto simp: is_op_def)
qed (auto simp: is_op_def is_function_name_def)

text \<open>A parser that reads every derivation of at most \<open>n\<close> tokens.\<close>

definition complete :: "nat \<Rightarrow> (token list \<Rightarrow> sql_expr parsed) \<Rightarrow> bool" where
  "complete n p \<longleftrightarrow> (\<forall>ts e rest. derives L_or ts e \<longrightarrow> length ts \<le> n \<longrightarrow> \<not> continues L_or (peek rest) \<longrightarrow>
     p (ts @ rest) = ok_parse e rest)"

lemma completeD:
  "complete n p \<Longrightarrow> derives L_or ts e \<Longrightarrow> length ts \<le> n \<Longrightarrow> \<not> continues L_or (peek rest) \<Longrightarrow>
   p (ts @ rest) = ok_parse e rest"
  unfolding complete_def by blast

text \<open>What is shown of a derivation: its parser reads it, and a loop level has read it when it
  comes to the operator after it.\<close>

definition reads :: "(token list \<Rightarrow> sql_expr parsed) \<Rightarrow> level \<Rightarrow> token list \<Rightarrow> sql_expr \<Rightarrow> bool" where
  "reads self l ts e \<longleftrightarrow>
     (\<forall>rest. \<not> continues l (peek rest) \<longrightarrow> parse_level l self (ts @ rest) = ok_parse e rest) \<and>
     (loops l \<longrightarrow> (\<forall>rest. \<not> continues (below l) (peek rest) \<longrightarrow>
        parse_level l self (ts @ rest) = op_loop (level_op l) (parse_level (below l) self) e rest))"

lemma readsI:
  assumes "\<And>rest. \<not> continues (below l) (peek rest) \<Longrightarrow>
        parse_level l self (ts @ rest) = op_loop (level_op l) (parse_level (below l) self) e rest"
  shows "reads self l ts e"
  unfolding reads_def using assms by (auto simp: op_loop_stop continues_below)

lemma reads_plain: "reads self l ts e \<Longrightarrow> \<not> continues l (peek rest) \<Longrightarrow> parse_level l self (ts @ rest) = ok_parse e rest"
  unfolding reads_def by blast

lemma reads_loop:
  "reads self l ts e \<Longrightarrow> loops l \<Longrightarrow> \<not> continues (below l) (peek rest) \<Longrightarrow>
   parse_level l self (ts @ rest) = op_loop (level_op l) (parse_level (below l) self) e rest"
  unfolding reads_def by blast

lemma reads_left:
  assumes "reads self l ts1 a" and op: "level_op l t = Some op" and "reads self (below l) ts2 b"
  shows "reads self l (ts1 @ t # ts2) (X_binop op a b)"
proof (rule readsI)
  fix rest assume r: "\<not> continues (below l) (peek rest)"
  have "parse_level l self (ts1 @ t # ts2 @ rest) =
      op_loop (level_op l) (parse_level (below l) self) a (t # ts2 @ rest)"
    using assms(1) level_op_loops [OF op] level_op_not_below [OF op] by (intro reads_loop) simp_all
  also have "\<dots> = op_loop (level_op l) (parse_level (below l) self) (X_binop op a b) rest"
    using reads_plain [OF assms(3) r] by (subst op_loop.simps) (simp add: op)
  finally show "parse_level l self ((ts1 @ t # ts2) @ rest) =
      op_loop (level_op l) (parse_level (below l) self) (X_binop op a b) rest" by simp
qed

lemma reads_down:
  assumes "reads self (below l) ts e" and "derives (below l) ts e" and "l \<noteq> L_primary"
  shows "reads self l ts e"
proof (cases "loops l")
  case True
  show ?thesis by (rule readsI) (simp add: parse_level_loop [OF True] reads_plain [OF assms(1)])
next
  case False
  obtain t ts' where ts: "ts = t # ts'" using derives_head(1) [OF assms(2)] by (cases ts) auto
  consider (n) "l = L_not" | (c) "l = L_compare" | (u) "l = L_unary"
    using False assms(3) by (cases l) (auto simp: loops_def)
  then show ?thesis
  proof cases
    case n
    with derives_head(1) [OF assms(2)] ts have "\<not> is_op ''NOT'' t" by simp
    with n assms(1) ts show ?thesis by (simp add: reads_def loops_def continues_def)
  next
    case c
    have "parse_compare self (ts @ rest) = ok_parse e rest" if "\<not> continues L_compare (peek rest)" for rest
    proof -
      from that have "\<not> continues L_concat (peek rest)" "compare_op (peek rest) = None" by (simp_all add: continues_def)
      then show ?thesis using reads_plain [OF assms(1), of rest] c by (simp add: parse_compare_def)
    qed
    with c show ?thesis by (simp add: reads_def loops_def)
  next
    case u
    with derives_head(1) [OF assms(2)] ts have "\<not> is_op ''-'' t" by simp
    with u assms(1) ts show ?thesis by (simp add: reads_def loops_def continues_def)
  qed
qed

lemma reads_compare:
  assumes "reads self L_concat ts1 a" and op: "compare_op t = Some op" and "reads self L_concat ts2 b"
  shows "reads self L_compare (ts1 @ t # ts2) (X_binop op a b)"
proof -
  have "parse_compare self (ts1 @ t # ts2 @ rest) = ok_parse (X_binop op a b) rest"
    if "\<not> continues L_compare (peek rest)" for rest
    using reads_plain [OF assms(1), of "t # ts2 @ rest"] reads_plain [OF assms(3), of rest] that
      compare_op_not_concat [OF op] continues_below [OF that] by (simp add: parse_compare_def op)
  then show ?thesis by (simp add: reads_def loops_def)
qed

lemma reads_primary: "(\<And>rest. parse_primary self (ts @ rest) = ok_parse e rest) \<Longrightarrow> reads self L_primary ts e"
  by (simp add: reads_def loops_def)

lemma expect_hit [simp]: "tk_kind t = k \<Longrightarrow> expect k (t # ts) = ok_parse () ts"
  by (simp add: expect_def)

lemma not_continues_kind: "tk_kind t \<noteq> T_op \<Longrightarrow> \<not> continues l t"
  using continues_op by blast

lemma reads_all:
  assumes self: "complete n self"
  shows "derives l ts e \<Longrightarrow> length ts \<le> Suc n \<Longrightarrow> reads self l ts e"
    "derives_args ts args \<Longrightarrow> length ts \<le> n \<Longrightarrow> tk_kind (peek rest) \<noteq> T_op \<Longrightarrow>
       bind_parsed (self (ts @ rest)) (\<lambda>a. args_loop self [a]) = args_loop self args rest"
proof (induction l ts e and ts args arbitrary: and rest rule: derives_derives_args.inducts)
  case (down l ts e)
  then show ?case by (blast intro: reads_down)
next
  case (left l ts1 a t op ts2 b)
  then show ?case by (intro reads_left) simp_all
next
  case (compare ts1 a t op ts2 b)
  then show ?case by (intro reads_compare) simp_all
next
  case (not t ts e)
  then show ?case by (simp add: reads_def loops_def)
next
  case (neg t ts e)
  then show ?case by (simp add: reads_def loops_def)
next
  case (num t)
  then show ?case by (intro reads_primary) (simp add: parse_primary_def)
next
  case (str t)
  then show ?case by (intro reads_primary) (simp add: parse_primary_def)
next
  case (field t)
  then show ?case by (intro reads_primary) (simp add: parse_primary_def)
next
  case (bool t)
  then show ?case by (intro reads_primary) (auto simp: parse_primary_def)
next
  case (null t)
  then show ?case by (intro reads_primary) (simp add: parse_primary_def)
next
  case (parens t ts e t')
  then have "self (ts @ t' # rest) = ok_parse e (t' # rest)" for rest
    by (intro completeD [OF self]) (simp_all add: not_continues_kind)
  with parens show ?case by (intro reads_primary) (simp add: parse_primary_def)
next
  case (call0 f t t')
  then show ?case by (intro reads_primary) (simp add: parse_primary_def is_function_name_def Let_def parse_args_def)
next
  case (call f t ts args t')
  have args: "parse_args self (ts @ t' # rest) = ok_parse args (t' # rest)" for rest
  proof -
    have "tk_kind (peek (ts @ t' # rest)) \<noteq> T_rparen"
      using derives_head(2) [OF call(3)] by (cases ts) simp_all
    moreover have "bind_parsed (self (ts @ t' # rest)) (\<lambda>a. args_loop self [a]) = args_loop self args (t' # rest)"
      using call by simp
    ultimately show ?thesis using call by (simp add: parse_args_def args_loop.simps)
  qed
  with call show ?case by (intro reads_primary) (simp add: parse_primary_def is_function_name_def Let_def)
next
  case (one ts e)
  then show ?case using completeD [OF self one(1)] by (simp add: not_continues_kind)
next
  case (more ts args t ts' e)
  have "self (ts' @ rest) = ok_parse e rest"
    using more by (intro completeD [OF self]) (simp_all add: not_continues_kind)
  then have "args_loop self args (t # ts' @ rest) = args_loop self (args @ [e]) rest"
    using more by (subst args_loop.simps) simp
  with more show ?case by simp
qed

lemma parse_expr_complete: "complete n (parse_expr (Suc n))"
proof (induction n)
  case 0
  have "\<not> length ts \<le> 0" if "derives L_or ts e" for ts e using derives_head(1) [OF that] by simp
  then show ?case unfolding complete_def by blast
next
  case (Suc n)
  show ?case unfolding complete_def
  proof (intro allI impI)
    fix ts e rest
    assume "derives L_or ts e" "length ts \<le> Suc n" "\<not> continues L_or (peek rest)"
    then show "parse_expr (Suc (Suc n)) (ts @ rest) = ok_parse e rest"
      using reads_plain [OF reads_all(1) [OF Suc, of L_or]] by simp
  qed
qed

subsection \<open>Totality\<close>

definition returns :: "'a parsed \<Rightarrow> bool" where
  "returns r \<longleftrightarrow> r \<noteq> None"

text \<open>A parser that never gives up on at most \<open>n\<close> tokens.\<close>

definition total_upto :: "nat \<Rightarrow> (token list \<Rightarrow> 'a parsed) \<Rightarrow> bool" where
  "total_upto n p \<longleftrightarrow> (\<forall>ts. length ts \<le> n \<longrightarrow> returns (p ts))"

lemma total_uptoD: "total_upto n p \<Longrightarrow> length ts \<le> n \<Longrightarrow> returns (p ts)"
  by (simp add: total_upto_def)

lemma returns_bind [intro]:
  "returns r \<Longrightarrow> (\<And>x ts. r = Some (Inr (x, ts)) \<Longrightarrow> returns (f x ts)) \<Longrightarrow> returns (bind_parsed r f)"
  by (auto simp: returns_def bind_parsed_def split: option.splits sum.splits)

lemma returns_simps [simp]:
  "returns (ok_parse x ts)" "returns (fail_parse m p)" "returns (expect k ts)" "\<not> returns None"
  by (simp_all add: returns_def ok_parse_def fail_parse_def expect_def Let_def)

lemma sound_shorter: "sound l p \<Longrightarrow> p ts = Some (Inr (e, rest)) \<Longrightarrow> length rest < length ts"
  using soundD by fastforce

text \<open>What a loop does after its operator: the next operand is shorter, so it goes round again.\<close>

lemma returns_again:
  assumes "sound l p" and "total_upto n p" and "length ts \<le> Suc n"
    and "\<And>x ts'. length ts' < length ts \<Longrightarrow> returns (f x ts')"
  shows "returns (bind_parsed (p (tl ts)) (\<lambda>x ts'. if length ts' < length ts then f x ts' else None))"
proof
  show "returns (p (tl ts))" using assms(2,3) by (simp add: total_upto_def)
next
  fix x ts' assume "p (tl ts) = Some (Inr (x, ts'))"
  from sound_shorter [OF assms(1) this] have "length ts' < length ts" by simp
  with assms(4) show "returns (if length ts' < length ts then f x ts' else None)" by simp
qed

lemma op_loop_total:
  assumes "sound l p" and "total_upto n p"
  shows "length ts \<le> Suc n \<Longrightarrow> returns (op_loop ops p left ts)"
proof (induction ts arbitrary: left rule: length_induct)
  case (1 ts)
  then show ?case
    by (subst op_loop.simps) (auto split: option.split intro!: returns_again [OF assms])
qed

lemma args_loop_total:
  assumes "sound L_or self" and "total_upto n self"
  shows "length ts \<le> Suc n \<Longrightarrow> returns (args_loop self as ts)"
proof (induction ts arbitrary: as rule: length_induct)
  case (1 ts)
  then show ?case
    by (subst args_loop.simps) (auto intro!: returns_again [OF assms])
qed

lemma parse_args_total:
  assumes "sound L_or self" and "total_upto n self" and "length ts \<le> n"
  shows "returns (parse_args self ts)"
proof -
  have "returns (bind_parsed (self ts) (\<lambda>a. args_loop self [a]))"
  proof
    show "returns (self ts)" using assms(2,3) by (rule total_uptoD)
  next
    fix a ts' assume "self ts = Some (Inr (a, ts'))"
    from sound_shorter [OF assms(1) this] show "returns (args_loop self [a] ts')"
      using args_loop_total [OF assms(1,2)] assms(3) by simp
  qed
  then show ?thesis by (simp add: parse_args_def)
qed

lemma primary_total:
  assumes "sound L_or self" and "total_upto n self"
  shows "total_upto (Suc n) (parse_primary self)"
  unfolding total_upto_def
proof (intro allI impI)
  fix ts :: "token list" assume l: "length ts \<le> Suc n"
  have "returns (self (tl ts))" using assms(2) l by (simp add: total_upto_def)
  moreover have "returns (parse_args self (tl (tl ts)))" using parse_args_total [OF assms, of "tl (tl ts)"] l by simp
  ultimately show "returns (parse_primary self ts)"
    unfolding parse_primary_def Let_def by (auto simp: expect_ok intro!: returns_bind)
qed

lemma unary_total: "total_upto n (parse_primary self) \<Longrightarrow> total_upto n (parse_unary self)"
proof -
  assume p: "total_upto n (parse_primary self)"
  have "length ts \<le> n \<Longrightarrow> returns (parse_unary self ts)" for ts
    using p by (induction ts) (auto simp: total_upto_def)
  then show ?thesis by (simp add: total_upto_def)
qed

lemma not_total: "total_upto n (parse_compare self) \<Longrightarrow> total_upto n (parse_not self)"
proof -
  assume p: "total_upto n (parse_compare self)"
  have "length ts \<le> n \<Longrightarrow> returns (parse_not self ts)" for ts
    using p by (induction ts) (auto simp: total_upto_def)
  then show ?thesis by (simp add: total_upto_def)
qed

lemma compare_total:
  assumes s: "sound L_concat (parse_concat self)" and t: "total_upto n (parse_concat self)"
  shows "total_upto n (parse_compare self)"
  unfolding total_upto_def parse_compare_def
proof (intro allI impI returns_bind)
  fix ts :: "token list" assume l: "length ts \<le> n"
  show "returns (parse_concat self ts)" using t l by (rule total_uptoD)
  fix a ts' assume "parse_concat self ts = Some (Inr (a, ts'))"
  from sound_shorter [OF s this] have "returns (parse_concat self (tl ts'))"
    using t l by (simp add: total_upto_def)
  then show "returns (case compare_op (peek ts') of None \<Rightarrow> ok_parse a ts'
      | Some op \<Rightarrow> bind_parsed (parse_concat self (tl ts')) (\<lambda>right. ok_parse (X_binop op a right)))"
    by (auto split: option.split)
qed

lemma level_total:
  assumes s: "sound (below l) (parse_level (below l) self)" and t: "total_upto n (parse_level (below l) self)"
    and l: "loops l"
  shows "total_upto n (parse_level l self)"
  unfolding total_upto_def parse_level_loop [OF l]
proof (intro allI impI returns_bind)
  fix ts :: "token list" assume len: "length ts \<le> n"
  show "returns (parse_level (below l) self ts)" using t len by (rule total_uptoD)
  fix a ts' assume "parse_level (below l) self ts = Some (Inr (a, ts'))"
  from sound_shorter [OF s this]
  show "returns (op_loop (level_op l) (parse_level (below l) self) a ts')"
    using op_loop_total [OF s t] len by simp
qed

lemma parse_or_total:
  assumes self: "sound L_or self" and "total_upto n self"
  shows "total_upto (Suc n) (parse_or self)"
proof -
  have u: "total_upto (Suc n) (parse_unary self)" by (rule unary_total [OF primary_total [OF assms]])
  note s = parse_level_sound [OF self]
  have m: "total_upto (Suc n) (parse_mul self)" using level_total [of L_mul self] s [of L_unary] u by (simp add: loops_iff)
  have a: "total_upto (Suc n) (parse_add self)" using level_total [of L_add self] s [of L_mul] m by (simp add: loops_iff)
  have c: "total_upto (Suc n) (parse_concat self)" using level_total [of L_concat self] s [of L_add] a by (simp add: loops_iff)
  have t: "total_upto (Suc n) (parse_not self)"
    using not_total [OF compare_total] s [of L_concat] c by simp
  have d: "total_upto (Suc n) (parse_and self)" using level_total [of L_and self] s [of L_not] t by (simp add: loops_iff)
  show ?thesis using level_total [of L_or self] s [of L_and] d by (simp add: loops_iff)
qed

lemma parse_expr_total: "total_upto n (parse_expr (Suc n))"
proof (induction n)
  case 0
  have "returns (parse_expr (Suc 0) [])"
    by (simp add: parse_or_def parse_and_def parse_compare_def parse_concat_def parse_add_def parse_mul_def
        parse_primary_def peek_def tok_def bind_parsed_def fail_parse_def fail_at_def returns_def)
  then show ?case by (simp add: total_upto_def)
next
  case (Suc n)
  from parse_or_total [OF parse_expr_sound this] show ?case by simp
qed

subsection \<open>What the tokenizer yields\<close>

definition field_ok :: "token \<Rightarrow> bool" where
  "field_ok t \<longleftrightarrow> (tk_kind t = T_field \<longrightarrow> is_sql_safe_field_name (str_value (tk_value t)))"

definition num_ok :: "token \<Rightarrow> bool" where
  "num_ok t \<longleftrightarrow> (tk_kind t = T_num \<longrightarrow> is_finite (num_value (tk_value t)))"

text \<open>Tokens of a text from position \<open>i\<close> on, which ends at \<open>n\<close>: the end marker comes last and only
  last, positions are inside the text, fields are safe and numbers finite.\<close>

definition tokens_ok :: "nat \<Rightarrow> token list \<Rightarrow> bool" where
  "tokens_ok n ts \<longleftrightarrow> (\<exists>body p. ts = body @ [tok T_eof [] V_none p] \<and> p \<le> n \<and>
     (\<forall>t \<in> set body. tk_kind t \<noteq> T_eof \<and> tk_pos t \<le> n \<and> field_ok t \<and> num_ok t))"

definition scan_ok :: "nat \<Rightarrow> expression_error + token list \<Rightarrow> bool" where
  "scan_ok n r \<longleftrightarrow> (case r of Inl e \<Rightarrow> xe_pos e \<le> n | Inr ts \<Rightarrow> tokens_ok n ts)"

lemma scan_ok_add:
  "scan_ok n r \<Longrightarrow> tk_kind t \<noteq> T_eof \<Longrightarrow> tk_pos t \<le> n \<Longrightarrow> field_ok t \<Longrightarrow> num_ok t \<Longrightarrow> scan_ok n (add_token t r)"
proof (cases r)
  case (Inr ts)
  assume "scan_ok n r" and t: "tk_kind t \<noteq> T_eof" "tk_pos t \<le> n" "field_ok t" "num_ok t"
  with Inr obtain body p where b: "ts = body @ [tok T_eof [] V_none p]" "p \<le> n"
     "\<forall>t \<in> set body. tk_kind t \<noteq> T_eof \<and> tk_pos t \<le> n \<and> field_ok t \<and> num_ok t"
    by (auto simp: scan_ok_def tokens_ok_def)
  then have "tokens_ok n (t # ts)" unfolding tokens_ok_def using t by (intro exI [of _ "t # body"] exI [of _ p]) simp
  with Inr show ?thesis by (simp add: scan_ok_def)
qed (simp add: scan_ok_def)

lemma scan_ok_fail [simp]: "scan_ok n (fail_at m p) \<longleftrightarrow> p \<le> n"
  by (simp add: scan_ok_def fail_at_def)

lemma tok_simps [simp]:
  "tk_kind (tok k t v p) = k" "tk_text (tok k t v p) = t" "tk_value (tok k t v p) = v" "tk_pos (tok k t v p) = p"
  by (simp_all add: tok_def)

lemma tok_ok [simp]:
  "k \<noteq> T_field \<Longrightarrow> field_ok (tok k t v p)" "k \<noteq> T_num \<Longrightarrow> num_ok (tok k t v p)"
  "field_ok (tok T_field t (V_str s) p) = is_sql_safe_field_name s"
  "num_ok (tok T_num t (V_num x) p) = is_finite x"
  by (simp_all add: field_ok_def num_ok_def str_value_def num_value_def)

lemma ident_token_ok:
  "tk_kind (ident_token t p) \<in> {T_op, T_ident}" "tk_pos (ident_token t p) = p"
  by (auto simp: ident_token_def Let_def)

lemma scan_ok_if: "(b \<Longrightarrow> scan_ok n x) \<Longrightarrow> (\<not> b \<Longrightarrow> scan_ok n y) \<Longrightarrow> scan_ok n (if b then x else y)"
  by simp

lemma length_take_drop: "length (takeWhile P s) + length (dropWhile P s) = length s"
  by (induction s) auto

lemma compound_two: "op \<in> set compound_ops \<Longrightarrow> length op = 2"
  by (auto simp: compound_ops_def)

lemma tokenize_at_ok: "i + length s \<le> n \<Longrightarrow> scan_ok n (tokenize_at i s)"
proof (induction i s rule: tokenize_at.induct)
  case (1 i)
  then show ?case by (auto simp: scan_ok_def tokens_ok_def)
next
  case (2 i c cs)
  note IH = "2.IH"
  have len: "i + 1 + length cs \<le> n" using "2.prems" by simp
  have num: "i + length (takeWhile P (c # cs)) + length (dropWhile P (c # cs)) \<le> n" for P
    using len length_take_drop [of P "c # cs"] by simp
  have i: "i \<le> n" using len by simp
  show ?case unfolding tokenize_at.simps(2) Let_def
  proof (intro scan_ok_if, goal_cases)
    case 1
    then show ?case using IH(1) len by simp
  next
    case 2
    then show ?case using IH(2) len by (auto intro!: scan_ok_add)
  next
    case 3
    then show ?case using IH(3) len by (auto intro!: scan_ok_add)
  next
    case 4
    then show ?case using IH(4) len by (auto intro!: scan_ok_add)
  next
    case 5
    show ?case
    proof (cases "scan_field (tl cs)")
      case None
      then show ?thesis using i by simp
    next
      case (Some p)
      obtain raw rest where p: "p = (raw, rest)" by (cases p)
      have l: "i + length raw + 4 + length rest \<le> n"
        using scan_field_length [of "tl cs" raw rest] Some p len 5 by (cases cs) auto
      show ?thesis using IH(5) 5 Some p l i by (auto intro!: scan_ok_add)
    qed
  next
    case 6
    show ?case
    proof (cases "scan_string cs")
      case None
      then show ?thesis using i by simp
    next
      case (Some p)
      obtain v t rest where p: "p = (v, t, rest)" by (cases p)
      have "i + 1 + length t + length rest \<le> n"
        using scan_string_length [of cs v t rest] Some p len by simp
      then show ?thesis using IH(6) 6 Some p i by (auto intro!: scan_ok_add)
    qed
  next
    case 7
    then show ?case using i by simp
  next
    case 8
    then show ?case using IH(7) [OF 8(1,2,3,4,5,6,7) refl refl 8(8)] num i by (intro scan_ok_add) simp_all
  next
    case 9
    have "length (take 2 (c # cs)) = 2" by (rule compound_two) (rule 9)
    then have "cs \<noteq> []" by (cases cs) simp_all
    then have "i + 2 + length (tl cs) \<le> n" using len by (cases cs) simp_all
    then have "scan_ok n (tokenize_at (i + 2) (tl cs))" by (intro IH(8) 9)
    then show ?case using i by (intro scan_ok_add) simp_all
  next
    case 10
    have "scan_ok n (tokenize_at (i + 1) cs)" by (intro IH(9) 10 len)
    then show ?case using i by (intro scan_ok_add) simp_all
  next
    case 11
    have "scan_ok n (tokenize_at (i + 1) cs)" by (intro IH(10) 11 len)
    then show ?case using i by (intro scan_ok_add) simp_all
  next
    case 12
    let ?t = "ident_token (takeWhile safe_char (c # cs)) i"
    have "scan_ok n (tokenize_at (i + length (takeWhile safe_char (c # cs))) (dropWhile safe_char (c # cs)))"
      by (intro IH(11) 12 refl num)
    moreover have "tk_kind ?t \<in> {T_op, T_ident}" "tk_pos ?t = i" by (rule ident_token_ok)+
    then have "tk_kind ?t \<noteq> T_eof" "tk_pos ?t \<le> n" "field_ok ?t" "num_ok ?t"
      using i by (auto simp only: field_ok_def num_ok_def)
    ultimately show ?case by (rule scan_ok_add)
  next
    case 13
    then show ?case using i by simp
  qed
qed

subsection \<open>Where errors point\<close>

definition tokens_upto :: "nat \<Rightarrow> token list \<Rightarrow> bool" where
  "tokens_upto n ts \<longleftrightarrow> (\<forall>t \<in> set ts. tk_pos t \<le> n)"

definition pos_ok :: "nat \<Rightarrow> 'a parsed \<Rightarrow> bool" where
  "pos_ok n r \<longleftrightarrow>
     (case r of None \<Rightarrow> True | Some (Inl e) \<Rightarrow> xe_pos e \<le> n | Some (Inr (x, ts)) \<Rightarrow> tokens_upto n ts)"

definition keeps_pos :: "nat \<Rightarrow> (token list \<Rightarrow> 'a parsed) \<Rightarrow> bool" where
  "keeps_pos n p \<longleftrightarrow> (\<forall>ts. tokens_upto n ts \<longrightarrow> pos_ok n (p ts))"

lemma keeps_posD: "keeps_pos n p \<Longrightarrow> tokens_upto n ts \<Longrightarrow> pos_ok n (p ts)"
  by (simp add: keeps_pos_def)

lemma pos_ok_bind_result:
  assumes r: "pos_ok n r" and f: "\<And>x ts. tokens_upto n ts \<Longrightarrow> pos_ok n (f x ts)"
  shows "pos_ok n (bind_parsed r f)"
proof (cases r)
  case (Some s)
  show ?thesis
  proof (cases s)
    case (Inl e)
    with r Some show ?thesis by (simp add: pos_ok_def bind_parsed_def)
  next
    case (Inr b)
    with r Some f [of "snd b" "fst b"] show ?thesis by (cases b) (simp add: pos_ok_def bind_parsed_def)
  qed
qed (simp add: pos_ok_def bind_parsed_def)

lemma pos_ok_bind:
  "keeps_pos n p \<Longrightarrow> tokens_upto n ts \<Longrightarrow> (\<And>x ts. tokens_upto n ts \<Longrightarrow> pos_ok n (f x ts)) \<Longrightarrow>
   pos_ok n (bind_parsed (p ts) f)"
  by (rule pos_ok_bind_result [OF keeps_posD])

lemma tokens_upto_tl: "tokens_upto n ts \<Longrightarrow> tokens_upto n (tl ts)"
  by (cases ts) (auto simp: tokens_upto_def)

lemma peek_pos: "tokens_upto n ts \<Longrightarrow> tk_pos (peek ts) \<le> n"
  by (cases ts) (simp_all add: peek_def tokens_upto_def)

lemma pos_ok_simps [simp]:
  "pos_ok n (ok_parse x ts) \<longleftrightarrow> tokens_upto n ts" "pos_ok n (fail_parse m p) \<longleftrightarrow> p \<le> n" "pos_ok n None"
  by (simp_all add: pos_ok_def ok_parse_def fail_parse_def fail_at_def)

lemma keeps_pos_expect: "keeps_pos n (expect k)"
  by (simp add: keeps_pos_def expect_def Let_def peek_pos tokens_upto_tl)

lemmas pos_intros = pos_ok_bind keeps_pos_expect tokens_upto_tl peek_pos

lemma pos_ok_op_loop: "keeps_pos n p \<Longrightarrow> tokens_upto n ts \<Longrightarrow> pos_ok n (op_loop ops p left ts)"
proof (induction ts arbitrary: left rule: length_induct)
  case (1 ts)
  then show ?case by (subst op_loop.simps) (auto split: option.split intro!: pos_intros)
qed

lemma pos_ok_args_loop: "keeps_pos n self \<Longrightarrow> tokens_upto n ts \<Longrightarrow> pos_ok n (args_loop self as ts)"
proof (induction ts arbitrary: as rule: length_induct)
  case (1 ts)
  then show ?case by (subst args_loop.simps) (auto intro!: pos_intros)
qed

lemma keeps_pos_args: "keeps_pos n self \<Longrightarrow> keeps_pos n (parse_args self)"
  unfolding keeps_pos_def [of n "parse_args self"] parse_args_def
  by (auto intro!: pos_intros pos_ok_args_loop)

lemma keeps_pos_loop: "keeps_pos n p \<Longrightarrow> keeps_pos n (\<lambda>ts. bind_parsed (p ts) (op_loop ops p))"
  by (auto simp: keeps_pos_def intro!: pos_ok_bind pos_ok_op_loop)

lemma keeps_pos_primary: "keeps_pos n self \<Longrightarrow> keeps_pos n (parse_primary self)"
  unfolding keeps_pos_def [of n "parse_primary self"] parse_primary_def Let_def
  by (auto intro!: pos_intros keeps_pos_args)

lemma keeps_pos_or:
  assumes self: "keeps_pos n self"
  shows "keeps_pos n (parse_or self)"
proof -
  note p = keeps_pos_primary [OF self]
  have "pos_ok n (parse_unary self ts)" if "tokens_upto n ts" for ts
    using that by (induction ts) (auto simp: tokens_upto_def intro!: pos_ok_bind_result keeps_posD [OF p])
  then have u: "keeps_pos n (parse_unary self)" by (simp add: keeps_pos_def)
  have m: "keeps_pos n (parse_mul self)" using keeps_pos_loop [OF u] by (simp add: parse_mul_def [abs_def])
  have a: "keeps_pos n (parse_add self)" using keeps_pos_loop [OF m] by (simp add: parse_add_def [abs_def])
  have c: "keeps_pos n (parse_concat self)" using keeps_pos_loop [OF a] by (simp add: parse_concat_def [abs_def])
  have k: "keeps_pos n (parse_compare self)"
    using c unfolding keeps_pos_def [of n "parse_compare self"] parse_compare_def
    by (auto split: option.split intro!: pos_intros)
  have "pos_ok n (parse_not self ts)" if "tokens_upto n ts" for ts
    using that by (induction ts) (auto simp: tokens_upto_def intro!: pos_ok_bind_result keeps_posD [OF k])
  then have t: "keeps_pos n (parse_not self)" by (simp add: keeps_pos_def)
  have d: "keeps_pos n (parse_and self)" using keeps_pos_loop [OF t] by (simp add: parse_and_def [abs_def])
  show ?thesis using keeps_pos_loop [OF d] by (simp add: parse_or_def [abs_def])
qed

lemma keeps_pos_expr: "keeps_pos n (parse_expr k)"
  by (induction k) (auto simp: keeps_pos_or keeps_pos_def [of n "\<lambda>ts. None"])

subsection \<open>Properties\<close>

lemma tokenize_ok:
  assumes "tokenize src = Inr ts"
  obtains body p where "ts = body @ [tok T_eof [] V_none p]" "tokens_upto (length src) ts"
    "\<And>t. t \<in> set body \<Longrightarrow> tk_kind t \<noteq> T_eof \<and> field_ok t \<and> num_ok t"
  using tokenize_at_ok [of 0 src "length src"] assms that
  by (fastforce simp: tokenize_def scan_ok_def tokens_ok_def tokens_upto_def)

lemma derives_no_eof:
  "derives l ts e \<Longrightarrow> t \<in> set ts \<Longrightarrow> tk_kind t \<noteq> T_eof"
  "derives_args ts args \<Longrightarrow> t \<in> set ts \<Longrightarrow> tk_kind t \<noteq> T_eof"
proof (induction l ts e and ts args rule: derives_derives_args.inducts)
  case (left l ts1 a t' op ts2 b)
  moreover have "tk_kind t' = T_op" using left(2) by (cases l) (auto simp: op_defs split: if_splits)
  ultimately show ?case by auto
next
  case (compare ts1 a t' op ts2 b)
  moreover have "tk_kind t' = T_op" using compare(2) by (auto simp: op_defs split: if_splits)
  ultimately show ?case by auto
qed (auto simp: is_op_def is_function_name_def)

lemma consumed_all:
  assumes e: "body @ [tok T_eof [] V_none p] = ts1 @ rest" and k: "tk_kind (peek rest) = T_eof"
    and b: "\<And>t. t \<in> set body \<Longrightarrow> tk_kind t \<noteq> T_eof" and t1: "\<And>t. t \<in> set ts1 \<Longrightarrow> tk_kind t \<noteq> T_eof"
  shows "ts1 = body"
proof (cases rest rule: rev_cases)
  case Nil
  then have "tok T_eof [] V_none p \<in> set ts1" using e by (metis append_Nil2 in_set_conv_decomp)
  then show ?thesis using t1 by fastforce
next
  case (snoc rest' t)
  then have eq: "body = ts1 @ rest'" using e by simp
  have "rest' = []"
  proof (cases rest')
    case (Cons t' r)
    then have "tk_kind t' = T_eof" "t' \<in> set body" using k snoc eq by simp_all
    then show ?thesis using b by blast
  qed
  with eq show ?thesis by simp
qed

lemma parse_expression_returns: "\<exists>r. parse_expression src = Some r"
proof (cases "tokenize src")
  case (Inr tokens)
  have "returns (parse_expr (Suc (length tokens)) tokens)" by (rule total_uptoD [OF parse_expr_total]) simp
  with Inr show ?thesis
    by (auto simp: returns_def parse_expression_def Let_def split: sum.split prod.split)
qed (simp add: parse_expression_def)

lemma parse_expression_accepts:
  "parse_expression src = Some (Inr e) \<longleftrightarrow>
      (\<exists>ts p. tokenize src = Inr (ts @ [tok T_eof [] V_none p]) \<and> derives L_or ts e)"
proof (cases "tokenize src")
  case (Inl err)
  then show ?thesis by (simp add: parse_expression_def)
next
  case (Inr tokens)
  obtain body p where b: "tokens = body @ [tok T_eof [] V_none p]"
    "\<And>t. t \<in> set body \<Longrightarrow> tk_kind t \<noteq> T_eof \<and> field_ok t \<and> num_ok t"
    using tokenize_ok [OF Inr] by metis
  let ?r = "parse_expr (Suc (length tokens)) tokens"
  have "parse_expression src = Some (Inr e) \<longleftrightarrow> derives L_or body e"
  proof
    assume "parse_expression src = Some (Inr e)"
    then obtain rest where rest: "?r = Some (Inr (e, rest))" "tk_kind (peek rest) = T_eof"
      using Inr by (auto simp: parse_expression_def Let_def fail_at_def split: option.splits sum.splits if_splits)
    obtain ts1 where ts1: "tokens = ts1 @ rest" "derives L_or ts1 e"
      using soundD [OF parse_expr_sound rest(1)] by blast
    then have "ts1 = body" using consumed_all b rest(2) derives_no_eof(1) by metis
    with ts1(2) show "derives L_or body e" by simp
  next
    assume d: "derives L_or body e"
    have "?r = ok_parse e [tok T_eof [] V_none p]"
      unfolding b(1) by (rule completeD [OF parse_expr_complete d]) (simp_all add: b(1) not_continues_kind)
    then show "parse_expression src = Some (Inr e)" using Inr by (simp add: parse_expression_def ok_parse_def Let_def)
  qed
  moreover have "(\<exists>ts q. tokenize src = Inr (ts @ [tok T_eof [] V_none q]) \<and> derives L_or ts e) \<longleftrightarrow> derives L_or body e"
    using Inr b(1) by auto
  ultimately show ?thesis by simp
qed

text \<open>C34: parsing an expression always ends with a tree or an error, and it accepts exactly the texts
  whose tokens the grammar derives, with the tree the grammar gives: the precedence of the nine
  levels, the associativity of the operators and the single comparison all as documented.\<close>

theorem parse_expression_grammar:
  "(\<exists>r. parse_expression src = Some r) \<and>
   (\<forall>e. parse_expression src = Some (Inr e) \<longleftrightarrow>
      (\<exists>ts p. tokenize src = Inr (ts @ [tok T_eof [] V_none p]) \<and> derives L_or ts e))"
  using parse_expression_returns parse_expression_accepts by blast

text \<open>What the rest of the module may rely on in a tree.\<close>

fun tree_ok :: "sql_expr \<Rightarrow> bool" where
  "tree_ok (X_num n) = is_finite n"
| "tree_ok (X_field name) = is_sql_safe_field_name name"
| "tree_ok (X_unop _ e) = tree_ok e"
| "tree_ok (X_binop _ l r) = (tree_ok l \<and> tree_ok r)"
| "tree_ok (X_func name args) = (name \<in> set FUNCTIONS \<and> (\<forall>a \<in> set args. tree_ok a))"
| "tree_ok _ = True"

lemma derives_tree_ok:
  "derives l ts e \<Longrightarrow> \<forall>t \<in> set ts. field_ok t \<and> num_ok t \<Longrightarrow> tree_ok e"
  "derives_args ts args \<Longrightarrow> \<forall>t \<in> set ts. field_ok t \<and> num_ok t \<Longrightarrow> \<forall>a \<in> set args. tree_ok a"
  by (induction l ts e and ts args rule: derives_derives_args.inducts)
    (auto simp: field_ok_def num_ok_def is_function_name_def)

lemma parse_tree_ok: "parse_expression src = Some (Inr e) \<Longrightarrow> tree_ok e"
proof -
  assume "parse_expression src = Some (Inr e)"
  then obtain ts p
    where t: "tokenize src = Inr (ts @ [tok T_eof [] V_none p])" "derives L_or ts e"
    using parse_expression_accepts by blast
  have "\<forall>t \<in> set ts. field_ok t \<and> num_ok t" using tokenize_ok [OF t(1)] by (metis append1_eq_conv)
  with t(2) show ?thesis by (rule derives_tree_ok)
qed

text \<open>Whatever text is parsed, the tree names only fields the allowlist admits, calls only the
  built-in functions and holds only finite numbers, so nothing else can reach the SQL emitter.\<close>

theorem parsed_tree_ok:
  assumes "parse_expression src = Some (Inr e)"
  shows "tree_ok e"
  using assms by (rule parse_tree_ok)

lemma parsed_tree_ok_witness: "tree_ok (X_binop O_gt (X_field ''a'') (X_num (Fin 1)))"
  by (rule parsed_tree_ok [of "''{{a}} > 1''"]) code_simp

text \<open>An error always points into the text that was parsed (or just past its end), where the
  caller draws its caret.\<close>

theorem parse_error_position:
  assumes "parse_expression src = Some (Inl err)"
  shows "xe_pos err \<le> length src"
proof (cases "tokenize src")
  case (Inl e)
  with assms tokenize_at_ok [of 0 src "length src"] show ?thesis
    by (simp add: parse_expression_def tokenize_def scan_ok_def)
next
  case (Inr tokens)
  have "tokens_upto (length src) tokens" using tokenize_ok [OF Inr] by metis
  then have "pos_ok (length src) (parse_expr (Suc (length tokens)) tokens)" by (rule keeps_posD [OF keeps_pos_expr])
  with assms Inr show ?thesis
    by (auto simp: parse_expression_def pos_ok_def fail_at_def Let_def peek_pos split: option.splits sum.splits if_splits)
qed

lemma parse_error_position_witness: "xe_pos \<lparr> xe_message = ''Unexpected end of expression'', xe_pos = 3 \<rparr> \<le> length ''1 +''"
  by (rule parse_error_position) code_simp

end
