(* ===== verification/SqlEmit.thy ===== *)
theory SqlEmit
  imports SqlParse
begin

text \<open>
  The SQL emitter \<open>compileExpression\<close> and \<open>collectFieldRefs\<close> of
  \<open>packages/shared-types/src/expression.ts\<close>. \<open>emit\<close> threads the array of parameters, in the order
  the code pushes them; a missing argument is the text \<open>undefined\<close> a template prints for it.

  The lemmas show what text can reach the statement: a string literal leaves only its
  placeholder there.
\<close>

subsection \<open>Emitting\<close>

definition arg_sql :: "nat \<Rightarrow> string list \<Rightarrow> string" where
  "arg_sql i args = (if i < length args then args ! i else ''undefined'')"

definition sql_op :: "sql_binop \<Rightarrow> string" where
  "sql_op op =
     (case op of O_and \<Rightarrow> ''AND'' | O_or \<Rightarrow> ''OR'' | O_eq \<Rightarrow> ''='' | O_ne \<Rightarrow> ''<>''
      | O_lt \<Rightarrow> ''<'' | O_le \<Rightarrow> ''<='' | O_gt \<Rightarrow> ''>'' | O_ge \<Rightarrow> ''>='' | O_cat \<Rightarrow> ''||''
      | O_add \<Rightarrow> ''+'' | O_sub \<Rightarrow> ''-'' | O_mul \<Rightarrow> ''*'' | O_div \<Rightarrow> ''/'' | O_mod \<Rightarrow> ''%'')"

definition call_sql :: "string \<Rightarrow> string \<Rightarrow> string" where
  "call_sql f a = f @ ''('' @ a @ '')''"

definition case_sql :: "string \<Rightarrow> string \<Rightarrow> string \<Rightarrow> string" where
  "case_sql c t e = ''CASE WHEN '' @ c @ '' THEN '' @ t @ '' ELSE '' @ e @ '' END''"

definition func_sql :: "string \<Rightarrow> string list \<Rightarrow> string" where
  "func_sql name args =
     (if name = ''upper'' then call_sql ''UPPER'' (arg_sql 0 args)
      else if name = ''lower'' then call_sql ''LOWER'' (arg_sql 0 args)
      else if name = ''length'' then call_sql ''LENGTH'' (arg_sql 0 args)
      else if name = ''concat'' then
        (if args = [] then [CHR 0x27, CHR 0x27] else call_sql [] (join '' || '' args))
      else if name = ''coalesce'' then call_sql ''COALESCE'' (join '', '' args)
      else if name = ''abs'' then call_sql ''ABS'' (arg_sql 0 args)
      else if name = ''round'' then call_sql ''ROUND'' (arg_sql 0 args)
      else if name = ''floor'' then call_sql ''FLOOR'' (arg_sql 0 args)
      else if name = ''ceil'' then call_sql ''CEIL'' (arg_sql 0 args)
      else if name = ''if'' then
        call_sql [] (case_sql (arg_sql 0 args) (arg_sql 1 args) (arg_sql 2 args))
      else ''NULL'')"


fun emit :: "(string \<Rightarrow> string) \<Rightarrow> nat \<Rightarrow> sql_expr \<Rightarrow> string list \<Rightarrow> string \<times> string list"
  and emit_all :: "(string \<Rightarrow> string) \<Rightarrow> nat \<Rightarrow> sql_expr list \<Rightarrow> string list \<Rightarrow> string list \<times> string list" where
  "emit col off (X_num n) ps = (num_to_string n, ps)"
| "emit col off (X_str s) ps = (''$'' @ nat_digits (off + length (ps @ [s])), ps @ [s])"
| "emit col off (X_bool b) ps = (if b then ''TRUE'' else ''FALSE'', ps)"
| "emit col off X_null ps = (''NULL'', ps)"
| "emit col off (X_field name) ps = (col name, ps)"
| "emit col off (X_unop op e) ps =
     (case emit col off e ps of (a, ps1) \<Rightarrow>
        (call_sql [] ((case op of U_neg \<Rightarrow> ''-'' | U_not \<Rightarrow> ''NOT '') @ a), ps1))"
| "emit col off (X_binop op l r) ps =
     (case emit col off l ps of (a, ps1) \<Rightarrow>
      case emit col off r ps1 of (b, ps2) \<Rightarrow>
        (call_sql [] (a @ '' '' @ sql_op op @ '' '' @ b), ps2))"
| "emit col off (X_func name args) ps =
     (case emit_all col off args ps of (as, ps1) \<Rightarrow> (func_sql name as, ps1))"
| "emit_all col off [] ps = ([], ps)"
| "emit_all col off (e # es) ps =
     (case emit col off e ps of (a, ps1) \<Rightarrow>
      case emit_all col off es ps1 of (as, ps2) \<Rightarrow> (a # as, ps2))"

record compile_result =
  cr_sql :: string
  cr_params :: "string list"

definition compile_expression :: "sql_expr \<Rightarrow> (string \<Rightarrow> string) \<Rightarrow> nat \<Rightarrow> compile_result" where
  "compile_expression e columnSql paramOffset =
     (case emit columnSql paramOffset e [] of (sql, params) \<Rightarrow> \<lparr> cr_sql = sql, cr_params = params \<rparr>)"

subsection \<open>Field references\<close>

definition set_add :: "'a \<Rightarrow> 'a list \<Rightarrow> 'a list" where
  "set_add x out = (if x \<in> set out then out else out @ [x])"

fun visit_refs :: "sql_expr \<Rightarrow> string list \<Rightarrow> string list" where
  "visit_refs (X_field name) out = set_add name out"
| "visit_refs (X_unop _ e) out = visit_refs e out"
| "visit_refs (X_binop _ l r) out = visit_refs r (visit_refs l out)"
| "visit_refs (X_func _ args) out = fold visit_refs args out"
| "visit_refs _ out = out"

definition collect_field_refs :: "sql_expr \<Rightarrow> string list" where
  "collect_field_refs e = visit_refs e []"

subsection \<open>Lemmas: field references\<close>

fun field_refs :: "sql_expr \<Rightarrow> string set" where
  "field_refs (X_field name) = {name}"
| "field_refs (X_unop _ e) = field_refs e"
| "field_refs (X_binop _ l r) = field_refs l \<union> field_refs r"
| "field_refs (X_func _ args) = (\<Union>a \<in> set args. field_refs a)"
| "field_refs _ = {}"

lemma set_set_add [simp]: "set (set_add x out) = insert x (set out)"
  by (auto simp: set_add_def)

lemma distinct_set_add: "distinct out \<Longrightarrow> distinct (set_add x out)"
  by (simp add: set_add_def)

lemma set_fold_visit:
  "(\<And>a out. a \<in> set args \<Longrightarrow> set (visit_refs a out) = set out \<union> field_refs a) \<Longrightarrow>
   set (fold visit_refs args out) = set out \<union> (\<Union>a \<in> set args. field_refs a)"
  by (induction args arbitrary: out) auto

lemma set_visit_refs: "set (visit_refs e out) = set out \<union> field_refs e"
proof (induction e arbitrary: out)
  case (X_func name args)
  then show ?case by (simp add: set_fold_visit)
qed auto

lemma distinct_fold:
  "(\<And>a out. a \<in> set args \<Longrightarrow> distinct out \<Longrightarrow> distinct (f a out)) \<Longrightarrow> distinct out \<Longrightarrow> distinct (fold f args out)"
  by (induction args arbitrary: out) auto

lemma distinct_visit_refs: "distinct out \<Longrightarrow> distinct (visit_refs e out)"
proof (induction e arbitrary: out)
  case (X_func name args)
  then show ?case by (simp add: distinct_fold)
qed (auto simp: distinct_set_add)

lemma collect_field_refs_set: "set (collect_field_refs e) = field_refs e \<and> distinct (collect_field_refs e)"
  by (simp add: collect_field_refs_def set_visit_refs distinct_visit_refs)

subsection \<open>Lemmas: what reaches the statement\<close>

text \<open>Replacing the string literals of an expression.\<close>

fun map_literals :: "(string \<Rightarrow> string) \<Rightarrow> sql_expr \<Rightarrow> sql_expr" where
  "map_literals f (X_str s) = X_str (f s)"
| "map_literals f (X_unop op e) = X_unop op (map_literals f e)"
| "map_literals f (X_binop op l r) = X_binop op (map_literals f l) (map_literals f r)"
| "map_literals f (X_func name args) = X_func name (map (map_literals f) args)"
| "map_literals f e = e"

text \<open>The literals in the order the parameters are pushed.\<close>

fun literals :: "sql_expr \<Rightarrow> string list" where
  "literals (X_str s) = [s]"
| "literals (X_unop _ e) = literals e"
| "literals (X_binop _ l r) = literals l @ literals r"
| "literals (X_func _ args) = concat (map literals args)"
| "literals _ = []"

lemma emit_literals:
  "emit col off (map_literals f e) (map f ps) = (fst (emit col off e ps), map f (snd (emit col off e ps)))"
  "emit_all col off (map (map_literals f) es) (map f ps) = (fst (emit_all col off es ps), map f (snd (emit_all col off es ps)))"
  by (induction col off e ps and col off es ps rule: emit_emit_all.induct) (auto split: prod.splits)

lemma emit_params:
  "snd (emit col off e ps) = ps @ literals e"
  "snd (emit_all col off es ps) = ps @ concat (map literals es)"
  by (induction col off e ps and col off es ps rule: emit_emit_all.induct) (auto split: prod.splits)

text \<open>The statement depends on the columns of the fields that are referred to, and no others.\<close>

lemma emit_columns:
  "(\<And>name. name \<in> field_refs e \<Longrightarrow> col name = col' name) \<Longrightarrow> emit col off e ps = emit col' off e ps"
  "(\<And>name. name \<in> (\<Union>e \<in> set es. field_refs e) \<Longrightarrow> col name = col' name) \<Longrightarrow> emit_all col off es ps = emit_all col' off es ps"
  by (induction col off e ps and col off es ps rule: emit_emit_all.induct) (auto split: prod.splits)

subsection \<open>Placeholders\<close>

text \<open>The numbers of the placeholders \<open>$N\<close> of a statement, in order. A single dollar is not one.\<close>

function placeholders :: "string \<Rightarrow> nat list" where
  "placeholders [] = []"
| "placeholders (c # cs) =
     (let ds = takeWhile is_digit_char cs
      in if c = CHR ''$'' \<and> ds \<noteq> [] then dec_val 0 ds # placeholders (dropWhile is_digit_char cs)
         else placeholders cs)"
  by pat_completeness auto
termination by (relation "measure length") (auto simp: le_imp_less_Suc length_dropWhile_le)

declare placeholders.simps(2) [simp del]

text \<open>Text that can follow a placeholder without changing it, and text a placeholder can follow.\<close>

definition not_digit_first :: "string \<Rightarrow> bool" where
  "not_digit_first s \<longleftrightarrow> s = [] \<or> \<not> is_digit_char (hd s)"

lemma takeWhile_append_stop: "not_digit_first b \<Longrightarrow> takeWhile is_digit_char (a @ b) = takeWhile is_digit_char a"
  by (induction a) (auto simp: not_digit_first_def takeWhile_eq_Nil_iff)

lemma dropWhile_append_stop:
  "not_digit_first b \<Longrightarrow> dropWhile is_digit_char (a @ b) = dropWhile is_digit_char a @ b"
  by (induction a) (auto simp: not_digit_first_def dropWhile_eq_self_iff)

lemma placeholders_append:
  "not_digit_first b \<Longrightarrow> placeholders (a @ b) = placeholders a @ placeholders b"
proof (induction a rule: placeholders.induct)
  case (2 c cs)
  then show ?case
    by (simp add: placeholders.simps(2) Let_def takeWhile_append_stop dropWhile_append_stop)
qed simp

lemma placeholders_no_dollar: "CHR ''$'' \<notin> set s \<Longrightarrow> placeholders s = []"
  by (induction s rule: placeholders.induct) (auto simp: placeholders.simps(2) Let_def)

lemma placeholders_param: "placeholders (''$'' @ nat_digits n) = [n]"
proof -
  have d: "\<forall>c \<in> set (nat_digits n). is_digit_char c" using nat_digits_digit by blast
  then have t: "takeWhile is_digit_char (nat_digits n) = nat_digits n" by (simp add: takeWhile_eq_all_conv)
  note dw = dropWhile_eq_Nil_conv [THEN iffD2, OF d]
  have "nat_digits n \<noteq> []" by (subst nat_digits.simps) simp
  then show ?thesis by (simp add: placeholders.simps(2) Let_def t dw dec_val_digits)
qed

lemma placeholders_prefix: "CHR ''$'' \<notin> set p \<Longrightarrow> placeholders (p @ s) = placeholders s"
proof (induction p)
  case (Cons c p)
  then show ?case by (auto simp: placeholders.simps(2) Let_def)
qed simp

lemma no_dollar_digits: "CHR ''$'' \<notin> set (nat_digits n)"
  using nat_digits_digit [of "CHR ''$''" n] by (auto simp: is_digit_char_def cu_def)

lemma number_chars:
  assumes "\<not> is_digit_char x" and "x \<notin> set ''NaInfinity-+.e''"
  shows "x \<notin> set (num_to_string n)"
proof (cases n)
  case (Fin r)
  have d: "x \<notin> set (nat_digits k)" for k using nat_digits_digit assms(1) by blast
  have z: "x \<noteq> CHR ''0''" using assms(1) by (auto simp: is_digit_char_def cu_def)
  have "x \<notin> set ds" if "shortest y = (ds, k)" for y ds k
    using that d by (auto simp: shortest_def split: list.splits)
  moreover have "x \<notin> set (format_decimal ds k)" if "x \<notin> set ds" for ds k
    using that d z assms(2) by (auto simp: format_decimal_def Let_def dest: in_set_takeD in_set_dropD)
  ultimately show ?thesis using Fin assms(2) z by (cases "shortest \<bar>r\<bar>") simp
qed (use assms(2) in simp_all)

lemma no_dollar_number: "CHR ''$'' \<notin> set (num_to_string n)"
  by (rule number_chars) (simp_all add: is_digit_char_def cu_def)

lemma placeholders_call:
  "CHR ''$'' \<notin> set f \<Longrightarrow> placeholders (call_sql f a) = placeholders a"
proof -
  assume f: "CHR ''$'' \<notin> set f"
  have "call_sql f a = (f @ ''('') @ a @ '')''" by (simp add: call_sql_def)
  also have "placeholders \<dots> = placeholders (a @ '')'')" by (rule placeholders_prefix) (use f in auto)
  also have "\<dots> = placeholders a @ placeholders '')''"
    by (rule placeholders_append) (simp add: not_digit_first_def is_digit_char_def cu_def)
  finally show ?thesis by (simp add: placeholders_no_dollar)
qed

lemma placeholders_between:
  assumes "not_digit_first m" and "CHR ''$'' \<notin> set m" and "m \<noteq> []"
  shows "placeholders (a @ m @ b) = placeholders a @ placeholders b"
proof -
  have "not_digit_first (m @ b)" using assms by (simp add: not_digit_first_def)
  then show ?thesis using placeholders_prefix [OF assms(2)] by (simp add: placeholders_append)
qed

lemma placeholders_op:
  "placeholders (a @ '' '' @ sql_op op @ '' '' @ b) = placeholders a @ placeholders b"
  using placeholders_between [of "'' '' @ sql_op op @ '' ''" a b]
  by (cases op) (simp_all add: sql_op_def not_digit_first_def is_digit_char_def cu_def)

lemma placeholders_join:
  assumes "not_digit_first m" and "CHR ''$'' \<notin> set m" and "m \<noteq> []"
  shows "placeholders (join m args) = concat (map placeholders args)"
  using placeholders_between [OF assms] by (induction args rule: induct_list012) simp_all

lemma set_placeholders_arg: "set (placeholders (arg_sql i args)) \<subseteq> (\<Union>a \<in> set args. set (placeholders a))"
proof (cases "i < length args")
  case True
  then show ?thesis by (auto simp: arg_sql_def intro!: bexI [of _ "args ! i"])
qed (simp add: arg_sql_def placeholders_no_dollar)

lemma placeholders_no_arg: "placeholders (arg_sql i []) = []"
  by (simp add: arg_sql_def placeholders_no_dollar)

lemma widen: "S \<subseteq> {a <.. b} \<Longrightarrow> a' \<le> a \<Longrightarrow> b \<le> b' \<Longrightarrow> S \<subseteq> {a' <.. b' :: nat}"
  by auto

lemma placeholders_case:
  "placeholders (case_sql a b c) = placeholders a @ placeholders b @ placeholders c"
proof -
  have sp: "not_digit_first ('' '' @ s)" for s by (simp add: not_digit_first_def is_digit_char_def cu_def)
  have "placeholders (''CASE WHEN '' @ a @ '' THEN '' @ b @ '' ELSE '' @ c @ '' END'') =
      placeholders (a @ '' THEN '' @ b @ '' ELSE '' @ c @ '' END'')"
    by (rule placeholders_prefix) simp
  also have "\<dots> = placeholders a @ placeholders (b @ '' ELSE '' @ c @ '' END'')"
    by (rule placeholders_between) (simp_all add: not_digit_first_def is_digit_char_def cu_def)
  also have "placeholders (b @ '' ELSE '' @ c @ '' END'') = placeholders b @ placeholders (c @ '' END'')"
    by (rule placeholders_between) (simp_all add: not_digit_first_def is_digit_char_def cu_def)
  also have "placeholders (c @ '' END'') = placeholders c @ placeholders '' END''"
    by (rule placeholders_append) (simp add: not_digit_first_def is_digit_char_def cu_def)
  finally show ?thesis by (simp add: placeholders_no_dollar case_sql_def)
qed

lemma set_placeholders_func: "set (placeholders (func_sql name args)) \<subseteq> (\<Union>a \<in> set args. set (placeholders a))"
proof -
  have j: "placeholders (join '' || '' args) = concat (map placeholders args)"
    "placeholders (join '', '' args) = concat (map placeholders args)"
    by (rule placeholders_join; simp add: not_digit_first_def is_digit_char_def cu_def)+
  show ?thesis
    using set_placeholders_arg [of 0 args] set_placeholders_arg [of 1 args] set_placeholders_arg [of 2 args]
    unfolding func_sql_def by (simp add: placeholders_call placeholders_case placeholders_no_dollar placeholders_no_arg j)
qed

lemma emit_placeholders:
  assumes col: "\<And>name. CHR ''$'' \<notin> set (col name)"
  shows "set (placeholders (fst (emit col off e ps))) \<subseteq> {off + length ps <.. off + length (snd (emit col off e ps))}"
    "(\<Union>a \<in> set (fst (emit_all col off es ps)). set (placeholders a)) \<subseteq>
       {off + length ps <.. off + length (snd (emit_all col off es ps))}"
  using col
proof (induction col off e ps and col off es ps rule: emit_emit_all.induct)
  case (2 col off s ps)
  then show ?case using placeholders_param [of "off + length (ps @ [s])"] by simp
next
  case (6 col off op e ps)
  have "placeholders ((case op of U_neg \<Rightarrow> ''-'' | U_not \<Rightarrow> ''NOT '') @ a) = placeholders a" for a
    by (rule placeholders_prefix) (cases op; simp)
  with 6 show ?case by (cases "emit col off e ps") (simp add: placeholders_call)
next
  case (7 col off op l r ps)
  obtain a ps1 where l: "emit col off l ps = (a, ps1)" by fastforce
  obtain b ps2 where r: "emit col off r ps1 = (b, ps2)" by fastforce
  have len: "length ps \<le> length ps1" "length ps1 \<le> length ps2"
    using emit_params(1) [of col off l ps] emit_params(1) [of col off r ps1] l r by auto
  have "set (placeholders a) \<subseteq> {off + length ps <.. off + length ps1}" using 7(1) l 7(3) by simp
  moreover have "set (placeholders b) \<subseteq> {off + length ps1 <.. off + length ps2}"
    using 7(2) [OF l [symmetric]] 7(3) r by simp
  ultimately show ?case using l r len by (simp add: placeholders_call placeholders_op [simplified] widen)
next
  case (8 col off name args ps)
  obtain as ps1 where a: "emit_all col off args ps = (as, ps1)" by fastforce
  have "(\<Union>a \<in> set as. set (placeholders a)) \<subseteq> {off + length ps <.. off + length ps1}" using 8(1) 8(2) a by simp
  with set_placeholders_func [of name as] show ?case by (simp add: a)
next
  case (10 col off e es ps)
  obtain a ps1 where l: "emit col off e ps = (a, ps1)" by fastforce
  obtain as ps2 where r: "emit_all col off es ps1 = (as, ps2)" by fastforce
  have len: "length ps \<le> length ps1" "length ps1 \<le> length ps2"
    using emit_params(1) [of col off e ps] emit_params(2) [of col off es ps1] l r by auto
  have "set (placeholders a) \<subseteq> {off + length ps <.. off + length ps1}" using 10(1) l 10(3) by simp
  moreover have "(\<Union>a \<in> set as. set (placeholders a)) \<subseteq> {off + length ps1 <.. off + length ps2}"
    using 10(2) [OF l [symmetric]] 10(3) r by simp
  ultimately show ?case using l r len by (simp add: widen)
qed (simp_all add: placeholders_no_dollar no_dollar_number)

subsection \<open>Properties\<close>

text \<open>C35: no string literal of an expression ever reaches the text of the statement: whatever the
  literals are replaced by, the statement is the same, and the parameters are exactly the
  literals, in order. So no text a user types between apostrophes can inject SQL.\<close>

theorem compile_no_injection:
  "cr_sql (compile_expression (map_literals f e) col off) = cr_sql (compile_expression e col off) \<and>
   cr_params (compile_expression (map_literals f e) col off) = map f (literals e) \<and>
   cr_params (compile_expression e col off) = literals e"
  using emit_literals(1) [of col off f e "[]"] emit_params(1) [of col off e "[]"]
  by (auto simp: compile_expression_def split: prod.splits)

end
