(* ===== verification/SqlCheck.thy ===== *)
theory SqlCheck
  imports SqlEmit
begin

text \<open>
  The type checker \<open>validateExpression\<close> of \<open>packages/shared-types/src/expression.ts\<close>.
  \<open>infer_type\<close> gives the type and the messages pushed on the way, in order; \<open>None\<close> is the
  \<open>TypeError\<close> of reading a missing argument of \<open>coalesce\<close> or \<open>if\<close>. The code infers the first
  argument of \<open>coalesce\<close> a second time when its type is known, and reports its errors twice.
\<close>

text \<open>\<open>R_multi\<close> is the type text \<open>multi_select\<close>, which a caller that casts the type of a field, instead
  of mapping it, lets through; the checker has no case for it.\<close>

datatype ref_type = R_number | R_string | R_boolean | R_date | R_list | R_unknown | R_multi

datatype field_type = F_string | F_number | F_boolean | F_date | F_multi_select

definition field_ref_type_for :: "field_type \<Rightarrow> ref_type" where
  "field_ref_type_for t =
     (case t of F_multi_select \<Rightarrow> R_list | F_string \<Rightarrow> R_string | F_number \<Rightarrow> R_number
      | F_boolean \<Rightarrow> R_boolean | F_date \<Rightarrow> R_date)"

record field_ref =
  fr_name :: string
  fr_type :: ref_type

text \<open>\<open>new Map(schema.map((f) => [f.name, f]))\<close>: the last of two fields of a name.\<close>

definition fields_by_name :: "field_ref list \<Rightarrow> string \<Rightarrow> field_ref option" where
  "fields_by_name schema = map_of (rev (map (\<lambda>f. (fr_name f, f)) schema))"

definition type_word :: "ref_type \<Rightarrow> string" where
  "type_word t =
     (case t of R_number \<Rightarrow> ''number'' | R_string \<Rightarrow> ''string'' | R_boolean \<Rightarrow> ''boolean''
      | R_date \<Rightarrow> ''date'' | R_list \<Rightarrow> ''list'' | R_unknown \<Rightarrow> ''unknown''
      | R_multi \<Rightarrow> ''multi_select'')"

definition shown :: "ref_type \<Rightarrow> string" where
  "shown t =
     (if t = R_list then ''a list'' else if t = R_date then ''a date''
      else if t = R_unknown then ''an unknown type'' else ''a '' @ type_word t)"

definition op_text :: "sql_binop \<Rightarrow> string" where
  "op_text op =
     (case op of O_eq \<Rightarrow> ''=='' | O_ne \<Rightarrow> ''!='' | O_cat \<Rightarrow> ''~~'' | _ \<Rightarrow> sql_op op)"

definition text_like :: "ref_type \<Rightarrow> bool" where
  "text_like t \<longleftrightarrow> t = R_string \<or> t = R_date"

definition comparisons :: "sql_binop list" where
  "comparisons = [O_eq, O_ne, O_lt, O_le, O_gt, O_ge]"

definition compare_errors :: "sql_binop \<Rightarrow> ref_type \<Rightarrow> ref_type \<Rightarrow> string list" where
  "compare_errors op lt rt =
     (if lt \<noteq> R_unknown \<and> rt \<noteq> R_unknown then
        (let equality = (op = O_eq \<or> op = O_ne);
             ok = (lt = rt \<and> lt \<noteq> R_list \<or> text_like lt \<and> text_like rt \<or>
                   equality \<and> lt = R_list \<and> rt = R_string \<or> equality \<and> lt = R_string \<and> rt = R_list)
         in if \<not> ok then
              [if lt = R_list \<or> rt = R_list
               then ''Comparison '' @ op_text op @
                 '' is not supported for a list field; only == and != against a text value are''
               else ''Comparison '' @ op_text op @ '' between '' @ shown lt @ '' and '' @ shown rt @
                 '' is unsupported; cast one side first'']
            else [])
      else [])"

definition arith_error :: "ref_type \<Rightarrow> sql_expr \<Rightarrow> string list" where
  "arith_error t side =
     (if t = R_number \<or> t = R_unknown then []
      else let what = (case side of X_field name \<Rightarrow> ''Field {{'' @ name @ ''}}'' | _ \<Rightarrow> ''A value'')
           in [if t = R_date then what @ '' is a date and cannot be used in arithmetic''
               else if t = R_list then what @ '' is a list and cannot be used in arithmetic''
               else what @ '' is '' @ shown t @ '' and cannot be used in arithmetic; use concat() to join text''])"

definition binop_type :: "sql_binop \<Rightarrow> ref_type" where
  "binop_type op =
     (if op \<in> {O_and, O_or} \<or> op \<in> set comparisons then R_boolean
      else if op = O_cat then R_string else R_number)"

definition binop_errors :: "sql_binop \<Rightarrow> sql_expr \<Rightarrow> sql_expr \<Rightarrow> ref_type \<Rightarrow> ref_type \<Rightarrow> string list" where
  "binop_errors op left right lt rt =
     (if op \<in> {O_and, O_or} then []
      else if op \<in> set comparisons then compare_errors op lt rt
      else if op = O_cat then []
      else arith_error lt left @ arith_error rt right)"

definition one_argument :: "string \<Rightarrow> nat \<Rightarrow> string list" where
  "one_argument name arity = (if arity \<noteq> 1 then [name @ ''() takes one argument''] else [])"

text \<open>The functions whose arguments are counted but not looked at.\<close>

definition plain_func_type :: "string \<Rightarrow> nat \<Rightarrow> ref_type \<times> string list" where
  "plain_func_type name arity =
     (if name = ''upper'' \<or> name = ''lower'' then (R_string, one_argument name arity)
      else if name = ''length'' then (R_number, one_argument name arity)
      else if name = ''concat'' then (R_string, [])
      else if name = ''abs'' \<or> name = ''round'' \<or> name = ''floor'' \<or> name = ''ceil''
      then (R_number, one_argument name arity)
      else (R_unknown, [''Unknown function '' @ name @ ''()'']))"

fun infer_type :: "(string \<Rightarrow> field_ref option) \<Rightarrow> sql_expr \<Rightarrow> (ref_type \<times> string list) option" where
  "infer_type known (X_num _) = Some (R_number, [])"
| "infer_type known (X_str _) = Some (R_string, [])"
| "infer_type known (X_bool _) = Some (R_boolean, [])"
| "infer_type known X_null = Some (R_unknown, [])"
| "infer_type known (X_field name) =
     (case known name of
        None \<Rightarrow> Some (R_unknown, [''Field {{'' @ name @ ''}} does not exist on the schema''])
      | Some ref \<Rightarrow> Some (fr_type ref, []))"
| "infer_type known (X_unop op e) =
     (case op of
        U_neg \<Rightarrow>
          (case infer_type known e of
             None \<Rightarrow> None
           | Some (t, es) \<Rightarrow>
               Some (R_number, es @ (if t \<noteq> R_number \<and> t \<noteq> R_unknown
                                     then [''Unary minus requires a number (got '' @ shown t @ '')''] else [])))
      | U_not \<Rightarrow> Some (R_boolean, []))"
| "infer_type known (X_binop op l r) =
     (case infer_type known l of
        None \<Rightarrow> None
      | Some (lt, le) \<Rightarrow>
          (case infer_type known r of
             None \<Rightarrow> None
           | Some (rt, re) \<Rightarrow> Some (binop_type op, le @ re @ binop_errors op l r lt rt)))"
| "infer_type known (X_func name args) =
     (if name = ''coalesce'' then
        (case args of
           [] \<Rightarrow> None
         | a # _ \<Rightarrow>
             (case infer_type known a of
                None \<Rightarrow> None
              | Some (t, es) \<Rightarrow>
                  Some (t, (if length args < 2 then [''coalesce() takes at least two arguments''] else []) @
                           es @ (if t = R_unknown then [] else es))))
      else if name = ''if'' then
        (case args of
           _ # b # _ \<Rightarrow>
             (case infer_type known b of
                None \<Rightarrow> None
              | Some (t, es) \<Rightarrow>
                  Some (t, (if length args \<noteq> 3 then [''if(cond, then, else) takes three arguments''] else []) @ es))
         | _ \<Rightarrow> None)
      else Some (plain_func_type name (length args)))"

definition validate_expression :: "sql_expr \<Rightarrow> field_ref list \<Rightarrow> string list option" where
  "validate_expression e schema = map_option snd (infer_type (fields_by_name schema) e)"

subsection \<open>What is checked\<close>

text \<open>The field references the checker comes to: not those under \<open>NOT\<close> nor in the arguments of a
  function, but for the first of \<open>coalesce\<close> and the second of \<open>if\<close>.\<close>

fun checked_refs :: "sql_expr \<Rightarrow> string list" where
  "checked_refs (X_field name) = [name]"
| "checked_refs (X_unop op e) = (if op = U_neg then checked_refs e else [])"
| "checked_refs (X_binop _ l r) = checked_refs l @ checked_refs r"
| "checked_refs (X_func name args) =
     (if name = ''coalesce'' then (case args of a # _ \<Rightarrow> checked_refs a | [] \<Rightarrow> [])
      else if name = ''if'' then (case args of _ # b # _ \<Rightarrow> checked_refs b | _ \<Rightarrow> [])
      else [])"
| "checked_refs _ = []"

text \<open>A call whose missing argument the checker reads.\<close>

fun short_call :: "sql_expr \<Rightarrow> bool" where
  "short_call (X_unop op e) = (op = U_neg \<and> short_call e)"
| "short_call (X_binop _ l r) = (short_call l \<or> short_call r)"
| "short_call (X_func name args) =
     (if name = ''coalesce'' then (case args of a # _ \<Rightarrow> short_call a | [] \<Rightarrow> True)
      else if name = ''if'' then (case args of _ # b # _ \<Rightarrow> short_call b | _ \<Rightarrow> True)
      else False)"
| "short_call _ = False"

lemma infer_throws: "infer_type known e = None \<longleftrightarrow> short_call e"
proof (induction e)
  case (X_unop op e)
  then show ?case by (cases op) (auto split: option.splits)
next
  case (X_func name args)
  consider "args = []" | a where "args = [a]" | a b r where "args = a # b # r"
    by (cases args; cases "tl args") auto
  then show ?case
  proof cases
    case (2 a)
    with X_func [of a] show ?thesis by (cases "infer_type known a") auto
  next
    case (3 a b r)
    with X_func [of a] X_func [of b] show ?thesis
      by (cases "infer_type known a"; cases "infer_type known b") auto
  qed simp
qed (auto split: option.splits)

lemma infer_errors_refs:
  "infer_type known e = Some (t, []) \<Longrightarrow> name \<in> set (checked_refs e) \<Longrightarrow> known name \<noteq> None"
proof (induction e arbitrary: t)
  case (X_unop op e)
  then show ?case by (cases op) (auto split: option.splits if_splits)
next
  case (X_func f args)
  then show ?case by (auto split: option.splits list.splits if_splits)
qed (auto split: option.splits)

lemma fields_by_name_in: "fields_by_name schema name = Some f \<Longrightarrow> f \<in> set schema \<and> fr_name f = name"
  by (auto simp: fields_by_name_def dest: map_of_SomeD)

text \<open>the checker throws exactly on an expression with a \<open>coalesce()\<close> or an \<open>if\<close> of fewer than
  two arguments where it looks; when it reports nothing, every field it came to is in the schema.
  It never looks under \<open>NOT\<close> nor into the argument of a function such as \<open>upper\<close>, so there even a
  field the schema does not have passes, although its comment says every reference is checked.\<close>

theorem validate_expression_reach:
  "(validate_expression e schema = None \<longleftrightarrow> short_call e) \<and>
   (validate_expression e schema = Some [] \<longrightarrow>
      (\<forall>name \<in> set (checked_refs e). \<exists>f \<in> set schema. fr_name f = name)) \<and>
   validate_expression (X_unop U_not e) schema = Some [] \<and>
   (\<forall>name \<in> {''upper'', ''lower'', ''length'', ''concat'', ''abs'', ''round'', ''floor'', ''ceil''}.
      validate_expression (X_func name [e]) schema = Some [])"
proof -
  have "\<exists>f \<in> set schema. fr_name f = name"
    if "validate_expression e schema = Some []" "name \<in> set (checked_refs e)" for name
    using that infer_errors_refs [of "fields_by_name schema" e _ name] fields_by_name_in
    by (fastforce simp: validate_expression_def)
  moreover have "validate_expression (X_func name [e]) schema = Some []"
    if "name \<in> {''upper'', ''lower'', ''length'', ''concat'', ''abs'', ''round'', ''floor'', ''ceil''}" for name
    using that by (auto simp: validate_expression_def plain_func_type_def one_argument_def)
  ultimately show ?thesis by (simp add: validate_expression_def infer_throws)
qed

lemma validate_expression_reach_witness:
  "\<exists>f \<in> set [\<lparr> fr_name = ''acres'', fr_type = R_number \<rparr>]. fr_name f = ''acres''"
proof -
  have "validate_expression (X_binop O_gt (X_field ''acres'') (X_num (Fin 1))) [\<lparr> fr_name = ''acres'', fr_type = R_number \<rparr>]
      = Some []" by code_simp
  with validate_expression_reach [of "X_binop O_gt (X_field ''acres'') (X_num (Fin 1))" "[\<lparr> fr_name = ''acres'', fr_type = R_number \<rparr>]"]
  show ?thesis by simp
qed

end
