(* ===== verification/SqlEval.thy ===== *)
theory SqlEval
  imports SqlCheck FormState
begin

text \<open>
  The evaluator \<open>evaluateExpression\<close> of \<open>packages/shared-types/src/expression.ts\<close>, on the
  properties of one feature. Properties are the object's own; the names every object inherits
  are not modelled.
\<close>

definition arg_val :: "nat \<Rightarrow> jsval list \<Rightarrow> jsval" where
  "arg_val i args = (if i < length args then args ! i else Undef)"

definition number_op :: "(jsnum \<Rightarrow> jsnum \<Rightarrow> jsnum) \<Rightarrow> jsval \<Rightarrow> jsval \<Rightarrow> jsval" where
  "number_op f l r = JNum (f (js_number l) (js_number r))"

text \<open>Text against text orders as text, anything else as numbers.\<close>

definition compare_vals :: "(string \<Rightarrow> string \<Rightarrow> bool) \<Rightarrow> (jsnum \<Rightarrow> jsnum \<Rightarrow> bool) \<Rightarrow> jsval \<Rightarrow> jsval \<Rightarrow> jsval" where
  "compare_vals text number l r =
     JBool (case (l, r) of (JStr a, JStr b) \<Rightarrow> text a b | _ \<Rightarrow> number (js_number l) (js_number r))"

definition divide_vals :: "(jsnum \<Rightarrow> jsnum \<Rightarrow> jsnum) \<Rightarrow> jsval \<Rightarrow> jsval \<Rightarrow> jsval" where
  "divide_vals f l r = (let rn = js_number r in if n_eq rn (Fin 0) then JNull else JNum (f (js_number l) rn))"

definition binop_val :: "sql_binop \<Rightarrow> jsval \<Rightarrow> jsval \<Rightarrow> jsval" where
  "binop_val op l r =
     (case op of
        O_and \<Rightarrow> JBool (truthy l \<and> truthy r)
      | O_or \<Rightarrow> JBool (truthy l \<or> truthy r)
      | O_eq \<Rightarrow> JBool (strict_eq l r)
      | O_ne \<Rightarrow> JBool (\<not> strict_eq l r)
      | O_lt \<Rightarrow> compare_vals (<) n_lt l r
      | O_le \<Rightarrow> compare_vals (\<le>) n_le l r
      | O_gt \<Rightarrow> compare_vals (>) (\<lambda>a b. n_lt b a) l r
      | O_ge \<Rightarrow> compare_vals (\<ge>) (\<lambda>a b. n_le b a) l r
      | O_cat \<Rightarrow> JStr (js_string l @ js_string r)
      | O_add \<Rightarrow> number_op n_add l r
      | O_sub \<Rightarrow> number_op n_sub l r
      | O_mul \<Rightarrow> number_op n_mul l r
      | O_div \<Rightarrow> divide_vals n_div l r
      | O_mod \<Rightarrow> divide_vals n_rem l r)"

definition text_arg :: "jsval list \<Rightarrow> string" where
  "text_arg args = js_string (coalesce (arg_val 0 args) (JStr []))"

fun first_value :: "jsval list \<Rightarrow> jsval" where
  "first_value [] = JNull"
| "first_value (a # as) = (if \<not> nullish a then a else first_value as)"

definition func_val :: "string \<Rightarrow> jsval list \<Rightarrow> jsval" where
  "func_val name args =
     (if name = ''upper'' then JStr (to_upper (text_arg args))
      else if name = ''lower'' then JStr (to_lower (text_arg args))
      else if name = ''length'' then js_length (text_arg args)
      else if name = ''concat'' then JStr (concat (map (\<lambda>a. if nullish a then [] else js_string a) args))
      else if name = ''coalesce'' then first_value args
      else if name = ''abs'' then JNum (n_abs (js_number (arg_val 0 args)))
      else if name = ''round'' then JNum (n_round (js_number (arg_val 0 args)))
      else if name = ''floor'' then JNum (n_floor (js_number (arg_val 0 args)))
      else if name = ''ceil'' then JNum (n_ceil (js_number (arg_val 0 args)))
      else if name = ''if'' then (if truthy (arg_val 0 args) then arg_val 1 args else arg_val 2 args)
      else JNull)"

fun evaluate_expression :: "sql_expr \<Rightarrow> obj \<Rightarrow> jsval" where
  "evaluate_expression (X_num n) props = JNum n"
| "evaluate_expression (X_str s) props = JStr s"
| "evaluate_expression (X_bool b) props = JBool b"
| "evaluate_expression X_null props = JNull"
| "evaluate_expression (X_field name) props = coalesce (get props name) JNull"
| "evaluate_expression (X_unop op e) props =
     (let v = evaluate_expression e props
      in case op of U_neg \<Rightarrow> JNum (n_neg (js_number v)) | U_not \<Rightarrow> JBool (\<not> truthy v))"
| "evaluate_expression (X_binop op l r) props =
     binop_val op (evaluate_expression l props) (evaluate_expression r props)"
| "evaluate_expression (X_func name args) props =
     func_val name (map (\<lambda>a. evaluate_expression a props) args)"

subsection \<open>The evaluator reads the fields it refers to\<close>

lemma evaluate_expression_agree:
  "agree (field_refs e) r r' \<Longrightarrow> evaluate_expression e r = evaluate_expression e r'"
proof (induction e)
  case (X_func name args)
  then have "evaluate_expression a r = evaluate_expression a r'" if "a \<in> set args" for a
    using that by (auto simp: agree_def)
  then show ?case by (simp cong: map_cong)
qed (auto simp: agree_def)

interpretation row_reader: reader "\<lambda>props e. evaluate_expression e props" field_refs
  by unfold_locales (rule evaluate_expression_agree)

subsection \<open>Types of values\<close>

fun has_type :: "ref_type \<Rightarrow> jsval \<Rightarrow> bool" where
  "has_type R_number v = is_num v"
| "has_type R_string v = is_str v"
| "has_type R_boolean v = (case v of JBool _ \<Rightarrow> True | _ \<Rightarrow> False)"
| "has_type R_date v = is_str v"
| "has_type R_list v = is_arr v"
| "has_type R_multi v = is_arr v"
| "has_type R_unknown v = True"

definition fits :: "ref_type \<Rightarrow> jsval \<Rightarrow> bool" where
  "fits t v \<longleftrightarrow> nullish v \<or> has_type t v"

text \<open>A row whose values fit the fields the checker knows.\<close>

definition conforms :: "(string \<Rightarrow> field_ref option) \<Rightarrow> obj \<Rightarrow> bool" where
  "conforms known props \<longleftrightarrow> (\<forall>name ref. known name = Some ref \<longrightarrow> fits (fr_type ref) (get props name))"

text \<open>The alternatives of every \<open>coalesce\<close> and \<open>if\<close> that decides the type have one type; the checker
  itself does not ask for this.\<close>

fun uniform :: "(string \<Rightarrow> field_ref option) \<Rightarrow> sql_expr \<Rightarrow> bool" where
  "uniform known (X_func name args) =
     (if name = ''coalesce'' then
        (\<forall>a \<in> set args. uniform known a \<and>
           map_option fst (infer_type known a) = map_option fst (infer_type known (hd args)))
      else if name = ''if'' then
        (case args of
           [c, a, b] \<Rightarrow> uniform known a \<and> uniform known b \<and>
             map_option fst (infer_type known b) = map_option fst (infer_type known a)
         | _ \<Rightarrow> False)
      else True)"
| "uniform known _ = True"

lemma first_value_fits: "(\<forall>a \<in> set args. fits t a) \<Longrightarrow> fits t (first_value args)"
  by (induction args) (auto simp: fits_def)

lemma binop_fits: "fits (binop_type op) (binop_val op l r)"
  by (cases op) (auto simp: binop_type_def comparisons_def binop_val_def fits_def compare_vals_def
      number_op_def divide_vals_def Let_def)

lemma plain_func_fits:
  "name \<notin> {''coalesce'', ''if''} \<Longrightarrow> fits (fst (plain_func_type name n)) (func_val name args)"
  by (auto simp: plain_func_type_def func_val_def fits_def js_length_def)

lemma evaluate_fits:
  assumes c: "conforms known props"
  shows "infer_type known e = Some (t, es) \<Longrightarrow> uniform known e \<Longrightarrow> fits t (evaluate_expression e props)"
proof (induction e arbitrary: t es)
  case (X_field name)
  have "fits t (get props name)"
    using X_field(1) c by (cases "known name") (auto simp: conforms_def fits_def)
  then show ?case by (auto simp: fits_def coalesce_def)
next
  case (X_unop op e)
  then show ?case by (cases op) (auto simp: fits_def split: option.splits)
next
  case (X_binop op l r)
  then show ?case using binop_fits by (auto split: option.splits)
next
  case (X_func name args)
  show ?case
  proof (cases "name \<in> {''coalesce'', ''if''}")
    case False
    with X_func.prems plain_func_fits [of name "length args"] show ?thesis
      by (cases "plain_func_type name (length args)") auto
  next
    case True
    then consider (c) "name = ''coalesce''" | (i) "name = ''if''" by blast
    then show ?thesis
    proof cases
      case c
      have "fits t (evaluate_expression a props)" if a: "a \<in> set args" for a
      proof -
        obtain b bs where args: "args = b # bs" using a by (cases args) auto
        have "map_option fst (infer_type known b) = Some t"
          using X_func.prems(1) c args by (auto split: option.splits)
        moreover have "map_option fst (infer_type known a) = map_option fst (infer_type known (hd args))"
          using X_func.prems(2) c a by simp
        ultimately have "map_option fst (infer_type known a) = Some t" using args by simp
        then obtain es' where "infer_type known a = Some (t, es')" by auto
        with X_func.IH a X_func.prems(2) c show ?thesis by auto
      qed
      then have "fits t (first_value (map (\<lambda>a. evaluate_expression a props) args))"
        by (intro first_value_fits) auto
      with c show ?thesis by (simp add: func_val_def)
    next
      case i
      with X_func.prems(2) obtain x a b where args: "args = [x, a, b]"
        by (auto split: list.splits)
      have "map_option fst (infer_type known a) = Some t"
        using X_func.prems(1) i args by (auto split: option.splits)
      then obtain ea eb where "infer_type known a = Some (t, ea)" "infer_type known b = Some (t, eb)"
        using X_func.prems(2) i args by auto
      then have "fits t (evaluate_expression a props)" "fits t (evaluate_expression b props)"
        using X_func.IH [of a] X_func.IH [of b] X_func.prems(2) i args by auto
      with i args show ?thesis by (simp add: func_val_def arg_val_def)
    qed
  qed
qed (auto simp: fits_def)

subsection \<open>Properties\<close>



text \<open>Without that, the checker passes an expression whose value is of another type.\<close>

lemma mixed_if_passes:
  "validate_expression (X_func ''if'' [X_bool False, X_num (Fin 1), X_str ''x'']) [] = Some []"
  "infer_type (fields_by_name []) (X_func ''if'' [X_bool False, X_num (Fin 1), X_str ''x'']) = Some (R_number, [])"
  "evaluate_expression (X_func ''if'' [X_bool False, X_num (Fin 1), X_str ''x'']) [] = JStr ''x''"
  by (simp_all add: validate_expression_def func_val_def arg_val_def)

text \<open>A calculated column that the expression does not read can be written and calculated again.\<close>

lemma recalculate: "out \<notin> field_refs e \<Longrightarrow> evaluate_expression e (obj_set out v props) = evaluate_expression e props"
  by (rule row_reader.ev_frame)

end
