(* ===== verification/ToolBase.thy ===== *)
theory ToolBase
  imports SqlCheck JsValue
begin

text \<open>
  What the tools of \<open>apps/portal-api/src/derived-layers/tools\<close> share: the fields of a layer, the
  units of \<open>shared-types/src/length.ts\<close>, the interface \<open>ToolGenerator\<close> of \<open>tools/types.ts\<close>, and the
  text of SQL statements.

  The parameters of a step are the JSON object that is stored: \<open>validate\<close> returns an object
  literal and the other operations read its properties. Texts are modelled up to white space:
  the line breaks and the indentation of a template are a single blank, and comments inside a
  statement are left out. An error is the class the code throws and the fixed part of its
  message; the values interpolated into a message are left out.

  \<open>piece lo hi s\<close> says of a text that its string literals are closed and that the placeholders
  outside them are numbered above \<open>lo\<close> and up to \<open>hi\<close>. Pieces are closed under concatenation, so
  one pass of the simplifier shows it of a whole statement.
\<close>

named_theorems piece_intros \<open>texts that are pieces of a statement\<close>
named_theorems tool_simps \<open>reading the properties a validator wrote\<close>

subsection \<open>Errors\<close>

datatype tool_error = Bad_request string | Type_error

type_synonym 'a checked = "tool_error + 'a"

text \<open>\<open>if (!ok) throw new BadRequestException(msg);\<close> followed by the rest of the function.\<close>

definition require :: "bool \<Rightarrow> string \<Rightarrow> 'a checked \<Rightarrow> 'a checked" where
  "require ok msg k = (if ok then k else Inl (Bad_request msg))"

lemma require_Inr [simp]: "require ok msg k = Inr v \<longleftrightarrow> ok \<and> k = Inr v"
  by (simp add: require_def)

lemma require_True [simp]: "require True msg k = k"
  by (simp add: require_def)

lemma require_cong [cong]: "ok = ok' \<Longrightarrow> (ok' \<Longrightarrow> k = k') \<Longrightarrow> require ok msg k = require ok' msg k'"
  by (simp add: require_def)

fun bind_res :: "'a checked \<Rightarrow> ('a \<Rightarrow> 'b checked) \<Rightarrow> 'b checked" where
  "bind_res (Inl e) f = Inl e"
| "bind_res (Inr a) f = f a"

lemma bind_res_Inr: "bind_res m f = Inr b \<longleftrightarrow> (\<exists>a. m = Inr a \<and> f a = Inr b)"
  by (cases m) auto

lemma bind_res_cong [fundef_cong]: "m = m' \<Longrightarrow> (\<And>a. m' = Inr a \<Longrightarrow> f a = f' a) \<Longrightarrow> bind_res m f = bind_res m' f'"
  by (cases m') auto

fun map_res :: "('a \<Rightarrow> 'b checked) \<Rightarrow> 'a list \<Rightarrow> 'b list checked" where
  "map_res f [] = Inr []"
| "map_res f (x # xs) = bind_res (f x) (\<lambda>y. bind_res (map_res f xs) (\<lambda>ys. Inr (y # ys)))"

subsection \<open>Values of parameters\<close>

fun str_of :: "jsval \<Rightarrow> string" where
  "str_of (JStr s) = s"
| "str_of _ = []"

fun num_of :: "jsval \<Rightarrow> jsnum" where
  "num_of (JNum n) = n"
| "num_of _ = NaN"

fun elems_of :: "jsval \<Rightarrow> jsval list" where
  "elems_of (JArr _ vs) = vs"
| "elems_of _ = []"

text \<open>\<open>typeof v === 'number' && Number.isFinite(v)\<close>.\<close>

fun fin_num :: "jsval \<Rightarrow> bool" where
  "fin_num (JNum n) = is_finite n"
| "fin_num _ = False"

text \<open>\<open>typeof v === 'string' && v.length > 0\<close>.\<close>

fun full_str :: "jsval \<Rightarrow> bool" where
  "full_str (JStr s) = (s \<noteq> [])"
| "full_str _ = False"

text \<open>\<open>...(v !== undefined ? { k: v } : {})\<close>.\<close>

definition opt_prop :: "string \<Rightarrow> jsval \<Rightarrow> obj" where
  "opt_prop k v = (if v = Undef then [] else [(k, v)])"

lemma get_append: "get (a @ b) k = (if k \<in> fst ` set a then get a k else get b k)"
  by (auto simp: get_def map_add_def dom_map_of_conv_image_fst [symmetric] split: option.split)

lemma get_opt_prop [tool_simps]: "get (opt_prop k v @ b) j = (if j = k \<and> v \<noteq> Undef then v else get b j)"
  by (simp add: opt_prop_def get_Cons)

lemma get_opt_prop_last [tool_simps]: "get (opt_prop k v) j = (if j = k then v else Undef)"
  by (simp add: opt_prop_def get_Cons)

declare get_Cons [tool_simps]

lemma full_str_JStr: "full_str v \<longleftrightarrow> (\<exists>s. v = JStr s \<and> s \<noteq> [])"
  by (cases v) auto

lemma fin_num_JNum: "fin_num v \<longleftrightarrow> (\<exists>r. v = JNum (Fin r))"
proof (cases v)
  case (JNum n)
  then show ?thesis by (cases n) auto
qed auto

lemma is_str_JStr: "is_str v \<longleftrightarrow> (\<exists>s. v = JStr s)"
  by (cases v) auto

lemma not_Undef [tool_simps]: "full_str v \<Longrightarrow> v \<noteq> Undef" "fin_num v \<Longrightarrow> v \<noteq> Undef" "is_arr v \<Longrightarrow> v \<noteq> Undef"
  by (cases v; simp)+

subsection \<open>Fields of a layer\<close>

text \<open>\<open>ff_extra\<close> holds the optional properties (\<open>domain\<close>, \<open>storage\<close>, \<open>searchable\<close>), which are only
  carried along.\<close>

record feature_field =
  ff_name :: string
  ff_label :: string
  ff_type :: field_type
  ff_nullable :: bool
  ff_extra :: obj

definition field_lit :: "string \<Rightarrow> string \<Rightarrow> field_type \<Rightarrow> bool \<Rightarrow> feature_field" where
  "field_lit name label t n =
     \<lparr> ff_name = name, ff_label = label, ff_type = t, ff_nullable = n, ff_extra = [] \<rparr>"

type_synonym schema = "feature_field list"

definition find_field :: "string \<Rightarrow> schema \<Rightarrow> feature_field option" where
  "find_field name sch = find (\<lambda>f. ff_name f = name) sch"

text \<open>The check of a field against the source schema, which is there at save time only.\<close>

definition require_number_field :: "string \<Rightarrow> schema option \<Rightarrow> string \<Rightarrow> 'a checked \<Rightarrow> 'a checked" where
  "require_number_field field ctx wh k =
     (case ctx of
        None \<Rightarrow> k
      | Some sch \<Rightarrow>
          (case find_field field sch of
             None \<Rightarrow> Inl (Bad_request (wh @ '' does not exist on the source schema''))
           | Some m \<Rightarrow> require (ff_type m = F_number) (wh @ '' must be a number field'') k))"

lemma require_number_field_Inr:
  "require_number_field field ctx w k = Inr v \<Longrightarrow> k = Inr v"
  by (auto simp: require_number_field_def split: option.splits)

lemma require_number_field_None [simp]: "require_number_field field None w k = k"
  by (simp add: require_number_field_def)

text \<open>The check that a new column does not exist yet.\<close>

definition require_new_field :: "string \<Rightarrow> schema option \<Rightarrow> string \<Rightarrow> 'a checked \<Rightarrow> 'a checked" where
  "require_new_field name ctx msg k =
     (case ctx of None \<Rightarrow> k | Some sch \<Rightarrow> require (find_field name sch = None) msg k)"

lemma require_new_field_Inr: "require_new_field name ctx msg k = Inr v \<Longrightarrow> k = Inr v"
  by (auto simp: require_new_field_def split: option.splits)

lemma require_new_field_None [simp]: "require_new_field name None msg k = k"
  by (simp add: require_new_field_def)

subsection \<open>Units\<close>

definition METERS_PER_UNIT :: "(string \<times> jsnum) list" where
  "METERS_PER_UNIT =
     [(''meters'', Fin 1), (''kilometers'', Fin 1000), (''feet'', fl (3048 / 10000)),
      (''yards'', fl (9144 / 10000)), (''miles'', fl (1609344 / 1000))]"

definition unit_factor :: "(string \<times> jsnum) list \<Rightarrow> string \<Rightarrow> jsnum" where
  "unit_factor tab u = (case map_of tab u of None \<Rightarrow> NaN | Some f \<Rightarrow> f)"

definition meters_for :: "jsnum \<Rightarrow> string \<Rightarrow> jsnum" where
  "meters_for v u = (if u = ''meters'' then v else n_mul v (unit_factor METERS_PER_UNIT u))"

definition is_length_unit :: "jsval \<Rightarrow> bool" where
  "is_length_unit v \<longleftrightarrow> is_str v \<and> str_of v \<in> fst ` set METERS_PER_UNIT"

definition LENGTH_UNITS :: "string list" where
  "LENGTH_UNITS = [''meters'', ''kilometers'', ''feet'', ''yards'', ''miles'']"

definition SQ_METERS_PER_AREA_UNIT :: "(string \<times> jsnum) list" where
  "SQ_METERS_PER_AREA_UNIT =
     [(''square-meters'', Fin 1), (''square-kilometers'', Fin 1000000), (''hectares'', Fin 10000),
      (''square-feet'', n_mul (fl (3048 / 10000)) (fl (3048 / 10000))),
      (''square-yards'', n_mul (fl (9144 / 10000)) (fl (9144 / 10000))),
      (''acres'', fl (40468564224 / 10000000)),
      (''square-miles'', n_mul (fl (1609344 / 1000)) (fl (1609344 / 1000)))]"

definition is_area_unit :: "jsval \<Rightarrow> bool" where
  "is_area_unit v \<longleftrightarrow> is_str v \<and> str_of v \<in> fst ` set SQ_METERS_PER_AREA_UNIT"

definition area_in_unit :: "jsnum \<Rightarrow> string \<Rightarrow> jsnum" where
  "area_in_unit sq u = (if u = ''square-meters'' then sq else n_div sq (unit_factor SQ_METERS_PER_AREA_UNIT u))"

definition AREA_UNITS :: "string list" where
  "AREA_UNITS = map fst SQ_METERS_PER_AREA_UNIT"

text \<open>\<open>isLengthUnit(r.unit) ? r.unit : 'meters'\<close>.\<close>

definition unit_or_meters :: "jsval \<Rightarrow> string" where
  "unit_or_meters v = (if is_length_unit v then str_of v else ''meters'')"

lemma length_unit_meters [simp]: "is_length_unit (JStr ''meters'')"
  by (simp add: is_length_unit_def METERS_PER_UNIT_def)

lemma length_units_listed: "is_length_unit (JStr u) \<longleftrightarrow> u \<in> set LENGTH_UNITS"
  by (auto simp: is_length_unit_def METERS_PER_UNIT_def LENGTH_UNITS_def)

lemma unit_or_meters_idem [simp]: "unit_or_meters (JStr (unit_or_meters v)) = unit_or_meters v"
  by (cases v) (auto simp: unit_or_meters_def is_length_unit_def)

lemma is_length_unit_str_of [simp]: "is_length_unit v \<Longrightarrow> JStr (str_of v) = v"
  by (cases v) (auto simp: is_length_unit_def)

lemma is_area_unit_str_of [simp]: "is_area_unit v \<Longrightarrow> JStr (str_of v) = v"
  by (cases v) (auto simp: is_area_unit_def)

subsection \<open>The interface of a tool\<close>

record sql_fragment =
  sf_sql :: string
  sf_params :: "jsval list"

definition fragment :: "string \<Rightarrow> jsval list \<Rightarrow> sql_fragment" where
  "fragment sql ps = \<lparr> sf_sql = sql, sf_params = ps \<rparr>"

lemma fragment_sel [simp]: "sf_sql (fragment s ps) = s" "sf_params (fragment s ps) = ps"
  by (simp_all add: fragment_def)

text \<open>The database a tool may query when a layer is saved: the rows a statement returns for its
  parameters. \<open>ctx.sourceTable\<close> is part of the statement.\<close>

type_synonym query = "string \<Rightarrow> jsval list \<Rightarrow> obj list"

record tool =
  t_kind :: string
  t_validate :: "jsval \<Rightarrow> schema option \<Rightarrow> obj checked"
  t_enrich :: "(obj \<Rightarrow> string \<Rightarrow> query \<Rightarrow> obj checked) option"
  t_output :: "schema \<Rightarrow> obj \<Rightarrow> schema"
  t_reach :: "obj \<Rightarrow> jsnum"
  t_deps :: "obj \<Rightarrow> string list"
  t_sql :: "string \<Rightarrow> obj \<Rightarrow> nat \<Rightarrow> sql_fragment checked"

text \<open>\<open>if (!raw || typeof raw !== 'object' || Array.isArray(raw)) throw ...\<close>, then the properties.\<close>

definition with_object :: "string \<Rightarrow> jsval \<Rightarrow> (obj \<Rightarrow> 'a checked) \<Rightarrow> 'a checked" where
  "with_object kind raw k =
     (case raw of JObj _ r \<Rightarrow> k r | _ \<Rightarrow> Inl (Bad_request (kind @ ''.params must be an object'')))"

lemma with_object_JObj [simp]: "with_object kind (JObj a r) k = k r"
  by (simp add: with_object_def)

lemma with_object_Inr: "with_object kind raw k = Inr v \<longleftrightarrow> (\<exists>a r. raw = JObj a r \<and> k r = Inr v)"
  by (cases raw) (auto simp: with_object_def)

subsection \<open>The text of statements\<close>

text \<open>A placeholder, a string literal, and the doubling of quotes in its content.\<close>

definition ph :: "nat \<Rightarrow> string" where
  "ph n = ''$'' @ nat_digits n"

definition lit :: "string \<Rightarrow> string" where
  "lit s = [CHR 0x27] @ s @ [CHR 0x27]"

definition backslash :: string where
  "backslash = [CHR 0x5C]"

definition esc :: "string \<Rightarrow> string" where
  "esc s = concat (map (\<lambda>c. if c = CHR 0x27 then [c, c] else [c]) s)"

text \<open>A statement without the content of its literals; \<open>q\<close> says that a literal is open.\<close>

fun outside :: "bool \<Rightarrow> string \<Rightarrow> string" where
  "outside q [] = []"
| "outside q (c # cs) =
     (if c = CHR 0x27 then c # outside (\<not> q) cs
      else if q then outside q cs else c # outside q cs)"

definition closed_lits :: "string \<Rightarrow> bool" where
  "closed_lits s \<longleftrightarrow> even (length (filter (\<lambda>c. c = CHR 0x27) s))"

text \<open>A text without quotes and dollars, and one that is a piece of a statement.\<close>

definition plain :: "string \<Rightarrow> bool" where
  "plain s \<longleftrightarrow> list_all (\<lambda>c. c \<noteq> CHR 0x27 \<and> c \<noteq> CHR ''$'') s"

definition piece :: "nat \<Rightarrow> nat \<Rightarrow> string \<Rightarrow> bool" where
  "piece lo hi s \<longleftrightarrow>
     closed_lits s \<and> not_digit_first s \<and> set (placeholders (outside False s)) \<subseteq> {lo <.. hi}"

lemma outside_append:
  "outside q (a @ b) = outside q a @ outside (if closed_lits a then q else \<not> q) b"
  by (induction q a rule: outside.induct) (auto simp: closed_lits_def)

lemma closed_lits_append [simp]: "closed_lits (a @ b) \<longleftrightarrow> (closed_lits a \<longleftrightarrow> closed_lits b)"
  by (auto simp: closed_lits_def)

lemma not_digit_first_append:
  "not_digit_first a \<Longrightarrow> not_digit_first b \<Longrightarrow> not_digit_first (a @ b)"
  by (cases a) (auto simp: not_digit_first_def)

lemma not_digit_first_outside: "not_digit_first s \<Longrightarrow> not_digit_first (outside False s)"
  by (cases s) (auto simp: not_digit_first_def)

lemma piece_append [piece_intros]: "piece lo hi a \<Longrightarrow> piece lo hi b \<Longrightarrow> piece lo hi (a @ b)"
  by (auto simp: piece_def outside_append not_digit_first_append placeholders_append not_digit_first_outside)

lemma piece_mono: "piece lo hi s \<Longrightarrow> lo' \<le> lo \<Longrightarrow> hi \<le> hi' \<Longrightarrow> piece lo' hi' s"
  by (fastforce simp: piece_def)

lemma piece_Nil [piece_intros]: "piece lo hi []"
  by (simp add: piece_def closed_lits_def not_digit_first_def)

lemma plain_outside: "plain s \<Longrightarrow> outside False s = s \<and> closed_lits s \<and> CHR ''$'' \<notin> set s"
  by (induction s) (auto simp: plain_def closed_lits_def)

lemma plain_piece: "plain s \<Longrightarrow> not_digit_first s \<Longrightarrow> piece lo hi s"
  using plain_outside [of s] by (simp add: piece_def placeholders_no_dollar)

text \<open>The fixed texts of a template: they start with a character that is no digit.\<close>

lemma piece_text [piece_intros]: "plain (c # cs) \<Longrightarrow> \<not> is_digit_char c \<Longrightarrow> piece lo hi (c # cs)"
  by (rule plain_piece) (simp_all add: not_digit_first_def)

lemma piece_if [piece_intros]:
  "(b \<Longrightarrow> piece lo hi x) \<Longrightarrow> (\<not> b \<Longrightarrow> piece lo hi y) \<Longrightarrow> piece lo hi (if b then x else y)"
  by simp

lemmas text_simps = plain_def is_digit_char_def cu_def

lemma outside_open: "CHR 0x27 \<notin> set s \<Longrightarrow> outside True (s @ [CHR 0x27]) = [CHR 0x27]"
  by (induction s) auto

lemma outside_esc: "set (outside True (esc s)) \<subseteq> {CHR 0x27}"
  by (induction s) (auto simp: esc_def)

lemma closed_esc [simp]: "closed_lits (esc s)"
proof (induction s)
  case (Cons c s)
  have "esc (c # s) = esc [c] @ esc s" by (simp add: esc_def)
  moreover have "closed_lits (esc [c])" by (simp add: esc_def closed_lits_def)
  ultimately show ?case using Cons by simp
qed (simp add: esc_def closed_lits_def)

lemma closed_quote: "\<not> closed_lits (CHR 0x27 # s) \<longleftrightarrow> closed_lits s"
  by (simp add: closed_lits_def)

lemma closed_Nil [simp]: "closed_lits []"
  by (simp add: closed_lits_def)

lemma no_quote_closed: "CHR 0x27 \<notin> set s \<Longrightarrow> closed_lits s"
proof -
  assume "CHR 0x27 \<notin> set s"
  then have "filter (\<lambda>c. c = CHR 0x27) s = []" by (auto simp: filter_empty_conv)
  then show ?thesis by (simp add: closed_lits_def)
qed

lemma piece_esc [piece_intros]: "piece lo hi (lit (esc s))"
proof -
  have o: "outside False (lit (esc s)) = CHR 0x27 # outside True (esc s) @ [CHR 0x27]"
    by (simp add: lit_def outside_append)
  have "CHR ''$'' \<notin> set (outside True (esc s))" using outside_esc [of s] by auto
  then have "placeholders (outside False (lit (esc s))) = []" by (auto simp: o intro: placeholders_no_dollar)
  moreover have "closed_lits (lit (esc s))" using closed_quote [of "[]"] closed_quote [of "esc s @ [CHR 0x27]"] by (simp add: lit_def)
  moreover have "not_digit_first (lit (esc s))" by (simp add: lit_def not_digit_first_def is_digit_char_def cu_def)
  ultimately show ?thesis by (simp add: piece_def)
qed

lemma esc_id: "CHR 0x27 \<notin> set s \<Longrightarrow> esc s = s"
  by (induction s) (auto simp: esc_def)

lemma piece_lit [piece_intros]: "CHR 0x27 \<notin> set s \<Longrightarrow> piece lo hi (lit s)"
  using piece_esc [of lo hi s] by (simp add: esc_id)

lemma piece_ph [piece_intros]: "lo < n \<Longrightarrow> n \<le> hi \<Longrightarrow> piece lo hi (ph n)"
proof -
  assume b: "lo < n" "n \<le> hi"
  have q: "CHR 0x27 \<notin> set (nat_digits n)"
    using nat_digits_digit [of "CHR 0x27" n] by (auto simp: is_digit_char_def cu_def)
  then have c: "closed_lits (ph n)" by (auto intro: no_quote_closed simp: ph_def)
  have "outside False s = s" if "CHR 0x27 \<notin> set s" for s using that by (induction s) auto
  with q have "outside False (ph n) = ''$'' @ nat_digits n" by (simp add: ph_def)
  then have "placeholders (outside False (ph n)) = [n]" by (simp only: placeholders_param)
  with b c show ?thesis by (simp add: piece_def not_digit_first_def ph_def is_digit_char_def cu_def)
qed

lemma piece_join [piece_intros]:
  assumes "piece lo hi sep" and "\<And>x. x \<in> set xs \<Longrightarrow> piece lo hi x"
  shows "piece lo hi (join sep xs)"
  using assms(2) by (induction xs rule: induct_list012) (auto intro!: piece_intros assms(1))

text \<open>Leaving out literals only ever leaves out placeholders.\<close>

lemma quote_not_digit: "\<not> is_digit_char (CHR 0x27)" "\<not> is_digit_char (CHR ''$'')"
  by (simp_all add: is_digit_char_def cu_def)

lemma takeWhile_outside: "takeWhile is_digit_char (outside False s) = takeWhile is_digit_char s"
  by (induction s) (auto simp: quote_not_digit)

lemma dropWhile_outside: "dropWhile is_digit_char (outside False s) = outside False (dropWhile is_digit_char s)"
  by (induction s) (auto simp: quote_not_digit)

lemma outside_True_digits: "outside True s = outside True (dropWhile is_digit_char s)"
  by (induction s) (auto simp: quote_not_digit)

lemma placeholders_outside: "set (placeholders (outside q s)) \<subseteq> set (placeholders s)"
proof (induction s arbitrary: q rule: placeholders.induct)
  case (2 c cs)
  let ?ds = "takeWhile is_digit_char cs"
  show ?case
  proof (cases "c = CHR ''$'' \<and> ?ds \<noteq> []")
    case True
    note IH = 2(1) [OF refl True]
    show ?thesis
    proof (cases q)
      case True
      then have "outside q (c # cs) = outside True (dropWhile is_digit_char cs)"
        using \<open>c = _ \<and> _\<close> outside_True_digits [of cs] by simp
      with IH [of True] \<open>c = _ \<and> _\<close> show ?thesis by (auto simp: placeholders.simps(2) Let_def)
    next
      case False
      with IH [of False] \<open>c = _ \<and> _\<close> show ?thesis
        by (auto simp: placeholders.simps(2) Let_def takeWhile_outside dropWhile_outside)
    qed
  next
    case False
    note IH = 2(2) [OF refl False]
    have p: "placeholders (c # cs) = placeholders cs" using False by (subst placeholders.simps(2)) (auto simp: Let_def)
    have "placeholders (c # outside b cs) = placeholders (outside b cs)" if "c = CHR 0x27 \<or> \<not> b" for b
      using that False by (subst placeholders.simps(2)) (auto simp: Let_def takeWhile_outside quote_not_digit)
    then show ?thesis using IH [of q] IH [of "\<not> q"] p by auto
  qed
qed simp

text \<open>A piece that may start with a digit, and what makes it a piece.\<close>

definition body :: "nat \<Rightarrow> nat \<Rightarrow> string \<Rightarrow> bool" where
  "body lo hi s \<longleftrightarrow> closed_lits s \<and> set (placeholders (outside False s)) \<subseteq> {lo <.. hi}"

lemma body_after:
  assumes "plain (c # p)" and "\<not> is_digit_char c" and "body lo hi s" and "piece lo hi rest"
  shows "piece lo hi ((c # p) @ s @ rest)"
proof -
  have p: "outside False (c # p) = c # p" "closed_lits (c # p)" "CHR ''$'' \<notin> set (c # p)"
    using plain_outside [OF assms(1)] by simp_all
  have "outside False ((c # p) @ s @ rest) = (c # p) @ (outside False s @ outside False rest)"
    using p(1,2) assms(3) by (simp only: outside_append body_def if_True append_assoc)
  then have "placeholders (outside False ((c # p) @ s @ rest)) =
      placeholders (outside False s) @ placeholders (outside False rest)"
    using placeholders_prefix [OF p(3)] placeholders_append not_digit_first_outside assms(4)
    by (simp add: piece_def)
  moreover have "closed_lits ((c # p) @ s @ rest)" using p(2) assms(3,4) unfolding closed_lits_append body_def piece_def by blast
  ultimately show ?thesis using assms by (auto simp: piece_def body_def not_digit_first_def)
qed

lemma closed_Cons: "closed_lits (c # s) \<longleftrightarrow> (if c = CHR 0x27 then \<not> closed_lits s else closed_lits s)"
  by (simp add: closed_lits_def)

lemma closed_plain: "plain s \<Longrightarrow> closed_lits s"
  by (simp add: plain_outside)

lemma closed_join: "closed_lits sep \<Longrightarrow> (\<forall>x \<in> set xs. closed_lits x) \<Longrightarrow> closed_lits (join sep xs)"
  by (induction xs rule: induct_list012) auto

subsection \<open>Numbers within bounds\<close>

lemma round_even_le: "r \<le> of_int m \<Longrightarrow> round_even r \<le> m"
proof -
  assume r: "r \<le> of_int m"
  show ?thesis
  proof (cases "\<lfloor>r\<rfloor> = m")
    case True
    then have "r = of_int m" using r by linarith
    then show ?thesis by simp
  next
    case False
    then have "\<lfloor>r\<rfloor> + 1 \<le> m" using r by linarith
    then show ?thesis by (auto simp: round_even_def Let_def)
  qed
qed

text \<open>Rounding a number between 0 and an integer that is exact keeps it there.\<close>

lemma fl_upto:
  assumes "0 \<le> r" and "r \<le> of_int n" and "n < 2 ^ 53"
  shows "\<exists>x. fl r = Fin x \<and> 0 \<le> x \<and> x \<le> of_int n"
proof (cases "r = 0")
  case False
  let ?q = "max (binexp r - 52) (- 1074)"
  let ?v = "of_int (round_even (r / pow2 ?q)) * pow2 ?q"
  have "binexp r \<le> 52"
  proof (rule ccontr)
    assume "\<not> ?thesis"
    then have "pow2 53 \<le> pow2 (binexp r)" by (intro pow2_mono) simp
    also have "\<dots> \<le> of_int n" using binexp_bounds(1) [OF False] assms by simp
    finally have "(2::rat) ^ 53 \<le> of_int n" by (simp add: pow2_def)
    then show False using assms(3) by (metis of_int_le_iff of_int_numeral of_int_power not_le)
  qed
  then have q: "?q \<le> 0" by simp
  define k where "k = nat (- ?q)"
  have "pow2 ?q * 2 ^ k = pow2 0" using pow2_add_nat [of ?q k] q by (simp add: k_def)
  then have p1: "pow2 ?q * 2 ^ k = 1" by (simp add: pow2_def)
  then have n: "of_int n = of_int (n * 2 ^ k) * pow2 ?q" by (simp add: mult.assoc mult.commute [of "2 ^ k"])
  have "r / pow2 ?q \<le> of_int (n * 2 ^ k)" by (simp only: pos_divide_le_eq [OF pow2_pos] n [symmetric] assms(2))
  then have "round_even (r / pow2 ?q) \<le> n * 2 ^ k" by (rule round_even_le)
  then have "of_int (round_even (r / pow2 ?q)) \<le> (of_int (n * 2 ^ k) :: rat)" by (simp only: of_int_le_iff)
  then have "?v \<le> of_int (n * 2 ^ k) * pow2 ?q" by (rule mult_right_mono) (simp add: less_imp_le)
  then have le: "?v \<le> of_int n" by (simp only: n [symmetric])
  have ge: "0 \<le> ?v" using round_even_nonneg [of "r / pow2 ?q"] assms(1) by (simp add: less_imp_le)
  have "n < 2 ^ 1024" using assms(3) power_increasing [of 53 1024 "2 :: int"] by linarith
  then have "of_int n < (of_int (2 ^ 1024) :: rat)" by (simp only: of_int_less_iff)
  then have "\<not> of_int (2 ^ 1024) \<le> \<bar>?v\<bar>" using le ge by linarith
  then have "fl r = Fin ?v" unfolding fl_def Let_def using False by (simp only: if_False)
  with le ge show ?thesis by blast
qed (use assms in \<open>simp add: fl_def\<close>)

lemma fl_nonneg: "0 \<le> r \<Longrightarrow> n_le (Fin 0) (fl r)"
proof (cases "r = 0")
  case False
  assume r: "0 \<le> r"
  define v where "v = of_int (round_even (r / pow2 (max (binexp r - 52) (- 1074)))) * pow2 (max (binexp r - 52) (- 1074))"
  have "0 \<le> v" using round_even_nonneg [of "r / pow2 (max (binexp r - 52) (- 1074))"] r
    by (simp add: v_def less_imp_le)
  moreover have "fl r = (if of_int (2 ^ 1024) \<le> \<bar>v\<bar> then (if 0 < v then PInf else NInf) else Fin v)"
    unfolding fl_def Let_def v_def using False by (simp only: if_False)
  moreover have "0 < v" if "of_int (2 ^ 1024) \<le> \<bar>v\<bar>"
  proof -
    have "(0::rat) < of_int (2 ^ 1024)" by (simp only: of_int_0_less_iff) simp
    with that \<open>0 \<le> v\<close> show ?thesis by linarith
  qed
  ultimately show ?thesis by (cases "of_int (2 ^ 1024) \<le> \<bar>v\<bar>") (simp_all only: if_True if_False n_le_Fin, simp add: n_le_def)
qed (simp add: fl_def)

lemma n_mul_nonneg: "n_lt (Fin 0) a \<Longrightarrow> n_lt (Fin 0) b \<Longrightarrow> n_le (Fin 0) (n_mul a b)"
proof (cases a; cases b)
  fix x y
  assume "n_lt (Fin 0) a" "n_lt (Fin 0) b" "a = Fin x" "b = Fin y"
  then show ?thesis using fl_nonneg [of "x * y"] by simp
qed (auto simp: inf_of_sign_def n_le_def)

definition ident :: "string \<Rightarrow> bool" where
  "ident a \<longleftrightarrow> plain a \<and> not_digit_first a"

lemma ident_piece: "ident a \<Longrightarrow> piece lo hi a"
  by (simp add: ident_def plain_piece)

text \<open>A finite number between 0 and \<open>n\<close>.\<close>

definition bounded :: "jsnum \<Rightarrow> int \<Rightarrow> bool" where
  "bounded x n \<longleftrightarrow> (\<exists>r. x = Fin r \<and> 0 \<le> r \<and> r \<le> of_int n)"

lemma bounded_0 [simp]: "bounded (Fin 0) n \<longleftrightarrow> 0 \<le> n"
  by (simp add: bounded_def)

lemma bounded_between: "n_le (Fin 0) x \<Longrightarrow> \<not> n_lt (Fin (of_int n)) x \<Longrightarrow> bounded x n"
  by (cases x) (auto simp: bounded_def n_le_def)

lemma bounded_mono: "bounded x n \<Longrightarrow> n \<le> m \<Longrightarrow> bounded x m"
proof -
  assume "bounded x n" "n \<le> m"
  moreover from this have "(of_int n :: rat) \<le> of_int m" by simp
  ultimately show ?thesis by (auto simp: bounded_def)
qed

lemma is_length_unit_factor:
  "is_length_unit (JStr u) \<Longrightarrow> n_lt (Fin 0) (unit_factor METERS_PER_UNIT u) \<and> is_finite (unit_factor METERS_PER_UNIT u)"
proof -
  have "list_all (\<lambda>u. n_lt (Fin 0) (unit_factor METERS_PER_UNIT u) \<and> is_finite (unit_factor METERS_PER_UNIT u)) LENGTH_UNITS"
    by code_simp
  moreover assume "is_length_unit (JStr u)"
  ultimately show ?thesis by (simp add: length_units_listed list_all_iff)
qed

lemma meters_for_nonneg:
  "n_lt (Fin 0) v \<Longrightarrow> is_length_unit (JStr u) \<Longrightarrow> n_le (Fin 0) (meters_for v u)"
  using n_mul_nonneg [of v "unit_factor METERS_PER_UNIT u"] is_length_unit_factor [of u]
  by (auto simp: meters_for_def n_le_def)

subsection \<open>The contract of a tool\<close>

text \<open>The parameters that are stored: the validated ones after the hook of the tool, if it has one.\<close>

definition saved_params :: "tool \<Rightarrow> obj \<Rightarrow> string \<Rightarrow> query \<Rightarrow> obj checked" where
  "saved_params t p src q = (case t_enrich t of None \<Rightarrow> Inr p | Some e \<Rightarrow> e p src q)"

text \<open>What the service relies on. The statement of a tool is a piece whose placeholders are numbered
  from the offset it was given and cover no more than its parameters; its reach is bounded.\<close>

locale tool_generator =
  fixes t :: tool
  assumes statement: "ident a \<Longrightarrow> t_sql t a p off = Inr f \<Longrightarrow> piece off (off + length (sf_params f)) (sf_sql f)"
    and reach: "t_validate t raw ctx = Inr p \<Longrightarrow> bounded (t_reach t p) 1000000"

text \<open>A tool whose stored parameters can be read back: what the validator yields, and what the hook
  makes of it, passes the validator again without the schema and gives a statement.\<close>

locale stored_tool = tool_generator +
  assumes again: "t_validate t raw ctx = Inr p \<Longrightarrow> t_validate t (JObj a p) None = Inr p"
    and enriched: "t_validate t raw ctx = Inr p \<Longrightarrow> saved_params t p src q = Inr p' \<Longrightarrow>
      t_validate t (JObj a p') None = Inr p'"
    and runs: "t_validate t raw ctx = Inr p \<Longrightarrow> \<exists>f. t_sql t alias p off = Inr f"

context stored_tool
begin

text \<open>A step that was saved can be read: it validates, gives a statement, and the statement is in order.\<close>

lemma stored_reads:
  assumes "t_validate t raw ctx = Inr p" and "saved_params t p src q = Inr p'" and "ident al"
  shows "\<exists>f. bind_res (t_validate t (JObj a p') None) (\<lambda>p. t_sql t al p off) = Inr f \<and>
    piece off (off + length (sf_params f)) (sf_sql f)"
proof -
  have v: "t_validate t (JObj a p') None = Inr p'" using enriched assms(1,2) .
  from runs [OF v] obtain f where "t_sql t al p' off = Inr f" by blast
  with v statement [OF assms(3) this] show ?thesis by simp
qed

end

subsection \<open>Proof patterns for statements\<close>

lemma fragment_piece:
  "Inr (fragment s ps) = (Inr f :: sql_fragment checked) \<Longrightarrow> piece lo (lo + length ps) s \<Longrightarrow>
   piece lo (lo + length (sf_params f)) (sf_sql f)"
  by auto

lemma fragment_if:
  "(if b then x else y) = (Inr f :: sql_fragment checked) \<Longrightarrow> (b \<Longrightarrow> x = Inr f \<Longrightarrow> P) \<Longrightarrow> (\<not> b \<Longrightarrow> y = Inr f \<Longrightarrow> P) \<Longrightarrow> P"
  by (auto split: if_splits)


end
