(* ===== verification/ToolsSimple.thy ===== *)
theory ToolsSimple
  imports ToolBase
begin

text \<open>
  The tools of \<open>apps/portal-api/src/derived-layers/tools\<close> that work on the geometry of one layer
  and take at most a few plain parameters: bbox, centroid, convex-hull, vertices, dissolve,
  nearest-neighbor, simplify, densify, top-n, random-sample, buffer, calculate-geometry and
  fishnet. Each has its validator, the hook that runs when the layer is saved (if any), the
  schema it yields, how far it reaches, and the statement it writes.
\<close>

subsection \<open>Tools without parameters\<close>

definition same_schema :: "schema \<Rightarrow> obj \<Rightarrow> schema" where
  "same_schema input p = input"

definition no_reach :: "obj \<Rightarrow> jsnum" where
  "no_reach p = Fin 0"

definition no_deps :: "obj \<Rightarrow> string list" where
  "no_deps p = []"

definition bbox_validate :: "jsval \<Rightarrow> schema option \<Rightarrow> obj checked" where
  "bbox_validate raw ctx = with_object ''bbox'' raw (\<lambda>r. Inr [])"

definition bbox_sql :: "string \<Rightarrow> obj \<Rightarrow> nat \<Rightarrow> sql_fragment checked" where
  "bbox_sql inputAlias p paramOffset = Inr (fragment
     ('' SELECT global_id, ST_SetSRID(ST_Envelope(geom), 4326) AS geom, properties FROM '' @
      inputAlias @ '' WHERE geom IS NOT NULL '') [])"

definition bbox_tool :: tool where
  "bbox_tool = \<lparr> t_kind = ''bbox'', t_validate = bbox_validate, t_enrich = None,
     t_output = same_schema, t_reach = no_reach, t_deps = no_deps, t_sql = bbox_sql \<rparr>"

definition centroid_validate :: "jsval \<Rightarrow> schema option \<Rightarrow> obj checked" where
  "centroid_validate raw ctx = with_object ''centroid'' raw (\<lambda>r. Inr [])"

definition centroid_sql :: "string \<Rightarrow> obj \<Rightarrow> nat \<Rightarrow> sql_fragment checked" where
  "centroid_sql inputAlias p paramOffset = Inr (fragment
     ('' SELECT global_id, ST_SetSRID(ST_Centroid(geom), 4326) AS geom, properties FROM '' @
      inputAlias @ '' WHERE geom IS NOT NULL '') [])"

definition centroid_tool :: tool where
  "centroid_tool = \<lparr> t_kind = ''centroid'', t_validate = centroid_validate, t_enrich = None,
     t_output = same_schema, t_reach = no_reach, t_deps = no_deps, t_sql = centroid_sql \<rparr>"

definition convex_hull_validate :: "jsval \<Rightarrow> schema option \<Rightarrow> obj checked" where
  "convex_hull_validate raw ctx = with_object ''convex-hull'' raw (\<lambda>r. Inr [])"

definition convex_hull_sql :: "string \<Rightarrow> obj \<Rightarrow> nat \<Rightarrow> sql_fragment checked" where
  "convex_hull_sql inputAlias p paramOffset = Inr (fragment
     ('' SELECT global_id, ST_SetSRID(ST_ConvexHull(geom), 4326) AS geom, properties FROM '' @
      inputAlias @ '' WHERE geom IS NOT NULL '') [])"

definition convex_hull_tool :: tool where
  "convex_hull_tool = \<lparr> t_kind = ''convex-hull'', t_validate = convex_hull_validate, t_enrich = None,
     t_output = same_schema, t_reach = no_reach, t_deps = no_deps, t_sql = convex_hull_sql \<rparr>"

definition vertices_validate :: "jsval \<Rightarrow> schema option \<Rightarrow> obj checked" where
  "vertices_validate raw ctx = with_object ''vertices'' raw (\<lambda>r. Inr [])"

definition vertices_output :: "schema \<Rightarrow> obj \<Rightarrow> schema" where
  "vertices_output input p = input @ [field_lit ''vertex_index'' ''Vertex index'' F_number False]"

definition vertices_sql :: "string \<Rightarrow> obj \<Rightarrow> nat \<Rightarrow> sql_fragment checked" where
  "vertices_sql inputAlias p paramOffset = Inr (fragment
     ('' SELECT '' @ inputAlias @ ''.global_id, ST_SetSRID(dp.geom, 4326) AS geom, '' @ inputAlias @
      ''.properties || jsonb_build_object('' @ lit ''vertex_index'' @
      '', dp.vertex_index) AS properties FROM '' @ inputAlias @
      '', LATERAL ( SELECT pt.geom, (ROW_NUMBER() OVER (ORDER BY pt.path)) - 1 AS vertex_index FROM ST_DumpPoints('' @
      inputAlias @ ''.geom) AS pt ) dp WHERE '' @ inputAlias @ ''.geom IS NOT NULL '') [])"

definition vertices_tool :: tool where
  "vertices_tool = \<lparr> t_kind = ''vertices'', t_validate = vertices_validate, t_enrich = None,
     t_output = vertices_output, t_reach = no_reach, t_deps = no_deps, t_sql = vertices_sql \<rparr>"

definition dissolve_validate :: "jsval \<Rightarrow> schema option \<Rightarrow> obj checked" where
  "dissolve_validate raw ctx = with_object ''dissolve'' raw (\<lambda>r. Inr [])"

definition dissolve_output :: "schema \<Rightarrow> obj \<Rightarrow> schema" where
  "dissolve_output input p = []"

definition dissolve_sql :: "string \<Rightarrow> obj \<Rightarrow> nat \<Rightarrow> sql_fragment checked" where
  "dissolve_sql inputAlias p paramOffset = Inr (fragment
     ('' SELECT gen_random_uuid()::text AS global_id, ST_SetSRID(ST_Union(geom), 4326) AS geom, '' @
      lit ''{}'' @ ''::jsonb AS properties FROM '' @ inputAlias @ '' WHERE geom IS NOT NULL '') [])"

definition dissolve_tool :: tool where
  "dissolve_tool = \<lparr> t_kind = ''dissolve'', t_validate = dissolve_validate, t_enrich = None,
     t_output = dissolve_output, t_reach = no_reach, t_deps = no_deps, t_sql = dissolve_sql \<rparr>"

definition nearest_validate :: "jsval \<Rightarrow> schema option \<Rightarrow> obj checked" where
  "nearest_validate raw ctx = with_object ''nearest-neighbor'' raw (\<lambda>r. Inr [])"

definition nearest_output :: "schema \<Rightarrow> obj \<Rightarrow> schema" where
  "nearest_output input p = input @ [field_lit ''nearest_distance_m'' ''Distance to nearest (m)'' F_number True]"

definition nearest_sql :: "string \<Rightarrow> obj \<Rightarrow> nat \<Rightarrow> sql_fragment checked" where
  "nearest_sql inputAlias p paramOffset = Inr (fragment
     ('' SELECT a.global_id, a.geom, a.properties || jsonb_build_object( '' @ lit ''nearest_distance_m'' @
      '', ( SELECT MIN(ST_Distance(a.geom::geography, b.geom::geography)) FROM '' @ inputAlias @
      '' b WHERE b.global_id <> a.global_id AND b.geom IS NOT NULL ) ) AS properties FROM '' @ inputAlias @
      '' a WHERE a.geom IS NOT NULL '') [])"

definition nearest_tool :: tool where
  "nearest_tool = \<lparr> t_kind = ''nearest-neighbor'', t_validate = nearest_validate, t_enrich = None,
     t_output = nearest_output, t_reach = no_reach, t_deps = no_deps, t_sql = nearest_sql \<rparr>"

subsection \<open>Simplify and densify\<close>

definition MAX_SIMPLIFY_METERS :: jsnum where "MAX_SIMPLIFY_METERS = Fin 100000"

definition METERS_PER_DEGREE :: jsnum where "METERS_PER_DEGREE = Fin 111320"

definition simplify_validate :: "jsval \<Rightarrow> schema option \<Rightarrow> obj checked" where
  "simplify_validate raw ctx = with_object ''simplify'' raw (\<lambda>r.
     let tolerance = get r ''tolerance''; unit = unit_or_meters (get r ''unit'') in
     require (fin_num tolerance) ''simplify.params.tolerance must be a finite number'' (
     require (\<not> n_le (num_of tolerance) (Fin 0)) ''simplify.params.tolerance must be greater than 0'' (
     require (\<not> n_lt MAX_SIMPLIFY_METERS (meters_for (num_of tolerance) unit))
       ''simplify.params.tolerance must not exceed 100000 meters'' (
     Inr [(''tolerance'', tolerance), (''unit'', JStr unit)]))))"

definition simplify_sql :: "string \<Rightarrow> obj \<Rightarrow> nat \<Rightarrow> sql_fragment checked" where
  "simplify_sql inputAlias p paramOffset =
     (let toleranceMeters = meters_for (num_of (get p ''tolerance'')) (str_of (get p ''unit''))
      in Inr (fragment
        ('' SELECT global_id, ST_SetSRID(ST_Simplify(geom, '' @ ph (paramOffset + 1) @
         ''), 4326) AS geom, properties FROM '' @ inputAlias @ '' WHERE geom IS NOT NULL '')
        [JNum (n_div toleranceMeters METERS_PER_DEGREE)]))"

definition simplify_tool :: tool where
  "simplify_tool = \<lparr> t_kind = ''simplify'', t_validate = simplify_validate, t_enrich = None,
     t_output = same_schema, t_reach = no_reach, t_deps = no_deps, t_sql = simplify_sql \<rparr>"

definition MAX_SEGMENT_LENGTH_METERS :: jsnum where "MAX_SEGMENT_LENGTH_METERS = Fin 100000"
definition MIN_SEGMENT_LENGTH_METERS :: jsnum where "MIN_SEGMENT_LENGTH_METERS = Fin 1"

definition densify_validate :: "jsval \<Rightarrow> schema option \<Rightarrow> obj checked" where
  "densify_validate raw ctx = with_object ''densify'' raw (\<lambda>r.
     let len = get r ''maxSegmentLength''; unit = unit_or_meters (get r ''unit'');
         meters = meters_for (num_of len) unit in
     require (fin_num len) ''densify.params.maxSegmentLength must be a finite number'' (
     require (\<not> n_lt meters MIN_SEGMENT_LENGTH_METERS)
       ''densify.params.maxSegmentLength must be at least 1 meter'' (
     require (\<not> n_lt MAX_SEGMENT_LENGTH_METERS meters)
       ''densify.params.maxSegmentLength must not exceed 100000 meters'' (
     Inr [(''maxSegmentLength'', len), (''unit'', JStr unit)]))))"

definition densify_sql :: "string \<Rightarrow> obj \<Rightarrow> nat \<Rightarrow> sql_fragment checked" where
  "densify_sql inputAlias p paramOffset =
     Inr (fragment
       ('' SELECT global_id, ST_SetSRID( ST_Segmentize(geom::geography, '' @ ph (paramOffset + 1) @
        '')::geometry, 4326 ) AS geom, properties FROM '' @ inputAlias @ '' WHERE geom IS NOT NULL '')
       [JNum (meters_for (num_of (get p ''maxSegmentLength'')) (str_of (get p ''unit'')))])"

definition densify_tool :: tool where
  "densify_tool = \<lparr> t_kind = ''densify'', t_validate = densify_validate, t_enrich = None,
     t_output = same_schema, t_reach = no_reach, t_deps = no_deps, t_sql = densify_sql \<rparr>"

subsection \<open>Top-n and random sample\<close>

definition MAX_N :: jsnum where "MAX_N = Fin 100000"

definition top_n_validate :: "jsval \<Rightarrow> schema option \<Rightarrow> obj checked" where
  "top_n_validate raw ctx = with_object ''top-n'' raw (\<lambda>r.
     let field = get r ''field''; n = get r ''n'' in
     require (full_str field) ''top-n.params.field is required'' (
     require_number_field (str_of field) ctx ''top-n.params.field'' (
     require (fin_num n \<and> is_integer (num_of n)) ''top-n.params.n must be a positive integer'' (
     require (\<not> n_lt (num_of n) (Fin 1)) ''top-n.params.n must be at least 1'' (
     require (\<not> n_lt MAX_N (num_of n)) ''top-n.params.n must not exceed 100000'' (
     Inr [(''field'', field), (''n'', n),
          (''direction'', JStr (if get r ''direction'' = JStr ''asc'' then ''asc'' else ''desc''))]))))))"

definition top_n_sql :: "string \<Rightarrow> obj \<Rightarrow> nat \<Rightarrow> sql_fragment checked" where
  "top_n_sql inputAlias p paramOffset =
     (let fieldPh = ph (paramOffset + 1); limitPh = ph (paramOffset + 2);
          dir = (if get p ''direction'' = JStr ''asc'' then ''ASC'' else ''DESC'')
      in Inr (fragment
        ('' SELECT global_id, geom, properties FROM '' @ inputAlias @ '' WHERE properties ? '' @ fieldPh @
         '' AND (properties->>'' @ fieldPh @ '') ~ '' @ lit (''^-?[0-9]+('' @ backslash @ ''.[0-9]+)?$'') @
         '' ORDER BY (NULLIF(properties->>'' @ fieldPh @ '', '' @ lit [] @ ''))::double precision '' @ dir @
         '' NULLS LAST LIMIT '' @ limitPh @ '' '')
        [get p ''field'', get p ''n'']))"

definition top_n_tool :: tool where
  "top_n_tool = \<lparr> t_kind = ''top-n'', t_validate = top_n_validate, t_enrich = None,
     t_output = same_schema, t_reach = no_reach, t_deps = no_deps, t_sql = top_n_sql \<rparr>"

definition MAX_COUNT :: jsnum where "MAX_COUNT = Fin 100000"

text \<open>The seed: \<open>Math.floor(Math.abs(rawSeed)) % 2147483647\<close>, with 1 for 0.\<close>

definition sample_seed :: "jsval \<Rightarrow> jsnum" where
  "sample_seed v =
     (let seed = (if fin_num v then n_rem (n_floor (n_abs (num_of v))) (Fin 2147483647) else Fin 0)
      in if seed = Fin 0 then Fin 1 else seed)"

definition random_sample_validate :: "jsval \<Rightarrow> schema option \<Rightarrow> obj checked" where
  "random_sample_validate raw ctx = with_object ''random-sample'' raw (\<lambda>r.
     let mode = (if get r ''mode'' = JStr ''count'' then ''count'' else ''percentage'');
         value = get r ''value'' in
     require (fin_num value \<and> \<not> n_le (num_of value) (Fin 0))
       ''random-sample.params.value must be a positive number'' (
     require (\<not> (mode = ''percentage'' \<and> n_lt (Fin 100) (num_of value)))
       ''random-sample.params.value must be at most 100 in percentage mode'' (
     require (mode = ''count'' \<longrightarrow> is_integer (num_of value))
       ''random-sample.params.value must be an integer in count mode'' (
     require (mode = ''count'' \<longrightarrow> \<not> n_lt MAX_COUNT (num_of value))
       ''random-sample.params.value must not exceed 100000 in count mode'' (
     Inr [(''mode'', JStr mode), (''value'', value), (''seed'', JNum (sample_seed (get r ''seed'')))])))))"

definition random_sample_sql :: "string \<Rightarrow> obj \<Rightarrow> nat \<Rightarrow> sql_fragment checked" where
  "random_sample_sql inputAlias p paramOffset =
     (let seedPh = ph (paramOffset + 1); valPh = ph (paramOffset + 2)
      in Inr (fragment
        (if get p ''mode'' = JStr ''percentage''
         then '' SELECT global_id, geom, properties FROM '' @ inputAlias @ '' WHERE ( ('' @ lit ''x'' @
              '' || substr(md5(global_id::text || '' @ seedPh @
              ''::text), 1, 8))::bit(32)::bigint::double precision / 4294967295.0 ) < ('' @ valPh @
              ''::double precision / 100.0) ''
         else '' SELECT global_id, geom, properties FROM '' @ inputAlias @
              '' ORDER BY md5(global_id::text || '' @ seedPh @ ''::text) LIMIT '' @ valPh @ '' '')
        [get p ''seed'', get p ''value'']))"

definition random_sample_tool :: tool where
  "random_sample_tool = \<lparr> t_kind = ''random-sample'', t_validate = random_sample_validate, t_enrich = None,
     t_output = same_schema, t_reach = no_reach, t_deps = no_deps, t_sql = random_sample_sql \<rparr>"

subsection \<open>The contract\<close>

lemma bbox_statement:
  "ident a \<Longrightarrow> bbox_sql a p off = Inr f \<Longrightarrow> piece off (off + length (sf_params f)) (sf_sql f)"
  unfolding bbox_sql_def Let_def by (erule fragment_piece, intro piece_intros ident_piece) (simp_all add: text_simps)

lemma centroid_statement:
  "ident a \<Longrightarrow> centroid_sql a p off = Inr f \<Longrightarrow> piece off (off + length (sf_params f)) (sf_sql f)"
  unfolding centroid_sql_def Let_def by (erule fragment_piece, intro piece_intros ident_piece) (simp_all add: text_simps)

lemma convex_hull_statement:
  "ident a \<Longrightarrow> convex_hull_sql a p off = Inr f \<Longrightarrow> piece off (off + length (sf_params f)) (sf_sql f)"
  unfolding convex_hull_sql_def Let_def by (erule fragment_piece, intro piece_intros ident_piece) (simp_all add: text_simps)

lemma vertices_statement:
  "ident a \<Longrightarrow> vertices_sql a p off = Inr f \<Longrightarrow> piece off (off + length (sf_params f)) (sf_sql f)"
  unfolding vertices_sql_def Let_def by (erule fragment_piece, intro piece_intros ident_piece) (simp_all add: text_simps)

lemma dissolve_statement:
  "ident a \<Longrightarrow> dissolve_sql a p off = Inr f \<Longrightarrow> piece off (off + length (sf_params f)) (sf_sql f)"
  unfolding dissolve_sql_def Let_def by (erule fragment_piece, intro piece_intros ident_piece) (simp_all add: text_simps)

lemma nearest_statement:
  "ident a \<Longrightarrow> nearest_sql a p off = Inr f \<Longrightarrow> piece off (off + length (sf_params f)) (sf_sql f)"
  unfolding nearest_sql_def Let_def by (erule fragment_piece, intro piece_intros ident_piece) (simp_all add: text_simps)

lemma simplify_statement:
  "ident a \<Longrightarrow> simplify_sql a p off = Inr f \<Longrightarrow> piece off (off + length (sf_params f)) (sf_sql f)"
  unfolding simplify_sql_def Let_def by (erule fragment_piece, intro piece_intros ident_piece) (simp_all add: text_simps)

lemma densify_statement:
  "ident a \<Longrightarrow> densify_sql a p off = Inr f \<Longrightarrow> piece off (off + length (sf_params f)) (sf_sql f)"
  unfolding densify_sql_def Let_def by (erule fragment_piece, intro piece_intros ident_piece) (simp_all add: text_simps)

lemma top_n_statement:
  "ident a \<Longrightarrow> top_n_sql a p off = Inr f \<Longrightarrow> piece off (off + length (sf_params f)) (sf_sql f)"
  unfolding top_n_sql_def Let_def by (erule fragment_piece, intro piece_intros ident_piece) (simp_all add: text_simps backslash_def)

lemma random_sample_statement:
  "ident a \<Longrightarrow> random_sample_sql a p off = Inr f \<Longrightarrow> piece off (off + length (sf_params f)) (sf_sql f)"
  unfolding random_sample_sql_def Let_def by (erule fragment_piece, intro piece_intros ident_piece) (simp_all add: text_simps backslash_def)


lemmas parameterless = with_object_Inr saved_params_def no_reach_def

interpretation bbox: stored_tool bbox_tool
  by unfold_locales (auto simp: bbox_tool_def bbox_validate_def parameterless bbox_statement, simp add: bbox_sql_def)

interpretation centroid: stored_tool centroid_tool
  by unfold_locales (auto simp: centroid_tool_def centroid_validate_def parameterless centroid_statement, simp add: centroid_sql_def)

interpretation convex_hull: stored_tool convex_hull_tool
  by unfold_locales (auto simp: convex_hull_tool_def convex_hull_validate_def parameterless convex_hull_statement, simp add: convex_hull_sql_def)

interpretation vertices: stored_tool vertices_tool
  by unfold_locales (auto simp: vertices_tool_def vertices_validate_def parameterless vertices_statement, simp add: vertices_sql_def)

interpretation dissolve: stored_tool dissolve_tool
  by unfold_locales (auto simp: dissolve_tool_def dissolve_validate_def parameterless dissolve_statement, simp add: dissolve_sql_def)

interpretation nearest: stored_tool nearest_tool
  by unfold_locales (auto simp: nearest_tool_def nearest_validate_def parameterless nearest_statement, simp add: nearest_sql_def)

lemma simplify_again: "simplify_validate raw ctx = Inr p \<Longrightarrow> simplify_validate (JObj a p) None = Inr p"
  by (auto simp: simplify_validate_def with_object_Inr Let_def get_Cons)

lemma densify_again: "densify_validate raw ctx = Inr p \<Longrightarrow> densify_validate (JObj a p) None = Inr p"
  by (auto simp: densify_validate_def with_object_Inr Let_def get_Cons)

lemma top_n_again: "top_n_validate raw ctx = Inr p \<Longrightarrow> top_n_validate (JObj a p) None = Inr p"
  by (auto simp: top_n_validate_def with_object_Inr Let_def get_Cons dest!: require_number_field_Inr)

lemma sample_seed_again: "sample_seed (JNum (sample_seed v)) = sample_seed v"
proof -
  let ?m = "2147483647 :: rat"
  have "\<exists>k. sample_seed v = Fin (of_int k) \<and> 0 < k \<and> k < 2147483647"
  proof (cases "fin_num v")
    case True
    then obtain r where v: "v = JNum (Fin r)" by (auto simp: fin_num_JNum)
    define n where "n = \<lfloor>\<bar>r\<bar>\<rfloor>"
    have n: "0 \<le> n" by (simp add: n_def)
    have "\<lfloor>of_int n / ?m\<rfloor> = n div 2147483647" using floor_divide_of_int_eq [of n 2147483647] by simp
    then have "n_rem (Fin (of_int n)) (Fin ?m) = Fin (of_int (n - 2147483647 * (n div 2147483647)))"
      using n by simp
    then have "n_rem (Fin (of_int n)) (Fin ?m) = Fin (of_int (n mod 2147483647))"
      by (simp add: minus_mult_div_eq_mod)
    then have s: "sample_seed v = (if n mod 2147483647 = 0 then Fin 1 else Fin (of_int (n mod 2147483647)))"
      using v by (simp add: sample_seed_def Let_def n_def)
    show ?thesis
    proof (cases "n mod 2147483647 = 0")
      case True
      with s show ?thesis by (intro exI [of _ 1]) simp
    next
      case False
      with s n show ?thesis by (intro exI [of _ "n mod 2147483647"]) (simp add: pos_mod_sign le_less)
    qed
  next
    case False
    then show ?thesis by (intro exI [of _ 1]) (simp add: sample_seed_def)
  qed
  then obtain k where k: "sample_seed v = Fin (of_int k)" "0 < k" "k < 2147483647" by blast
  have "\<lfloor>of_int k / ?m\<rfloor> = 0" using k by (simp add: floor_eq_iff)
  with k show ?thesis by (simp add: sample_seed_def Let_def)
qed

lemma random_sample_again:
  assumes "random_sample_validate raw ctx = Inr p"
  shows "random_sample_validate (JObj a p) None = Inr p"
proof -
  obtain b r where raw: "raw = JObj b r" using assms by (auto simp: random_sample_validate_def with_object_Inr)
  define m where "m = (if get r ''mode'' = JStr ''count'' then ''count'' else ''percentage'')"
  have m: "(if JStr m = JStr ''count'' then ''count'' else ''percentage'') = m" by (simp add: m_def)
  note v = assms [unfolded raw random_sample_validate_def with_object_JObj Let_def m_def [symmetric] require_Inr]
  then have p: "p = [(''mode'', JStr m), (''value'', get r ''value''), (''seed'', JNum (sample_seed (get r ''seed'')))]"
    by simp
  have g: "get p ''mode'' = JStr m" "get p ''value'' = get r ''value''" "get p ''seed'' = JNum (sample_seed (get r ''seed''))"
    by (simp_all add: p get_Cons)
  show ?thesis
    unfolding random_sample_validate_def with_object_JObj Let_def g m sample_seed_again
    using v unfolding p require_Inr by blast
qed

interpretation simplify: stored_tool simplify_tool
  by unfold_locales (auto simp: simplify_tool_def parameterless simplify_statement intro: simplify_again, simp add: simplify_sql_def Let_def)

interpretation densify: stored_tool densify_tool
  by unfold_locales (auto simp: densify_tool_def parameterless densify_statement intro: densify_again, simp add: densify_sql_def)

interpretation top_n: stored_tool top_n_tool
  by unfold_locales (auto simp: top_n_tool_def parameterless top_n_statement intro: top_n_again, simp add: top_n_sql_def Let_def)

interpretation random_sample: stored_tool random_sample_tool
  by unfold_locales (auto simp: random_sample_tool_def parameterless random_sample_statement intro: random_sample_again,
    simp add: random_sample_sql_def Let_def)

end
