(* ===== verification/ToolsMetric.thy ===== *)
theory ToolsMetric
  imports ToolsSimple
begin

text \<open>
  The tools that measure: buffer, calculate-geometry and fishnet, of
  \<open>apps/portal-api/src/derived-layers/tools\<close>. Buffer and fishnet query the source when a layer is
  saved; the rows of that query are a parameter.
\<close>

subsection \<open>Numbers that come from the database\<close>

text \<open>\<open>Number.parseFloat\<close>: the longest prefix that is a number.\<close>

definition parse_float :: "string \<Rightarrow> jsnum" where
  "parse_float str =
     (let s = dropWhile is_space str;
          ng = (s \<noteq> [] \<and> hd s = CHR ''-'');
          b = (if s \<noteq> [] \<and> (hd s = CHR ''-'' \<or> hd s = CHR ''+'') then tl s else s)
      in if starts_with ''Infinity'' b then (if ng then NInf else PInf)
         else case filter (\<lambda>k. unsigned_decimal (take k b) \<noteq> None) (rev [0 ..< Suc (length b)]) of
                [] \<Rightarrow> NaN
              | k # _ \<Rightarrow> signed_num ng (take k b))"

text \<open>\<open>Math.min\<close> of two numbers.\<close>

definition n_min :: "jsnum \<Rightarrow> jsnum \<Rightarrow> jsnum" where
  "n_min a b = (if a = NaN \<or> b = NaN then NaN else if n_lt b a then b else a)"

subsection \<open>Buffer\<close>

definition MAX_BUFFER_DISTANCE_METERS :: jsnum where "MAX_BUFFER_DISTANCE_METERS = Fin 100000"

definition NUMERIC_TEXT_REGEX_LITERAL :: string where
  "NUMERIC_TEXT_REGEX_LITERAL = lit (''^-?([0-9]+'' @ backslash @ ''.?[0-9]*|'' @ backslash @ ''.[0-9]+)([eE][+-]?[0-9]+)?$'')"

definition resolve_unit :: "jsval \<Rightarrow> string checked" where
  "resolve_unit raw =
     (if raw = Undef then Inr ''meters''
      else require (is_length_unit raw)
        ''buffer.params.unit must be one of meters / kilometers / feet / yards / miles'' (Inr (str_of raw)))"

definition buffer_mode :: "jsval \<Rightarrow> string checked" where
  "buffer_mode rawMode =
     (if rawMode = JStr ''field'' then Inr ''field''
      else require (rawMode = JStr ''fixed'' \<or> rawMode = Undef)
        (''buffer.params.mode must be '' @ lit ''fixed'' @ '' or '' @ lit ''field'') (Inr ''fixed''))"

definition buffer_fixed :: "obj \<Rightarrow> string \<Rightarrow> obj checked" where
  "buffer_fixed r unit =
     (let distance = get r ''distance'' in
      require (fin_num distance) ''buffer.params.distance must be a finite number'' (
      require (\<not> n_le (num_of distance) (Fin 0)) ''buffer.params.distance must be greater than 0'' (
      require (\<not> n_lt MAX_BUFFER_DISTANCE_METERS (meters_for (num_of distance) unit))
        ''buffer.params.distance must not exceed 100000 meters'' (
      Inr [(''mode'', JStr ''fixed''), (''distance'', distance), (''unit'', JStr unit)]))))"

definition cached_max :: "jsval \<Rightarrow> jsnum" where
  "cached_max rawCap =
     (if fin_num rawCap \<and> n_lt (Fin 0) (num_of rawCap)
      then n_min (num_of rawCap) MAX_BUFFER_DISTANCE_METERS else Fin 0)"

definition buffer_field :: "obj \<Rightarrow> string \<Rightarrow> schema option \<Rightarrow> obj checked" where
  "buffer_field r unit ctx =
     (let field = get r ''field'' in
      require (full_str field) (''buffer.params.field is required when mode is '' @ lit ''field'') (
      require_number_field (str_of field) ctx ''buffer.params.field'' (
      Inr [(''mode'', JStr ''field''), (''field'', field), (''unit'', JStr unit),
           (''cachedMaxMeters'', JNum (cached_max (get r ''cachedMaxMeters'')))])))"

text \<open>The validator accepts arrays, whose named properties are all undefined.\<close>

definition buffer_validate :: "jsval \<Rightarrow> schema option \<Rightarrow> obj checked" where
  "buffer_validate raw ctx =
     require (is_object_like raw) ''buffer.params must be an object'' (
       let r = (case raw of JObj _ m \<Rightarrow> m | _ \<Rightarrow> []) in
       bind_res (resolve_unit (get r ''unit'')) (\<lambda>unit.
       bind_res (buffer_mode (get r ''mode'')) (\<lambda>mode.
         if mode = ''fixed'' then buffer_fixed r unit else buffer_field r unit ctx)))"

text \<open>The largest value of the field, as the database returns it: a number or a text.\<close>

definition max_value_sql :: "string \<Rightarrow> string" where
  "max_value_sql sourceTable =
     '' SELECT COALESCE( MAX( (NULLIF(properties->>$1, '' @ lit [] @
     ''))::double precision ), 0 ) AS max_value FROM '' @ sourceTable @
     '' WHERE properties ? $1 AND (properties->>$1) ~ '' @ NUMERIC_TEXT_REGEX_LITERAL @ '' ''"

definition numeric_of :: "jsval \<Rightarrow> jsnum" where
  "numeric_of raw = (case raw of JNum n \<Rightarrow> n | JStr s \<Rightarrow> parse_float s | _ \<Rightarrow> Fin 0)"

definition first_row :: "obj list \<Rightarrow> obj" where
  "first_row rows = (case rows of [] \<Rightarrow> [] | r # _ \<Rightarrow> r)"

definition buffer_enrich :: "obj \<Rightarrow> string \<Rightarrow> query \<Rightarrow> obj checked" where
  "buffer_enrich p sourceTable queryRaw =
     (if get p ''mode'' \<noteq> JStr ''field'' then Inr p
      else let rows = queryRaw (max_value_sql sourceTable) [get p ''field''];
               numeric = numeric_of (get (first_row rows) ''max_value'');
               safeNumeric = (if is_finite numeric \<and> n_lt (Fin 0) numeric then numeric else Fin 0)
           in Inr (obj_set ''cachedMaxMeters''
                (JNum (n_min (meters_for safeNumeric (str_of (get p ''unit''))) MAX_BUFFER_DISTANCE_METERS)) p))"

definition buffer_reach :: "obj \<Rightarrow> jsnum" where
  "buffer_reach p =
     (if get p ''mode'' = JStr ''fixed''
      then meters_for (num_of (get p ''distance'')) (str_of (get p ''unit''))
      else num_of (get p ''cachedMaxMeters''))"

definition buffer_sql :: "string \<Rightarrow> obj \<Rightarrow> nat \<Rightarrow> sql_fragment checked" where
  "buffer_sql inputAlias p paramOffset =
     (let unit = str_of (get p ''unit'') in
      if get p ''mode'' = JStr ''fixed''
      then Inr (fragment
        ('' SELECT global_id, ST_SetSRID( ST_Buffer(geom::geography, '' @ ph (paramOffset + 1) @
         '')::geometry, 4326 ) AS geom, properties FROM '' @ inputAlias @ '' WHERE geom IS NOT NULL '')
        [JNum (meters_for (num_of (get p ''distance'')) unit)])
      else let fieldPh = ph (paramOffset + 1); factorPh = ph (paramOffset + 2); capPh = ph (paramOffset + 3)
      in Inr (fragment
        ('' SELECT global_id, ST_SetSRID( ST_Buffer( geom::geography, LEAST( GREATEST( (NULLIF(properties->>'' @
         fieldPh @ '', '' @ lit [] @ ''))::double precision * '' @ factorPh @ '', 0 ), '' @ capPh @
         '' ) )::geometry, 4326 ) AS geom, properties FROM '' @ inputAlias @
         '' WHERE geom IS NOT NULL AND properties ? '' @ fieldPh @ '' AND (properties->>'' @ fieldPh @
         '') ~ '' @ NUMERIC_TEXT_REGEX_LITERAL @ '' '')
        [get p ''field'', JNum (unit_factor METERS_PER_UNIT unit), get p ''cachedMaxMeters'']))"

definition buffer_tool :: tool where
  "buffer_tool = \<lparr> t_kind = ''buffer'', t_validate = buffer_validate, t_enrich = Some buffer_enrich,
     t_output = same_schema, t_reach = buffer_reach, t_deps = no_deps, t_sql = buffer_sql \<rparr>"

subsection \<open>Calculate geometry\<close>

definition MAX_FIELD_NAME_LENGTH :: nat where "MAX_FIELD_NAME_LENGTH = 60"

definition RESERVED_FIELD_NAMES :: "string list" where
  "RESERVED_FIELD_NAMES =
     [''_global_id'', ''_created_by'', ''_created_at'', ''_edited_by'', ''_edited_at'',
      ''_observation_id'', ''global_id'']"

text \<open>The checks of a new column name: \<open>/^[a-z_][a-z0-9_]*$/i\<close> is the pattern of safe names.\<close>

definition require_column_name :: "jsval \<Rightarrow> string \<Rightarrow> schema option \<Rightarrow> 'a checked \<Rightarrow> 'a checked" where
  "require_column_name name what ctx k =
     require (full_str name) (what @ '' is required'') (
     require (length (str_of name) \<le> MAX_FIELD_NAME_LENGTH) (what @ '' must be 60 characters or fewer'') (
     require (sql_safe_re (str_of name))
       (what @ '' must start with a letter or underscore and contain only letters, numbers, and underscores'') (
     require (str_of name \<notin> set RESERVED_FIELD_NAMES) (what @ '' is reserved'') (
     require_new_field (str_of name) ctx (what @ '' already exists on the source schema'') k))))"

definition calculate_geometry_validate :: "jsval \<Rightarrow> schema option \<Rightarrow> obj checked" where
  "calculate_geometry_validate raw ctx = with_object ''calculate-geometry'' raw (\<lambda>r.
     let measurement = get r ''measurement''; fieldName = get r ''fieldName''; unit = get r ''unit'' in
     require (measurement \<in> {JStr ''length'', JStr ''perimeter'', JStr ''area''})
       (''calculate-geometry.params.measurement must be '' @ lit ''length'' @ '', '' @ lit ''perimeter'' @
        '', or '' @ lit ''area'') (
     require_column_name fieldName ''calculate-geometry.params.fieldName'' ctx (
     require (if measurement = JStr ''area'' then is_area_unit unit else is_length_unit unit)
       (if measurement = JStr ''area''
        then ''calculate-geometry.params.unit must be one of square-meters / square-kilometers / hectares / square-feet / square-yards / acres / square-miles for area''
        else ''calculate-geometry.params.unit must be one of meters / kilometers / feet / yards / miles for length'') (
     Inr [(''measurement'', measurement), (''unit'', unit), (''fieldName'', fieldName)]))))"

definition calculate_geometry_output :: "schema \<Rightarrow> obj \<Rightarrow> schema" where
  "calculate_geometry_output input p =
     (let n = str_of (get p ''fieldName'') in input @ [field_lit n n F_number True])"

text \<open>The PostGIS function of a measurement, over geography, and the factor of its unit.\<close>

definition measurement_sql :: "obj \<Rightarrow> string \<Rightarrow> string" where
  "measurement_sql p inputAlias =
     (if get p ''measurement'' = JStr ''area'' then ''ST_Area('' @ inputAlias @ ''.geom::geography)''
      else if get p ''measurement'' = JStr ''perimeter''
      then ''ST_Length(ST_Boundary('' @ inputAlias @ ''.geom)::geography)''
      else ''ST_Length('' @ inputAlias @ ''.geom::geography)'')"

definition measurement_factor :: "obj \<Rightarrow> jsnum" where
  "measurement_factor p =
     unit_factor (if get p ''measurement'' = JStr ''area'' then SQ_METERS_PER_AREA_UNIT else METERS_PER_UNIT)
       (str_of (get p ''unit''))"

definition calculate_geometry_sql :: "string \<Rightarrow> obj \<Rightarrow> nat \<Rightarrow> sql_fragment checked" where
  "calculate_geometry_sql inputAlias p paramOffset =
     (let fieldPh = ph (paramOffset + 1); factorPh = ph (paramOffset + 2)
      in Inr (fragment
        ('' SELECT '' @ inputAlias @ ''.global_id, '' @ inputAlias @ ''.geom, '' @ inputAlias @
         ''.properties || jsonb_build_object( '' @ fieldPh @ '', ('' @ measurement_sql p inputAlias @ '') / '' @ factorPh @
         ''::double precision ) AS properties FROM '' @ inputAlias @ '' WHERE '' @ inputAlias @
         ''.geom IS NOT NULL '')
        [get p ''fieldName'', JNum (measurement_factor p)]))"

definition calculate_geometry_tool :: tool where
  "calculate_geometry_tool = \<lparr> t_kind = ''calculate-geometry'', t_validate = calculate_geometry_validate,
     t_enrich = None, t_output = calculate_geometry_output, t_reach = no_reach, t_deps = no_deps,
     t_sql = calculate_geometry_sql \<rparr>"

subsection \<open>Fishnet\<close>

definition MIN_CELL_METERS :: jsnum where "MIN_CELL_METERS = Fin 1"
definition MAX_CELL_METERS :: jsnum where "MAX_CELL_METERS = Fin 100000"
definition MAX_CELLS_PER_RECIPE :: jsnum where "MAX_CELLS_PER_RECIPE = Fin 1000000"

definition fishnet_validate :: "jsval \<Rightarrow> schema option \<Rightarrow> obj checked" where
  "fishnet_validate raw ctx = with_object ''fishnet'' raw (\<lambda>r.
     let cellSize = get r ''cellSize''; unit = unit_or_meters (get r ''unit'');
         meters = meters_for (num_of cellSize) unit in
     require (fin_num cellSize) ''fishnet.params.cellSize must be a finite number'' (
     require (\<not> n_lt meters MIN_CELL_METERS) ''fishnet.params.cellSize must be at least 1 meter'' (
     require (\<not> n_lt MAX_CELL_METERS meters) ''fishnet.params.cellSize must not exceed 100000 meters'' (
     Inr [(''cellSize'', cellSize), (''unit'', JStr unit),
          (''output'', JStr (if get r ''output'' = JStr ''lines'' then ''lines'' else ''polygons''))]))))"

text \<open>\<open>num(v)\<close>: a coordinate of the extent, \<open>null\<close> when there is none.\<close>

definition extent_num :: "jsval \<Rightarrow> jsnum option" where
  "extent_num v =
     (if nullish v then None
      else let n = (case v of JNum n \<Rightarrow> n | _ \<Rightarrow> parse_float (str_of v))
           in if is_finite n then Some n else None)"

definition extent_sql :: "string \<Rightarrow> string" where
  "extent_sql sourceTable =
     '' WITH ext AS ( SELECT ST_Extent(geom) AS box FROM '' @ sourceTable @
     '' WHERE geom IS NOT NULL ) SELECT ST_XMin(box) AS xmin, ST_YMin(box) AS ymin, ST_XMax(box) AS xmax, ST_YMax(box) AS ymax FROM ext ''"

definition estimated_cells :: "jsnum \<Rightarrow> jsnum \<Rightarrow> jsnum \<Rightarrow> jsnum \<Rightarrow> jsnum \<Rightarrow> jsnum" where
  "estimated_cells cellMeters xmin ymin xmax ymax =
     (let widthMeters = n_mul (n_abs (n_sub xmax xmin)) METERS_PER_DEGREE;
          heightMeters = n_mul (n_abs (n_sub ymax ymin)) METERS_PER_DEGREE
      in n_div (n_mul widthMeters heightMeters) (n_mul cellMeters cellMeters))"

definition fishnet_enrich :: "obj \<Rightarrow> string \<Rightarrow> query \<Rightarrow> obj checked" where
  "fishnet_enrich p sourceTable queryRaw =
     (let cellMeters = meters_for (num_of (get p ''cellSize'')) (str_of (get p ''unit'')) in
      if n_le cellMeters (Fin 0) then Inr p
      else case queryRaw (extent_sql sourceTable) [] of
             [] \<Rightarrow> Inr p
           | ext # _ \<Rightarrow>
               (case (extent_num (get ext ''xmin''), extent_num (get ext ''ymin''),
                      extent_num (get ext ''xmax''), extent_num (get ext ''ymax'')) of
                  (Some xmin, Some ymin, Some xmax, Some ymax) \<Rightarrow>
                    if n_le (n_mul cellMeters cellMeters) (Fin 0) then Inr p
                    else require (\<not> n_lt MAX_CELLS_PER_RECIPE (estimated_cells cellMeters xmin ymin xmax ymax))
                      ''fishnet would generate too many cells'' (Inr p)
                | _ \<Rightarrow> Inr p))"

definition fishnet_output :: "schema \<Rightarrow> obj \<Rightarrow> schema" where
  "fishnet_output input p =
     [field_lit ''cell_row'' ''Row'' F_number False, field_lit ''cell_col'' ''Column'' F_number False]"

definition fishnet_sql :: "string \<Rightarrow> obj \<Rightarrow> nat \<Rightarrow> sql_fragment checked" where
  "fishnet_sql inputAlias p paramOffset =
     (let cellPh = ph (paramOffset + 1);
          meters = meters_for (num_of (get p ''cellSize'')) (str_of (get p ''unit''));
          cell = (if get p ''output'' = JStr ''polygons'' then ''grid.geom'' else ''ST_Boundary(grid.geom)'')
      in Inr (fragment
        ('' SELECT gen_random_uuid()::text AS global_id, ST_SetSRID( ST_Intersection('' @ cell @ '', '' @ inputAlias @
         ''.geom), 4326 ) AS geom, jsonb_build_object('' @ lit ''cell_row'' @ '', grid.j, '' @ lit ''cell_col'' @
         '', grid.i) AS properties FROM '' @ inputAlias @ '', LATERAL ST_SquareGrid('' @ cellPh @ '', '' @ inputAlias @
         ''.geom) AS grid WHERE '' @ inputAlias @ ''.geom IS NOT NULL AND ST_Intersects(grid.geom, '' @ inputAlias @
         ''.geom) '')
        [JNum (n_div meters METERS_PER_DEGREE)]))"

definition fishnet_tool :: tool where
  "fishnet_tool = \<lparr> t_kind = ''fishnet'', t_validate = fishnet_validate, t_enrich = Some fishnet_enrich,
     t_output = fishnet_output, t_reach = no_reach, t_deps = no_deps, t_sql = fishnet_sql \<rparr>"

subsection \<open>The contract\<close>

lemma buffer_statement:
  "ident a \<Longrightarrow> buffer_sql a p off = Inr f \<Longrightarrow> piece off (off + length (sf_params f)) (sf_sql f)"
  unfolding buffer_sql_def Let_def NUMERIC_TEXT_REGEX_LITERAL_def
  by (erule fragment_if; erule fragment_piece, intro piece_intros ident_piece) (simp_all add: text_simps backslash_def)

lemma calculate_geometry_statement:
  "ident a \<Longrightarrow> calculate_geometry_sql a p off = Inr f \<Longrightarrow> piece off (off + length (sf_params f)) (sf_sql f)"
  unfolding calculate_geometry_sql_def Let_def measurement_sql_def
  by (erule fragment_piece, intro piece_intros ident_piece) (simp_all add: text_simps)

lemma fishnet_statement:
  "ident a \<Longrightarrow> fishnet_sql a p off = Inr f \<Longrightarrow> piece off (off + length (sf_params f)) (sf_sql f)"
  unfolding fishnet_sql_def Let_def by (erule fragment_piece, intro piece_intros ident_piece) (simp_all add: text_simps)

lemma calculate_geometry_again:
  "calculate_geometry_validate raw ctx = Inr p \<Longrightarrow> calculate_geometry_validate (JObj a p) None = Inr p"
  by (auto simp: calculate_geometry_validate_def with_object_Inr Let_def get_Cons require_column_name_def
      dest!: require_new_field_Inr)

lemma fishnet_again: "fishnet_validate raw ctx = Inr p \<Longrightarrow> fishnet_validate (JObj a p) None = Inr p"
  by (auto simp: fishnet_validate_def with_object_Inr Let_def get_Cons)

lemma fishnet_enrich_same: "fishnet_enrich p src q = Inr p' \<Longrightarrow> p' = p"
  by (auto simp: fishnet_enrich_def Let_def split: if_splits list.splits option.splits)

lemma resolve_unit_Inr: "resolve_unit v = Inr u \<Longrightarrow> is_length_unit (JStr u) \<and> resolve_unit (JStr u) = Inr u"
  by (auto simp: resolve_unit_def split: if_splits)

lemma n_min_bounded: "n_le (Fin 0) x \<Longrightarrow> 0 \<le> n \<Longrightarrow> bounded (n_min x (Fin (of_int n))) n"
  by (cases x) (auto simp: bounded_def n_min_def n_le_def)

lemma cached_max_bounded: "bounded (cached_max v) 100000"
  using n_min_bounded [of "num_of v" 100000]
  by (auto simp: cached_max_def MAX_BUFFER_DISTANCE_METERS_def n_le_def)

lemma cached_max_fixed: "bounded x 100000 \<Longrightarrow> cached_max (JNum x) = x"
  by (auto simp: bounded_def cached_max_def n_min_def MAX_BUFFER_DISTANCE_METERS_def)

text \<open>What the buffer validator yields, in either mode.\<close>

lemma buffer_validate_cases:
  assumes "buffer_validate raw ctx = Inr p"
  obtains (fixed) d u where "p = [(''mode'', JStr ''fixed''), (''distance'', d), (''unit'', JStr u)]"
      "is_length_unit (JStr u)" "fin_num d" "\<not> n_le (num_of d) (Fin 0)"
      "\<not> n_lt MAX_BUFFER_DISTANCE_METERS (meters_for (num_of d) u)"
    | (field) f u c where "p = [(''mode'', JStr ''field''), (''field'', f), (''unit'', JStr u), (''cachedMaxMeters'', JNum c)]"
      "is_length_unit (JStr u)" "full_str f" "bounded c 100000"
proof -
  define r where "r = (case raw of JObj _ m \<Rightarrow> m | _ \<Rightarrow> [])"
  from assms obtain u m where u: "resolve_unit (get r ''unit'') = Inr u"
    and m: "(if m = ''fixed'' then buffer_fixed r u else buffer_field r u ctx) = Inr p"
    by (auto simp: buffer_validate_def r_def [symmetric] Let_def bind_res_Inr)
  note lu = resolve_unit_Inr [OF u, THEN conjunct1]
  show thesis
  proof (cases "m = ''fixed''")
    case True
    with m fixed lu show ?thesis by (auto simp: buffer_fixed_def Let_def)
  next
    case False
    with m field lu cached_max_bounded show ?thesis
      by (auto simp: buffer_field_def Let_def dest!: require_number_field_Inr)
  qed
qed

lemma buffer_validate_fixed:
  assumes "is_length_unit (JStr u)" "fin_num d" "\<not> n_le (num_of d) (Fin 0)"
    "\<not> n_lt MAX_BUFFER_DISTANCE_METERS (meters_for (num_of d) u)"
  shows "buffer_validate (JObj a [(''mode'', JStr ''fixed''), (''distance'', d), (''unit'', JStr u)]) None =
    Inr [(''mode'', JStr ''fixed''), (''distance'', d), (''unit'', JStr u)]"
  using assms by (simp add: buffer_validate_def is_object_like_def resolve_unit_def buffer_mode_def buffer_fixed_def get_Cons)

lemma buffer_validate_field:
  assumes "is_length_unit (JStr u)" "full_str f" "bounded c 100000"
  shows "buffer_validate (JObj a [(''mode'', JStr ''field''), (''field'', f), (''unit'', JStr u), (''cachedMaxMeters'', JNum c)]) None =
    Inr [(''mode'', JStr ''field''), (''field'', f), (''unit'', JStr u), (''cachedMaxMeters'', JNum c)]"
  using assms by (simp add: buffer_validate_def is_object_like_def resolve_unit_def buffer_mode_def buffer_field_def
      get_Cons cached_max_fixed)

lemma buffer_again: "buffer_validate raw ctx = Inr p \<Longrightarrow> buffer_validate (JObj a p) None = Inr p"
  by (erule buffer_validate_cases) (simp_all add: buffer_validate_fixed buffer_validate_field)

lemma buffer_enriched:
  assumes "buffer_validate raw ctx = Inr p" and "buffer_enrich p src q = Inr p'"
  shows "buffer_validate (JObj a p') None = Inr p'"
  using assms(1)
proof (cases rule: buffer_validate_cases)
  case (fixed d u)
  then have "p' = p" using assms(2) by (simp add: buffer_enrich_def get_Cons)
  then show ?thesis using assms(1) buffer_again by blast
next
  case (field f u c)
  define v where "v = numeric_of (get (first_row (q (max_value_sql src) [f])) ''max_value'')"
  define s where "s = (if is_finite v \<and> n_lt (Fin 0) v then v else Fin 0)"
  define m where "m = n_min (meters_for s u) MAX_BUFFER_DISTANCE_METERS"
  have "p' = [(''mode'', JStr ''field''), (''field'', f), (''unit'', JStr u), (''cachedMaxMeters'', JNum m)]"
    using assms(2) field(1) by (auto simp: buffer_enrich_def Let_def get_Cons v_def s_def m_def)
  moreover have "n_le (Fin 0) (meters_for s u)"
  proof (cases "s = Fin 0")
    case True
    then show ?thesis using is_length_unit_factor [OF field(2)]
      by (cases "unit_factor METERS_PER_UNIT u") (auto simp: meters_for_def fl_def n_le_def)
  next
    case False
    then show ?thesis using meters_for_nonneg [OF _ field(2), of s] by (auto simp: s_def split: if_splits)
  qed
  then have "bounded m 100000" using n_min_bounded [of "meters_for s u" 100000]
    by (simp add: m_def MAX_BUFFER_DISTANCE_METERS_def)
  ultimately show ?thesis using field by (simp add: buffer_validate_field)
qed

lemma buffer_bounded: "buffer_validate raw ctx = Inr p \<Longrightarrow> bounded (buffer_reach p) 1000000"
proof (erule buffer_validate_cases)
  fix d u
  assume p: "p = [(''mode'', JStr ''fixed''), (''distance'', d), (''unit'', JStr u)]" and
    v: "is_length_unit (JStr u)" "fin_num d" "\<not> n_le (num_of d) (Fin 0)"
    "\<not> n_lt MAX_BUFFER_DISTANCE_METERS (meters_for (num_of d) u)"
  have "n_lt (Fin 0) (num_of d)" using v(2,3) by (auto simp: fin_num_JNum)
  from bounded_between [OF meters_for_nonneg [OF this v(1)], of 100000] v(4)
  have "bounded (meters_for (num_of d) u) 100000" by (simp add: MAX_BUFFER_DISTANCE_METERS_def)
  then show ?thesis by (simp add: buffer_reach_def p get_Cons bounded_mono)
next
  fix f u c
  assume "p = [(''mode'', JStr ''field''), (''field'', f), (''unit'', JStr u), (''cachedMaxMeters'', JNum c)]"
    and "bounded c 100000"
  then show ?thesis by (simp add: buffer_reach_def get_Cons bounded_mono)
qed

interpretation buffer: stored_tool buffer_tool
proof unfold_locales
  fix raw ctx p src q p' and a :: nat
  assume "t_validate buffer_tool raw ctx = Inr p" "saved_params buffer_tool p src q = Inr p'"
  then show "t_validate buffer_tool (JObj a p') None = Inr p'"
    using buffer_enriched by (simp add: buffer_tool_def saved_params_def)
qed (simp_all add: buffer_tool_def buffer_statement buffer_bounded buffer_again, simp add: buffer_sql_def Let_def)

interpretation calculate_geometry: stored_tool calculate_geometry_tool
  by unfold_locales (auto simp: calculate_geometry_tool_def parameterless calculate_geometry_statement
    intro: calculate_geometry_again, simp add: calculate_geometry_sql_def Let_def)

interpretation fishnet: stored_tool fishnet_tool
  by unfold_locales (auto simp: fishnet_tool_def parameterless fishnet_statement intro: fishnet_again
    dest!: fishnet_enrich_same, simp add: fishnet_sql_def Let_def)

end
