(* ===== verification/ToolsExpr.thy ===== *)
theory ToolsExpr
  imports ToolsMetric SqlGrammar
begin

text \<open>
  The tools that work on attributes: filter and calculate-field, which compile an expression of
  the user into SQL, and aggregate, which groups rows; of \<open>apps/portal-api/src/derived-layers/tools\<close>.
  The parser always returns (\<open>parse_expression_returns\<close>), so the value \<open>None\<close> of the model, no result
  within the fuel, never occurs and is mapped to \<open>Type_error\<close> like every other exception that is
  not a \<open>BadRequestException\<close>.
\<close>

subsection \<open>Columns and expressions\<close>

text \<open>The text of a column; the code's \<open>columnForField\<close> throws for a name that is not safe.\<close>

definition column_text :: "schema \<Rightarrow> string \<Rightarrow> string" where
  "column_text sch fieldName =
     (let raw = ''(properties->>'' @ lit fieldName @ '')'' in
      case map_option ff_type (find_field fieldName sch) of
        Some F_number \<Rightarrow> ''NULLIF('' @ raw @ '', '' @ lit [] @ '')::double precision''
      | Some F_boolean \<Rightarrow> ''('' @ raw @ ''::boolean)''
      | _ \<Rightarrow> raw)"

definition compile_columns :: "string \<Rightarrow> sql_expr \<Rightarrow> schema \<Rightarrow> nat \<Rightarrow> compile_result checked" where
  "compile_columns kind e sch paramOffset =
     require (list_all is_sql_safe_field_name (collect_field_refs e)) (kind @ '' field must be a safe name'')
       (Inr (compile_expression e (column_text sch) paramOffset))"

definition parse_checked :: "string \<Rightarrow> string \<Rightarrow> sql_expr checked" where
  "parse_checked kind src =
     (case parse_expression src of
        None \<Rightarrow> Inl Type_error
      | Some (Inl err) \<Rightarrow> Inl (Bad_request (kind @ ''.params.expression: '' @ xe_message err))
      | Some (Inr e) \<Rightarrow> Inr e)"

text \<open>At read time an \<open>ExpressionError\<close> is not turned into a bad request.\<close>

definition parse_again :: "string \<Rightarrow> sql_expr checked" where
  "parse_again src = (case parse_expression src of Some (Inr e) \<Rightarrow> Inr e | _ \<Rightarrow> Inl Type_error)"

definition MAX_EXPRESSION_LENGTH :: nat where "MAX_EXPRESSION_LENGTH = 2000"

text \<open>The check against the schema; \<open>tyf\<close> maps the type of a field to the type of a reference.\<close>

definition check_expression :: "string \<Rightarrow> (field_type \<Rightarrow> ref_type) \<Rightarrow> sql_expr \<Rightarrow> schema option \<Rightarrow> 'a checked \<Rightarrow> 'a checked" where
  "check_expression kind tyf e ctx k =
     (case ctx of
        None \<Rightarrow> k
      | Some sch \<Rightarrow>
          (case validate_expression e (map (\<lambda>f. \<lparr> fr_name = ff_name f, fr_type = tyf (ff_type f) \<rparr>) sch) of
             None \<Rightarrow> Inl Type_error
           | Some errors \<Rightarrow> require (errors = []) (kind @ ''.params.expression: '' @ join ''; '' errors) k))"

definition with_expression ::
  "string \<Rightarrow> (field_type \<Rightarrow> ref_type) \<Rightarrow> jsval \<Rightarrow> schema option \<Rightarrow> 'a checked \<Rightarrow> 'a checked" where
  "with_expression kind tyf expression ctx k =
     require (is_str expression) (kind @ ''.params.expression must be a string'') (
     require (trim (str_of expression) \<noteq> []) (kind @ ''.params.expression cannot be empty'') (
     require (length (str_of expression) \<le> MAX_EXPRESSION_LENGTH)
       (kind @ ''.params.expression must be at most 2000 characters'') (
     bind_res (parse_checked kind (str_of expression)) (\<lambda>ast. check_expression kind tyf ast ctx k))))"

subsection \<open>Filter\<close>

definition filter_validate :: "jsval \<Rightarrow> schema option \<Rightarrow> obj checked" where
  "filter_validate raw ctx = with_object ''filter'' raw (\<lambda>r.
     with_expression ''filter'' field_ref_type_for (get r ''expression'') ctx
       (Inr [(''expression'', get r ''expression'')]))"

definition filter_sql :: "string \<Rightarrow> obj \<Rightarrow> nat \<Rightarrow> sql_fragment checked" where
  "filter_sql inputAlias p paramOffset =
     bind_res (parse_again (str_of (get p ''expression''))) (\<lambda>ast.
     bind_res (compile_columns ''filter'' ast
                (map (\<lambda>name. field_lit name name F_string True) (collect_field_refs ast)) paramOffset) (\<lambda>compiled.
       Inr (fragment
         ('' SELECT '' @ inputAlias @ ''.global_id, '' @ inputAlias @ ''.geom, '' @ inputAlias @
          ''.properties FROM '' @ inputAlias @ '' WHERE '' @ cr_sql compiled @ '' '')
         (map JStr (cr_params compiled)))))"

definition filter_tool :: tool where
  "filter_tool = \<lparr> t_kind = ''filter'', t_validate = filter_validate, t_enrich = None,
     t_output = same_schema, t_reach = no_reach, t_deps = no_deps, t_sql = filter_sql \<rparr>"

subsection \<open>Calculate field\<close>

text \<open>The code only casts the type of a field (\<open>f.type as ...\<close>): a list stays the text
  \<open>multi_select\<close>, for which the checker has no rule.\<close>

definition cast_field_type :: "field_type \<Rightarrow> ref_type" where
  "cast_field_type t = (if t = F_multi_select then R_multi else field_ref_type_for t)"

definition output_type :: "jsval \<Rightarrow> field_type" where
  "output_type v = (if v = JStr ''number'' then F_number else if v = JStr ''boolean'' then F_boolean else F_string)"

definition calculate_field_validate :: "jsval \<Rightarrow> schema option \<Rightarrow> obj checked" where
  "calculate_field_validate raw ctx = with_object ''calculate-field'' raw (\<lambda>r.
     let outputName = get r ''outputName''; outputType = get r ''outputType'' in
     require_column_name outputName ''calculate-field.params.outputName'' ctx (
     require (outputType \<in> {JStr ''number'', JStr ''string'', JStr ''boolean''})
       (''calculate-field.params.outputType must be '' @ lit ''number'' @ '', '' @ lit ''string'' @ '', or '' @ lit ''boolean'') (
     with_expression ''calculate-field'' cast_field_type (get r ''expression'') ctx
       (Inr [(''outputName'', outputName), (''outputType'', outputType), (''expression'', get r ''expression'')]))))"

definition calculate_field_output :: "schema \<Rightarrow> obj \<Rightarrow> schema" where
  "calculate_field_output input p =
     (let n = str_of (get p ''outputName'') in input @ [field_lit n n (output_type (get p ''outputType'')) True])"

definition calculate_field_sql :: "string \<Rightarrow> obj \<Rightarrow> nat \<Rightarrow> sql_fragment checked" where
  "calculate_field_sql inputAlias p paramOffset =
     bind_res (parse_again (str_of (get p ''expression''))) (\<lambda>ast.
     bind_res (compile_columns ''calculate-field'' ast [] paramOffset) (\<lambda>compiled.
       let fieldNameIdx = paramOffset + length (cr_params compiled) + 1;
           valueCast = (if get p ''outputType'' = JStr ''number'' then ''::double precision''
                        else if get p ''outputType'' = JStr ''boolean'' then ''::boolean'' else ''::text'')
       in Inr (fragment
         ('' SELECT '' @ inputAlias @ ''.global_id, '' @ inputAlias @ ''.geom, '' @ inputAlias @
          ''.properties || jsonb_build_object( '' @ ph fieldNameIdx @ '', ('' @ cr_sql compiled @ '')'' @ valueCast @
          '' ) AS properties FROM '' @ inputAlias @ '' '')
         (map JStr (cr_params compiled) @ [get p ''outputName'']))))"

definition calculate_field_tool :: tool where
  "calculate_field_tool = \<lparr> t_kind = ''calculate-field'', t_validate = calculate_field_validate, t_enrich = None,
     t_output = calculate_field_output, t_reach = no_reach, t_deps = no_deps, t_sql = calculate_field_sql \<rparr>"

subsection \<open>Aggregate\<close>

definition VALID_OPS :: "string list" where
  "VALID_OPS = [''count'', ''sum'', ''avg'', ''min'', ''max'', ''first'']"

definition MAX_GROUP_KEYS :: nat where "MAX_GROUP_KEYS = 8"
definition MAX_AGGS :: nat where "MAX_AGGS = 16"

text \<open>A field the source schema, if there is one, must have, of an allowed type.\<close>

definition require_field :: "string \<Rightarrow> schema option \<Rightarrow> bool \<Rightarrow> string \<Rightarrow> 'a checked \<Rightarrow> 'a checked" where
  "require_field name ctx numeric what k =
     (case ctx of
        None \<Rightarrow> k
      | Some sch \<Rightarrow>
          (case find_field name sch of
             None \<Rightarrow> Inl (Bad_request (what @ '': field does not exist on the upstream schema''))
           | Some f \<Rightarrow> require (numeric \<longrightarrow> ff_type f = F_number) (what @ '': op needs a numeric field'') k))"

definition group_key :: "schema option \<Rightarrow> jsval \<Rightarrow> jsval checked" where
  "group_key ctx k =
     require (is_str k \<and> sql_safe_re (str_of k)) ''aggregate.params.groupBy entries must match'' (
     require_field (str_of k) ctx False ''aggregate.params.groupBy'' (Inr k))"

text \<open>The checks of the field, which a count does not need.\<close>

definition agg_field :: "schema option \<Rightarrow> jsval \<Rightarrow> string \<Rightarrow> 'a checked \<Rightarrow> 'a checked" where
  "agg_field ctx op field k =
     (if op = JStr ''count'' then k
      else require (field \<noteq> []) ''aggregate.params.aggs: op requires a field'' (
           require (sql_safe_re field) ''aggregate.params.aggs.field must match'' (
           require_field field ctx (op \<in> {JStr ''sum'', JStr ''avg'', JStr ''min'', JStr ''max''})
             ''aggregate.params.aggs'' k)))"

definition agg_entry :: "schema option \<Rightarrow> string set \<Rightarrow> jsval \<Rightarrow> jsval checked" where
  "agg_entry ctx seen a =
     require (is_obj a) ''aggregate.params.aggs entries must be objects'' (
     let op = field_of a ''op''; outputName = field_of a ''outputName'';
         field = (case field_of a ''field'' of JStr s \<Rightarrow> s | _ \<Rightarrow> []) in
     require (is_str op \<and> str_of op \<in> set VALID_OPS) ''aggregate.params.aggs: op must be one of'' (
     require (is_str outputName \<and> sql_safe_re (str_of outputName))
       ''aggregate.params.aggs.outputName must match'' (
     require (str_of outputName \<notin> seen)
       ''aggregate.params.aggs.outputName collides with a groupBy column or another aggregation'' (
     agg_field ctx op field
     (Inr (JObj 0 [(''field'', JStr field), (''op'', op), (''outputName'', outputName)]))))))"

fun agg_entries :: "schema option \<Rightarrow> string set \<Rightarrow> jsval list \<Rightarrow> jsval list checked" where
  "agg_entries ctx seen [] = Inr []"
| "agg_entries ctx seen (a # as) =
     bind_res (agg_entry ctx seen a) (\<lambda>e.
     bind_res (agg_entries ctx (insert (str_of (field_of e ''outputName'')) seen) as) (\<lambda>es. Inr (e # es)))"

definition aggregate_validate :: "jsval \<Rightarrow> schema option \<Rightarrow> obj checked" where
  "aggregate_validate raw ctx = with_object ''aggregate'' raw (\<lambda>r.
     let groupByRaw = get r ''groupBy''; aggsRaw = get r ''aggs'' in
     require (is_arr groupByRaw) ''aggregate.params.groupBy must be an array of upstream field names'' (
     require (length (elems_of groupByRaw) \<le> MAX_GROUP_KEYS) ''aggregate.params.groupBy supports at most 8 keys'' (
     bind_res (map_res (group_key ctx) (elems_of groupByRaw)) (\<lambda>groupBy.
     require (is_arr aggsRaw) ''aggregate.params.aggs must be an array of aggregations'' (
     require (length (elems_of aggsRaw) \<le> MAX_AGGS) ''aggregate.params.aggs supports at most 16 aggregations'' (
     bind_res (agg_entries ctx (str_of ` set groupBy) (elems_of aggsRaw)) (\<lambda>aggs.
       Inr [(''groupBy'', JArr 0 groupBy), (''aggs'', JArr 0 aggs)])))))))"

definition group_keys :: "obj \<Rightarrow> string list" where
  "group_keys p = map str_of (elems_of (get p ''groupBy''))"

definition agg_output :: "schema \<Rightarrow> jsval \<Rightarrow> feature_field" where
  "agg_output input a =
     (let op = field_of a ''op''; n = str_of (field_of a ''outputName'');
          src = find_field (str_of (field_of a ''field'')) input
      in field_lit n n
           (if op = JStr ''first'' then (case src of None \<Rightarrow> F_string | Some f \<Rightarrow> ff_type f) else F_number)
           (op \<in> {JStr ''first'', JStr ''avg'', JStr ''sum''}))"

definition aggregate_output :: "schema \<Rightarrow> obj \<Rightarrow> schema" where
  "aggregate_output input p =
     map (\<lambda>g. case find_field g input of Some f \<Rightarrow> f | None \<Rightarrow> field_lit g g F_string True) (group_keys p) @
     map (agg_output input) (elems_of (get p ''aggs''))"

definition property_text :: "string \<Rightarrow> string" where
  "property_text g = ''properties->>'' @ lit (esc g)"

definition agg_expr :: "string \<Rightarrow> string \<Rightarrow> string" where
  "agg_expr op field =
     (let number = ''(NULLIF('' @ property_text field @ '', '' @ lit [] @ '')::double precision)''
      in if op = ''count'' then ''COUNT(*)''
         else if op = ''sum'' then ''SUM'' @ number
         else if op = ''avg'' then ''AVG'' @ number
         else if op = ''min'' then ''MIN'' @ number
         else if op = ''max'' then ''MAX'' @ number
         else if op = ''first'' then ''(ARRAY_AGG('' @ property_text field @ '' ORDER BY global_id))[1]''
         else ''undefined'')"

fun group_pairs :: "nat \<Rightarrow> string list \<Rightarrow> string list" where
  "group_pairs n [] = []"
| "group_pairs n (g # gs) = (ph (n + 1) @ '', '' @ property_text g) # group_pairs (n + 1) gs"

fun agg_pairs :: "nat \<Rightarrow> jsval list \<Rightarrow> string list" where
  "agg_pairs n [] = []"
| "agg_pairs n (a # as) =
     (ph (n + 1) @ '', '' @ agg_expr (str_of (field_of a ''op'')) (str_of (field_of a ''field''))) # agg_pairs (n + 1) as"

definition aggregate_sql :: "string \<Rightarrow> obj \<Rightarrow> nat \<Rightarrow> sql_fragment checked" where
  "aggregate_sql inputAlias p paramOffset =
     (let groupBy = group_keys p; aggs = elems_of (get p ''aggs'');
          pairs = group_pairs paramOffset groupBy @ agg_pairs (paramOffset + length groupBy) aggs;
          groupByClause = (if groupBy \<noteq> [] then ''GROUP BY '' @ join '', '' (map property_text groupBy) else []);
          propsExpr = (if pairs \<noteq> [] then ''jsonb_build_object('' @ join '', '' pairs @ '')'' else lit ''{}'' @ ''::jsonb'')
      in Inr (fragment
        ('' SELECT gen_random_uuid()::text AS global_id, ST_Union(geom) AS geom, '' @ propsExpr @
         '' AS properties FROM '' @ inputAlias @ '' WHERE geom IS NOT NULL '' @ groupByClause @ '' '')
        (map JStr groupBy @ map (\<lambda>a. field_of a ''outputName'') aggs)))"

definition aggregate_tool :: tool where
  "aggregate_tool = \<lparr> t_kind = ''aggregate'', t_validate = aggregate_validate, t_enrich = None,
     t_output = aggregate_output, t_reach = no_reach, t_deps = no_deps, t_sql = aggregate_sql \<rparr>"

subsection \<open>The contract\<close>

text \<open>What the emitter writes.\<close>

lemma closed_arg: "(\<forall>x \<in> set xs. closed_lits x) \<Longrightarrow> closed_lits (arg_sql i xs)"
  by (auto simp: arg_sql_def closed_plain text_simps)

lemma closed_call: "plain f \<Longrightarrow> closed_lits a \<Longrightarrow> closed_lits (call_sql f a)"
  unfolding call_sql_def closed_lits_append by (simp add: closed_plain text_simps)

lemma closed_case: "closed_lits c \<Longrightarrow> closed_lits t \<Longrightarrow> closed_lits e \<Longrightarrow> closed_lits (case_sql c t e)"
  unfolding case_sql_def closed_lits_append by (simp add: closed_plain text_simps)

lemma closed_func:
  assumes "\<forall>x \<in> set xs. closed_lits x"
  shows "closed_lits (func_sql name xs)"
proof -
  have "closed_lits (join '' || '' xs)" "closed_lits (join '', '' xs)"
    by (rule closed_join [OF closed_plain assms], simp add: text_simps)+
  moreover have "closed_lits [CHR 0x27, CHR 0x27]" "closed_lits ''NULL''" by (simp_all add: closed_lits_def)
  ultimately show ?thesis
    unfolding func_sql_def
    by (simp add: closed_call closed_case closed_arg [OF assms] text_simps)
qed

lemma no_quote_number: "CHR 0x27 \<notin> set (num_to_string n)"
  by (rule number_chars) (simp_all add: is_digit_char_def cu_def)

lemma emit_closed:
  assumes "\<And>n. closed_lits (col n)"
  shows "closed_lits (fst (emit col off e ps))" "\<forall>x \<in> set (fst (emit_all col off es ps)). closed_lits x"
  using assms
proof (induction col off e ps and col off es ps rule: emit_emit_all.induct)
  case (1 col off n ps)
  then show ?case using no_quote_closed no_quote_number by simp
next
  case (7 col off op l r ps)
  have "closed_lits (sql_op op)" by (cases op) (simp_all add: sql_op_def closed_Cons)
  with 7 show ?case by (auto simp: closed_call closed_Cons text_simps split: prod.splits)
next
  case (8 col off name args ps)
  then show ?case by (auto simp: closed_func split: prod.splits)
next
  case (2 col off s ps)
  have "CHR 0x27 \<notin> set (nat_digits n)" for n
    using nat_digits_digit [of "CHR 0x27" n] by (auto simp: is_digit_char_def cu_def)
  then show ?case by (simp add: no_quote_closed)
qed (auto simp: closed_call closed_Cons text_simps split: prod.splits sql_unop.splits)

lemma tree_ok_refs: "tree_ok e \<Longrightarrow> name \<in> field_refs e \<Longrightarrow> is_sql_safe_field_name name"
  by (induction e) auto

text \<open>A safe column is text that needs no escaping.\<close>

lemma safe_name_chars: "is_sql_safe_field_name n \<Longrightarrow> CHR 0x27 \<notin> set n \<and> CHR ''$'' \<notin> set n"
proof -
  assume "is_sql_safe_field_name n"
  then have "list_all safe_char n" by (simp add: is_sql_safe_field_name_def sql_safe_re_iff)
  then show ?thesis
    by (auto simp: list_all_iff safe_char_def safe_start_def is_upper_az_def is_lower_az_def is_digit_char_def cu_def)
qed

lemma column_text_ok:
  assumes "is_sql_safe_field_name n"
  shows "closed_lits (column_text sch n) \<and> CHR ''$'' \<notin> set (column_text sch n)"
proof -
  note q = safe_name_chars [OF assms]
  have c: "closed_lits (''(properties->>'' @ lit n @ '')'')" "CHR ''$'' \<notin> set (''(properties->>'' @ lit n @ '')'')"
    using q no_quote_closed [of n] by (simp_all add: lit_def closed_Cons)
  have e: "closed_lits (lit [])" "CHR ''$'' \<notin> set (lit [])" by (simp_all add: lit_def closed_Cons)
  show ?thesis
  proof (cases "map_option ff_type (find_field n sch)")
    case None
    show ?thesis unfolding column_text_def Let_def None option.case using c by blast
  next
    case (Some t)
    show ?thesis unfolding column_text_def Let_def Some option.case
      by (cases t; simp only: field_type.case) (use c e in \<open>simp_all add: closed_Cons\<close>)
  qed
qed

lemma compile_body:
  assumes "compile_columns kd e sch off = Inr c"
  shows "body off (off + length (cr_params c)) (cr_sql c)"
proof -
  let ?col = "\<lambda>n. if is_sql_safe_field_name n then column_text sch n else []"
  have safe: "list_all is_sql_safe_field_name (collect_field_refs e)"
    and c: "c = compile_expression e (column_text sch) off" using assms by (auto simp: compile_columns_def)
  have "emit (column_text sch) off e [] = emit ?col off e []"
    using safe collect_field_refs_set [of e] by (intro emit_columns) (auto simp: list_all_iff)
  then have em: "cr_sql c = fst (emit ?col off e [])" "cr_params c = snd (emit ?col off e [])"
    by (simp_all add: c compile_expression_def split: prod.splits)
  have "closed_lits (?col n) \<and> CHR ''$'' \<notin> set (?col n)" for n using column_text_ok by simp
  then have "closed_lits (cr_sql c)" "set (placeholders (cr_sql c)) \<subseteq> {off <.. off + length (cr_params c)}"
    using emit_closed(1) [of ?col off e "[]"] emit_placeholders(1) [of ?col off e "[]"] by (auto simp: em)
  with placeholders_outside [of False "cr_sql c"] show ?thesis by (auto simp: body_def)
qed

lemma filter_statement:
  assumes "ident a" and "filter_sql a p off = Inr f"
  shows "piece off (off + length (sf_params f)) (sf_sql f)"
proof -
  from assms(2) obtain e sch c where c: "compile_columns ''filter'' e sch off = Inr c"
    and f: "f = fragment ('' SELECT '' @ a @ ''.global_id, '' @ a @ ''.geom, '' @ a @ ''.properties FROM '' @ a @
         '' WHERE '' @ cr_sql c @ '' '') (map JStr (cr_params c))"
    by (auto simp: filter_sql_def bind_res_Inr)
  have w: "piece off (off + length (cr_params c)) ('' WHERE '' @ cr_sql c @ '' '')"
    by (rule body_after [OF _ _ compile_body [OF c]]) (simp_all add: text_simps piece_text)
  show ?thesis unfolding f fragment_sel length_map
    by (intro w piece_intros ident_piece assms(1)) (simp_all add: text_simps)
qed

lemma calculate_field_statement:
  assumes "ident a" and "calculate_field_sql a p off = Inr f"
  shows "piece off (off + length (sf_params f)) (sf_sql f)"
proof -
  define cast where "cast = (if get p ''outputType'' = JStr ''number'' then ''::double precision''
    else if get p ''outputType'' = JStr ''boolean'' then ''::boolean'' else ''::text'')"
  from assms(2) obtain e c where c: "compile_columns ''calculate-field'' e [] off = Inr c"
    and f: "f = fragment ('' SELECT '' @ a @ ''.global_id, '' @ a @ ''.geom, '' @ a @ ''.properties || jsonb_build_object( '' @
         ph (off + length (cr_params c) + 1) @ '', ('' @ cr_sql c @ '')'' @ cast @ '' ) AS properties FROM '' @ a @ '' '')
       (map JStr (cr_params c) @ [get p ''outputName''])"
    by (auto simp: calculate_field_sql_def bind_res_Inr Let_def cast_def)
  let ?hi = "off + (length (cr_params c) + 1)"
  have b: "body off ?hi (cr_sql c)" using compile_body [OF c] by (auto simp: body_def)
  have r: "piece off ?hi ('')'' @ cast @ '' ) AS properties FROM '' @ a @ '' '')"
    unfolding cast_def by (intro piece_intros ident_piece assms(1)) (simp_all add: text_simps)
  have w: "piece off ?hi ('', ('' @ cr_sql c @ '')'' @ cast @ '' ) AS properties FROM '' @ a @ '' '')"
    by (rule body_after [OF _ _ b r]) (simp_all add: text_simps)
  have "length (map JStr (cr_params c) @ [get p ''outputName'']) = length (cr_params c) + 1" by simp
  then show ?thesis unfolding f fragment_sel
    by (simp only:) (intro w piece_intros ident_piece assms(1); simp add: text_simps)
qed


text \<open>The stored expression parses again, and then it compiles.\<close>

lemma parse_checked_again: "parse_checked kd src = Inr e \<Longrightarrow> parse_again src = Inr e \<and> tree_ok e"
  using parse_tree_ok by (auto simp: parse_checked_def parse_again_def split: option.splits sum.splits)

lemma compile_columns_runs: "tree_ok e \<Longrightarrow> \<exists>c. compile_columns kd e sch off = Inr c"
  using tree_ok_refs [of e] collect_field_refs_set [of e] by (auto simp: compile_columns_def list_all_iff)

lemma with_expression_Inr:
  assumes "with_expression kd tyf v ctx k = Inr p"
  shows "k = Inr p" and "\<exists>e. parse_again (str_of v) = Inr e \<and> tree_ok e"
    and "with_expression kd tyf v None k' = k'"
proof -
  from assms have v: "is_str v" "trim (str_of v) \<noteq> []" "length (str_of v) \<le> MAX_EXPRESSION_LENGTH"
    by (simp_all add: with_expression_def)
  from assms obtain e where e: "parse_checked kd (str_of v) = Inr e" "check_expression kd tyf e ctx k = Inr p"
    by (auto simp: with_expression_def bind_res_Inr)
  from e(2) show "k = Inr p" by (auto simp: check_expression_def split: option.splits)
  show "\<exists>e. parse_again (str_of v) = Inr e \<and> tree_ok e" using parse_checked_again [OF e(1)] by blast
  show "with_expression kd tyf v None k' = k'" using v e(1) by (simp add: with_expression_def check_expression_def)
qed

lemma filter_validate_Inr:
  assumes "filter_validate raw ctx = Inr p"
  obtains v where "p = [(''expression'', v)]" "\<And>k :: obj checked. with_expression ''filter'' field_ref_type_for v None k = k"
    "\<exists>e. parse_again (str_of v) = Inr e \<and> tree_ok e"
proof -
  from assms obtain r where w: "with_expression ''filter'' field_ref_type_for (get r ''expression'') ctx
      (Inr [(''expression'', get r ''expression'')]) = Inr p"
    unfolding filter_validate_def with_object_Inr by blast
  show thesis
    by (rule that [OF _ with_expression_Inr(3) [OF w] with_expression_Inr(2) [OF w]])
      (use with_expression_Inr(1) [OF w] in simp)
qed

lemma filter_again: "filter_validate raw ctx = Inr p \<Longrightarrow> filter_validate (JObj a p) None = Inr p"
  by (erule filter_validate_Inr) (simp add: filter_validate_def get_Cons)

lemma filter_runs:
  assumes "filter_validate raw ctx = Inr p"
  shows "\<exists>f. filter_sql al p off = Inr f"
  using assms
proof (rule filter_validate_Inr)
  fix v
  assume p: "p = [(''expression'', v)]" and "\<exists>e. parse_again (str_of v) = Inr e \<and> tree_ok e"
  then obtain e where e: "parse_again (str_of v) = Inr e" "tree_ok e" by blast
  obtain c where "compile_columns ''filter'' e (map (\<lambda>name. field_lit name name F_string True) (collect_field_refs e)) off = Inr c"
    using compile_columns_runs [OF e(2)] by blast
  with e(1) show ?thesis by (simp add: filter_sql_def p get_Cons)
qed

lemma calculate_field_validate_Inr:
  assumes "calculate_field_validate raw ctx = Inr p"
  obtains n t v where "p = [(''outputName'', n), (''outputType'', t), (''expression'', v)]"
    "t \<in> {JStr ''number'', JStr ''string'', JStr ''boolean''}"
    "\<And>k :: obj checked. require_column_name n ''calculate-field.params.outputName'' None k = k"
    "\<And>k :: obj checked. with_expression ''calculate-field'' cast_field_type v None k = k"
    "\<exists>e. parse_again (str_of v) = Inr e \<and> tree_ok e"
proof -
  from assms obtain r where
    v: "require_column_name (get r ''outputName'') ''calculate-field.params.outputName'' ctx
      (require (get r ''outputType'' \<in> {JStr ''number'', JStr ''string'', JStr ''boolean''})
        (''calculate-field.params.outputType must be '' @ lit ''number'' @ '', '' @ lit ''string'' @ '', or '' @ lit ''boolean'')
        (with_expression ''calculate-field'' cast_field_type (get r ''expression'') ctx
          (Inr [(''outputName'', get r ''outputName''), (''outputType'', get r ''outputType''), (''expression'', get r ''expression'')]))) = Inr p"
    unfolding calculate_field_validate_def with_object_Inr Let_def by blast
  from v have n: "require_column_name (get r ''outputName'') ''calculate-field.params.outputName'' None k = k" for k :: "obj checked"
    unfolding require_column_name_def by simp
  from v have o: "get r ''outputType'' \<in> {JStr ''number'', JStr ''string'', JStr ''boolean''}"
    and w: "with_expression ''calculate-field'' cast_field_type (get r ''expression'') ctx
      (Inr [(''outputName'', get r ''outputName''), (''outputType'', get r ''outputType''), (''expression'', get r ''expression'')]) = Inr p"
    unfolding require_column_name_def require_Inr by (blast dest: require_new_field_Inr [THEN require_Inr [THEN iffD1]])+
  show thesis
    by (rule that [OF _ o n with_expression_Inr(3) [OF w] with_expression_Inr(2) [OF w]])
      (use with_expression_Inr(1) [OF w] in simp)
qed

lemma calculate_field_again:
  "calculate_field_validate raw ctx = Inr p \<Longrightarrow> calculate_field_validate (JObj a p) None = Inr p"
proof (erule calculate_field_validate_Inr)
  fix n t v
  assume p: "p = [(''outputName'', n), (''outputType'', t), (''expression'', v)]"
    and c: "t \<in> {JStr ''number'', JStr ''string'', JStr ''boolean''}"
    "\<And>k :: obj checked. require_column_name n ''calculate-field.params.outputName'' None k = k"
    "\<And>k :: obj checked. with_expression ''calculate-field'' cast_field_type v None k = k"
  have g: "get p ''outputName'' = n" "get p ''outputType'' = t" "get p ''expression'' = v"
    by (simp_all add: p get_Cons)
  show "calculate_field_validate (JObj a p) None = Inr p"
    unfolding calculate_field_validate_def with_object_JObj Let_def g c(2,3) using c(1) by (simp add: p)
qed

lemma calculate_field_runs:
  "calculate_field_validate raw ctx = Inr p \<Longrightarrow> \<exists>f. calculate_field_sql al p off = Inr f"
proof (erule calculate_field_validate_Inr)
  fix n t v
  assume p: "p = [(''outputName'', n), (''outputType'', t), (''expression'', v)]"
    and "\<exists>e. parse_again (str_of v) = Inr e \<and> tree_ok e"
  then obtain e where e: "parse_again (str_of v) = Inr e" "tree_ok e" by blast
  have g: "get p ''expression'' = v" by (simp add: p get_Cons)
  obtain c where "compile_columns ''calculate-field'' e [] off = Inr c" using compile_columns_runs [OF e(2)] by blast
  with e(1) show ?thesis by (simp add: calculate_field_sql_def g Let_def)
qed

interpretation filter: stored_tool filter_tool
  by unfold_locales (auto simp: filter_tool_def parameterless filter_statement intro: filter_again filter_runs)

interpretation calculate_field: stored_tool calculate_field_tool
  by unfold_locales (auto simp: calculate_field_tool_def parameterless calculate_field_statement intro: calculate_field_again calculate_field_runs)

lemma property_text_piece [piece_intros]: "piece lo hi (property_text g)"
  unfolding property_text_def by (intro piece_intros) (simp_all add: text_simps)

lemma agg_expr_piece: "piece lo hi (agg_expr op g)"
  unfolding agg_expr_def Let_def by (intro piece_intros) (simp_all add: text_simps)

lemma group_pairs_piece:
  "x \<in> set (group_pairs n gs) \<Longrightarrow> lo \<le> n \<Longrightarrow> n + length gs \<le> hi \<Longrightarrow> piece lo hi x"
proof (induction gs arbitrary: n)
  case (Cons g gs)
  have "piece lo hi (ph (n + 1) @ '', '' @ property_text g)"
    using Cons.prems by (intro piece_intros) (simp_all add: text_simps)
  with Cons show ?case by auto
qed simp

lemma agg_pairs_piece:
  "x \<in> set (agg_pairs n as) \<Longrightarrow> lo \<le> n \<Longrightarrow> n + length as \<le> hi \<Longrightarrow> piece lo hi x"
proof (induction as arbitrary: n)
  case (Cons a as)
  have "piece lo hi (ph (n + 1) @ '', '' @ agg_expr (str_of (field_of a ''op'')) (str_of (field_of a ''field'')))"
    using Cons.prems by (intro piece_intros agg_expr_piece) (simp_all add: text_simps)
  with Cons show ?case by auto
qed simp

lemma aggregate_statement:
  assumes "ident a" and "aggregate_sql a p off = Inr f"
  shows "piece off (off + length (sf_params f)) (sf_sql f)"
proof -
  define gs where "gs = group_keys p"
  define as where "as = elems_of (get p ''aggs'')"
  let ?hi = "off + length (map JStr gs @ map (\<lambda>a. field_of a ''outputName'') as)"
  have pairs: "piece off ?hi x" if "x \<in> set (group_pairs off gs @ agg_pairs (off + length gs) as)" for x
    using that group_pairs_piece [of x off gs off ?hi] agg_pairs_piece [of x "off + length gs" as off ?hi] by auto
  have keys: "piece off ?hi x" if "x \<in> set (map property_text gs)" for x using that by (auto intro: property_text_piece)
  have P: "piece off ?hi (join '', '' (group_pairs off gs @ agg_pairs (off + length gs) as))"
    by (rule piece_join [OF _ pairs]) (intro piece_intros; simp add: text_simps)
  have K: "piece off ?hi (join '', '' (map property_text gs))"
    by (rule piece_join [OF _ keys]) (intro piece_intros; simp add: text_simps)
  show ?thesis
    using assms(2) unfolding aggregate_sql_def Let_def gs_def [symmetric] as_def [symmetric]
    by (elim fragment_piece) (intro P K piece_intros ident_piece assms(1), simp_all add: text_simps)
qed

text \<open>What was validated validates again.\<close>

lemma require_field_Inr: "require_field n ctx b w k = Inr v \<Longrightarrow> k = Inr v"
  by (auto simp: require_field_def split: option.splits)

lemma require_field_None [simp]: "require_field n None b w k = k"
  by (simp add: require_field_def)

lemma group_key_again: "group_key ctx k = Inr v \<Longrightarrow> v = k \<and> group_key None k = Inr k"
  by (auto simp: group_key_def dest!: require_field_Inr)

lemma group_keys_again: "map_res (group_key ctx) ks = Inr vs \<Longrightarrow> vs = ks \<and> map_res (group_key None) ks = Inr ks"
proof (induction ks arbitrary: vs)
  case (Cons k ks)
  then obtain y ys where "group_key ctx k = Inr y" "map_res (group_key ctx) ks = Inr ys" "vs = y # ys"
    by (auto simp: bind_res_Inr)
  with Cons.IH group_key_again show ?case by (fastforce simp: bind_res_Inr)
qed simp

lemma agg_field_Inr: "agg_field ctx op g k = Inr v \<Longrightarrow> k = Inr v \<and> agg_field None op g k' = k'"
  by (auto simp: agg_field_def split: if_splits dest!: require_field_Inr)

lemma agg_entry_again:
  assumes "agg_entry ctx seen a = Inr e"
  shows "agg_entry None seen e = Inr e"
proof -
  define op where "op = field_of a ''op''"
  define n where "n = field_of a ''outputName''"
  define g where "g = (case field_of a ''field'' of JStr s \<Rightarrow> s | _ \<Rightarrow> [])"
  note c = assms [unfolded agg_entry_def Let_def op_def [symmetric] n_def [symmetric] g_def [symmetric] require_Inr]
  have fld: "agg_field ctx op g (Inr (JObj 0 [(''field'', JStr g), (''op'', op), (''outputName'', n)])) = Inr e"
    using c by blast
  have e: "e = JObj 0 [(''field'', JStr g), (''op'', op), (''outputName'', n)]"
    using agg_field_Inr [OF fld, THEN conjunct1] by simp
  have f: "field_of e ''op'' = op" "field_of e ''outputName'' = n" "field_of e ''field'' = JStr g" "is_obj e"
    by (simp_all add: e get_Cons)
  show ?thesis unfolding agg_entry_def Let_def f jsval.case agg_field_Inr [OF fld, THEN conjunct2] require_Inr e [symmetric]
    using c f(4) by blast
qed

lemma agg_entries_again: "agg_entries ctx seen as = Inr es \<Longrightarrow> agg_entries None seen es = Inr es \<and> length es = length as"
proof (induction "as" arbitrary: seen es)
  case (Cons a as)
  then obtain e es' where e: "agg_entry ctx seen a = Inr e" "es = e # es'"
    "agg_entries ctx (insert (str_of (field_of e ''outputName'')) seen) as = Inr es'"
    by (auto simp: bind_res_Inr)
  show ?case using Cons.IH [OF e(3)] agg_entry_again [OF e(1)] e(2) by simp
qed simp

lemma aggregate_again:
  assumes "aggregate_validate raw ctx = Inr p"
  shows "aggregate_validate (JObj a p) None = Inr p"
proof -
  from assms obtain r gs es where
    r: "is_arr (get r ''groupBy'')" "length (elems_of (get r ''groupBy'')) \<le> MAX_GROUP_KEYS"
      "map_res (group_key ctx) (elems_of (get r ''groupBy'')) = Inr gs"
      "is_arr (get r ''aggs'')" "length (elems_of (get r ''aggs'')) \<le> MAX_AGGS"
      "agg_entries ctx (str_of ` set gs) (elems_of (get r ''aggs'')) = Inr es"
    and p: "p = [(''groupBy'', JArr 0 gs), (''aggs'', JArr 0 es)]"
    unfolding aggregate_validate_def with_object_Inr Let_def require_Inr bind_res_Inr by blast
  have g: "get p ''groupBy'' = JArr 0 gs" "get p ''aggs'' = JArr 0 es" by (simp_all add: p get_Cons)
  from group_keys_again [OF r(3)] have gs: "gs = elems_of (get r ''groupBy'')" "map_res (group_key None) gs = Inr gs" by auto
  note es = agg_entries_again [OF r(6)]
  show ?thesis
    unfolding aggregate_validate_def with_object_JObj Let_def g elems_of.simps gs(2) bind_res.simps require_Inr bind_res_Inr
    using r es gs(1) p by auto
qed

interpretation aggregate: stored_tool aggregate_tool
  by unfold_locales (auto simp: aggregate_tool_def parameterless aggregate_statement intro: aggregate_again,
    simp add: aggregate_sql_def Let_def)

end
