(* ===== verification/LayerSource.thy ===== *)
theory LayerSource
  imports ToolBase
begin

text \<open>
  The statement that reads a data layer from the observation log: \<open>dataLayerScope\<close> and
  \<open>dataLayerSourceSqlFragment\<close> of \<open>apps/portal-api/src/engine/data-layer.ts\<close>. A scope is the only
  text of a user in it; it is written as a literal with its quotes doubled.
\<close>

definition data_layer_scope :: "string \<Rightarrow> string \<Rightarrow> string" where
  "data_layer_scope itemId layerId = ''data_layer:'' @ itemId @ '':'' @ layerId"

definition all_of :: "string list \<Rightarrow> string" where
  "all_of cs = '' AND '' @ join '' AND '' cs"

definition data_layer_source :: "string \<Rightarrow> string list \<Rightarrow> string list \<Rightarrow> string" where
  "data_layer_source scope collapseConditions contentConditions =
     (let scope_is = ''scope = '' @ lit (esc scope);
          collapse = (if collapseConditions \<noteq> [] then all_of collapseConditions else []);
          candidateSemiJoin =
            (if contentConditions \<noteq> []
             then '' AND entity IN ( SELECT entity FROM observation WHERE '' @ scope_is @ collapse @
                  all_of contentConditions @ '' )''
             else []);
          latestRecheck = (if contentConditions \<noteq> [] then all_of contentConditions else [])
      in '' SELECT entity AS global_id, geom, attrs AS properties FROM ( SELECT DISTINCT ON (entity) entity, geom, attrs, kind, valid_from, valid_to FROM observation WHERE '' @
         scope_is @ collapse @ candidateSemiJoin @
         '' ORDER BY entity, valid_from DESC, tx_time DESC ) latest WHERE kind <> '' @ lit ''delete'' @
         latestRecheck @ '' '')"

text \<open>Whatever the ids in the scope are, the statement is a piece.\<close>

lemma all_of_piece: "(\<And>c. c \<in> set cs \<Longrightarrow> piece lo hi c) \<Longrightarrow> piece lo hi (all_of cs)"
  unfolding all_of_def by (intro piece_intros) (simp_all add: text_simps)

lemma data_layer_source_piece [piece_intros]:
  assumes "\<And>c. c \<in> set collapse \<Longrightarrow> piece lo hi c" and "\<And>c. c \<in> set content \<Longrightarrow> piece lo hi c"
  shows "piece lo hi (data_layer_source scope collapse content)"
proof -
  have co: "piece lo hi (all_of collapse)" "piece lo hi (all_of content)" using assms all_of_piece by blast+
  show ?thesis
    unfolding data_layer_source_def Let_def by (intro piece_intros co) (simp_all add: text_simps)
qed

end
