(* ===== verification/GeometryGuard.thy ===== *)
theory GeometryGuard
  imports ToolBase
begin

text \<open>
  The limits on geometry a user supplies: \<open>countVertices\<close> and \<open>validateGeoJson\<close> of
  \<open>apps/portal-api/src/common/geometry-validation.ts\<close>, and the \<open>JSON.stringify\<close> they and the
  spatial tools rely on. The count stops once it is over its budget; \<open>vertices\<close> is the count
  without a budget, and the two agree up to it.
\<close>

subsection \<open>\<open>JSON.stringify\<close>\<close>

definition hex_digit :: "nat \<Rightarrow> char" where
  "hex_digit n = (if n < 10 then char_of (48 + n) else char_of (87 + n))"

definition json_char :: "char \<Rightarrow> string" where
  "json_char c =
     (if c = CHR 0x22 \<or> c = CHR 0x5C then [CHR 0x5C, c]
      else if cu c = 8 then [CHR 0x5C, CHR ''b''] else if cu c = 9 then [CHR 0x5C, CHR ''t'']
      else if cu c = 10 then [CHR 0x5C, CHR ''n''] else if cu c = 12 then [CHR 0x5C, CHR ''f'']
      else if cu c = 13 then [CHR 0x5C, CHR ''r'']
      else if cu c < 32 then [CHR 0x5C] @ ''u00'' @ [hex_digit (cu c div 16), hex_digit (cu c mod 16)]
      else [c])"

definition json_string :: "string \<Rightarrow> string" where
  "json_string s = [CHR 0x22] @ concat (map json_char s) @ [CHR 0x22]"

text \<open>A property whose value is undefined is left out; such an element of an array is \<open>null\<close>.\<close>

fun json_text :: "jsval \<Rightarrow> string"
  and json_props :: "(string \<times> jsval) list \<Rightarrow> string list" where
  "json_text Undef = ''null''"
| "json_text JNull = ''null''"
| "json_text (JBool b) = (if b then ''true'' else ''false'')"
| "json_text (JNum n) = (if is_finite n then num_to_string n else ''null'')"
| "json_text (JStr s) = json_string s"
| "json_text (JArr _ vs) = ''['' @ join '','' (map json_text vs) @ '']''"
| "json_text (JObj _ m) = ''{'' @ join '','' (json_props m) @ ''}''"
| "json_props [] = []"
| "json_props ((k, v) # m) = (if v = Undef then [] else [json_string k @ '':'' @ json_text v]) @ json_props m"

subsection \<open>The guard\<close>

definition MAX_JSON_BYTES :: nat where "MAX_JSON_BYTES = 256 * 1024"
definition MAX_VERTEX_COUNT :: int where "MAX_VERTEX_COUNT = 50000"

lemma size_get: "get m k \<noteq> Undef \<Longrightarrow> size (get m k) < size_list (size_prod (\<lambda>_. 0) size) m"
proof (induction m)
  case (Cons x m)
  then show ?case by (cases x) (auto simp: get_Cons split: if_splits)
qed simp

lemma size_get_elems: "is_arr (get m k) \<Longrightarrow> size_list size (elems_of (get m k)) < size_list (size_prod (\<lambda>_. 0) size) m"
  using size_get [of m k] by (cases "get m k") auto

text \<open>\<open>count_list\<close> is a loop over an array: the total so far, and whether the loop returned from the
  function because the total is over the budget.\<close>

function (sequential) count_vertices :: "jsval \<Rightarrow> int \<Rightarrow> int"
  and count_list :: "jsval list \<Rightarrow> int \<Rightarrow> int \<Rightarrow> int \<times> bool" where
  "count_vertices (JArr _ vs) budget =
     (if vs \<noteq> [] \<and> is_num (hd vs) then 1 else fst (count_list vs 0 budget))"
| "count_vertices (JObj _ m) budget =
     (let total = (if get m ''coordinates'' \<noteq> Undef then count_vertices (get m ''coordinates'') budget else 0);
          (total, over) = (if is_arr (get m ''geometries'')
                           then count_list (elems_of (get m ''geometries'')) total budget else (total, False))
      in if over then total
         else let total = (if get m ''geometry'' \<noteq> Undef
                           then total + count_vertices (get m ''geometry'') (budget - total) else total)
              in if is_arr (get m ''features'')
                 then fst (count_list (elems_of (get m ''features'')) total budget) else total)"
| "count_vertices _ budget = 0"
| "count_list [] n budget = (n, False)"
| "count_list (v # vs) n budget =
     (let t = n + count_vertices v (budget - n)
      in if budget < t then (t, True) else count_list vs t budget)"
  by pat_completeness auto
termination
  by (relation "measure (\<lambda>x. case x of Inl (v, _) \<Rightarrow> 2 * size v | Inr (vs, _) \<Rightarrow> Suc (2 * size_list size vs))")
    (auto dest!: size_get size_get_elems)

definition validate_geojson :: "jsval \<Rightarrow> 'a checked \<Rightarrow> 'a checked" where
  "validate_geojson v k =
     (if nullish v then k
      else require (length (json_text v) \<le> MAX_JSON_BYTES) ''Geometry rejected: payload exceeds 262144 bytes'' (
           require (count_vertices v (MAX_VERTEX_COUNT + 1) \<le> MAX_VERTEX_COUNT)
             ''Geometry rejected: too many vertices'' k))"

subsection \<open>The count without a budget\<close>

function (sequential) vertices :: "jsval \<Rightarrow> int" where
  "vertices (JArr _ vs) = (if vs \<noteq> [] \<and> is_num (hd vs) then 1 else sum_list (map vertices vs))"
| "vertices (JObj _ m) =
     (if get m ''coordinates'' \<noteq> Undef then vertices (get m ''coordinates'') else 0) +
     (if is_arr (get m ''geometries'') then sum_list (map vertices (elems_of (get m ''geometries''))) else 0) +
     (if get m ''geometry'' \<noteq> Undef then vertices (get m ''geometry'') else 0) +
     (if is_arr (get m ''features'') then sum_list (map vertices (elems_of (get m ''features''))) else 0)"
| "vertices _ = 0"
  by pat_completeness auto
termination
proof (relation "measure size", goal_cases)
  case (2 a vs x)
  then show ?case by (auto dest!: size_list_estimation' [of x vs "size x" size] simp: less_Suc_eq_le)
next
  case (4 a m x)
  then show ?case using size_get_elems [of m "''geometries''"] size_list_estimation' [of x _ "size x" size] by fastforce
next
  case (6 a m x)
  then show ?case using size_get_elems [of m "''features''"] size_list_estimation' [of x _ "size x" size] by fastforce
qed (auto dest!: size_get)

lemma vertices_nonneg: "0 \<le> vertices v"
  by (induction v rule: vertices.induct) (auto intro!: sum_list_nonneg add_nonneg_nonneg)

lemma sum_vertices_nonneg: "0 \<le> sum_list (map vertices vs)"
  by (rule sum_list_nonneg) (auto simp: vertices_nonneg)

text \<open>Exact up to the budget, and over it otherwise.\<close>

definition agrees :: "int \<Rightarrow> int \<Rightarrow> int \<Rightarrow> bool" where
  "agrees n exact budget \<longleftrightarrow> (if exact \<le> budget then n = exact else budget < n)"

definition list_agrees :: "int \<times> bool \<Rightarrow> int \<Rightarrow> int \<Rightarrow> int \<Rightarrow> bool" where
  "list_agrees r n exact budget \<longleftrightarrow>
     n \<le> fst r \<and> (snd r \<longrightarrow> budget < fst r) \<and> (if n + exact \<le> budget then r = (n + exact, False) else budget < fst r)"

lemma agrees_list:
  "agrees n e b \<Longrightarrow> 0 \<le> x \<Longrightarrow> list_agrees r n x b \<Longrightarrow> agrees (fst r) (e + x) b \<and> n \<le> fst r \<and> (snd r \<longrightarrow> b < e + x)"
  by (auto simp: agrees_def list_agrees_def split: if_splits)

lemma agrees_add: "agrees t e b \<Longrightarrow> 0 \<le> x \<Longrightarrow> 0 \<le> v \<Longrightarrow> agrees x v (b - t) \<Longrightarrow> agrees (t + x) (e + v) b"
  by (auto simp: agrees_def split: if_splits)

lemma list_agrees_none: "list_agrees (n, False) n 0 b"
  by (simp add: list_agrees_def)

lemma count_agrees:
  "0 \<le> count_vertices v b \<and> agrees (count_vertices v b) (vertices v) b"
  "list_agrees (count_list vs n b) n (sum_list (map vertices vs)) b"
proof (induction v b and vs n b rule: count_vertices_count_list.induct)
  case (1 a vs b)
  show ?case
  proof (cases "vs \<noteq> [] \<and> is_num (hd vs)")
    case False
    note IH = 1 [OF False]
    have "fst (count_list vs 0 b) = sum_list (map vertices vs)" if "sum_list (map vertices vs) \<le> b"
      using IH that by (simp add: list_agrees_def)
    moreover have "b < fst (count_list vs 0 b)" if "\<not> sum_list (map vertices vs) \<le> b"
      using IH that by (simp add: list_agrees_def)
    ultimately show ?thesis using False IH by (auto simp: agrees_def list_agrees_def sum_vertices_nonneg)
  qed (simp add: agrees_def)
next
  case (2 a m b)
  let ?V = "\<lambda>k. if get m k \<noteq> Undef then vertices (get m k) else 0"
  let ?S = "\<lambda>k. if is_arr (get m k) then sum_list (map vertices (elems_of (get m k))) else 0"
  define c where "c = (if get m ''coordinates'' \<noteq> Undef then count_vertices (get m ''coordinates'') b else 0)"
  define r where "r = (if is_arr (get m ''geometries'') then count_list (elems_of (get m ''geometries'')) c b else (c, False))"
  obtain t over where r_eq: "r = (t, over)" by (cases r)
  have nn: "0 \<le> ?V k" "0 \<le> ?S k" for k by (simp_all add: vertices_nonneg sum_vertices_nonneg)
  have c: "0 \<le> c" "agrees c (?V ''coordinates'') b" using 2(1) by (auto simp: c_def agrees_def)
  have "list_agrees r c (?S ''geometries'') b" using 2(2) [OF c_def] by (auto simp: r_def list_agrees_none)
  from agrees_list [OF c(2) nn(2) this] c(1) r_eq
  have t: "agrees t (?V ''coordinates'' + ?S ''geometries'') b" "0 \<le> t"
    "over \<longrightarrow> b < ?V ''coordinates'' + ?S ''geometries''" by auto
  define x where "x = (if get m ''geometry'' \<noteq> Undef then count_vertices (get m ''geometry'') (b - t) else 0)"
  define q where "q = (if is_arr (get m ''features'') then count_list (elems_of (get m ''features'')) (t + x) b else (t + x, False))"
  have tx0: "(if get m ''geometry'' \<noteq> Undef then t + count_vertices (get m ''geometry'') (b - t) else t) = t + x"
    by (simp add: x_def)
  have "count_vertices (JObj a m) b =
      (case r of (t, over) \<Rightarrow> if over then t else
         let t = (if get m ''geometry'' \<noteq> Undef then t + count_vertices (get m ''geometry'') (b - t) else t)
         in if is_arr (get m ''features'') then fst (count_list (elems_of (get m ''features'')) t b) else t)"
    by (simp only: count_vertices.simps(2) c_def r_def Let_def)
  then have eq: "count_vertices (JObj a m) b = (if over then t else fst q)" by (simp add: r_eq tx0 q_def)
  show ?case
  proof (cases over)
    case True
    with t nn [of "''geometry''"] nn [of "''features''"] eq show ?thesis
      by (simp add: agrees_def split: if_splits)
  next
    case False
    have x: "0 \<le> x" "agrees x (?V ''geometry'') (b - t) \<or> get m ''geometry'' = Undef"
      using 2(3) [OF c_def r_def r_eq [symmetric] False] by (auto simp: x_def)
    have tx: "agrees (t + x) (?V ''coordinates'' + ?S ''geometries'' + ?V ''geometry'') b"
      using agrees_add [OF t(1) x(1) nn(1) [of "''geometry''"]] x(2) t(1) by (auto simp: x_def)
    have "list_agrees q (t + x) (?S ''features'') b"
      using 2(4) [OF c_def r_def r_eq [symmetric] False tx0 [symmetric]] by (auto simp: q_def list_agrees_none)
    from agrees_list [OF tx nn(2) this] have "agrees (fst q) (vertices (JObj a m)) b" "0 \<le> fst q"
      using t(2) x(1) by simp_all
    with False eq show ?thesis by simp
  qed
next
  case (5 v vs n b)
  let ?t = "n + count_vertices v (b - n)"
  have v: "0 \<le> count_vertices v (b - n)" "agrees (count_vertices v (b - n)) (vertices v) (b - n)" using 5(1) by auto
  note nn = vertices_nonneg [of v] sum_vertices_nonneg [of vs]
  show ?case
  proof (cases "b < ?t")
    case True
    then have "b - n < vertices v" using v(2) by (auto simp: agrees_def split: if_splits)
    with True v nn show ?thesis by (simp add: list_agrees_def Let_def)
  next
    case False
    then have e: "count_vertices v (b - n) = vertices v" using v(2) by (auto simp: agrees_def split: if_splits)
    have "list_agrees (count_list vs ?t b) ?t (sum_list (map vertices vs)) b" using 5(2) [OF refl False] .
    with False v(1) e show ?thesis by (simp add: list_agrees_def Let_def add.assoc)
  qed
qed (simp_all add: agrees_def list_agrees_def)

subsection \<open>Properties\<close>

text \<open>C33: the guard admits a geometry exactly when it is within both limits: counting with a budget
  and stopping early never changes the verdict, also for collections nested to any depth.\<close>

theorem geometry_guard_exact:
  "validate_geojson v (Inr x) = Inr x \<longleftrightarrow>
     nullish v \<or> (length (json_text v) \<le> MAX_JSON_BYTES \<and> vertices v \<le> MAX_VERTEX_COUNT)"
  using count_agrees(1) [of v "MAX_VERTEX_COUNT + 1"]
  by (auto simp: validate_geojson_def agrees_def split: if_splits)

end
