(* ===== verification/ToolsSpatial.thy ===== *)
theory ToolsSpatial
  imports ToolsExpr LayerSource GeometryGuard
begin

text \<open>
  The tools of \<open>apps/portal-api/src/derived-layers/tools\<close> that bring in a second layer or a
  geometry: clip, erase, spatial-join and spatial-filter. A source is the object of the
  parameters, \<open>{ kind, itemId, layerKey? }\<close>.
\<close>

subsection \<open>The other source\<close>

text \<open>\<open>typeof other.layerKey === 'string' && other.layerKey.length > 0 ? { layerKey } : {}\<close>.\<close>

definition layer_key_prop :: "jsval \<Rightarrow> obj" where
  "layer_key_prop v = (if full_str v then [(''layerKey'', v)] else [])"

definition other_source :: "string \<Rightarrow> obj \<Rightarrow> jsval checked" where
  "other_source tool_kind r =
     (let other = get r ''otherSource'' in
      require (field_of other ''kind'' = JStr ''data_layer'' \<and> full_str (field_of other ''itemId''))
        (tool_kind @ ''.params.otherSource must be { kind: data_layer, itemId: <uuid>, layerKey?: string }'')
        (Inr (JObj 0 ([(''kind'', JStr ''data_layer''), (''itemId'', field_of other ''itemId'')] @
                      layer_key_prop (field_of other ''layerKey'')))))"

text \<open>The current rows of that layer; \<open>right.layerKey ?? 'default'\<close>.\<close>

definition right_rows :: "jsval \<Rightarrow> string" where
  "right_rows right =
     data_layer_source
       (data_layer_scope (str_of (field_of right ''itemId''))
          (str_of (coalesce (field_of right ''layerKey'') (JStr ''default''))))
       [''valid_to IS NULL''] []"

definition other_deps :: "obj \<Rightarrow> string list" where
  "other_deps p = [str_of (field_of (get p ''otherSource'') ''itemId'')]"

lemma right_rows_piece [piece_intros]: "piece lo hi (right_rows right)"
  unfolding right_rows_def
  by (rule data_layer_source_piece) (auto intro!: piece_intros simp: text_simps)

lemma layer_key_again: "layer_key_prop (get (layer_key_prop v) ''layerKey'') = layer_key_prop v"
  by (simp add: layer_key_prop_def get_Cons)

lemma other_source_again:
  assumes "other_source kd r = Inr src" and "get r' ''otherSource'' = src"
  shows "other_source kd r' = Inr src"
proof -
  define i where "i = field_of (get r ''otherSource'') ''itemId''"
  define l where "l = layer_key_prop (field_of (get r ''otherSource'') ''layerKey'')"
  have i: "full_str i" and src: "src = JObj 0 ([(''kind'', JStr ''data_layer''), (''itemId'', i)] @ l)"
    using assms(1) by (simp_all add: other_source_def Let_def i_def l_def)
  have f: "field_of src ''kind'' = JStr ''data_layer''" "field_of src ''itemId'' = i"
    "field_of src ''layerKey'' = get l ''layerKey''"
    by (simp_all add: src get_Cons)
  have "layer_key_prop (get l ''layerKey'') = l" unfolding l_def by (rule layer_key_again)
  with i f assms(2) src show ?thesis by (simp add: other_source_def Let_def)
qed

subsection \<open>Clip and erase\<close>

definition clip_validate :: "jsval \<Rightarrow> schema option \<Rightarrow> obj checked" where
  "clip_validate raw ctx = with_object ''clip'' raw (\<lambda>r.
     bind_res (other_source ''clip'' r) (\<lambda>src. Inr [(''otherSource'', src)]))"

definition clip_sql :: "string \<Rightarrow> obj \<Rightarrow> nat \<Rightarrow> sql_fragment checked" where
  "clip_sql inputAlias p paramOffset = Inr (fragment
     ('' WITH right_rows AS ('' @ right_rows (get p ''otherSource'') @
      ''), right_union AS ( SELECT ST_Union(geom) AS geom FROM right_rows ) SELECT l.global_id, ST_Intersection(l.geom, ru.geom) AS geom, l.properties FROM '' @
      inputAlias @
      '' l, right_union ru WHERE ST_Intersects(l.geom, ru.geom) AND NOT ST_IsEmpty(ST_Intersection(l.geom, ru.geom)) '')
     [])"

definition clip_tool :: tool where
  "clip_tool = \<lparr> t_kind = ''clip'', t_validate = clip_validate, t_enrich = None,
     t_output = same_schema, t_reach = no_reach, t_deps = other_deps, t_sql = clip_sql \<rparr>"

definition erase_validate :: "jsval \<Rightarrow> schema option \<Rightarrow> obj checked" where
  "erase_validate raw ctx = with_object ''erase'' raw (\<lambda>r.
     bind_res (other_source ''erase'' r) (\<lambda>src. Inr [(''otherSource'', src)]))"

definition erase_sql :: "string \<Rightarrow> obj \<Rightarrow> nat \<Rightarrow> sql_fragment checked" where
  "erase_sql inputAlias p paramOffset = Inr (fragment
     ('' WITH right_rows AS ('' @ right_rows (get p ''otherSource'') @
      ''), right_union AS ( SELECT COALESCE( ST_Union(geom), ST_GeomFromText('' @ lit ''GEOMETRYCOLLECTION EMPTY'' @
      '', 4326) ) AS geom FROM right_rows ) SELECT l.global_id, ST_Difference(l.geom, ru.geom) AS geom, l.properties FROM '' @
      inputAlias @
      '' l, right_union ru WHERE NOT ST_IsEmpty(ST_Difference(l.geom, ru.geom)) '')
     [])"

definition erase_tool :: tool where
  "erase_tool = \<lparr> t_kind = ''erase'', t_validate = erase_validate, t_enrich = None,
     t_output = same_schema, t_reach = no_reach, t_deps = other_deps, t_sql = erase_sql \<rparr>"

subsection \<open>Spatial join\<close>

definition MAX_ATTRS_TO_KEEP :: nat where "MAX_ATTRS_TO_KEEP = 16"
definition DEFAULT_NEAREST_MAX_METERS :: jsnum where "DEFAULT_NEAREST_MAX_METERS = Fin 1000"
definition MAX_NEAREST_MAX_METERS :: jsnum where "MAX_NEAREST_MAX_METERS = Fin 1000000"

definition nearest_max :: "jsval \<Rightarrow> jsnum" where
  "nearest_max rawN = (if fin_num rawN \<and> n_lt (Fin 0) (num_of rawN) then num_of rawN else DEFAULT_NEAREST_MAX_METERS)"

text \<open>The attributes to keep, for the strategy \<open>first\<close> only.\<close>

definition attrs_to_keep :: "jsval \<Rightarrow> jsval checked" where
  "attrs_to_keep rawAttrs =
     require (is_arr rawAttrs \<and> elems_of rawAttrs \<noteq> [])
       ''spatial-join.params.attrsToKeep must be a non-empty array when attributeStrategy is first'' (
     require (length (elems_of rawAttrs) \<le> MAX_ATTRS_TO_KEEP)
       ''spatial-join.params.attrsToKeep supports at most 16 attrs'' (
     require (\<forall>a \<in> set (elems_of rawAttrs). is_str a \<and> sql_safe_re (str_of a))
       ''spatial-join.params.attrsToKeep entries must match'' (
     Inr (JArr 0 (elems_of rawAttrs)))))"

definition join_names :: "string \<Rightarrow> jsval \<Rightarrow> jsval \<Rightarrow> string list" where
  "join_names attrPrefix attributeStrategy attrsToKeep =
     (if attributeStrategy = JStr ''count'' then [attrPrefix @ ''count'']
      else map (\<lambda>a. attrPrefix @ str_of a) (elems_of attrsToKeep))"

definition spatial_join_validate :: "jsval \<Rightarrow> schema option \<Rightarrow> obj checked" where
  "spatial_join_validate raw ctx = with_object ''spatial-join'' raw (\<lambda>r.
     bind_res (other_source ''spatial-join'' r) (\<lambda>otherSource.
     let predicate = get r ''predicate'';
         n = nearest_max (get r ''nearestMaxMeters'');
         attributeStrategy = get r ''attributeStrategy'';
         attrPrefix = (if full_str (get r ''attrPrefix'') then str_of (get r ''attrPrefix'') else ''joined_'') in
     require (predicate \<in> {JStr ''within'', JStr ''intersects'', JStr ''nearest''})
       ''spatial-join.params.predicate must be within, intersects, or nearest'' (
     require (predicate = JStr ''nearest'' \<longrightarrow> \<not> n_lt MAX_NEAREST_MAX_METERS n)
       ''spatial-join.params.nearestMaxMeters must be at most 1000000 m'' (
     require (attributeStrategy \<in> {JStr ''count'', JStr ''first''})
       ''spatial-join.params.attributeStrategy must be count or first'' (
     bind_res (if attributeStrategy = JStr ''first'' then attrs_to_keep (get r ''attrsToKeep'') else Inr Undef) (\<lambda>attrsToKeep.
     require (sql_safe_re attrPrefix) ''spatial-join.params.attrPrefix must match the field-name shape'' (
     require (case ctx of None \<Rightarrow> True
              | Some sch \<Rightarrow> \<forall>name \<in> set (join_names attrPrefix attributeStrategy attrsToKeep). find_field name sch = None)
       ''spatial-join would create an output column the upstream schema already has'' (
     Inr ([(''otherSource'', otherSource), (''predicate'', predicate)] @
          opt_prop ''nearestMaxMeters'' (if predicate = JStr ''nearest'' then JNum n else Undef) @
          [(''attributeStrategy'', attributeStrategy)] @
          opt_prop ''attrsToKeep'' attrsToKeep @
          [(''attrPrefix'', JStr attrPrefix)])))))))))"

definition join_prefix :: "obj \<Rightarrow> string" where
  "join_prefix p = str_of (coalesce (get p ''attrPrefix'') (JStr ''joined_''))"

definition spatial_join_output :: "schema \<Rightarrow> obj \<Rightarrow> schema" where
  "spatial_join_output input p =
     (let names = join_names (join_prefix p) (get p ''attributeStrategy'') (get p ''attrsToKeep'')
      in input @ (if get p ''attributeStrategy'' = JStr ''count''
                  then map (\<lambda>n. field_lit n n F_number False) names
                  else map (\<lambda>n. field_lit n n F_string True) names))"

definition join_meters :: "obj \<Rightarrow> jsnum" where
  "join_meters p = num_of (coalesce (get p ''nearestMaxMeters'') (JNum DEFAULT_NEAREST_MAX_METERS))"

definition spatial_join_reach :: "obj \<Rightarrow> jsnum" where
  "spatial_join_reach p = (if get p ''predicate'' = JStr ''nearest'' then join_meters p else Fin 0)"

fun join_pairs :: "nat \<Rightarrow> string list \<Rightarrow> string list" where
  "join_pairs n [] = []"
| "join_pairs n (a # as) = (ph (n + 1) @ '', r.properties->>'' @ lit (esc a)) # join_pairs (n + 1) as"

text \<open>The distance is pushed first when the predicate is neither of the other two.\<close>

definition join_params :: "obj \<Rightarrow> jsval list" where
  "join_params p =
     (if get p ''predicate'' = JStr ''within'' \<or> get p ''predicate'' = JStr ''intersects'' then []
      else [JNum (join_meters p)])"

definition join_predicate :: "obj \<Rightarrow> nat \<Rightarrow> string" where
  "join_predicate p paramOffset =
     (if get p ''predicate'' = JStr ''within'' then ''ST_Within(l.geom, r.geom)''
      else if get p ''predicate'' = JStr ''intersects'' then ''ST_Intersects(l.geom, r.geom)''
      else ''ST_DWithin(l.geom::geography, r.geom::geography, '' @ ph (paramOffset + 1) @ '')'')"

definition join_order :: "obj \<Rightarrow> string" where
  "join_order p =
     (if get p ''predicate'' = JStr ''nearest'' then ''ORDER BY ST_Distance(l.geom::geography, r.geom::geography) ASC''
      else ''ORDER BY r.global_id ASC'')"

definition join_attrs :: "obj \<Rightarrow> string list" where
  "join_attrs p = map str_of (elems_of (get p ''attrsToKeep''))"

definition joined_expr :: "obj \<Rightarrow> nat \<Rightarrow> string" where
  "joined_expr p paramOffset =
     (let n = paramOffset + length (join_params p); joinPredicate = join_predicate p paramOffset
      in if get p ''attributeStrategy'' = JStr ''count''
         then '' jsonb_build_object( '' @ ph (n + 1) @ '', (SELECT COUNT(*) FROM right_rows r WHERE '' @ joinPredicate @ '') ) ''
         else '' COALESCE( ( SELECT jsonb_build_object('' @ join '', '' (join_pairs n (join_attrs p)) @
              '') FROM right_rows r WHERE '' @ joinPredicate @ '' '' @ join_order p @ '' LIMIT 1 ), '' @ lit ''{}'' @ ''::jsonb ) '')"

definition joined_keys :: "obj \<Rightarrow> jsval list" where
  "joined_keys p =
     (if get p ''attributeStrategy'' = JStr ''count'' then [JStr (join_prefix p @ ''count'')]
      else map (\<lambda>a. JStr (join_prefix p @ a)) (join_attrs p))"

definition spatial_join_sql :: "string \<Rightarrow> obj \<Rightarrow> nat \<Rightarrow> sql_fragment checked" where
  "spatial_join_sql inputAlias p paramOffset =
     Inr (fragment
       ('' WITH right_rows AS ('' @ right_rows (get p ''otherSource'') @ '') SELECT l.global_id, l.geom, l.properties || '' @
        joined_expr p paramOffset @ '' AS properties FROM '' @ inputAlias @ '' l '')
       (join_params p @ joined_keys p))"

definition spatial_join_tool :: tool where
  "spatial_join_tool = \<lparr> t_kind = ''spatial-join'', t_validate = spatial_join_validate, t_enrich = None,
     t_output = spatial_join_output, t_reach = spatial_join_reach, t_deps = other_deps, t_sql = spatial_join_sql \<rparr>"

subsection \<open>Spatial filter\<close>

definition MAX_DISTANCE_METERS :: jsnum where "MAX_DISTANCE_METERS = Fin 1000000"
definition MAX_INLINE_FEATURE_IDS :: nat where "MAX_INLINE_FEATURE_IDS = 50000"

definition SPATIAL_PREDICATES :: "string list" where
  "SPATIAL_PREDICATES = [''intersects'', ''within'', ''contains'', ''touches'', ''near'']"

definition feature_ids :: "jsval \<Rightarrow> jsval checked" where
  "feature_ids v =
     (if is_arr v
      then require (\<forall>x \<in> set (elems_of v). is_str x \<or> is_num x)
        ''spatial-filter.params.otherSource.featureIds entries must be strings or numbers'' (Inr (JArr 0 (elems_of v)))
      else Inr Undef)"

definition parse_resolved_source :: "jsval \<Rightarrow> jsval checked" where
  "parse_resolved_source value =
     (case value of
        JObj _ v \<Rightarrow>
          if get v ''kind'' = JStr ''parameter''
          then Inl (Bad_request ''spatial-filter.params.otherSource is an unresolved parameter reference'')
          else if get v ''kind'' = JStr ''data_layer'' then
            require (full_str (get v ''itemId'')) ''spatial-filter.params.otherSource.itemId must be a non-empty string'' (
            bind_res (feature_ids (get v ''featureIds'')) (\<lambda>ids.
              Inr (JObj 0 ([(''kind'', JStr ''data_layer''), (''itemId'', get v ''itemId'')] @
                           layer_key_prop (get v ''layerKey'') @ opt_prop ''featureIds'' ids))))
          else if get v ''kind'' = JStr ''inline-geometry'' then
            require (\<not> nullish (get v ''geometry''))
              ''spatial-filter.params.otherSource.geometry is required for kind=inline-geometry''
              (Inr (JObj 0 [(''kind'', JStr ''inline-geometry''), (''geometry'', get v ''geometry'')]))
          else Inl (Bad_request ''spatial-filter.params.otherSource.kind is not supported'')
      | _ \<Rightarrow> Inl (Bad_request ''spatial-filter.params.otherSource must be an object''))"

text \<open>The predicate itself or the reference shape \<open>{ kind: 'fixed', value }\<close>; the recursion of the
  code goes one step, to a text.\<close>

definition predicate_text :: "jsval \<Rightarrow> string checked" where
  "predicate_text value =
     require (is_str value \<and> str_of value \<in> set SPATIAL_PREDICATES)
       ''spatial-filter.params.predicate must be intersects, within, contains, touches, or near''
       (Inr (str_of value))"

definition resolve_predicate :: "jsval \<Rightarrow> string checked" where
  "resolve_predicate value =
     (case value of
        JObj _ v \<Rightarrow>
          if get v ''kind'' = JStr ''parameter''
          then Inl (Bad_request ''spatial-filter.params.predicate is an unresolved parameter reference'')
          else if get v ''kind'' = JStr ''fixed'' \<and> is_str (get v ''value'') then predicate_text (get v ''value'')
          else predicate_text value
      | _ \<Rightarrow> predicate_text value)"

definition resolve_distance :: "jsval \<Rightarrow> jsnum option checked" where
  "resolve_distance value =
     (case value of
        Undef \<Rightarrow> Inr None
      | JNull \<Rightarrow> Inr None
      | JNum n \<Rightarrow> Inr (Some n)
      | _ \<Rightarrow>
          if field_of value ''kind'' = JStr ''parameter''
          then Inl (Bad_request ''spatial-filter.params.distance is an unresolved parameter reference'')
          else require (field_of value ''kind'' = JStr ''fixed'' \<and> is_num (field_of value ''meters''))
            ''spatial-filter.params.distance must be a number of meters or { kind: fixed, meters: number }''
            (Inr (Some (num_of (field_of value ''meters'')))))"

definition near_distance :: "jsval \<Rightarrow> jsval checked" where
  "near_distance value =
     bind_res (resolve_distance value) (\<lambda>d.
       case d of
         None \<Rightarrow> Inl (Bad_request ''spatial-filter.params.distance is required when predicate is near'')
       | Some m \<Rightarrow>
           require (is_finite m \<and> \<not> n_le m (Fin 0) \<and> \<not> n_lt MAX_DISTANCE_METERS m)
             ''spatial-filter.params.distance must be a positive number of meters <= 1000000'' (Inr (JNum m)))"

definition spatial_filter_validate :: "jsval \<Rightarrow> schema option \<Rightarrow> obj checked" where
  "spatial_filter_validate raw ctx = with_object ''spatial-filter'' raw (\<lambda>r.
     bind_res (parse_resolved_source (get r ''otherSource'')) (\<lambda>otherSource.
     bind_res (resolve_predicate (get r ''predicate'')) (\<lambda>predicate.
     bind_res (if predicate = ''near'' then near_distance (get r ''distance'') else Inr Undef) (\<lambda>distanceMeters.
       Inr ([(''otherSource'', otherSource), (''predicate'', JStr predicate)] @
            opt_prop ''distanceMeters'' distanceMeters)))))"

definition spatial_filter_reach :: "obj \<Rightarrow> jsnum" where
  "spatial_filter_reach p =
     (if get p ''predicate'' = JStr ''near'' \<and> is_num (get p ''distanceMeters'')
      then num_of (get p ''distanceMeters'') else Fin 0)"

definition spatial_filter_deps :: "obj \<Rightarrow> string list" where
  "spatial_filter_deps p =
     (if field_of (get p ''otherSource'') ''kind'' = JStr ''data_layer''
      then [str_of (field_of (get p ''otherSource'') ''itemId'')] else [])"

text \<open>A geometry, a feature, or a collection of exactly one feature; \<open>None\<close> is the code's \<open>null\<close>.\<close>

function (sequential) extract_geometry :: "jsval \<Rightarrow> jsval option" where
  "extract_geometry (JObj a v) =
     (if \<not> is_str (get v ''type'') then None
      else if get v ''type'' = JStr ''Feature''
      then (if is_object_like (get v ''geometry'') then Some (get v ''geometry'') else None)
      else if get v ''type'' = JStr ''FeatureCollection''
      then (case get v ''features'' of JArr _ [f] \<Rightarrow> extract_geometry f | _ \<Rightarrow> None)
      else Some (JObj a v))"
| "extract_geometry _ = None"
  by pat_completeness auto
termination
proof (relation "measure size")
  fix a v b vs f and ws :: "jsval list"
  assume "get v ''features'' = JArr b vs" "vs = f # ws"
  then show "(f, JObj a v) \<in> measure size" using size_get [of v "''features''"] by simp
qed simp

definition empty_props :: string where
  "empty_props = lit ''{}'' @ ''::jsonb''"

text \<open>The right side and the parameters it adds.\<close>

definition filter_right :: "jsval \<Rightarrow> nat \<Rightarrow> (string \<times> jsval list) checked" where
  "filter_right src paramOffset =
     (if field_of src ''kind'' = JStr ''data_layer'' then
        (let ids = elems_of (field_of src ''featureIds'') in
         if ids \<noteq> [] then
           require (length ids \<le> MAX_INLINE_FEATURE_IDS)
             ''spatial-filter.params.otherSource.featureIds may not exceed 50000''
             (Inr ('' SELECT * FROM ('' @ right_rows src @ '') r WHERE r.global_id = ANY('' @ ph (paramOffset + 1) @
                   ''::text[]) '', [field_of src ''featureIds'']))
         else Inr (right_rows src, []))
      else case extract_geometry (field_of src ''geometry'') of
             None \<Rightarrow> Inl (Bad_request ''spatial-filter.params.otherSource.geometry must be a GeoJSON Geometry, Feature, or single-feature FeatureCollection'')
           | Some geometry \<Rightarrow>
               validate_geojson geometry
                 (Inr ('' SELECT NULL::text AS global_id, ST_SetSRID(ST_GeomFromGeoJSON('' @ ph (paramOffset + 1) @
                       ''), 4326) AS geom, '' @ empty_props @
                       '' AS properties, NULL::timestamptz AS valid_from, NULL::timestamptz AS valid_to '',
                       [JStr (json_text geometry)])))"

definition predicate_fn :: "string \<Rightarrow> string" where
  "predicate_fn p =
     (if p = ''within'' then ''ST_Within'' else if p = ''contains'' then ''ST_Contains''
      else if p = ''touches'' then ''ST_Touches'' else ''ST_Intersects'')"

definition spatial_filter_sql :: "string \<Rightarrow> obj \<Rightarrow> nat \<Rightarrow> sql_fragment checked" where
  "spatial_filter_sql inputAlias p paramOffset =
     bind_res (filter_right (get p ''otherSource'') paramOffset) (\<lambda>(rightCte, ps).
       let near = (get p ''predicate'' = JStr ''near'');
           whereClause =
             (if near
              then ''ST_DWithin(l.geom::geography, r.geom::geography, '' @ ph (paramOffset + length ps + 1) @ '')''
              else predicate_fn (str_of (get p ''predicate'')) @ ''(l.geom, r.geom)'')
       in Inr (fragment
         ('' WITH right_rows AS ('' @ rightCte @ '') SELECT l.global_id, l.geom, l.properties FROM '' @ inputAlias @
          '' l WHERE EXISTS ( SELECT 1 FROM right_rows r WHERE '' @ whereClause @ '' ) '')
         (ps @ (if near then [get p ''distanceMeters''] else []))))"

definition spatial_filter_tool :: tool where
  "spatial_filter_tool = \<lparr> t_kind = ''spatial-filter'', t_validate = spatial_filter_validate, t_enrich = None,
     t_output = same_schema, t_reach = spatial_filter_reach, t_deps = spatial_filter_deps,
     t_sql = spatial_filter_sql \<rparr>"

subsection \<open>The contract\<close>

lemma clip_statement:
  "ident a \<Longrightarrow> clip_sql a p off = Inr f \<Longrightarrow> piece off (off + length (sf_params f)) (sf_sql f)"
  unfolding clip_sql_def by (erule fragment_piece, intro right_rows_piece piece_intros ident_piece) (simp_all add: text_simps)

lemma erase_statement:
  "ident a \<Longrightarrow> erase_sql a p off = Inr f \<Longrightarrow> piece off (off + length (sf_params f)) (sf_sql f)"
  unfolding erase_sql_def by (erule fragment_piece, intro right_rows_piece piece_intros ident_piece) (simp_all add: text_simps)

lemma clip_again: "clip_validate raw ctx = Inr p \<Longrightarrow> clip_validate (JObj a p) None = Inr p"
proof -
  assume "clip_validate raw ctx = Inr p"
  then obtain r src where o: "other_source ''clip'' r = Inr src" and p: "p = [(''otherSource'', src)]"
    unfolding clip_validate_def with_object_Inr bind_res_Inr by blast
  have "other_source ''clip'' p = Inr src" by (rule other_source_again [OF o]) (simp add: p get_Cons)
  then show ?thesis by (simp add: clip_validate_def p)
qed

lemma erase_again: "erase_validate raw ctx = Inr p \<Longrightarrow> erase_validate (JObj a p) None = Inr p"
proof -
  assume "erase_validate raw ctx = Inr p"
  then obtain r src where o: "other_source ''erase'' r = Inr src" and p: "p = [(''otherSource'', src)]"
    unfolding erase_validate_def with_object_Inr bind_res_Inr by blast
  have "other_source ''erase'' p = Inr src" by (rule other_source_again [OF o]) (simp add: p get_Cons)
  then show ?thesis by (simp add: erase_validate_def p)
qed

interpretation clip: stored_tool clip_tool
  by unfold_locales (auto simp: clip_tool_def parameterless clip_statement intro: clip_again, simp add: clip_sql_def)

interpretation erase: stored_tool erase_tool
  by unfold_locales (auto simp: erase_tool_def parameterless erase_statement intro: erase_again, simp add: erase_sql_def)

lemma join_pairs_piece:
  "x \<in> set (join_pairs n as) \<Longrightarrow> lo \<le> n \<Longrightarrow> n + length as \<le> hi \<Longrightarrow> piece lo hi x"
proof (induction "as" arbitrary: n)
  case (Cons a as)
  have "piece lo hi (ph (n + 1) @ '', r.properties->>'' @ lit (esc a))"
    using Cons.prems by (intro piece_intros) (simp_all add: text_simps)
  with Cons show ?case by auto
qed simp

text \<open>The predicate and the object of joined values, with the parameters they use.\<close>

lemma filter_right_piece:
  assumes "filter_right src off = Inr (sql, ps)"
  shows "piece off (off + length ps) sql"
proof (cases "field_of src ''kind'' = JStr ''data_layer''")
  case True
  show ?thesis
  proof (cases "elems_of (field_of src ''featureIds'') = []")
    case False
    then have s: "sql = '' SELECT * FROM ('' @ right_rows src @ '') r WHERE r.global_id = ANY('' @ ph (off + 1) @ ''::text[]) ''"
      and p: "ps = [field_of src ''featureIds'']"
      using assms True by (simp_all add: filter_right_def Let_def)
    show ?thesis unfolding s p by (intro right_rows_piece piece_intros) (simp_all add: text_simps)
  next
    case e: True
    then have "sql = right_rows src" using assms True by (simp add: filter_right_def Let_def)
    then show ?thesis by (simp only: right_rows_piece)
  qed
next
  case False
  then obtain g where
    s: "sql = '' SELECT NULL::text AS global_id, ST_SetSRID(ST_GeomFromGeoJSON('' @ ph (off + 1) @ ''), 4326) AS geom, '' @ empty_props @
       '' AS properties, NULL::timestamptz AS valid_from, NULL::timestamptz AS valid_to ''"
    and p: "ps = [JStr (json_text g)]"
    using assms by (auto simp: filter_right_def Let_def validate_geojson_def split: option.splits if_splits)
  show ?thesis unfolding s p empty_props_def by (intro piece_intros) (simp_all add: text_simps)
qed

lemma spatial_filter_statement:
  assumes "ident a" and "spatial_filter_sql a p off = Inr f"
  shows "piece off (off + length (sf_params f)) (sf_sql f)"
proof -
  define wh where "wh ps = (if get p ''predicate'' = JStr ''near''
      then ''ST_DWithin(l.geom::geography, r.geom::geography, '' @ ph (off + length ps + 1) @ '')''
      else predicate_fn (str_of (get p ''predicate'')) @ ''(l.geom, r.geom)'')" for ps :: "jsval list"
  define more where "more = (if get p ''predicate'' = JStr ''near'' then [get p ''distanceMeters''] else [])"
  from assms(2) obtain cte ps where c: "filter_right (get p ''otherSource'') off = Inr (cte, ps)"
    and f: "f = fragment ('' WITH right_rows AS ('' @ cte @ '') SELECT l.global_id, l.geom, l.properties FROM '' @ a @
          '' l WHERE EXISTS ( SELECT 1 FROM right_rows r WHERE '' @ wh ps @ '' ) '') (ps @ more)"
    unfolding spatial_filter_sql_def bind_res_Inr Let_def wh_def more_def by auto
  let ?hi = "off + length (ps @ more)"
  have cte: "piece off ?hi cte" by (rule piece_mono [OF filter_right_piece [OF c]]) simp_all
  have "piece off ?hi (predicate_fn x)" for x
    unfolding predicate_fn_def by (intro piece_intros) (simp_all add: text_simps)
  then have w: "piece off ?hi (wh ps)"
    unfolding wh_def by (intro piece_intros) (simp_all add: text_simps more_def)
  show ?thesis unfolding f fragment_sel
    by (intro cte w piece_intros ident_piece assms(1)) (simp_all add: text_simps)
qed

lemma spatial_join_statement:
  assumes "ident a" and "spatial_join_sql a p off = Inr f"
  shows "piece off (off + length (sf_params f)) (sf_sql f)"
proof -
  let ?hi = "off + length (join_params p @ joined_keys p)"
  have pred: "piece off ?hi (join_predicate p off)"
    unfolding join_predicate_def by (intro piece_intros) (simp_all add: text_simps join_params_def)
  have ord: "piece off ?hi (join_order p)"
    unfolding join_order_def by (intro piece_intros) (simp_all add: text_simps)
  have pairs: "piece off ?hi (join '', '' (join_pairs (off + length (join_params p)) (join_attrs p)))"
    if "get p ''attributeStrategy'' \<noteq> JStr ''count''"
  proof (rule piece_join)
    show "piece off ?hi x" if "x \<in> set (join_pairs (off + length (join_params p)) (join_attrs p))" for x
      using join_pairs_piece [OF that] \<open>get p _ \<noteq> _\<close> by (simp add: joined_keys_def)
  qed (intro piece_intros; simp add: text_simps)
  have expr: "piece off ?hi (joined_expr p off)"
    unfolding joined_expr_def Let_def
    by (intro pairs pred ord piece_intros) (simp_all add: text_simps joined_keys_def)
  show ?thesis using assms(2) unfolding spatial_join_sql_def
    by (elim fragment_piece) (intro expr right_rows_piece piece_intros ident_piece assms(1), simp_all add: text_simps)
qed

lemma nearest_max_again [simp]: "nearest_max (JNum (nearest_max v)) = nearest_max v"
  by (cases v) (auto simp: nearest_max_def DEFAULT_NEAREST_MAX_METERS_def)

lemma nearest_max_bounded: "\<not> n_lt MAX_NEAREST_MAX_METERS (nearest_max v) \<Longrightarrow> bounded (nearest_max v) 1000000"
  by (rule bounded_between)
    (auto simp: nearest_max_def DEFAULT_NEAREST_MAX_METERS_def MAX_NEAREST_MAX_METERS_def n_le_def)

lemma attrs_to_keep_again: "attrs_to_keep v = Inr w \<Longrightarrow> attrs_to_keep w = Inr w \<and> w \<noteq> Undef"
  by (auto simp: attrs_to_keep_def)

text \<open>What the join validator yields.\<close>

lemma spatial_join_validate_Inr:
  assumes "spatial_join_validate raw ctx = Inr p"
  obtains r src pr n st kp px where
    "other_source ''spatial-join'' r = Inr src"
    "p = [(''otherSource'', src), (''predicate'', pr)] @ opt_prop ''nearestMaxMeters'' (if pr = JStr ''nearest'' then JNum (nearest_max n) else Undef) @
         [(''attributeStrategy'', st)] @ opt_prop ''attrsToKeep'' kp @ [(''attrPrefix'', JStr px)]"
    "pr \<in> {JStr ''within'', JStr ''intersects'', JStr ''nearest''}"
    "pr = JStr ''nearest'' \<longrightarrow> \<not> n_lt MAX_NEAREST_MAX_METERS (nearest_max n)"
    "st \<in> {JStr ''count'', JStr ''first''}"
    "(if st = JStr ''first'' then attrs_to_keep kp else Inr Undef) = Inr kp"
    "sql_safe_re px"
proof -
  from assms obtain r src kp where v: "other_source ''spatial-join'' r = Inr src"
    "get r ''predicate'' \<in> {JStr ''within'', JStr ''intersects'', JStr ''nearest''}"
    "get r ''predicate'' = JStr ''nearest'' \<longrightarrow> \<not> n_lt MAX_NEAREST_MAX_METERS (nearest_max (get r ''nearestMaxMeters''))"
    "get r ''attributeStrategy'' \<in> {JStr ''count'', JStr ''first''}"
    "(if get r ''attributeStrategy'' = JStr ''first'' then attrs_to_keep (get r ''attrsToKeep'') else Inr Undef) = Inr kp"
    "sql_safe_re (if full_str (get r ''attrPrefix'') then str_of (get r ''attrPrefix'') else ''joined_'')"
    "[(''otherSource'', src), (''predicate'', get r ''predicate'')] @
          opt_prop ''nearestMaxMeters'' (if get r ''predicate'' = JStr ''nearest'' then JNum (nearest_max (get r ''nearestMaxMeters'')) else Undef) @
          [(''attributeStrategy'', get r ''attributeStrategy'')] @ opt_prop ''attrsToKeep'' kp @
          [(''attrPrefix'', JStr (if full_str (get r ''attrPrefix'') then str_of (get r ''attrPrefix'') else ''joined_''))] = p"
    unfolding spatial_join_validate_def with_object_Inr bind_res_Inr Let_def require_Inr sum.inject by blast
  have "(if get r ''attributeStrategy'' = JStr ''first'' then attrs_to_keep kp else Inr Undef) = Inr kp"
    using v(5) attrs_to_keep_again by (auto split: if_splits)
  from that [OF v(1) v(7) [symmetric] v(2-4) this v(6)] show thesis .
qed

lemma spatial_join_values:
  assumes "p = [(''otherSource'', src), (''predicate'', pr)] @ opt_prop ''nearestMaxMeters'' nm @
         [(''attributeStrategy'', st)] @ opt_prop ''attrsToKeep'' kp @ [(''attrPrefix'', JStr px)]"
  shows "get p ''otherSource'' = src" "get p ''predicate'' = pr" "get p ''nearestMaxMeters'' = nm"
    "get p ''attributeStrategy'' = st" "get p ''attrsToKeep'' = kp" "get p ''attrPrefix'' = JStr px"
  by (simp_all add: assms get_Cons get_opt_prop get_opt_prop_last)

lemma sql_safe_full: "sql_safe_re px \<Longrightarrow> full_str (JStr px)"
  by (cases px) auto

lemma spatial_join_again: "spatial_join_validate raw ctx = Inr p \<Longrightarrow> spatial_join_validate (JObj a p) None = Inr p"
proof (erule spatial_join_validate_Inr)
  fix r src pr n st kp px
  assume v: "other_source ''spatial-join'' r = Inr src"
    and p: "p = [(''otherSource'', src), (''predicate'', pr)] @ opt_prop ''nearestMaxMeters'' (if pr = JStr ''nearest'' then JNum (nearest_max n) else Undef) @
         [(''attributeStrategy'', st)] @ opt_prop ''attrsToKeep'' kp @ [(''attrPrefix'', JStr px)]"
    and c: "pr \<in> {JStr ''within'', JStr ''intersects'', JStr ''nearest''}"
      "pr = JStr ''nearest'' \<longrightarrow> \<not> n_lt MAX_NEAREST_MAX_METERS (nearest_max n)"
      "st \<in> {JStr ''count'', JStr ''first''}"
      "(if st = JStr ''first'' then attrs_to_keep kp else Inr Undef) = Inr kp"
      "sql_safe_re px"
  note g = spatial_join_values [OF p]
  have o: "other_source ''spatial-join'' p = Inr src" by (rule other_source_again [OF v g(1)])
  have px: "(if full_str (JStr px) then str_of (JStr px) else ''joined_'') = px" using sql_safe_full [OF c(5)] by simp
  show "spatial_join_validate (JObj a p) None = Inr p"
  proof (cases "pr = JStr ''nearest''")
    case True
    with c(2) have m: "\<not> n_lt MAX_NEAREST_MAX_METERS (nearest_max n)" by blast
    have nm: "nearest_max (get p ''nearestMaxMeters'') = nearest_max n" using g(3) True by simp
    show ?thesis
      unfolding spatial_join_validate_def with_object_JObj Let_def o bind_res.simps g(2,4,5,6) nm px c(4) option.case
        require_Inr
      using c(1,3,5) m p True by simp
  next
    case False
    show ?thesis
      unfolding spatial_join_validate_def with_object_JObj Let_def o bind_res.simps g(2,4,5,6) px c(4) option.case
        require_Inr
      using c(1,3,5) p False by simp
  qed
qed

lemma spatial_join_bounded: "spatial_join_validate raw ctx = Inr p \<Longrightarrow> bounded (spatial_join_reach p) 1000000"
proof (erule spatial_join_validate_Inr)
  fix r src pr n st kp px
  assume p: "p = [(''otherSource'', src), (''predicate'', pr)] @ opt_prop ''nearestMaxMeters'' (if pr = JStr ''nearest'' then JNum (nearest_max n) else Undef) @
         [(''attributeStrategy'', st)] @ opt_prop ''attrsToKeep'' kp @ [(''attrPrefix'', JStr px)]"
    and c: "pr = JStr ''nearest'' \<longrightarrow> \<not> n_lt MAX_NEAREST_MAX_METERS (nearest_max n)"
  show ?thesis using nearest_max_bounded [of n] c
    by (simp add: spatial_join_reach_def join_meters_def spatial_join_values [OF p] coalesce_def)
qed

interpretation spatial_join: stored_tool spatial_join_tool
  by unfold_locales (auto simp: spatial_join_tool_def parameterless spatial_join_statement spatial_join_bounded
    intro: spatial_join_again, simp add: spatial_join_sql_def)

text \<open>What the filter validator yields.\<close>

lemma spatial_filter_validate_Inr:
  assumes "spatial_filter_validate raw ctx = Inr p"
  obtains src pr d where
    "p = [(''otherSource'', src), (''predicate'', JStr pr)] @ opt_prop ''distanceMeters'' d"
    "pr \<in> set SPATIAL_PREDICATES" "\<exists>w. parse_resolved_source w = Inr src"
    "if pr = ''near'' then \<exists>w. near_distance w = Inr d else d = Undef"
proof -
  from assms obtain r src pr d where v: "parse_resolved_source (get r ''otherSource'') = Inr src"
    "resolve_predicate (get r ''predicate'') = Inr pr"
    "(if pr = ''near'' then near_distance (get r ''distance'') else Inr Undef) = Inr d"
    "[(''otherSource'', src), (''predicate'', JStr pr)] @ opt_prop ''distanceMeters'' d = p"
    unfolding spatial_filter_validate_def with_object_Inr bind_res_Inr sum.inject by blast
  have "pr \<in> set SPATIAL_PREDICATES" using v(2)
    by (auto simp: resolve_predicate_def predicate_text_def split: jsval.splits if_splits)
  moreover have "if pr = ''near'' then \<exists>w. near_distance w = Inr d else d = Undef" using v(3) by (auto split: if_splits)
  ultimately show thesis using that [OF v(4) [symmetric]] v(1) by blast
qed

lemma spatial_filter_values:
  assumes "p = [(''otherSource'', src), (''predicate'', JStr pr)] @ opt_prop ''distanceMeters'' d"
  shows "get p ''otherSource'' = src" "get p ''predicate'' = JStr pr" "get p ''distanceMeters'' = d" "get p ''distance'' = Undef"
  by (simp_all add: assms get_Cons get_opt_prop get_opt_prop_last)

lemma near_distance_bounded: "near_distance w = Inr d \<Longrightarrow> bounded (num_of d) 1000000 \<and> is_num d"
proof -
  assume "near_distance w = Inr d"
  then obtain m where m: "is_finite m" "\<not> n_le m (Fin 0)" "\<not> n_lt MAX_DISTANCE_METERS m" "d = JNum m"
    by (auto simp: near_distance_def bind_res_Inr split: option.splits)
  then show ?thesis by (cases m) (auto simp: bounded_def MAX_DISTANCE_METERS_def)
qed

lemma spatial_filter_bounded: "spatial_filter_validate raw ctx = Inr p \<Longrightarrow> bounded (spatial_filter_reach p) 1000000"
proof (erule spatial_filter_validate_Inr)
  fix src pr d
  assume p: "p = [(''otherSource'', src), (''predicate'', JStr pr)] @ opt_prop ''distanceMeters'' d"
    and d: "if pr = ''near'' then \<exists>w. near_distance w = Inr d else d = Undef"
  show ?thesis using d near_distance_bounded
    by (auto simp: spatial_filter_reach_def spatial_filter_values [OF p] split: if_splits)
qed

interpretation spatial_filter: tool_generator spatial_filter_tool
  by unfold_locales (simp_all add: spatial_filter_tool_def spatial_filter_statement spatial_filter_bounded)

text \<open>The parser of sources accepts what it returns.\<close>

lemma get_layer_key: "get (layer_key_prop v @ b) k = (if k = ''layerKey'' \<and> full_str v then v else get b k)"
  by (simp add: layer_key_prop_def get_Cons)

lemma feature_ids_again: "feature_ids v = Inr w \<Longrightarrow> feature_ids w = Inr w"
  by (auto simp: feature_ids_def split: if_splits)

lemma layer_key_fixed: "layer_key_prop (if full_str v then v else Undef) = layer_key_prop v"
  by (simp add: layer_key_prop_def)

lemma parse_resolved_source_again:
  assumes "parse_resolved_source w = Inr src"
  shows "parse_resolved_source src = Inr src"
proof -
  obtain a v where w: "w = JObj a v" using assms by (cases w) (auto simp: parse_resolved_source_def)
  consider (layer) "get v ''kind'' = JStr ''data_layer''" | (inline) "get v ''kind'' = JStr ''inline-geometry''"
    using assms by (auto simp: parse_resolved_source_def w split: if_splits)
  then show ?thesis
  proof cases
    case layer
    then obtain ids where i: "full_str (get v ''itemId'')" "feature_ids (get v ''featureIds'') = Inr ids"
      and src: "src = JObj 0 ([(''kind'', JStr ''data_layer''), (''itemId'', get v ''itemId'')] @
                        layer_key_prop (get v ''layerKey'') @ opt_prop ''featureIds'' ids)"
      using assms by (auto simp: parse_resolved_source_def w bind_res_Inr)
    define m where "m = [(''kind'', JStr ''data_layer''), (''itemId'', get v ''itemId'')] @
                        layer_key_prop (get v ''layerKey'') @ opt_prop ''featureIds'' ids"
    have g: "get m ''kind'' = JStr ''data_layer''" "get m ''itemId'' = get v ''itemId''" "get m ''featureIds'' = ids"
      "get m ''layerKey'' = (if full_str (get v ''layerKey'') then get v ''layerKey'' else Undef)"
      by (simp_all add: m_def get_Cons get_layer_key get_opt_prop_last)
    show ?thesis unfolding src m_def [symmetric] parse_resolved_source_def jsval.case g layer_key_fixed
        feature_ids_again [OF i(2)] bind_res.simps
      using i(1) by (simp add: m_def)
  next
    case inline
    then have i: "\<not> nullish (get v ''geometry'')"
      and src: "src = JObj 0 [(''kind'', JStr ''inline-geometry''), (''geometry'', get v ''geometry'')]"
      using assms by (auto simp: parse_resolved_source_def w)
    show ?thesis unfolding src using i by (simp add: parse_resolved_source_def get_Cons)
  qed
qed

text \<open>A stored filter validates again unless its predicate is \<open>near\<close>: the validator reads the property
  \<open>distance\<close> and writes \<open>distanceMeters\<close>, so then it never does.\<close>

lemma spatial_filter_again:
  assumes "spatial_filter_validate raw ctx = Inr p"
  shows "if get p ''predicate'' = JStr ''near''
    then spatial_filter_validate (JObj a p) ctx' =
      Inl (Bad_request ''spatial-filter.params.distance is required when predicate is near'')
    else spatial_filter_validate (JObj a p) ctx' = Inr p"
  using assms
proof (rule spatial_filter_validate_Inr)
  fix src pr d
  assume p: "p = [(''otherSource'', src), (''predicate'', JStr pr)] @ opt_prop ''distanceMeters'' d"
    and c: "pr \<in> set SPATIAL_PREDICATES" "\<exists>w. parse_resolved_source w = Inr src"
      "if pr = ''near'' then \<exists>w. near_distance w = Inr d else d = Undef"
  note g = spatial_filter_values [OF p]
  have s: "parse_resolved_source src = Inr src" using c(2) parse_resolved_source_again by blast
  have pr: "resolve_predicate (JStr pr) = Inr pr" using c(1) by (simp add: resolve_predicate_def predicate_text_def)
  have "near_distance Undef = Inl (Bad_request ''spatial-filter.params.distance is required when predicate is near'')"
    by (simp add: near_distance_def resolve_distance_def)
  then show ?thesis
    unfolding spatial_filter_validate_def with_object_JObj g s pr bind_res.simps jsval.inject
    using c(3) p by (cases "pr = ''near''") simp_all
qed

end
