(* ===== verification/ToolsContour.thy ===== *)
theory ToolsContour
  imports ToolsSpatial
begin

text \<open>
  The contour tool, \<open>apps/portal-api/src/derived-layers/tools/contour.ts\<close>. The levels are
  computed when the layer is saved and stored in its parameters; the reads use what is stored.
\<close>

definition MAX_LEVELS :: nat where "MAX_LEVELS = 100"

subsection \<open>Validation\<close>

text \<open>An optional bound: absent or a finite number.\<close>

definition contour_bound :: "string \<Rightarrow> jsval \<Rightarrow> jsval checked" where
  "contour_bound msg v =
     (if v = Undef then Inr Undef else require (fin_num v) msg (Inr v))"

fun ascending :: "jsval list \<Rightarrow> bool" where
  "ascending (a # b # vs) = (\<not> n_le (num_of b) (num_of a) \<and> ascending (b # vs))"
| "ascending _ = True"

definition contour_auto :: "obj \<Rightarrow> obj checked" where
  "contour_auto r =
     (let i = get r ''interval'' in
      require (fin_num i \<and> \<not> n_le (num_of i) (Fin 0))
        ''contour.params.interval must be a positive number when mode=auto'' (
      bind_res (contour_bound ''contour.params.minLevel must be a finite number'' (get r ''minLevel'')) (\<lambda>minLevel.
      bind_res (contour_bound ''contour.params.maxLevel must be a finite number'' (get r ''maxLevel'')) (\<lambda>maxLevel.
      require (\<not> (minLevel \<noteq> Undef \<and> maxLevel \<noteq> Undef \<and> n_le (num_of maxLevel) (num_of minLevel)))
        ''contour.params.minLevel must be strictly less than maxLevel'' (
      Inr ([(''interval'', i)] @ opt_prop ''minLevel'' minLevel @ opt_prop ''maxLevel'' maxLevel))))))"

definition contour_manual :: "obj \<Rightarrow> obj checked" where
  "contour_manual r =
     (let raw = get r ''levels'' in
      require (is_arr raw \<and> elems_of raw \<noteq> [])
        ''contour.params.levels must be a non-empty array when mode=manual'' (
      require (length (elems_of raw) \<le> MAX_LEVELS) ''contour.params.levels supports at most 100 entries'' (
      require (\<forall>v \<in> set (elems_of raw). fin_num v) ''contour.params.levels entries must all be finite numbers'' (
      require (ascending (elems_of raw)) ''contour.params.levels must be sorted ascending with no duplicates'' (
      Inr [(''levels'', JArr 0 (elems_of raw))])))))"

definition contour_cached :: "jsval \<Rightarrow> jsval checked" where
  "contour_cached v =
     (if v = Undef then Inr Undef
      else require (is_arr v \<and> elems_of v \<noteq> [] \<and> length (elems_of v) \<le> MAX_LEVELS \<and>
                    (\<forall>x \<in> set (elems_of v). fin_num x))
        ''contour.params.cachedLevels must be a non-empty array of finite numbers''
        (Inr (JArr 0 (elems_of v))))"

definition contour_validate :: "jsval \<Rightarrow> schema option \<Rightarrow> obj checked" where
  "contour_validate raw ctx = with_object ''contour'' raw (\<lambda>r.
     let field = get r ''field''; mode = get r ''mode'' in
     require (is_str field \<and> sql_safe_re (str_of field)) ''contour.params.field must match'' (
     require_number_field (str_of field) ctx ''contour.params.field'' (
     require (mode = JStr ''auto'' \<or> mode = JStr ''manual'') ''contour.params.mode must be auto or manual'' (
     bind_res (if mode = JStr ''auto'' then contour_auto r else contour_manual r) (\<lambda>more.
     bind_res (contour_cached (get r ''cachedLevels'')) (\<lambda>cachedLevels.
       Inr ([(''field'', field), (''mode'', mode)] @ more @ opt_prop ''cachedLevels'' cachedLevels)))))))"

subsection \<open>Levels\<close>

text \<open>\<open>for (let level = firstLevel; level <= max; level += interval)\<close>, which stops at 100 levels:
  \<open>n\<close> counts the levels still allowed.\<close>

fun contour_levels :: "nat \<Rightarrow> jsnum \<Rightarrow> jsnum \<Rightarrow> jsnum \<Rightarrow> jsval list" where
  "contour_levels 0 level hi interval = []"
| "contour_levels (Suc n) level hi interval =
     (if n_le level hi then JNum level # contour_levels n (n_add level interval) hi interval else [])"

definition first_level :: "jsnum \<Rightarrow> jsnum \<Rightarrow> jsnum" where
  "first_level lo interval = n_mul (n_ceil (n_div lo interval)) interval"

definition range_sql :: "string \<Rightarrow> string \<Rightarrow> string" where
  "range_sql field sourceTable =
     (let p = property_text field
      in ''SELECT MIN(('' @ p @ '')::numeric) AS minv, MAX(('' @ p @ '')::numeric) AS maxv FROM '' @ sourceTable)"

definition bound_or :: "jsval \<Rightarrow> jsval \<Rightarrow> jsnum" where
  "bound_or v raw = (if v = Undef then js_number raw else num_of v)"

definition stamp_levels :: "jsval list \<Rightarrow> obj \<Rightarrow> obj checked" where
  "stamp_levels levels p = Inr (obj_set ''cachedLevels'' (JArr 0 levels) p)"

definition contour_range :: "jsnum \<Rightarrow> jsnum \<Rightarrow> obj \<Rightarrow> obj checked" where
  "contour_range lo hi p =
     (let interval = num_of (get p ''interval'') in
      if \<not> n_lt lo hi then stamp_levels [] p
      else stamp_levels (contour_levels MAX_LEVELS (first_level lo interval) hi interval) p)"

definition contour_enrich :: "obj \<Rightarrow> string \<Rightarrow> query \<Rightarrow> obj checked" where
  "contour_enrich p sourceTable queryRaw =
     (if get p ''mode'' = JStr ''manual'' then stamp_levels (elems_of (get p ''levels'')) p
      else let minLevel = get p ''minLevel''; maxLevel = get p ''maxLevel'' in
           if minLevel = Undef \<or> maxLevel = Undef then
             (case queryRaw (range_sql (str_of (get p ''field'')) sourceTable) [] of
                [] \<Rightarrow> stamp_levels [] p
              | r # _ \<Rightarrow>
                  if get r ''minv'' = JNull \<or> get r ''maxv'' = JNull then stamp_levels [] p
                  else contour_range (bound_or minLevel (get r ''minv'')) (bound_or maxLevel (get r ''maxv'')) p)
           else contour_range (num_of minLevel) (num_of maxLevel) p)"

definition contour_output :: "schema \<Rightarrow> obj \<Rightarrow> schema" where
  "contour_output input p = [field_lit ''level'' ''Contour level'' F_number False]"

subsection \<open>The statement\<close>

text \<open>The comments inside the statement are left out.\<close>

definition contour_points :: "string \<Rightarrow> string \<Rightarrow> string" where
  "contour_points field inputAlias =
     (let p = ''('' @ property_text field @ '')''
      in '' WITH pts AS ( SELECT global_id, geom, '' @ p @ ''::numeric AS val FROM '' @ inputAlias @
         '' WHERE geom IS NOT NULL AND '' @ p @ '' IS NOT NULL AND '' @ p @ '' ~ '' @
         lit (''^-?'' @ backslash @ ''d+('' @ backslash @ ''.'' @ backslash @ ''d+)?$'') @ '' ),'')"

definition contour_triangles :: string where
  "contour_triangles =
     '' tin AS ( SELECT row_number() OVER () AS tri_id, (ST_Dump(ST_DelaunayTriangles(ST_Collect(geom), 0.0, 0))).geom AS tri_geom FROM pts ),'' @
     '' verts AS ( SELECT t.tri_id, v.idx, ST_PointN(ST_ExteriorRing(t.tri_geom), v.idx) AS vgeom FROM tin t CROSS JOIN LATERAL (VALUES (1), (2), (3)) AS v(idx) ),'' @
     '' verts_z AS ( SELECT v.tri_id, v.idx, v.vgeom, ( SELECT p.val FROM pts p ORDER BY ST_Distance(p.geom, v.vgeom) ASC LIMIT 1 ) AS val FROM verts v ),'' @
     '' tri AS ( SELECT tri_id, MAX(vgeom) FILTER (WHERE idx = 1) AS a_geom, MAX(val) FILTER (WHERE idx = 1) AS a_z, MAX(vgeom) FILTER (WHERE idx = 2) AS b_geom, MAX(val) FILTER (WHERE idx = 2) AS b_z, MAX(vgeom) FILTER (WHERE idx = 3) AS c_geom, MAX(val) FILTER (WHERE idx = 3) AS c_z FROM verts_z GROUP BY tri_id ),''"

definition contour_crossings :: string where
  "contour_crossings =
     '' crossings AS ( SELECT t.tri_id, l.level, ( SELECT array_agg( ST_MakePoint( ST_X(p_geom) + ((l.level - p_z) / (q_z - p_z)) * (ST_X(q_geom) - ST_X(p_geom)), ST_Y(p_geom) + ((l.level - p_z) / (q_z - p_z)) * (ST_Y(q_geom) - ST_Y(p_geom)) ) ) FROM ('' @
     '' SELECT t.a_geom AS p_geom, t.a_z AS p_z, t.b_geom AS q_geom, t.b_z AS q_z UNION ALL SELECT t.b_geom, t.b_z, t.c_geom, t.c_z UNION ALL SELECT t.c_geom, t.c_z, t.a_geom, t.a_z ) edges'' @
     '' WHERE p_z IS NOT NULL AND q_z IS NOT NULL AND p_z <> q_z AND ( (p_z < l.level AND l.level <= q_z) OR (q_z < l.level AND l.level <= p_z) ) ) AS pts_arr'' @
     '' FROM tri t CROSS JOIN levels l WHERE t.a_z IS NOT NULL AND t.b_z IS NOT NULL AND t.c_z IS NOT NULL AND l.level >= LEAST(t.a_z, t.b_z, t.c_z) AND l.level <= GREATEST(t.a_z, t.b_z, t.c_z) )''"

definition contour_sql :: "string \<Rightarrow> obj \<Rightarrow> nat \<Rightarrow> sql_fragment checked" where
  "contour_sql inputAlias p paramOffset =
     (let levels = elems_of (get p ''cachedLevels'') in
      if levels = [] then Inr (fragment
        (''SELECT gen_random_uuid()::text AS global_id, NULL::geometry AS geom, '' @ empty_props @
         '' AS properties WHERE FALSE'') [])
      else Inr (fragment
        (contour_points (str_of (get p ''field'')) inputAlias @ contour_triangles @
         '' levels AS ( SELECT unnest('' @ ph (paramOffset + 1) @ ''::numeric[]) AS level ),'' @ contour_crossings @
         '' SELECT gen_random_uuid()::text AS global_id, ST_SetSRID(ST_MakeLine(pts_arr[1], pts_arr[2]), 4326) AS geom, jsonb_build_object('' @
         lit ''level'' @ '', level) AS properties FROM crossings WHERE pts_arr IS NOT NULL AND array_length(pts_arr, 1) = 2 '')
        [get p ''cachedLevels'']))"

definition contour_tool :: tool where
  "contour_tool = \<lparr> t_kind = ''contour'', t_validate = contour_validate, t_enrich = Some contour_enrich,
     t_output = contour_output, t_reach = no_reach, t_deps = no_deps, t_sql = contour_sql \<rparr>"

subsection \<open>The contract\<close>

lemma contour_statement:
  "ident a \<Longrightarrow> contour_sql a p off = Inr f \<Longrightarrow> piece off (off + length (sf_params f)) (sf_sql f)"
  unfolding contour_sql_def Let_def contour_points_def contour_triangles_def contour_crossings_def empty_props_def
  by (erule fragment_if; erule fragment_piece, intro piece_intros ident_piece) (simp_all add: text_simps backslash_def)

interpretation contour: tool_generator contour_tool
  by unfold_locales (auto simp: contour_tool_def contour_statement no_reach_def)

text \<open>A contour layer saved without levels never reads: the hook stores an empty list, which the
  validator refuses. That happens to a source without values, to one whose values are all equal,
  and to one whose values lie between two levels.\<close>

lemma contour_without_levels:
  assumes "contour_enrich p src q = Inr p'" and "elems_of (get p' ''cachedLevels'') = []"
  shows "\<exists>e. contour_validate (JObj a p') ctx = Inl e"
proof -
  have "get p' ''cachedLevels'' = JArr 0 []"
    using assms by (auto simp: contour_enrich_def contour_range_def stamp_levels_def Let_def get_obj_set
        split: if_splits list.splits)
  then have c: "\<exists>e. contour_cached (get p' ''cachedLevels'') = Inl e"
    by (simp add: contour_cached_def require_def)
  show ?thesis
  proof (cases "contour_validate (JObj a p') ctx")
    case (Inr r)
    then obtain ks where "contour_cached (get p' ''cachedLevels'') = Inr ks"
      unfolding contour_validate_def with_object_JObj Let_def require_Inr
      by (blast dest: require_number_field_Inr [THEN require_Inr [THEN iffD1]] bind_res_Inr [THEN iffD1])
    with c show ?thesis by simp
  qed blast
qed

end
