(* ===== verification/Sharing.thy ===== *)
theory Sharing
  imports JsValue
begin

text \<open>
  Who may see and change an item: \<open>items/sharing.service.ts\<close>, the entity store it builds for a
  decision (\<open>policy/entity-store.ts\<close>), the policy text and the check of
  \<open>policy/policy.service.ts\<close>, and the capabilities of \<open>auth/capabilities.ts\<close>, all under
  \<open>apps/portal-api/src\<close>.

  The evaluator of policies (Cedar) is a package: it is the argument \<open>cedar\<close> of the definitions,
  and \<open>cedar_semantics\<close> is its documented rule for the nine policies of the text, which are
  translated one by one. The condition of a list query is the tree the code builds; the database
  that selects with it is an argument with the documented meaning of each node
  (\<open>where_semantics\<close>). The clock is the argument \<open>now\<close>, in milliseconds.
\<close>

subsection \<open>Users, items and shares\<close>

datatype org_role = Role_viewer | Role_contributor | Role_admin
datatype access_level = Private | Org_wide | Public
datatype principal_type = User_share | Group_share
datatype permission = View | Download | Edit | Admin
datatype row_scope = All_rows | Own_rows
datatype layer_policy = Policy_all_rows | Policy_own_rows_only

record auth_user =
  au_id :: string
  au_org :: string
  au_role :: org_role
  au_groups :: "string list"

record share =
  sh_type :: principal_type
  sh_principal :: string
  sh_permission :: permission
  sh_geo_limit :: jsval
  sh_boundary :: "string option"
  sh_row_scope :: row_scope
  sh_edit_row_scope :: "row_scope option"
  sh_expires :: "int option"

record shared_item =
  im_id :: string
  im_owner :: string
  im_org :: string
  im_access :: access_level
  im_public_boundary :: "string option"
  im_org_boundary :: "string option"
  im_trashed :: bool

subsection \<open>The entity store\<close>

type_synonym uid = "string \<times> string"

datatype cedar_value = C_entity uid | C_string string | C_set "cedar_value list"

record entity =
  en_uid :: uid
  en_attrs :: "(string \<times> cedar_value) list"
  en_parents :: "uid list"

datatype share_tier = Tier_none | Tier_view | Tier_download | Tier_edit

definition share_matches :: "auth_user \<Rightarrow> share \<Rightarrow> bool" where
  "share_matches user s =
     (case sh_type s of
        User_share \<Rightarrow> sh_principal s = au_id user
      | Group_share \<Rightarrow> sh_principal s \<in> set (au_groups user))"

definition is_share_expired :: "int \<Rightarrow> share \<Rightarrow> bool" where
  "is_share_expired now s = (case sh_expires s of None \<Rightarrow> False | Some t \<Rightarrow> t \<le> now)"

definition tier_from_permission :: "permission \<Rightarrow> share_tier" where
  "tier_from_permission p =
     (case p of Edit \<Rightarrow> Tier_edit | Admin \<Rightarrow> Tier_edit | Download \<Rightarrow> Tier_download | View \<Rightarrow> Tier_view)"

definition tier_rank :: "share_tier \<Rightarrow> nat" where
  "tier_rank t = (case t of Tier_edit \<Rightarrow> 3 | Tier_download \<Rightarrow> 2 | Tier_view \<Rightarrow> 1 | Tier_none \<Rightarrow> 0)"

fun best_tier :: "int \<Rightarrow> auth_user \<Rightarrow> share list \<Rightarrow> share_tier \<Rightarrow> share_tier" where
  "best_tier now user [] best = best"
| "best_tier now user (s # shares) best =
     (if \<not> share_matches user s then best_tier now user shares best
      else if is_share_expired now s then best_tier now user shares best
      else let tier = tier_from_permission (sh_permission s)
           in best_tier now user shares (if tier_rank best < tier_rank tier then tier else best))"

definition matched_share_tier :: "int \<Rightarrow> auth_user \<Rightarrow> share list \<Rightarrow> share_tier" where
  "matched_share_tier now user shares = best_tier now user shares Tier_none"

definition role_name :: "org_role \<Rightarrow> string" where
  "role_name r = (case r of Role_viewer \<Rightarrow> ''viewer'' | Role_contributor \<Rightarrow> ''contributor'' | Role_admin \<Rightarrow> ''admin'')"

definition access_name :: "access_level \<Rightarrow> string" where
  "access_name a = (case a of Private \<Rightarrow> ''private'' | Org_wide \<Rightarrow> ''org'' | Public \<Rightarrow> ''public'')"

definition build_entity_store :: "int \<Rightarrow> auth_user \<Rightarrow> shared_item \<Rightarrow> share list \<Rightarrow> entity list" where
  "build_entity_store now user item shares =
     (let tier = matched_share_tier now user shares;
          userRef = (''User'', au_id user); ownerRef = (''User'', im_owner item);
          userOrgRef = (''Org'', au_org user); itemOrgRef = (''Org'', im_org item);
          viewers = (if tier \<noteq> Tier_none then [C_entity userRef] else []);
          downloaders = (if tier = Tier_download \<or> tier = Tier_edit then [C_entity userRef] else []);
          editors = (if tier = Tier_edit then [C_entity userRef] else [])
      in [\<lparr> en_uid = userRef,
            en_attrs = [(''org'', C_entity userOrgRef), (''role'', C_string (role_name (au_role user)))],
            en_parents = [userOrgRef] \<rparr>,
          \<lparr> en_uid = (''Org'', au_org user), en_attrs = [], en_parents = [] \<rparr>] @
         (if im_owner item \<noteq> au_id user
          then [\<lparr> en_uid = ownerRef, en_attrs = [(''org'', C_entity itemOrgRef)], en_parents = [itemOrgRef] \<rparr>]
          else []) @
         (if im_org item \<noteq> au_org user
          then [\<lparr> en_uid = (''Org'', im_org item), en_attrs = [], en_parents = [] \<rparr>] else []) @
         [\<lparr> en_uid = (''Item'', im_id item),
            en_attrs = [(''owner'', C_entity ownerRef), (''org'', C_entity itemOrgRef),
                        (''access'', C_string (access_name (im_access item))), (''viewers'', C_set viewers),
                        (''downloaders'', C_set downloaders), (''editors'', C_set editors)],
            en_parents = [itemOrgRef] \<rparr>])"

subsection \<open>The policies\<close>

record request =
  rq_principal :: uid
  rq_action :: uid
  rq_resource :: uid
  rq_entities :: "entity list"

text \<open>\<open>u has a\<close> and \<open>u.a\<close>.\<close>

definition attr_of :: "entity list \<Rightarrow> uid \<Rightarrow> string \<Rightarrow> cedar_value option" where
  "attr_of es u a = (case find (\<lambda>e. en_uid e = u) es of None \<Rightarrow> None | Some e \<Rightarrow> map_of (en_attrs e) a)"

abbreviation resource_attr :: "request \<Rightarrow> string \<Rightarrow> cedar_value option" where
  "resource_attr rq a \<equiv> attr_of (rq_entities rq) (rq_resource rq) a"

abbreviation principal_attr :: "request \<Rightarrow> string \<Rightarrow> cedar_value option" where
  "principal_attr rq a \<equiv> attr_of (rq_entities rq) (rq_principal rq) a"

definition same_org :: "request \<Rightarrow> bool" where
  "same_org rq \<longleftrightarrow> resource_attr rq ''org'' \<noteq> None \<and> principal_attr rq ''org'' = resource_attr rq ''org''"

definition is_action :: "request \<Rightarrow> string \<Rightarrow> bool" where
  "is_action rq a \<longleftrightarrow> rq_action rq = (''Action'', a)"

definition access_is :: "request \<Rightarrow> string \<Rightarrow> bool" where
  "access_is rq a \<longleftrightarrow> resource_attr rq ''access'' = Some (C_string a)"

definition in_set_attr :: "request \<Rightarrow> string \<Rightarrow> bool" where
  "in_set_attr rq a =
     (case resource_attr rq a of Some (C_set vs) \<Rightarrow> C_entity (rq_principal rq) \<in> set vs | _ \<Rightarrow> False)"

definition policy_owner :: "request \<Rightarrow> bool" where
  "policy_owner rq \<longleftrightarrow> resource_attr rq ''owner'' = Some (C_entity (rq_principal rq))"

definition policy_org_admin :: "request \<Rightarrow> bool" where
  "policy_org_admin rq \<longleftrightarrow> same_org rq \<and> principal_attr rq ''role'' = Some (C_string ''admin'')"

definition policy_public_read :: "request \<Rightarrow> bool" where
  "policy_public_read rq \<longleftrightarrow> is_action rq ''read'' \<and> access_is rq ''public''"

definition policy_org_read :: "request \<Rightarrow> bool" where
  "policy_org_read rq \<longleftrightarrow> is_action rq ''read'' \<and> access_is rq ''org'' \<and> same_org rq"

definition policy_public_download :: "request \<Rightarrow> bool" where
  "policy_public_download rq \<longleftrightarrow> is_action rq ''download'' \<and> access_is rq ''public''"

definition policy_org_download :: "request \<Rightarrow> bool" where
  "policy_org_download rq \<longleftrightarrow> is_action rq ''download'' \<and> access_is rq ''org'' \<and> same_org rq"

definition policy_viewers :: "request \<Rightarrow> bool" where
  "policy_viewers rq \<longleftrightarrow> is_action rq ''read'' \<and> in_set_attr rq ''viewers''"

definition policy_downloaders :: "request \<Rightarrow> bool" where
  "policy_downloaders rq \<longleftrightarrow> is_action rq ''download'' \<and> in_set_attr rq ''downloaders''"

definition policy_editors :: "request \<Rightarrow> bool" where
  "policy_editors rq \<longleftrightarrow> is_action rq ''edit'' \<and> in_set_attr rq ''editors''"

definition DEFAULT_POLICIES :: "(request \<Rightarrow> bool) list" where
  "DEFAULT_POLICIES =
     [policy_owner, policy_org_admin, policy_public_read, policy_org_read, policy_public_download,
      policy_org_download, policy_viewers, policy_downloaders, policy_editors]"

text \<open>What the evaluator answers: it failed, or a decision.\<close>

datatype cedar_answer = Cedar_failure | Cedar_decision bool

type_synonym cedar = "request \<Rightarrow> cedar_answer"

text \<open>\<open>PolicyService.check\<close>: a failure is a denial.\<close>

definition check :: "cedar \<Rightarrow> request \<Rightarrow> bool" where
  "check cedar rq = (case cedar rq of Cedar_failure \<Rightarrow> False | Cedar_decision d \<Rightarrow> d)"

text \<open>Cedar's rule for a set of policies without \<open>forbid\<close>: allow when at least one permits.\<close>

definition cedar_semantics :: "cedar \<Rightarrow> bool" where
  "cedar_semantics cedar \<longleftrightarrow> (\<forall>rq. cedar rq = Cedar_decision (list_ex (\<lambda>p. p rq) DEFAULT_POLICIES))"

definition evaluate_policies :: cedar where
  "evaluate_policies rq = Cedar_decision (list_ex (\<lambda>p. p rq) DEFAULT_POLICIES)"

subsection \<open>The four checks\<close>

definition policy_allows :: "cedar \<Rightarrow> int \<Rightarrow> auth_user \<Rightarrow> shared_item \<Rightarrow> share list \<Rightarrow> string \<Rightarrow> bool" where
  "policy_allows cedar now user item shares action =
     check cedar \<lparr> rq_principal = (''User'', au_id user), rq_action = (''Action'', action),
                   rq_resource = (''Item'', im_id item),
                   rq_entities = build_entity_store now user item shares \<rparr>"

definition can_read :: "cedar \<Rightarrow> int \<Rightarrow> auth_user \<Rightarrow> shared_item \<Rightarrow> share list \<Rightarrow> bool" where
  "can_read cedar now user item shares = policy_allows cedar now user item shares ''read''"

definition can_edit :: "cedar \<Rightarrow> int \<Rightarrow> auth_user \<Rightarrow> shared_item \<Rightarrow> share list \<Rightarrow> bool" where
  "can_edit cedar now user item shares = policy_allows cedar now user item shares ''edit''"

definition can_download :: "cedar \<Rightarrow> int \<Rightarrow> auth_user \<Rightarrow> shared_item \<Rightarrow> share list \<Rightarrow> bool" where
  "can_download cedar now user item shares = policy_allows cedar now user item shares ''download''"

definition can_admin :: "cedar \<Rightarrow> int \<Rightarrow> auth_user \<Rightarrow> shared_item \<Rightarrow> bool" where
  "can_admin cedar now user item = policy_allows cedar now user item [] ''admin''"

subsection \<open>What the checks decide\<close>

definition live_share :: "int \<Rightarrow> auth_user \<Rightarrow> share \<Rightarrow> bool" where
  "live_share now user s \<longleftrightarrow> share_matches user s \<and> \<not> is_share_expired now s"

definition grants :: "int \<Rightarrow> auth_user \<Rightarrow> share list \<Rightarrow> permission set \<Rightarrow> bool" where
  "grants now user shares ps \<longleftrightarrow> (\<exists>s \<in> set shares. live_share now user s \<and> sh_permission s \<in> ps)"

definition owns :: "auth_user \<Rightarrow> shared_item \<Rightarrow> bool" where
  "owns user item \<longleftrightarrow> im_owner item = au_id user"

definition org_admin :: "auth_user \<Rightarrow> shared_item \<Rightarrow> bool" where
  "org_admin user item \<longleftrightarrow> au_role user = Role_admin \<and> im_org item = au_org user"

definition open_to :: "auth_user \<Rightarrow> shared_item \<Rightarrow> bool" where
  "open_to user item \<longleftrightarrow> im_access item = Public \<or> (im_access item = Org_wide \<and> im_org item = au_org user)"

lemma best_tier_ge:
  "k \<le> tier_rank (best_tier now user shares b) \<longleftrightarrow>
     k \<le> tier_rank b \<or> (\<exists>s \<in> set shares. live_share now user s \<and> k \<le> tier_rank (tier_from_permission (sh_permission s)))"
  by (induction now user shares b rule: best_tier.induct) (auto simp: live_share_def Let_def)

lemma tier_reached:
  "matched_share_tier now user shares \<noteq> Tier_none \<longleftrightarrow> grants now user shares UNIV"
  "matched_share_tier now user shares = Tier_download \<or> matched_share_tier now user shares = Tier_edit \<longleftrightarrow>
     grants now user shares {Download, Edit, Admin}"
  "matched_share_tier now user shares = Tier_edit \<longleftrightarrow> grants now user shares {Edit, Admin}"
proof -
  let ?t = "matched_share_tier now user shares"
  have r: "k \<le> tier_rank ?t \<longleftrightarrow> k = 0 \<or>
      (\<exists>s \<in> set shares. live_share now user s \<and> k \<le> tier_rank (tier_from_permission (sh_permission s)))" for k
    using best_tier_ge [of k now user shares Tier_none] by (simp add: matched_share_tier_def tier_rank_def)
  have p: "1 \<le> tier_rank (tier_from_permission q)" "2 \<le> tier_rank (tier_from_permission q) \<longleftrightarrow> q \<in> {Download, Edit, Admin}"
    "3 \<le> tier_rank (tier_from_permission q) \<longleftrightarrow> q \<in> {Edit, Admin}" for q
    by (cases q; simp add: tier_rank_def tier_from_permission_def)+
  have t: "?t \<noteq> Tier_none \<longleftrightarrow> 1 \<le> tier_rank ?t" "?t = Tier_download \<or> ?t = Tier_edit \<longleftrightarrow> 2 \<le> tier_rank ?t"
    "?t = Tier_edit \<longleftrightarrow> 3 \<le> tier_rank ?t"
    by (cases ?t; simp add: tier_rank_def)+
  show "?t \<noteq> Tier_none \<longleftrightarrow> grants now user shares UNIV"
    using t(1) r [of 1] p(1) by (simp add: grants_def)
  show "?t = Tier_download \<or> ?t = Tier_edit \<longleftrightarrow> grants now user shares {Download, Edit, Admin}"
    unfolding t(2) r p(2) grants_def by simp
  show "?t = Tier_edit \<longleftrightarrow> grants now user shares {Edit, Admin}"
    unfolding t(3) r p(3) grants_def by simp
qed

lemma store_item_attr:
  "attr_of (build_entity_store now user item shares) (''Item'', im_id item) a =
     map_of [(''owner'', C_entity (''User'', im_owner item)), (''org'', C_entity (''Org'', im_org item)),
             (''access'', C_string (access_name (im_access item))),
             (''viewers'', C_set (if matched_share_tier now user shares \<noteq> Tier_none then [C_entity (''User'', au_id user)] else [])),
             (''downloaders'', C_set (if matched_share_tier now user shares = Tier_download \<or>
                matched_share_tier now user shares = Tier_edit then [C_entity (''User'', au_id user)] else [])),
             (''editors'', C_set (if matched_share_tier now user shares = Tier_edit then [C_entity (''User'', au_id user)] else []))] a"
  by (simp add: attr_of_def build_entity_store_def Let_def)

lemma store_user_attr:
  "attr_of (build_entity_store now user item shares) (''User'', au_id user) a =
     map_of [(''org'', C_entity (''Org'', au_org user)), (''role'', C_string (role_name (au_role user)))] a"
  by (simp add: attr_of_def build_entity_store_def Let_def)

lemma names:
  "role_name r = ''admin'' \<longleftrightarrow> r = Role_admin"
  "access_name a = ''public'' \<longleftrightarrow> a = Public" "access_name a = ''org'' \<longleftrightarrow> a = Org_wide"
  by (cases r; simp add: role_name_def) (cases a; simp add: access_name_def)+

lemma some_policy:
  "list_ex (\<lambda>p. p rq) DEFAULT_POLICIES \<longleftrightarrow>
     policy_owner rq \<or> policy_org_admin rq \<or> policy_public_read rq \<or> policy_org_read rq \<or> policy_public_download rq \<or>
     policy_org_download rq \<or> policy_viewers rq \<or> policy_downloaders rq \<or> policy_editors rq"
  by (simp add: DEFAULT_POLICIES_def)

definition access_request :: "int \<Rightarrow> auth_user \<Rightarrow> shared_item \<Rightarrow> share list \<Rightarrow> string \<Rightarrow> request" where
  "access_request now user item shares action =
     \<lparr> rq_principal = (''User'', au_id user), rq_action = (''Action'', action),
       rq_resource = (''Item'', im_id item), rq_entities = build_entity_store now user item shares \<rparr>"

lemma policy_results:
  fixes now user item shares action
  defines "rq \<equiv> access_request now user item shares action"
  shows "policy_owner rq \<longleftrightarrow> owns user item"
    and "policy_org_admin rq \<longleftrightarrow> org_admin user item"
    and "policy_public_read rq \<longleftrightarrow> action = ''read'' \<and> im_access item = Public"
    and "policy_org_read rq \<longleftrightarrow> action = ''read'' \<and> im_access item = Org_wide \<and> im_org item = au_org user"
    and "policy_public_download rq \<longleftrightarrow> action = ''download'' \<and> im_access item = Public"
    and "policy_org_download rq \<longleftrightarrow> action = ''download'' \<and> im_access item = Org_wide \<and> im_org item = au_org user"
    and "policy_viewers rq \<longleftrightarrow> action = ''read'' \<and> grants now user shares UNIV"
    and "policy_downloaders rq \<longleftrightarrow> action = ''download'' \<and> grants now user shares {Download, Edit, Admin}"
    and "policy_editors rq \<longleftrightarrow> action = ''edit'' \<and> grants now user shares {Edit, Admin}"
proof -
  note f = rq_def access_request_def store_item_attr store_user_attr
  have act: "is_action rq a \<longleftrightarrow> action = a" for a by (simp add: is_action_def f)
  have acc: "access_is rq ''public'' \<longleftrightarrow> im_access item = Public" "access_is rq ''org'' \<longleftrightarrow> im_access item = Org_wide"
    by (simp_all add: access_is_def f names)
  have org: "same_org rq \<longleftrightarrow> im_org item = au_org user" by (auto simp: same_org_def f)
  have role: "principal_attr rq ''role'' = Some (C_string ''admin'') \<longleftrightarrow> au_role user = Role_admin"
    by (simp add: f names)
  have sets: "in_set_attr rq ''viewers'' \<longleftrightarrow> matched_share_tier now user shares \<noteq> Tier_none"
    "in_set_attr rq ''downloaders'' \<longleftrightarrow> matched_share_tier now user shares = Tier_download \<or> matched_share_tier now user shares = Tier_edit"
    "in_set_attr rq ''editors'' \<longleftrightarrow> matched_share_tier now user shares = Tier_edit"
    by (simp_all add: in_set_attr_def f)
  show "policy_owner rq \<longleftrightarrow> owns user item" by (simp add: policy_owner_def owns_def f)
  show "policy_org_admin rq \<longleftrightarrow> org_admin user item"
    using role unfolding policy_org_admin_def org org_admin_def by blast
  show "policy_public_read rq \<longleftrightarrow> action = ''read'' \<and> im_access item = Public"
    and "policy_org_read rq \<longleftrightarrow> action = ''read'' \<and> im_access item = Org_wide \<and> im_org item = au_org user"
    and "policy_public_download rq \<longleftrightarrow> action = ''download'' \<and> im_access item = Public"
    and "policy_org_download rq \<longleftrightarrow> action = ''download'' \<and> im_access item = Org_wide \<and> im_org item = au_org user"
    unfolding policy_public_read_def policy_org_read_def policy_public_download_def policy_org_download_def act acc org
    by (rule refl)+
  show "policy_viewers rq \<longleftrightarrow> action = ''read'' \<and> grants now user shares UNIV"
    and "policy_downloaders rq \<longleftrightarrow> action = ''download'' \<and> grants now user shares {Download, Edit, Admin}"
    and "policy_editors rq \<longleftrightarrow> action = ''edit'' \<and> grants now user shares {Edit, Admin}"
    using sets tier_reached [of now user shares] act
    unfolding policy_viewers_def policy_downloaders_def policy_editors_def by blast+
qed

text \<open>The evaluator as the service relies on it.\<close>

locale policy_evaluator =
  fixes cedar :: cedar
  assumes decides: "cedar rq = Cedar_decision (list_ex (\<lambda>p. p rq) DEFAULT_POLICIES)"
begin

lemma allows:
  "policy_allows cedar now user item shares action \<longleftrightarrow>
     owns user item \<or> org_admin user item \<or>
     (action = ''read'' \<and> (open_to user item \<or> grants now user shares UNIV)) \<or>
     (action = ''download'' \<and> (open_to user item \<or> grants now user shares {Download, Edit, Admin})) \<or>
     (action = ''edit'' \<and> grants now user shares {Edit, Admin})"
  unfolding policy_allows_def access_request_def [symmetric] check_def decides cedar_answer.case some_policy
    policy_results open_to_def
  by (cases "action = ''read''"; cases "action = ''download''"; cases "action = ''edit''") (simp_all only: simp_thms, blast+)

lemma reads: "can_read cedar now user item shares \<longleftrightarrow>
    owns user item \<or> org_admin user item \<or> open_to user item \<or> grants now user shares UNIV"
  unfolding can_read_def allows by simp

lemma downloads: "can_download cedar now user item shares \<longleftrightarrow>
    owns user item \<or> org_admin user item \<or> open_to user item \<or> grants now user shares {Download, Edit, Admin}"
  unfolding can_download_def allows by simp

lemma edits: "can_edit cedar now user item shares \<longleftrightarrow>
    owns user item \<or> org_admin user item \<or> grants now user shares {Edit, Admin}"
  unfolding can_edit_def allows by simp

lemma admins: "can_admin cedar now user item \<longleftrightarrow> owns user item \<or> org_admin user item"
  unfolding can_admin_def allows by simp

end

interpretation evaluated: policy_evaluator evaluate_policies
  by unfold_locales (simp add: evaluate_policies_def)

lemma semantics_evaluator: "cedar_semantics cedar \<longleftrightarrow> policy_evaluator cedar"
  by (simp add: cedar_semantics_def policy_evaluator_def)

lemma evaluate_policies_semantics: "cedar_semantics evaluate_policies"
  by (simp add: semantics_evaluator evaluated.policy_evaluator_axioms)

subsection \<open>Geographic limits\<close>

text \<open>The rows of items a limit may refer to.\<close>

record boundary_row =
  br_type :: string
  br_trashed :: bool
  br_data :: jsval

type_synonym boundaries = "string \<Rightarrow> boundary_row option"

definition boundary_geometry :: "boundaries \<Rightarrow> string \<Rightarrow> jsval option" where
  "boundary_geometry rows i =
     (case rows i of
        None \<Rightarrow> None
      | Some r \<Rightarrow>
          let geom = field_of (br_data r) ''geometry''
          in if br_type r = ''geo_boundary'' \<and> \<not> br_trashed r \<and> is_object_like geom then Some geom else None)"

text \<open>The tier a user comes through, if any, with the boundary attached to it.\<close>

definition tier_path :: "auth_user \<Rightarrow> shared_item \<Rightarrow> string option option" where
  "tier_path user item =
     (if im_access item = Public then Some (im_public_boundary item)
      else if im_access item = Org_wide \<and> im_org item = au_org user then Some (im_org_boundary item) else None)"

text \<open>The polygon of a path, \<open>None\<close> for one without limit.\<close>

definition inline_limit :: "share \<Rightarrow> jsval option" where
  "inline_limit s = (if is_object_like (sh_geo_limit s) then Some (sh_geo_limit s) else None)"

definition share_limit :: "boundaries \<Rightarrow> share \<Rightarrow> jsval option" where
  "share_limit rows s =
     (case sh_boundary s of
        None \<Rightarrow> inline_limit s
      | Some ref \<Rightarrow> if ref \<noteq> [] then boundary_geometry rows ref else inline_limit s)"

definition tier_limits :: "boundaries \<Rightarrow> auth_user \<Rightarrow> shared_item \<Rightarrow> jsval option list" where
  "tier_limits rows user item =
     (case tier_path user item of
        None \<Rightarrow> [] | Some None \<Rightarrow> [None] | Some (Some b) \<Rightarrow> [boundary_geometry rows b])"

definition geometry_collection :: "jsval list \<Rightarrow> jsval" where
  "geometry_collection gs = JObj 0 [(''type'', JStr ''GeometryCollection''), (''geometries'', JArr 0 gs)]"

definition geo_limit_for :: "boundaries \<Rightarrow> int \<Rightarrow> auth_user \<Rightarrow> shared_item \<Rightarrow> share list \<Rightarrow> jsval option" where
  "geo_limit_for rows now user item shares =
     (if im_owner item = au_id user then None
      else if au_role user = Role_admin \<and> im_org item = au_org user then None
      else
        let matching = filter (\<lambda>s. \<not> is_share_expired now s \<and> share_matches user s) shares in
        if tier_path user item = None \<and> matching = [] then None
        else
          let limits = tier_limits rows user item @ map (share_limit rows) matching;
              hasUnrestrictedPath = (None \<in> set limits);
              polygons = map the (filter (\<lambda>l. l \<noteq> None) limits)
          in if hasUnrestrictedPath then None
             else if length polygons = 0 then None
             else if length polygons = 1 then Some (hd polygons)
             else Some (geometry_collection polygons))"

subsection \<open>Row scopes\<close>

definition share_scope :: "bool \<Rightarrow> share \<Rightarrow> row_scope" where
  "share_scope edit s =
     (if edit then (case sh_edit_row_scope s of Some sc \<Rightarrow> sc | None \<Rightarrow> sh_row_scope s) else sh_row_scope s)"

definition effective_row_scope :: "int \<Rightarrow> auth_user \<Rightarrow> shared_item \<Rightarrow> share list \<Rightarrow> layer_policy \<Rightarrow> bool \<Rightarrow> row_scope" where
  "effective_row_scope now user item shares layerPolicy edit =
     (if im_owner item = au_id user then All_rows
      else if au_role user = Role_admin \<and> im_org item = au_org user then All_rows
      else if im_access item = Public then All_rows
      else if im_access item = Org_wide \<and> im_org item = au_org user then All_rows
      else if layerPolicy = Policy_own_rows_only then Own_rows
      else
        let matching = filter (\<lambda>s. \<not> is_share_expired now s \<and> share_matches user s) shares in
        if matching = [] then Own_rows
        else if list_ex (\<lambda>s. share_scope edit s = All_rows) matching then All_rows
        else Own_rows)"

subsection \<open>The condition of list queries\<close>

text \<open>The fields of one condition object are a conjunction.\<close>

datatype share_where =
    Sw_principal principal_type "string list"
  | Sw_no_expiry
  | Sw_expires_after int
  | Sw_and "share_where list"
  | Sw_or "share_where list"

datatype item_where =
    W_owner string
  | W_org string
  | W_access access_level
  | W_not_trashed
  | W_some_share share_where
  | W_and "item_where list"
  | W_or "item_where list"

definition visible_where :: "int \<Rightarrow> auth_user \<Rightarrow> bool \<Rightarrow> item_where" where
  "visible_where now user includeTrashed =
     (if au_role user = Role_admin
      then let adminAccess = W_org (au_org user)
           in if includeTrashed then adminAccess else W_and [adminAccess, W_not_trashed]
      else
        let principalConditions = [Sw_principal User_share [au_id user]] @
              (if au_groups user \<noteq> [] then [Sw_principal Group_share (au_groups user)] else []);
            notExpired = Sw_or [Sw_no_expiry, Sw_expires_after now];
            access = W_or [W_owner (au_id user), W_access Public, W_and [W_access Org_wide, W_org (au_org user)],
                           W_some_share (Sw_and [Sw_or principalConditions, notExpired])]
        in if includeTrashed then access else W_and [access, W_not_trashed])"

text \<open>What the database makes of each node; an item comes with its shares.\<close>

definition where_semantics ::
  "(item_where \<Rightarrow> shared_item \<times> share list \<Rightarrow> bool) \<Rightarrow> (share_where \<Rightarrow> share \<Rightarrow> bool) \<Rightarrow> bool" where
  "where_semantics selects selects_share \<longleftrightarrow>
     (\<forall>s kd ids. selects_share (Sw_principal kd ids) s \<longleftrightarrow> sh_type s = kd \<and> sh_principal s \<in> set ids) \<and>
     (\<forall>s. selects_share Sw_no_expiry s \<longleftrightarrow> sh_expires s = None) \<and>
     (\<forall>s t. selects_share (Sw_expires_after t) s \<longleftrightarrow> (\<exists>e. sh_expires s = Some e \<and> t < e)) \<and>
     (\<forall>s cs. selects_share (Sw_and cs) s \<longleftrightarrow> (\<forall>c \<in> set cs. selects_share c s)) \<and>
     (\<forall>s cs. selects_share (Sw_or cs) s \<longleftrightarrow> (\<exists>c \<in> set cs. selects_share c s)) \<and>
     (\<forall>x i. selects (W_owner i) x \<longleftrightarrow> im_owner (fst x) = i) \<and>
     (\<forall>x i. selects (W_org i) x \<longleftrightarrow> im_org (fst x) = i) \<and>
     (\<forall>x a. selects (W_access a) x \<longleftrightarrow> im_access (fst x) = a) \<and>
     (\<forall>x. selects W_not_trashed x \<longleftrightarrow> \<not> im_trashed (fst x)) \<and>
     (\<forall>x c. selects (W_some_share c) x \<longleftrightarrow> (\<exists>s \<in> set (snd x). selects_share c s)) \<and>
     (\<forall>x cs. selects (W_and cs) x \<longleftrightarrow> (\<forall>c \<in> set cs. selects c x)) \<and>
     (\<forall>x cs. selects (W_or cs) x \<longleftrightarrow> (\<exists>c \<in> set cs. selects c x))"

fun matches_share :: "share_where \<Rightarrow> share \<Rightarrow> bool" where
  "matches_share (Sw_principal kd ids) s = (sh_type s = kd \<and> sh_principal s \<in> set ids)"
| "matches_share Sw_no_expiry s = (sh_expires s = None)"
| "matches_share (Sw_expires_after t) s = (case sh_expires s of None \<Rightarrow> False | Some e \<Rightarrow> t < e)"
| "matches_share (Sw_and cs) s = (\<forall>c \<in> set cs. matches_share c s)"
| "matches_share (Sw_or cs) s = (\<exists>c \<in> set cs. matches_share c s)"

fun matches_where :: "item_where \<Rightarrow> shared_item \<times> share list \<Rightarrow> bool" where
  "matches_where (W_owner i) x = (im_owner (fst x) = i)"
| "matches_where (W_org i) x = (im_org (fst x) = i)"
| "matches_where (W_access a) x = (im_access (fst x) = a)"
| "matches_where W_not_trashed x = (\<not> im_trashed (fst x))"
| "matches_where (W_some_share c) x = (\<exists>s \<in> set (snd x). matches_share c s)"
| "matches_where (W_and cs) x = (\<forall>c \<in> set cs. matches_where c x)"
| "matches_where (W_or cs) x = (\<exists>c \<in> set cs. matches_where c x)"

subsection \<open>Capabilities\<close>

definition CAPABILITY_KEYS :: "string list" where
  "CAPABILITY_KEYS =
     [''can_view_public_items'', ''can_publish_items'', ''can_share_items'', ''can_edit_own_items'',
      ''can_edit_any_item'', ''can_manage_users'', ''can_edit_branding'', ''can_manage_basemaps'',
      ''can_disable_users'', ''can_run_housekeeping'']"

definition ROLE_BASELINES :: "org_role \<Rightarrow> string set" where
  "ROLE_BASELINES r =
     (case r of
        Role_viewer \<Rightarrow> {''can_view_public_items''}
      | Role_contributor \<Rightarrow> {''can_view_public_items'', ''can_publish_items'', ''can_share_items'', ''can_edit_own_items''}
      | Role_admin \<Rightarrow> {''can_view_public_items'', ''can_publish_items'', ''can_share_items'', ''can_edit_own_items'',
          ''can_edit_any_item'', ''can_manage_users'', ''can_edit_branding'', ''can_manage_basemaps'',
          ''can_disable_users'', ''can_run_housekeeping''})"

record capability_override =
  co_capability :: string
  co_enabled :: bool

fun apply_overrides :: "capability_override list \<Rightarrow> string set \<Rightarrow> string set" where
  "apply_overrides [] result = result"
| "apply_overrides (ov # rest) result =
     (if co_capability ov \<notin> set CAPABILITY_KEYS then apply_overrides rest result
      else if co_enabled ov then apply_overrides rest (insert (co_capability ov) result)
      else apply_overrides rest (result - {co_capability ov}))"

definition effective_capabilities :: "org_role \<Rightarrow> capability_override list \<Rightarrow> string set" where
  "effective_capabilities role overrides = apply_overrides overrides (ROLE_BASELINES role)"

text \<open>The last override of a known capability decides; without one, the role does.\<close>

lemma apply_overrides_iff:
  "c \<in> apply_overrides os result \<longleftrightarrow>
     (case filter (\<lambda>ov. co_capability ov = c \<and> c \<in> set CAPABILITY_KEYS) os of
        [] \<Rightarrow> c \<in> result | ovs \<Rightarrow> co_enabled (last ovs))"
  by (induction os result rule: apply_overrides.induct) (auto split: list.splits)

lemma effective_capabilities_known:
  "effective_capabilities role os \<subseteq> set CAPABILITY_KEYS"
proof -
  have "apply_overrides os r \<subseteq> set CAPABILITY_KEYS" if "r \<subseteq> set CAPABILITY_KEYS" for r
    using that by (induction os r rule: apply_overrides.induct) auto
  moreover have "ROLE_BASELINES role \<subseteq> set CAPABILITY_KEYS"
    by (cases role) (simp_all add: ROLE_BASELINES_def CAPABILITY_KEYS_def)
  ultimately show ?thesis by (simp add: effective_capabilities_def)
qed

subsection \<open>What a limit lets through\<close>

text \<open>\<open>inside g p\<close> is the database's test of a feature against a geometry; a collection is its union.\<close>

definition collection_law :: "(jsval \<Rightarrow> 'p \<Rightarrow> bool) \<Rightarrow> bool" where
  "collection_law inside \<longleftrightarrow> (\<forall>gs p. inside (geometry_collection gs) p \<longleftrightarrow> (\<exists>g \<in> set gs. inside g p))"

definition let_through :: "(jsval \<Rightarrow> 'p \<Rightarrow> bool) \<Rightarrow> jsval option \<Rightarrow> 'p \<Rightarrow> bool" where
  "let_through inside lm p = (case lm of None \<Rightarrow> True | Some g \<Rightarrow> inside g p)"

text \<open>The paths on which a user reaches an item, each with its own limit.\<close>

definition access_paths :: "boundaries \<Rightarrow> int \<Rightarrow> auth_user \<Rightarrow> shared_item \<Rightarrow> share list \<Rightarrow> jsval option list" where
  "access_paths rows now user item shares =
     tier_limits rows user item @ map (share_limit rows) (filter (live_share now user) shares)"

text \<open>Joining the polygons of several paths.\<close>

lemma joined:
  assumes "collection_law inside" and "None \<notin> set limits" and "polygons = map the (filter (\<lambda>l. l \<noteq> None) limits)"
    and "limits \<noteq> []"
  shows "let_through inside (if length polygons = 1 then Some (hd polygons) else Some (geometry_collection polygons)) p \<longleftrightarrow>
    (\<exists>l \<in> set limits. let_through inside l p)"
proof -
  have "filter (\<lambda>l. l \<noteq> None) limits = limits" using assms(2) by (intro filter_True ballI) metis
  then have eq: "polygons = map the limits" using assms(3) by simp
  have "Some ` set polygons = (\<lambda>l. Some (the l)) ` set limits" by (simp add: eq image_image)
  also have "\<dots> = id ` set limits" using assms(2) by (intro image_cong refl) (metis id_apply option.collapse)
  finally have set_eq: "set limits = Some ` set polygons" by simp
  have "inside (hd polygons) p \<longleftrightarrow> (\<exists>g \<in> set polygons. inside g p)" if "length polygons = 1"
    using that by (cases polygons) auto
  then show ?thesis using assms(1) by (simp add: set_eq let_through_def collection_law_def)
qed

lemma matching_live: "filter (\<lambda>s. \<not> is_share_expired now s \<and> share_matches user s) shares = filter (live_share now user) shares"
  by (rule filter_cong) (auto simp: live_share_def)

lemma tier_limits_Nil: "tier_limits rows user item = [] \<longleftrightarrow> tier_path user item = None"
  by (auto simp: tier_limits_def split: option.splits)

lemma geo_limit_for_paths:
  "geo_limit_for rows now user item shares =
     (let limits = access_paths rows now user item shares; polygons = map the (filter (\<lambda>l. l \<noteq> None) limits)
      in if owns user item \<or> org_admin user item \<or> limits = [] \<or> None \<in> set limits then None
         else if length polygons = 1 then Some (hd polygons) else Some (geometry_collection polygons))"
proof -
  let ?limits = "access_paths rows now user item shares"
  have nil: "tier_path user item = None \<and> filter (live_share now user) shares = [] \<longleftrightarrow> ?limits = []"
    by (simp add: access_paths_def tier_limits_Nil)
  have "map the (filter (\<lambda>l. l \<noteq> None) ?limits) \<noteq> []" if "?limits \<noteq> []" "None \<notin> set ?limits"
    using that by (cases ?limits) auto
  then show ?thesis
    unfolding geo_limit_for_def matching_live nil access_paths_def [symmetric] Let_def owns_def org_admin_def by auto
qed

subsection \<open>Properties\<close>

text \<open>C19: what each check decides, whoever asks: reading is for the owner, an admin of the item's
  organisation, everyone the access level is open to, and holders of any share that has not
  expired; downloading needs a share of the tier download or above, editing one of edit or admin
  and never the access level; administration is for the owner and the organisation's admins
  alone, whatever was shared. The policies, the entity store and the ladder of tiers together
  give exactly this.\<close>

theorem access_decisions_exact:
  assumes "cedar_semantics cedar"
  shows "(can_read cedar now user item shares \<longleftrightarrow>
      owns user item \<or> org_admin user item \<or> open_to user item \<or> grants now user shares UNIV) \<and>
    (can_download cedar now user item shares \<longleftrightarrow>
      owns user item \<or> org_admin user item \<or> open_to user item \<or> grants now user shares {Download, Edit, Admin}) \<and>
    (can_edit cedar now user item shares \<longleftrightarrow>
      owns user item \<or> org_admin user item \<or> grants now user shares {Edit, Admin}) \<and>
    (can_admin cedar now user item \<longleftrightarrow> owns user item \<or> org_admin user item)"
proof -
  have "policy_evaluator cedar" using assms by (simp only: semantics_evaluator)
  then show ?thesis
    using policy_evaluator.reads policy_evaluator.downloads policy_evaluator.edits policy_evaluator.admins by blast
qed

theorem access_decisions_exact_witness:
  "let user = \<lparr> au_id = ''u'', au_org = ''o'', au_role = Role_viewer, au_groups = [''g''] \<rparr>;
       item = \<lparr> im_id = ''i'', im_owner = ''w'', im_org = ''p'', im_access = Private, im_public_boundary = None,
                im_org_boundary = None, im_trashed = False \<rparr>;
       s = \<lparr> sh_type = Group_share, sh_principal = ''g'', sh_permission = Download, sh_geo_limit = JNull,
             sh_boundary = None, sh_row_scope = All_rows, sh_edit_row_scope = None, sh_expires = Some 10 \<rparr>
   in can_download evaluate_policies 9 user item [s] \<and> \<not> can_edit evaluate_policies 9 user item [s] \<and>
      \<not> can_read evaluate_policies 10 user item [s]"
  unfolding Let_def access_decisions_exact [OF evaluate_policies_semantics, THEN conjunct1]
    access_decisions_exact [OF evaluate_policies_semantics, THEN conjunct2, THEN conjunct1]
    access_decisions_exact [OF evaluate_policies_semantics, THEN conjunct2, THEN conjunct2, THEN conjunct1]
  by (simp add: owns_def org_admin_def open_to_def grants_def live_share_def share_matches_def is_share_expired_def)

text \<open>C29: the condition of a list query selects, among the items in or out of the trash as asked, for
  everyone but an organisation's admin exactly those the point check lets the user read, expired
  shares included; for an admin it selects the items of the admin's own organisation and nothing
  else, so an item of another organisation that the admin owns, or that is public or shared with
  the admin, is readable and never listed.\<close>

theorem visible_where_exact:
  assumes "where_semantics selects selects_share" and "cedar_semantics cedar"
  shows "selects (visible_where now user trash_too) (item, shares) \<longleftrightarrow>
    (trash_too \<or> \<not> im_trashed item) \<and>
    (if au_role user = Role_admin then im_org item = au_org user else can_read cedar now user item shares)"
proof -
  have read: "can_read cedar now user item shares \<longleftrightarrow>
      owns user item \<or> org_admin user item \<or> open_to user item \<or> grants now user shares UNIV"
    using assms(2) policy_evaluator.reads by (simp only: semantics_evaluator)
  have one: "selects_share (Sw_and [Sw_or ([Sw_principal User_share [au_id user]] @
        (if au_groups user \<noteq> [] then [Sw_principal Group_share (au_groups user)] else [])),
        Sw_or [Sw_no_expiry, Sw_expires_after now]]) s \<longleftrightarrow> live_share now user s" for s
    using assms(1) unfolding where_semantics_def
    by (auto simp: live_share_def share_matches_def is_share_expired_def split: principal_type.splits option.splits)
  have "selects (visible_where now user trash_too) (item, shares) \<longleftrightarrow> (trash_too \<or> \<not> im_trashed item) \<and>
      (if au_role user = Role_admin then im_org item = au_org user
       else owns user item \<or> open_to user item \<or> grants now user shares UNIV)"
    using assms(1) one unfolding where_semantics_def visible_where_def Let_def
    by (auto simp: owns_def open_to_def grants_def)
  then show ?thesis unfolding read by (simp add: org_admin_def)
qed

theorem visible_where_exact_witness:
  "let user = \<lparr> au_id = ''u'', au_org = ''o'', au_role = Role_admin, au_groups = [] \<rparr>;
       item = \<lparr> im_id = ''i'', im_owner = ''u'', im_org = ''p'', im_access = Public, im_public_boundary = None,
                im_org_boundary = None, im_trashed = False \<rparr>
   in can_read evaluate_policies 0 user item [] \<and> \<not> matches_where (visible_where 0 user False) (item, [])"
proof -
  have "where_semantics matches_where matches_share"
    by (auto simp: where_semantics_def split: option.splits)
  note exact = visible_where_exact [OF this evaluate_policies_semantics]
  show ?thesis unfolding Let_def exact by (simp add: evaluated.reads owns_def)
qed

text \<open>C30: a user who is neither the owner nor an admin sees a feature through the limit exactly when some
  path to the item lets it through: the limits of the paths compose as a union, one unlimited path
  lifts them all, and the collection that is handed to the database is that union.\<close>

theorem geo_limit_is_union:
  assumes "collection_law inside"
  shows "let_through inside (geo_limit_for rows now user item shares) p \<longleftrightarrow>
    owns user item \<or> org_admin user item \<or> access_paths rows now user item shares = [] \<or>
    (\<exists>l \<in> set (access_paths rows now user item shares). let_through inside l p)"
proof -
  have "let_through inside None p" by (simp add: let_through_def)
  then show ?thesis
    using joined [OF assms, of "access_paths rows now user item shares" _ p]
    unfolding geo_limit_for_paths Let_def by auto
qed

text \<open>A test that knows the members of a collection and points.\<close>

fun covers :: "jsval \<Rightarrow> jsval \<Rightarrow> bool" where
  "covers (JObj _ [_, (_, JArr _ gs)]) p = list_ex (\<lambda>g. covers g p) gs"
| "covers (JObj _ m) p = (get m ''coordinates'' = p)"
| "covers _ p = False"

lemma covers_collection: "collection_law covers"
  by (simp add: collection_law_def geometry_collection_def list_ex_iff)

theorem geo_limit_is_union_witness:
  "let user = \<lparr> au_id = ''u'', au_org = ''o'', au_role = Role_viewer, au_groups = [''g''] \<rparr>;
       item = \<lparr> im_id = ''i'', im_owner = ''w'', im_org = ''p'', im_access = Private, im_public_boundary = None,
                im_org_boundary = None, im_trashed = False \<rparr>;
       pt = (\<lambda>x. JObj 0 [(''coordinates'', JStr x)]);
       s = (\<lambda>x. \<lparr> sh_type = User_share, sh_principal = ''u'', sh_permission = View, sh_geo_limit = pt x,
             sh_boundary = None, sh_row_scope = All_rows, sh_edit_row_scope = None, sh_expires = None \<rparr>);
       lim = geo_limit_for Map.empty 0 user item [s ''a'', s ''b'']
   in let_through covers lim (JStr ''b'') \<and> \<not> let_through covers lim (JStr ''c'')"
  unfolding Let_def geo_limit_is_union [OF covers_collection]
  by (simp add: owns_def org_admin_def access_paths_def tier_limits_def tier_path_def share_limit_def inline_limit_def
      let_through_def live_share_def share_matches_def is_share_expired_def get_Cons is_object_like_def)

text \<open>Putting a boundary item in the trash, or deleting it, lifts the limit of everyone who was held to
  it: a user with a live share whose limit is that boundary gets every feature afterwards.\<close>

theorem trashed_boundary_lifts_limit:
  assumes "s \<in> set shares" and "live_share now user s" and "sh_boundary s = Some b" and "b \<noteq> []"
    and "case rows b of None \<Rightarrow> True | Some r \<Rightarrow> br_trashed r"
  shows "geo_limit_for rows now user item shares = None"
proof -
  have "share_limit rows s = None"
    using assms(3-5) by (auto simp: share_limit_def boundary_geometry_def Let_def split: option.splits)
  then have "None \<in> set (access_paths rows now user item shares)"
    using assms(1,2) by (force simp: access_paths_def)
  then show ?thesis by (simp add: geo_limit_for_paths Let_def)
qed

theorem trashed_boundary_lifts_limit_witness:
  "let user = \<lparr> au_id = ''u'', au_org = ''o'', au_role = Role_viewer, au_groups = [] \<rparr>;
       item = \<lparr> im_id = ''i'', im_owner = ''w'', im_org = ''p'', im_access = Private, im_public_boundary = None,
                im_org_boundary = None, im_trashed = False \<rparr>;
       s = \<lparr> sh_type = User_share, sh_principal = ''u'', sh_permission = View, sh_geo_limit = JNull,
             sh_boundary = Some ''b'', sh_row_scope = All_rows, sh_edit_row_scope = None, sh_expires = None \<rparr>;
       row = \<lparr> br_type = ''geo_boundary'', br_trashed = False, br_data = JObj 0 [(''geometry'', JObj 1 [])] \<rparr>
   in geo_limit_for [''b'' \<mapsto> row] 0 user item [s] = Some (JObj 1 []) \<and>
      geo_limit_for [''b'' \<mapsto> row\<lparr> br_trashed := True \<rparr>] 0 user item [s] = None"
proof -
  have live: "live_share 0 \<lparr> au_id = ''u'', au_org = ''o'', au_role = Role_viewer, au_groups = [] \<rparr>
      \<lparr> sh_type = User_share, sh_principal = ''u'', sh_permission = View, sh_geo_limit = JNull,
        sh_boundary = Some ''b'', sh_row_scope = All_rows, sh_edit_row_scope = None, sh_expires = None \<rparr>"
    by (simp add: live_share_def share_matches_def is_share_expired_def)
  show ?thesis
    unfolding Let_def
    by (intro conjI trashed_boundary_lifts_limit [OF _ live, where b = "''b''"])
      (simp_all add: geo_limit_for_def tier_path_def tier_limits_def share_limit_def boundary_geometry_def
        is_share_expired_def share_matches_def get_Cons is_object_like_def)
qed

end
