(* ===== verification/DerivedLayers.thy ===== *)
theory DerivedLayers
  imports ToolsContour Sharing
begin

text \<open>
  Saving a derived layer: the registry of tools (\<open>tools/registry.ts\<close>), \<open>validateAndEnrich\<close>,
  \<open>walkSourceChain\<close> and the helpers of \<open>derived-layers.service.ts\<close>, all under
  \<open>apps/portal-api/src/derived-layers\<close>. Items are a map from ids to rows; \<open>Recipe\<close> is the data of a
  derived layer as the service writes it (version 1), \<open>Json\<close> any other data.
\<close>

subsection \<open>The registry\<close>

definition REGISTRY :: "tool list" where
  "REGISTRY =
     [buffer_tool, dissolve_tool, centroid_tool, convex_hull_tool, bbox_tool, simplify_tool,
      vertices_tool, densify_tool, top_n_tool, random_sample_tool, nearest_tool, fishnet_tool,
      calculate_geometry_tool, filter_tool, calculate_field_tool, aggregate_tool, spatial_join_tool,
      spatial_filter_tool, clip_tool, erase_tool, contour_tool]"

definition get_generator :: "string \<Rightarrow> tool checked" where
  "get_generator kd =
     (case find (\<lambda>t. t_kind t = kd) REGISTRY of
        None \<Rightarrow> Inl (Bad_request (''Unknown derived-layer tool: '' @ kd))
      | Some t \<Rightarrow> Inr t)"

definition registered_tools :: "string list" where
  "registered_tools = map t_kind REGISTRY"

lemma get_generator_in: "get_generator kd = Inr t \<Longrightarrow> t \<in> set REGISTRY \<and> t_kind t = kd"
  by (auto simp: get_generator_def find_Some_iff split: option.splits)

lemmas stored_tools =
  buffer.stored_tool_axioms dissolve.stored_tool_axioms centroid.stored_tool_axioms convex_hull.stored_tool_axioms
  bbox.stored_tool_axioms simplify.stored_tool_axioms vertices.stored_tool_axioms densify.stored_tool_axioms
  top_n.stored_tool_axioms random_sample.stored_tool_axioms nearest.stored_tool_axioms fishnet.stored_tool_axioms
  calculate_geometry.stored_tool_axioms filter.stored_tool_axioms calculate_field.stored_tool_axioms
  aggregate.stored_tool_axioms spatial_join.stored_tool_axioms clip.stored_tool_axioms erase.stored_tool_axioms

lemma registry_stored:
  "t \<in> set REGISTRY \<Longrightarrow> t \<noteq> spatial_filter_tool \<Longrightarrow> t \<noteq> contour_tool \<Longrightarrow> stored_tool t"
  using stored_tools unfolding REGISTRY_def set_simps by (elim insertE) (simp_all only: simp_thms, simp_all)

lemma registry_generator: "t \<in> set REGISTRY \<Longrightarrow> tool_generator t"
  using registry_stored spatial_filter.tool_generator_axioms contour.tool_generator_axioms
  by (cases "t = spatial_filter_tool"; cases "t = contour_tool") (auto simp: stored_tool_def)

lemma registered_once: "distinct registered_tools"
  by code_simp

subsection \<open>Items\<close>

record tool_step =
  ts_tool :: string
  ts_params :: jsval

record layer_source =
  ls_kind :: string
  ls_item :: string
  ls_key :: "string option"

record recipe =
  rc_source :: layer_source
  rc_pipeline :: "tool_step list"
  rc_limit :: jsnum
  rc_schema :: schema
  rc_bbox :: "jsnum list"

datatype item_data = No_data | Json jsval | Recipe recipe

record item_row =
  it_type :: string
  it_item :: shared_item
  it_shares :: "share list"
  it_data :: item_data
  it_bbox :: "jsnum list option"

type_synonym items = "string \<Rightarrow> item_row option"

abbreviation it_deleted :: "item_row \<Rightarrow> bool" where
  "it_deleted row \<equiv> im_trashed (it_item row)"

fun json_of :: "item_data \<Rightarrow> jsval" where
  "json_of No_data = JNull"
| "json_of (Json v) = v"
| "json_of (Recipe r) = Undef"

subsection \<open>The schema of a data layer\<close>

text \<open>The code casts the stored JSON to fields; a type that is none of the five is read as text.\<close>

definition field_type_of :: "jsval \<Rightarrow> field_type" where
  "field_type_of v =
     (if v = JStr ''number'' then F_number else if v = JStr ''boolean'' then F_boolean
      else if v = JStr ''date'' then F_date else if v = JStr ''multi_select'' then F_multi_select else F_string)"

definition read_field :: "jsval \<Rightarrow> feature_field" where
  "read_field v =
     \<lparr> ff_name = str_of (field_of v ''name''), ff_label = str_of (field_of v ''label''),
       ff_type = field_type_of (field_of v ''type''), ff_nullable = truthy (field_of v ''nullable''),
       ff_extra = (case v of JObj _ m \<Rightarrow> filter (\<lambda>(k, _). k \<notin> {''name'', ''label'', ''type'', ''nullable''}) m | _ \<Rightarrow> []) \<rparr>"

definition read_source_version :: "jsval \<Rightarrow> jsnum" where
  "read_source_version data = (case field_of data ''version'' of JNum n \<Rightarrow> n | _ \<Rightarrow> Fin 0)"

definition read_source_schema :: "jsval \<Rightarrow> schema" where
  "read_source_schema data =
     (case field_of data ''fields'' of
        JArr _ fs \<Rightarrow> map read_field (filter (\<lambda>f. is_object_like f \<and> is_str (field_of f ''name'')) fs)
      | _ \<Rightarrow> [])"

definition spatial_layer :: "jsval \<Rightarrow> bool" where
  "spatial_layer l \<longleftrightarrow> is_object_like l \<and> full_str (field_of l ''id'') \<and> is_str (field_of l ''geometryType'')"

definition sublayer_of :: "jsval \<Rightarrow> string \<times> schema" where
  "sublayer_of l = (str_of (field_of l ''id''), map read_field (elems_of (field_of l ''fields'')))"

definition resolve_sublayer :: "jsval \<Rightarrow> jsnum \<Rightarrow> string option \<Rightarrow> (string \<times> schema) option checked" where
  "resolve_sublayer data version layerKey =
     (if version \<noteq> Fin 3 then
        require (layerKey = None) ''derived_layer.source.layerKey is only valid against v3 multi-layer data layers'' (Inr None)
      else let layers = field_of data ''layers'' in
        require (is_arr layers \<and> elems_of layers \<noteq> []) ''Source data layer has no sublayers'' (
        let spatialLayers = filter spatial_layer (elems_of layers) in
        require (spatialLayers \<noteq> []) ''Source data layer has no spatial sublayers'' (
        case layerKey of
          None \<Rightarrow>
            (case spatialLayers of
               [only] \<Rightarrow> Inr (Some (sublayer_of only))
             | _ \<Rightarrow> Inl (Bad_request ''derived_layer.source.layerKey is required because the source has multiple sublayers''))
        | Some k \<Rightarrow>
            (case find (\<lambda>l. field_of l ''id'' = JStr k) spatialLayers of
               None \<Rightarrow> Inl (Bad_request ''derived_layer.source.layerKey does not match any sublayer of the source'')
             | Some l \<Rightarrow> Inr (Some (sublayer_of l))))))"

subsection \<open>Padding\<close>

definition DEGREES_PER_METER :: jsnum where
  "DEGREES_PER_METER = n_div (Fin 1) (Fin 111320)"

definition pad_bbox :: "jsnum list \<Rightarrow> jsnum \<Rightarrow> jsnum list" where
  "pad_bbox bbox reachMeters =
     (case bbox of
        [a, b, c, d] \<Rightarrow>
          if \<not> list_all is_finite bbox then []
          else if n_le reachMeters (Fin 0) then bbox
          else let padding = n_mul reachMeters DEGREES_PER_METER
               in [n_sub a padding, n_sub b padding, n_add c padding, n_add d padding]
      | _ \<Rightarrow> [])"

subsection \<open>The chain of sources\<close>

definition MAX_PIPELINE_STEPS :: nat where "MAX_PIPELINE_STEPS = 10"
definition MAX_FEATURE_LIMIT :: jsnum where "MAX_FEATURE_LIMIT = Fin 50000"
definition MAX_CHAIN_DEPTH :: nat where "MAX_CHAIN_DEPTH = 5"
definition DEFAULT_DERIVED_LAYER_FEATURE_LIMIT :: jsnum where
  "DEFAULT_DERIVED_LAYER_FEATURE_LIMIT = Fin 1000"

text \<open>The id of the source an item's data names; an empty id counts as none.\<close>

definition source_id :: "item_data \<Rightarrow> string option" where
  "source_id data =
     (case data of
        Recipe r \<Rightarrow> if ls_item (rc_source r) = [] then None else Some (ls_item (rc_source r))
      | _ \<Rightarrow> let v = field_of (field_of (json_of data) ''source'') ''itemId''
            in if full_str v then Some (str_of v) else None)"

function walk_source_chain :: "items \<Rightarrow> string list \<Rightarrow> string \<Rightarrow> nat \<Rightarrow> nat checked" where
  "walk_source_chain items visited i depth =
     (case items i of
        None \<Rightarrow> Inl (Bad_request ''derived_layer source chain references missing or trashed item'')
      | Some node \<Rightarrow>
          if it_deleted node
          then Inl (Bad_request ''derived_layer source chain references missing or trashed item'')
          else if it_type node = ''data_layer'' then Inr depth
          else if it_type node \<noteq> ''derived_layer''
          then Inl (Bad_request ''derived_layer source chain links through another item'')
          else case source_id (it_data node) of
                 None \<Rightarrow> Inl (Bad_request ''derived_layer source has no source itemId'')
               | Some parentId \<Rightarrow>
                   if parentId \<in> set visited
                   then Inl (Bad_request ''derived_layer source chain has a cycle'')
                   else if MAX_CHAIN_DEPTH < depth + 1 then Inr (depth + 1)
                   else walk_source_chain items (parentId # visited) parentId (depth + 1))"
  by pat_completeness auto
termination by (relation "measure (\<lambda>(_, _, _, depth). MAX_CHAIN_DEPTH - depth)") auto

declare walk_source_chain.simps [simp del]

subsection \<open>Saving\<close>

definition feature_limit :: "jsval \<Rightarrow> jsnum checked" where
  "feature_limit raw =
     (case raw of
        JNum n \<Rightarrow>
          require (is_finite n \<and> \<not> n_le n (Fin 0) \<and> is_integer n) ''derived_layer.featureLimit must be a positive integer'' (
          require (\<not> n_lt MAX_FEATURE_LIMIT n) ''derived_layer.featureLimit must not exceed 50000'' (Inr n))
      | _ \<Rightarrow> Inr DEFAULT_DERIVED_LAYER_FEATURE_LIMIT)"

text \<open>One pass over the pipeline: the schema and the reach go from step to step.\<close>

fun validate_steps ::
  "string \<Rightarrow> query \<Rightarrow> jsval list \<Rightarrow> schema \<Rightarrow> jsnum \<Rightarrow> (tool_step list \<times> schema \<times> jsnum) checked" where
  "validate_steps sourceTable queryRaw [] sch reach = Inr ([], sch, reach)"
| "validate_steps sourceTable queryRaw (stepRaw # steps) sch reach =
     require (is_object_like stepRaw) ''derived_layer.pipeline step must be an object'' (
     require (is_str (field_of stepRaw ''tool'')) ''derived_layer.pipeline step tool must be a string'' (
     bind_res (get_generator (str_of (field_of stepRaw ''tool''))) (\<lambda>generator.
     bind_res (t_validate generator (field_of stepRaw ''params'') (Some sch)) (\<lambda>validated.
     bind_res (saved_params generator validated sourceTable queryRaw) (\<lambda>enriched.
     bind_res (validate_steps sourceTable queryRaw steps (t_output generator sch enriched)
                 (n_add reach (t_reach generator enriched))) (\<lambda>(rest, out, total).
       Inr (\<lparr> ts_tool = str_of (field_of stepRaw ''tool''), ts_params = JObj 0 enriched \<rparr> # rest, out, total)))))))"

text \<open>What the source gives: its sublayer, the schema, the table to query, and its extent.\<close>

record source_info =
  si_sublayer :: "string option"
  si_schema :: schema
  si_table :: string
  si_bbox :: "jsnum list"

definition empty_table :: string where
  "empty_table =
     ''(SELECT NULL::uuid AS global_id, NULL::geometry AS geom, NULL::jsonb AS properties WHERE FALSE) AS source_features''"

definition derived_source :: "items \<Rightarrow> string \<Rightarrow> item_row \<Rightarrow> jsval \<Rightarrow> source_info checked" where
  "derived_source items sid src layerKey =
     require (\<not> full_str layerKey) ''derived_layer.source.layerKey is not valid for a derived_layer source'' (
     bind_res (walk_source_chain items [sid] sid 1) (\<lambda>depth.
     require (depth \<le> MAX_CHAIN_DEPTH) ''derived_layer source chain exceeds the maximum depth of 5'' (
     case it_data src of
       Recipe r \<Rightarrow> Inr \<lparr> si_sublayer = None, si_schema = rc_schema r, si_table = empty_table, si_bbox = rc_bbox r \<rparr>
     | _ \<Rightarrow> Inl (Bad_request ''derived_layer source has no cached outputSchema''))))"

definition layer_source_info :: "string \<Rightarrow> item_row \<Rightarrow> jsval \<Rightarrow> source_info checked" where
  "layer_source_info sid src layerKey =
     (let data = json_of (it_data src) in
      bind_res (resolve_sublayer data (read_source_version data) (if is_str layerKey then Some (str_of layerKey) else None))
        (\<lambda>sublayer. Inr
          \<lparr> si_sublayer = map_option fst sublayer,
            si_schema = (case sublayer of Some (_, fs) \<Rightarrow> fs | None \<Rightarrow> read_source_schema data),
            si_table = ''('' @ data_layer_source (data_layer_scope sid
                (case sublayer of Some (k, _) \<Rightarrow> k | None \<Rightarrow> ''default'')) [] [] @ '') AS source_features'',
            si_bbox = (case it_bbox src of Some b \<Rightarrow> b | None \<Rightarrow> []) \<rparr>))"

definition validate_and_enrich :: "items \<Rightarrow> query \<Rightarrow> jsval \<Rightarrow> string \<Rightarrow> item_row \<Rightarrow> recipe checked" where
  "validate_and_enrich items queryRaw rawData sid src =
     require (is_object_like rawData) ''derived_layer data must be an object'' (
     require (strict_eq (field_of rawData ''version'') (JNum (Fin 1))) ''derived_layer.version must be 1'' (
     let source = field_of rawData ''source''; kd = field_of source ''kind''; layerKey = field_of source ''layerKey'' in
     require (kd \<in> {JStr ''data_layer'', JStr ''derived_layer''} \<and> full_str (field_of source ''itemId''))
       ''derived_layer.source must be { kind, itemId }'' (
     require (field_of source ''itemId'' = JStr sid) ''derived_layer.source.itemId must match the resolved source item'' (
     require (kd = JStr (it_type src)) ''derived_layer.source.itemId must reference an item of its kind'' (
     bind_res (if kd = JStr ''derived_layer'' then derived_source items sid src layerKey
               else layer_source_info sid src layerKey) (\<lambda>info.
     let pipeline = field_of rawData ''pipeline'' in
     require (is_arr pipeline \<and> elems_of pipeline \<noteq> []) ''derived_layer.pipeline must be a non-empty array of tool steps'' (
     require (length (elems_of pipeline) \<le> MAX_PIPELINE_STEPS) ''derived_layer.pipeline must not exceed 10 steps'' (
     bind_res (feature_limit (field_of rawData ''featureLimit'')) (\<lambda>featureLimit.
     bind_res (validate_steps (si_table info) queryRaw (elems_of pipeline) (si_schema info) (Fin 0)) (\<lambda>(validated, sch, reach).
       Inr \<lparr> rc_source = \<lparr> ls_kind = str_of kd, ls_item = sid, ls_key = si_sublayer info \<rparr>,
             rc_pipeline = validated, rc_limit = featureLimit, rc_schema = sch,
             rc_bbox = pad_bbox (si_bbox info) reach \<rparr>))))))))))"

end
