(* ===== verification/DerivedRead.thy ===== *)
theory DerivedRead
  imports DerivedLayers
begin

text \<open>
  Reading a derived layer (\<open>composeReadCtes\<close>, \<open>getGeoJson\<close>, \<open>previewRecipe\<close> and \<open>buildReadSql\<close> of
  \<open>derived-layers.service.ts\<close>), the gates \<open>items.service.ts\<close> puts before saving, previewing and
  reading one, and the dependencies of a derived layer (\<open>dependency-extractor.ts\<close>).

  A statement is not run here: a read ends in an empty collection or in a statement with its
  parameters. The parser of dates is an argument, the ISO text of the date or \<open>None\<close>; so is
  \<open>readable\<close>, the answer of \<open>SharingService.canRead\<close> for the user of the request, given for the
  model's sharing service by \<open>item_readable\<close>.
\<close>

subsection \<open>The options of a request\<close>

text \<open>An empty text stands for an option that is not given.\<close>

record read_opts =
  ro_bbox :: "(jsnum \<times> jsnum \<times> jsnum \<times> jsnum) option"
  ro_at :: string
  ro_clip :: string

type_synonym date_iso = "string \<Rightarrow> string option"

definition boundary_rows :: "items \<Rightarrow> boundaries" where
  "boundary_rows items i =
     map_option (\<lambda>r. \<lparr> br_type = it_type r, br_trashed = it_deleted r, br_data = json_of (it_data r) \<rparr>) (items i)"

subsection \<open>The conditions at the leaf\<close>

text \<open>Each part gives its conditions and the parameters it pushes after the \<open>off\<close> ones there are.\<close>

type_synonym part = "string list \<times> jsval list"

definition at_condition :: "nat \<Rightarrow> string" where
  "at_condition p =
     ''valid_from <= '' @ ph p @ ''::timestamptz AND (valid_to IS NULL OR valid_to > '' @ ph p @ ''::timestamptz)''"

definition at_part :: "date_iso \<Rightarrow> string \<Rightarrow> nat \<Rightarrow> part" where
  "at_part date at_text off =
     (if at_text \<noteq> []
      then (case date at_text of
              None \<Rightarrow> ([], [])
            | Some ts \<Rightarrow> ([at_condition (off + 1)], [JStr ts]))
      else ([''valid_to IS NULL''], []))"

definition bbox_condition :: "nat \<Rightarrow> string" where
  "bbox_condition b =
     ''geom IS NOT NULL AND ST_Intersects(geom, ST_MakeEnvelope('' @ ph (b - 3) @ '', '' @ ph (b - 2) @ '', '' @
       ph (b - 1) @ '', '' @ ph b @ '', 4326))''"

definition bbox_part :: "jsnum \<Rightarrow> (jsnum \<times> jsnum \<times> jsnum \<times> jsnum) option \<Rightarrow> nat \<Rightarrow> part" where
  "bbox_part reach bbox off =
     (case bbox of
        None \<Rightarrow> ([], [])
      | Some (minX, minY, maxX, maxY) \<Rightarrow>
          let padding = n_mul reach DEGREES_PER_METER; b = off + 4 in
          ([bbox_condition b],
           [JNum (n_sub minX padding), JNum (n_sub minY padding), JNum (n_add maxX padding), JNum (n_add maxY padding)]))"

definition clip_condition :: "nat \<Rightarrow> string" where
  "clip_condition p =
     ''geom IS NOT NULL AND ST_Intersects(geom, ST_SetSRID(ST_GeomFromGeoJSON('' @ ph p @ ''::text), 4326))''"

definition clip_part :: "items \<Rightarrow> string \<Rightarrow> nat \<Rightarrow> part" where
  "clip_part items clip off =
     (if clip = [] then ([], [])
      else case boundary_geometry (boundary_rows items) clip of
             None \<Rightarrow> ([], [])
           | Some g \<Rightarrow>
               ([clip_condition (off + 1)], [JStr (json_text g)]))"

definition source_scope :: "layer_source \<Rightarrow> string" where
  "source_scope src =
     data_layer_scope (ls_item src)
       (case ls_key src of None \<Rightarrow> ''default'' | Some k \<Rightarrow> if k \<noteq> [] then k else ''default'')"

subsection \<open>The pipeline\<close>

definition step_params :: "tool_step \<Rightarrow> (tool \<times> obj) checked" where
  "step_params step =
     bind_res (get_generator (ts_tool step)) (\<lambda>generator.
     bind_res (t_validate generator (ts_params step) None) (\<lambda>p. Inr (generator, p)))"

fun layer_reach :: "tool_step list \<Rightarrow> jsnum \<Rightarrow> jsnum checked" where
  "layer_reach [] reach = Inr reach"
| "layer_reach (step # steps) reach =
     bind_res (step_params step) (\<lambda>(generator, p). layer_reach steps (n_add reach (t_reach generator p)))"

definition cte :: "string \<Rightarrow> string \<Rightarrow> string" where
  "cte name sql = name @ '' AS ('' @ sql @ '')''"

definition step_name :: "string \<Rightarrow> nat \<Rightarrow> string" where
  "step_name prefix i = prefix @ ''step_'' @ nat_digits (i + 1)"

text \<open>The common table expressions so far, the alias to read from, and the parameters so far.\<close>

type_synonym composed = "string list \<times> string \<times> jsval list"

fun pipeline_ctes :: "string \<Rightarrow> nat \<Rightarrow> tool_step list \<Rightarrow> composed \<Rightarrow> composed checked" where
  "pipeline_ctes prefix i [] acc = Inr acc"
| "pipeline_ctes prefix i (step # steps) (ctes, inputAlias, params) =
     bind_res (step_params step) (\<lambda>(generator, p).
     bind_res (t_sql generator inputAlias p (length params)) (\<lambda>f.
       pipeline_ctes prefix (i + 1) steps
         (ctes @ [cte (step_name prefix i) (sf_sql f)], step_name prefix i, params @ sf_params f)))"

subsection \<open>The chain\<close>

definition depth_prefix :: "nat \<Rightarrow> string" where
  "depth_prefix depth = ''d'' @ nat_digits depth @ ''_''"

definition leaf_ctes :: "items \<Rightarrow> date_iso \<Rightarrow> read_opts \<Rightarrow> layer_source \<Rightarrow> jsnum \<Rightarrow> string \<Rightarrow> jsval list \<Rightarrow> composed" where
  "leaf_ctes items date opts src reach prefix params =
     (let (collapse, ps1) = at_part date (ro_at opts) (length params);
          (inBox, ps2) = bbox_part reach (ro_bbox opts) (length (params @ ps1));
          (inClip, ps3) = clip_part items (ro_clip opts) (length (params @ ps1 @ ps2));
          sourceAlias = prefix @ ''source''
      in ([cte sourceAlias (data_layer_source (source_scope src) collapse (inBox @ inClip))], sourceAlias,
          params @ ps1 @ ps2 @ ps3))"

function compose_read_ctes ::
  "items \<Rightarrow> date_iso \<Rightarrow> read_opts \<Rightarrow> recipe \<Rightarrow> nat \<Rightarrow> jsval list \<Rightarrow> string list \<Rightarrow> composed checked" where
  "compose_read_ctes items date opts r depth params visited =
     bind_res (layer_reach (rc_pipeline r) (Fin 0)) (\<lambda>reach.
     bind_res
       (let sid = ls_item (rc_source r) in
        if ls_kind (rc_source r) = ''derived_layer'' then
          if sid \<in> set visited then Inl (Bad_request ''derived_layer source chain has a cycle'')
          else
            (case items sid of
               None \<Rightarrow> Inl (Bad_request ''derived_layer chained source is missing or no longer a derived_layer'')
             | Some parent \<Rightarrow>
                 if it_deleted parent \<or> it_type parent \<noteq> ''derived_layer''
                 then Inl (Bad_request ''derived_layer chained source is missing or no longer a derived_layer'')
                 else case it_data parent of
                        Recipe pr \<Rightarrow>
                          if MAX_CHAIN_DEPTH < depth + 1
                          then Inl (Bad_request ''derived_layer source chain exceeds the maximum depth of 5'')
                          else compose_read_ctes items date opts pr (depth + 1) params (sid # visited)
                      | _ \<Rightarrow> Inl (Bad_request ''derived_layer chained source has an unrecognised recipe shape''))
        else Inr (leaf_ctes items date opts (rc_source r) reach (depth_prefix depth) params))
       (pipeline_ctes (depth_prefix depth) 0 (rc_pipeline r)))"
  by pat_completeness auto
termination
  by (relation "measure (\<lambda>(_, _, _, _, depth, _, _). MAX_CHAIN_DEPTH - depth)") auto

declare compose_read_ctes.simps [simp del]

subsection \<open>Reading\<close>

datatype read_plan = Empty_collection | Query string "jsval list"

definition final_query :: "jsnum \<Rightarrow> composed \<Rightarrow> read_plan" where
  "final_query featureLimit c =
     (case c of (ctes, finalAlias, params) \<Rightarrow>
        let queryParams = params @ [JNum featureLimit] in
        Query ('' WITH '' @ join '', '' ctes @ '' SELECT global_id, ST_AsGeoJSON(geom) AS geom, properties FROM '' @
               finalAlias @ '' WHERE geom IS NOT NULL LIMIT '' @ ph (length queryParams) @ '' '') queryParams)"

text \<open>\<open>source\<close> is the resolved source item with its id.\<close>

definition get_geo_json ::
  "items \<Rightarrow> date_iso \<Rightarrow> string \<Rightarrow> item_data \<Rightarrow> (string \<times> item_row) option \<Rightarrow> read_opts \<Rightarrow> read_plan checked" where
  "get_geo_json items date item_id data source opts =
     (case data of
        Recipe r \<Rightarrow>
          (case source of
             None \<Rightarrow> Inr Empty_collection
           | Some (sid, src) \<Rightarrow>
               if sid \<noteq> ls_item (rc_source r) then Inr Empty_collection
               else if it_type src \<noteq> ls_kind (rc_source r) then Inr Empty_collection
               else if it_type src = ''data_layer'' \<and>
                       \<not> strict_eq (field_of (json_of (it_data src)) ''storageType'') (JStr ''postgis'')
               then Inr Empty_collection
               else bind_res (compose_read_ctes items date opts r 0 [] [item_id]) (\<lambda>c.
                      Inr (final_query (rc_limit r) c)))
      | _ \<Rightarrow> Inr Empty_collection)"

definition build_read_sql :: "recipe \<Rightarrow> string \<Rightarrow> read_opts \<Rightarrow> read_plan checked" where
  "build_read_sql r sid opts =
     bind_res (layer_reach (rc_pipeline r) (Fin 0)) (\<lambda>reach.
       let (collapse, ps1) =
             (if ro_at opts \<noteq> [] then ([at_condition 1], [JStr (ro_at opts)]) else ([''valid_to IS NULL''], []));
           (inBox, ps2) = bbox_part reach (ro_bbox opts) (length ps1);
           scope = source_scope ((rc_source r)\<lparr> ls_item := sid \<rparr>)
       in bind_res
            (pipeline_ctes [] 0 (rc_pipeline r)
               ([cte ''source'' (data_layer_source scope collapse inBox)], ''source'', ps1 @ ps2)) (\<lambda>c.
          Inr (final_query (rc_limit r) c)))"

subsection \<open>The text of a query\<close>

lemma digits_plain: "plain (nat_digits n)"
  using nat_digits_digit [of _ n] by (fastforce simp: plain_def list_all_iff is_digit_char_def cu_def)

lemma plain_append [simp]: "plain (a @ b) \<longleftrightarrow> plain a \<and> plain b"
  by (simp add: plain_def)

lemma ident_append: "ident (c # a) \<Longrightarrow> plain b \<Longrightarrow> ident (c # a @ b)"
  by (simp add: ident_def plain_def not_digit_first_def)

lemma depth_prefix_ident: "ident (depth_prefix depth)"
  using digits_plain [of depth]
  by (simp add: depth_prefix_def ident_def not_digit_first_def is_digit_char_def cu_def) (simp add: plain_def)

lemma prefixed_ident:
  assumes "ident prefix" and "plain (c # b)" and "\<not> is_digit_char c"
  shows "ident (prefix @ c # b)"
  using assms by (cases prefix) (auto simp: ident_def plain_def not_digit_first_def)

lemma step_name_ident: "ident prefix \<Longrightarrow> ident (step_name prefix i)"
  using digits_plain [of "i + 1"] prefixed_ident [of prefix "CHR ''s''" "''tep_'' @ nat_digits (i + 1)"]
  by (simp add: step_name_def plain_def is_digit_char_def cu_def)

text \<open>What the expressions composed so far satisfy.\<close>

definition composed_ok :: "composed \<Rightarrow> bool" where
  "composed_ok c \<longleftrightarrow>
     (case c of (ctes, al, params) \<Rightarrow> ident al \<and> ctes \<noteq> [] \<and> (\<forall>t \<in> set ctes. piece 0 (length params) t))"

lemma cte_piece:
  assumes "ident name" and "piece lo hi sql"
  shows "piece lo hi (cte name sql)"
proof -
  have "piece lo hi ('' AS ('' @ sql @ '')'')"
    by (intro piece_append piece_text assms(2)) (simp_all add: text_simps)
  then show ?thesis using piece_append [OF ident_piece [OF assms(1)]] by (simp add: cte_def)
qed

text \<open>A registered tool writes a statement that continues the numbering.\<close>

lemma registered_statement:
  assumes "step_params step = Inr (g, p)" and "ident al" and "t_sql g al p off = Inr f"
  shows "piece 0 (off + length (sf_params f)) (sf_sql f)"
proof -
  have "g \<in> set REGISTRY"
    using assms(1) get_generator_in unfolding step_params_def bind_res_Inr by blast
  then have "tool_generator g" by (rule registry_generator)
  from tool_generator.statement [OF this assms(2,3)] show ?thesis using piece_mono by blast
qed

lemma pipeline_ok:
  "pipeline_ctes prefix i steps c = Inr c' \<Longrightarrow> ident prefix \<Longrightarrow> composed_ok c \<Longrightarrow> composed_ok c'"
proof (induction prefix i steps c rule: pipeline_ctes.induct)
  case (2 prefix i step steps ctes al params)
  from 2(2) obtain g p f where g: "step_params step = Inr (g, p)" and f: "t_sql g al p (length params) = Inr f"
    and rest: "pipeline_ctes prefix (i + 1) steps
      (ctes @ [cte (step_name prefix i) (sf_sql f)], step_name prefix i, params @ sf_params f) = Inr c'"
    by (auto simp: bind_res_Inr)
  have "piece 0 (length params + length (sf_params f)) (cte (step_name prefix i) (sf_sql f))"
    using registered_statement [OF g _ f] 2(3,4) step_name_ident cte_piece by (simp add: composed_ok_def)
  moreover have "piece 0 (length params + length (sf_params f)) t" if "t \<in> set ctes" for t
    using 2(4) that piece_mono [of 0 "length params" t 0] by (auto simp: composed_ok_def)
  ultimately have "composed_ok (ctes @ [cte (step_name prefix i) (sf_sql f)], step_name prefix i, params @ sf_params f)"
    using step_name_ident [OF 2(3)] by (auto simp: composed_ok_def)
  from 2(1) [OF g refl f rest 2(3) this] show ?case .
qed simp

definition part_ok :: "part \<Rightarrow> nat \<Rightarrow> bool" where
  "part_ok pt off \<longleftrightarrow> (\<forall>c \<in> set (fst pt). piece 0 (off + length (snd pt)) c)"

lemma at_condition_piece: "0 < p \<Longrightarrow> piece 0 p (at_condition p)"
  unfolding at_condition_def by (intro piece_intros) (simp_all add: text_simps)

lemma at_part_ok: "part_ok (at_part date t off) off"
  using at_condition_piece [of "off + 1"]
  by (auto simp: part_ok_def at_part_def text_simps split: option.splits intro!: piece_text)

lemma bbox_condition_piece: "3 < b \<Longrightarrow> piece 0 b (bbox_condition b)"
  unfolding bbox_condition_def by (intro piece_intros) (simp_all add: text_simps)

lemma bbox_part_ok: "part_ok (bbox_part reach b off) off"
  using bbox_condition_piece [of "off + 4"]
  by (auto simp: part_ok_def bbox_part_def Let_def eval_nat_numeral split: option.split prod.split)

lemma clip_condition_piece: "0 < p \<Longrightarrow> piece 0 p (clip_condition p)"
  unfolding clip_condition_def by (intro piece_intros) (simp_all add: text_simps)

lemma clip_part_ok: "part_ok (clip_part items clip off) off"
  using clip_condition_piece [of "off + 1"] by (simp add: part_ok_def clip_part_def split: option.split)

lemma part_ok_piece: "part_ok pt off \<Longrightarrow> c \<in> set (fst pt) \<Longrightarrow> off + length (snd pt) \<le> hi \<Longrightarrow> piece 0 hi c"
  using piece_mono [of 0 "off + length (snd pt)" c 0 hi] by (auto simp: part_ok_def)

lemma leaf_ok: "ident prefix \<Longrightarrow> composed_ok (leaf_ctes items date opts src reach prefix params)"
proof -
  assume pre: "ident prefix"
  obtain c1 p1 where 1: "at_part date (ro_at opts) (length params) = (c1, p1)" by (cases "at_part date (ro_at opts) (length params)")
  obtain c2 p2 where 2: "bbox_part reach (ro_bbox opts) (length (params @ p1)) = (c2, p2)"
    by (cases "bbox_part reach (ro_bbox opts) (length (params @ p1))")
  obtain c3 p3 where 3: "clip_part items (ro_clip opts) (length (params @ p1 @ p2)) = (c3, p3)"
    by (cases "clip_part items (ro_clip opts) (length (params @ p1 @ p2))")
  let ?hi = "length (params @ p1 @ p2 @ p3)"
  have "piece 0 ?hi c" if "c \<in> set c1" for c
    using part_ok_piece [OF at_part_ok [of date "ro_at opts" "length params"]] that by (simp add: 1)
  moreover have "piece 0 ?hi c" if "c \<in> set (c2 @ c3)" for c
    using part_ok_piece [OF bbox_part_ok [of reach "ro_bbox opts" "length (params @ p1)"]]
      part_ok_piece [OF clip_part_ok [of items "ro_clip opts" "length (params @ p1 @ p2)"]] that
    unfolding 2 3 by auto
  ultimately have "piece 0 ?hi (data_layer_source (source_scope src) c1 (c2 @ c3))" by (rule data_layer_source_piece)
  moreover have al: "ident (prefix @ ''source'')"
    using prefixed_ident [OF pre, of "CHR ''s''" "''ource''"] by (simp add: plain_def is_digit_char_def cu_def)
  ultimately show ?thesis
    using cte_piece [OF al] unfolding leaf_ctes_def 1 2 3 Let_def case_prod_conv composed_ok_def by simp
qed

lemma compose_ok: "compose_read_ctes items date opts r depth params visited = Inr c \<Longrightarrow> composed_ok c"
proof (induction items date opts r depth params visited arbitrary: c rule: compose_read_ctes.induct)
  case (1 items date opts r depth params visited)
  from 1(2) obtain reach c0 where reach: "layer_reach (rc_pipeline r) (Fin 0) = Inr reach" and c0: "(let sid = ls_item (rc_source r) in
        if ls_kind (rc_source r) = ''derived_layer'' then
          if sid \<in> set visited then Inl (Bad_request ''derived_layer source chain has a cycle'')
          else
            (case items sid of
               None \<Rightarrow> Inl (Bad_request ''derived_layer chained source is missing or no longer a derived_layer'')
             | Some parent \<Rightarrow>
                 if it_deleted parent \<or> it_type parent \<noteq> ''derived_layer''
                 then Inl (Bad_request ''derived_layer chained source is missing or no longer a derived_layer'')
                 else case it_data parent of
                        Recipe pr \<Rightarrow>
                          if MAX_CHAIN_DEPTH < depth + 1
                          then Inl (Bad_request ''derived_layer source chain exceeds the maximum depth of 5'')
                          else compose_read_ctes items date opts pr (depth + 1) params (sid # visited)
                      | _ \<Rightarrow> Inl (Bad_request ''derived_layer chained source has an unrecognised recipe shape''))
        else Inr (leaf_ctes items date opts (rc_source r) reach (depth_prefix depth) params)) = Inr c0"
    and c: "pipeline_ctes (depth_prefix depth) 0 (rc_pipeline r) c0 = Inr c"
    unfolding compose_read_ctes.simps [of items date opts r] bind_res_Inr by blast
  have "composed_ok c0"
  proof (cases "ls_kind (rc_source r) = ''derived_layer''")
    case True
    with c0 show ?thesis
      using 1(1) [OF reach refl True] by (auto simp: Let_def split: if_splits option.splits item_data.splits)
  next
    case False
    then have "c0 = leaf_ctes items date opts (rc_source r) reach (depth_prefix depth) params"
      using c0 by (simp add: Let_def)
    then show ?thesis by (simp add: leaf_ok depth_prefix_ident)
  qed
  from pipeline_ok [OF c depth_prefix_ident this] show ?case .
qed

text \<open>A statement in order: its literals are closed, and each placeholder outside them has a parameter.\<close>

definition statement_ok :: "string \<Rightarrow> jsval list \<Rightarrow> bool" where
  "statement_ok sql params \<longleftrightarrow>
     closed_lits sql \<and> set (placeholders (outside False sql)) \<subseteq> {1 .. length params}"

lemma piece_statement: "piece 0 (length params) sql \<Longrightarrow> statement_ok sql params"
  by (auto simp: piece_def statement_ok_def)

lemma final_query_ok:
  assumes "composed_ok c" and "final_query n c = Query sql params"
  shows "statement_ok sql params"
proof -
  obtain ctes al ps where c: "c = (ctes, al, ps)" by (cases c)
  have al: "ident al" and "\<And>t. t \<in> set ctes \<Longrightarrow> piece 0 (length ps + 1) t"
    using assms(1) c piece_mono [of 0 "length ps"] by (auto simp: composed_ok_def)
  then have ctes: "piece 0 (length ps + 1) (join '', '' ctes)"
    by (intro piece_join piece_text) (simp_all add: text_simps)
  have "piece 0 (length ps + 1)
      ('' WITH '' @ join '', '' ctes @ '' SELECT global_id, ST_AsGeoJSON(geom) AS geom, properties FROM '' @
       al @ '' WHERE geom IS NOT NULL LIMIT '' @ ph (length ps + 1) @ '' '')"
    by (intro piece_append piece_text piece_ph ctes ident_piece [OF al]) (simp_all add: text_simps)
  then show ?thesis using assms(2) piece_statement by (auto simp: c final_query_def Let_def)
qed

lemma built_sql_ok:
  assumes "build_read_sql r sid opts = Inr (Query sql params)"
  shows "statement_ok sql params"
proof -
  obtain reach where reach: "layer_reach (rc_pipeline r) (Fin 0) = Inr reach"
    using assms unfolding build_read_sql_def bind_res_Inr by blast
  let ?at = "if ro_at opts \<noteq> [] then ([at_condition 1], [JStr (ro_at opts)]) else ([''valid_to IS NULL''], [])"
  obtain c1 p1 where 1: "?at = (c1, p1)" by fastforce
  obtain c2 p2 where 2: "bbox_part reach (ro_bbox opts) (length p1) = (c2, p2)" by fastforce
  have "piece 0 (length p1) c" if "c \<in> set c1" for c
    using 1 that at_condition_piece [of 1] by (auto simp: text_simps split: if_splits intro!: piece_text)
  then have "piece 0 (length (p1 @ p2)) c" if "c \<in> set c1" for c using that piece_mono by fastforce
  moreover have "piece 0 (length (p1 @ p2)) c" if "c \<in> set c2" for c
    using part_ok_piece [OF bbox_part_ok [of reach "ro_bbox opts" "length p1"]] that unfolding 2 by auto
  ultimately have "composed_ok
      ([cte ''source'' (data_layer_source (source_scope ((rc_source r)\<lparr> ls_item := sid \<rparr>)) c1 c2)], ''source'', p1 @ p2)"
    using cte_piece data_layer_source_piece
    by (simp add: composed_ok_def ident_def plain_def not_digit_first_def is_digit_char_def cu_def)
  then show ?thesis
    using assms final_query_ok pipeline_ok [of "[]"] unfolding build_read_sql_def reach 1 2 Let_def case_prod_conv
      bind_res.simps bind_res_Inr by (fastforce simp: ident_def plain_def not_digit_first_def)
qed

text \<open>C18: whatever layer is read with whatever options, the statement the read path builds has all its
  string literals closed, and the placeholders outside of them are numbered within its parameters:
  the steps of all layers of the chain, the conditions on time, box and boundary and the limit share
  one numbering, and no id, layer key, field name or text of a recipe breaks out of its literal.\<close>

theorem query_numbered:
  assumes "get_geo_json items date item_id data source opts = Inr (Query sql params)"
  shows "closed_lits sql \<and> set (placeholders (outside False sql)) \<subseteq> {1 .. length params}"
proof -
  obtain r c where "compose_read_ctes items date opts r 0 [] [item_id] = Inr c"
    and "final_query (rc_limit r) c = Query sql params"
    using assms unfolding get_geo_json_def
    by (auto simp: bind_res_Inr split: item_data.splits option.splits prod.splits if_splits)
  then show ?thesis using compose_ok final_query_ok unfolding statement_ok_def by blast
qed

subsection \<open>An example\<close>

text \<open>A data layer and a recipe over it, with a layer key that tries to leave its literal.\<close>

definition example_item :: "string \<Rightarrow> string \<Rightarrow> shared_item" where
  "example_item i owner =
     \<lparr> im_id = i, im_owner = owner, im_org = ''o'', im_access = Private, im_public_boundary = None,
       im_org_boundary = None, im_trashed = False \<rparr>"

definition example_layer :: item_row where
  "example_layer =
     \<lparr> it_type = ''data_layer'', it_item = example_item ''a'' ''w'', it_shares = [],
       it_data = Json (JObj 0 [(''storageType'', JStr ''postgis'')]), it_bbox = None \<rparr>"

definition example_recipe :: recipe where
  "example_recipe =
     \<lparr> rc_source = \<lparr> ls_kind = ''data_layer'', ls_item = ''a'', ls_key = Some (lit ''$9'') \<rparr>,
       rc_pipeline = [\<lparr> ts_tool = ''centroid'', ts_params = JObj 0 [] \<rparr>], rc_limit = Fin 10,
       rc_schema = [], rc_bbox = [] \<rparr>"

definition no_options :: read_opts where
  "no_options = \<lparr> ro_bbox = None, ro_at = [], ro_clip = [] \<rparr>"

fun is_query :: "read_plan checked \<Rightarrow> bool" where
  "is_query (Inr (Query _ _)) = True"
| "is_query _ = False"

lemma is_query_iff: "is_query r \<longleftrightarrow> (\<exists>sql params. r = Inr (Query sql params))"
  by (cases r rule: is_query.cases) auto

theorem query_numbered_witness:
  "\<exists>sql params. get_geo_json Map.empty (\<lambda>_. None) ''d'' (Recipe example_recipe) (Some (''a'', example_layer)) no_options =
      Inr (Query sql params) \<and> closed_lits sql \<and> set (placeholders (outside False sql)) \<subseteq> {1 .. length params}"
proof -
  have "is_query (get_geo_json (\<lambda>_. None) (\<lambda>_. None) ''d'' (Recipe example_recipe) (Some (''a'', example_layer)) no_options)"
    by code_simp
  then show ?thesis unfolding is_query_iff using query_numbered by blast
qed

end
