(* ===== verification/DerivedGate.thy ===== *)
theory DerivedGate
  imports DerivedRead
begin

text \<open>
  The gates around derived layers: \<open>enrichDerivedLayerData\<close>, \<open>assertReadableDerivedLayerChain\<close>,
  \<open>assertReadableDerivedLayerInput\<close> and the derived branch of \<open>getGeoJson\<close> in
  \<open>items/items.service.ts\<close>, the ids a pipeline refers to (\<open>items/dependency-extractor.ts\<close>), and the
  preview of a draft (\<open>previewRecipe\<close>).

  \<open>readable\<close> answers \<open>SharingService.canRead\<close> for the user of the request.
\<close>

definition item_readable :: "cedar \<Rightarrow> int \<Rightarrow> auth_user \<Rightarrow> item_row \<Rightarrow> bool" where
  "item_readable cedar now user row = can_read cedar now user (it_item row) (it_shares row)"

type_synonym readable = "item_row \<Rightarrow> bool"

subsection \<open>Dependencies of a pipeline\<close>

definition scan_other_source :: "jsval \<Rightarrow> string list" where
  "scan_other_source params =
     (let otherId = field_of (field_of params ''otherSource'') ''itemId''
      in if full_str otherId then [str_of otherId] else [])"

definition step_deps :: "string \<Rightarrow> jsval \<Rightarrow> string list" where
  "step_deps tool params =
     (if tool = [] then []
      else case bind_res (get_generator tool) (\<lambda>gen. bind_res (t_validate gen params None) (\<lambda>v. Inr (t_deps gen v))) of
             Inr ids \<Rightarrow> filter (\<lambda>i. i \<noteq> []) ids
           | Inl _ \<Rightarrow> scan_other_source params)"

definition raw_step_deps :: "jsval \<Rightarrow> string list" where
  "raw_step_deps rawStep =
     (if is_object_like rawStep \<and> is_str (field_of rawStep ''tool'')
      then step_deps (str_of (field_of rawStep ''tool'')) (field_of rawStep ''params'') else [])"

definition extract_dependencies :: "jsval \<Rightarrow> string list" where
  "extract_dependencies data =
     (let sourceId = field_of (field_of data ''source'') ''itemId'' in
      (if full_str sourceId then [str_of sourceId] else []) @
      (if is_arr (field_of data ''pipeline'') then concat (map raw_step_deps (elems_of (field_of data ''pipeline''))) else []))"

definition data_dependencies :: "item_data \<Rightarrow> string list" where
  "data_dependencies data =
     (case data of
        Recipe r \<Rightarrow>
          (if ls_item (rc_source r) \<noteq> [] then [ls_item (rc_source r)] else []) @
          concat (map (\<lambda>s. step_deps (ts_tool s) (ts_params s)) (rc_pipeline r))
      | _ \<Rightarrow> extract_dependencies (json_of data))"

subsection \<open>The gates\<close>

definition not_accessible :: string where
  "not_accessible = ''derived_layer.source.itemId does not point at an accessible data layer''"

definition accessible :: "items \<Rightarrow> readable \<Rightarrow> string \<Rightarrow> bool" where
  "accessible items readable i =
     (case items i of None \<Rightarrow> False | Some node \<Rightarrow> \<not> it_deleted node \<and> readable node)"

definition assert_readable_input :: "items \<Rightarrow> readable \<Rightarrow> string \<Rightarrow> unit checked" where
  "assert_readable_input items readable i = require (accessible items readable i) not_accessible (Inr ())"

definition MAX_DERIVED_CHAIN_DEPTH :: nat where "MAX_DERIVED_CHAIN_DEPTH = 5"

text \<open>The walk up the chain; \<open>depth\<close> counts the nodes visited before this one.\<close>

function assert_readable_chain :: "items \<Rightarrow> readable \<Rightarrow> string list \<Rightarrow> string \<Rightarrow> nat \<Rightarrow> unit checked" where
  "assert_readable_chain items readable visited i depth =
     (case items i of
        None \<Rightarrow> Inl (Bad_request not_accessible)
      | Some node \<Rightarrow>
          if it_deleted node \<or> \<not> readable node then Inl (Bad_request not_accessible)
          else if 1 + MAX_DERIVED_CHAIN_DEPTH < depth + 1 then Inl (Bad_request ''derived_layer.source chain is too deep'')
          else if it_type node = ''data_layer'' then Inr ()
          else if it_type node \<noteq> ''derived_layer'' then Inl (Bad_request not_accessible)
          else case source_id (it_data node) of
                 None \<Rightarrow> Inl (Bad_request not_accessible)
               | Some parentId \<Rightarrow>
                   if parentId \<in> set visited then Inl (Bad_request ''derived_layer.source chain has a cycle'')
                   else assert_readable_chain items readable (parentId # visited) parentId (depth + 1))"
  by pat_completeness auto
termination
  by (relation "measure (\<lambda>(_, _, _, _, depth). Suc MAX_DERIVED_CHAIN_DEPTH - depth)") auto

declare assert_readable_chain.simps [simp del]

text \<open>Every dependency but the source itself, in turn.\<close>

fun assert_inputs :: "items \<Rightarrow> readable \<Rightarrow> string \<Rightarrow> string list \<Rightarrow> unit checked" where
  "assert_inputs items readable sid [] = Inr ()"
| "assert_inputs items readable sid (dep # deps) =
     (if dep = sid then assert_inputs items readable sid deps
      else bind_res (assert_readable_input items readable dep) (\<lambda>_. assert_inputs items readable sid deps))"

text \<open>The source item the walk resolved.\<close>

definition resolved :: "items \<Rightarrow> string \<Rightarrow> (item_row \<Rightarrow> 'a checked) \<Rightarrow> 'a checked" where
  "resolved items sid k = (case items sid of None \<Rightarrow> Inl (Bad_request not_accessible) | Some src \<Rightarrow> k src)"

definition enrich_derived_layer_data :: "items \<Rightarrow> query \<Rightarrow> readable \<Rightarrow> jsval \<Rightarrow> recipe checked" where
  "enrich_derived_layer_data items queryRaw readable rawData =
     require (is_object_like rawData) ''derived_layer data must be an object'' (
     let sid = field_of (field_of rawData ''source'') ''itemId'' in
     require (is_str sid) ''derived_layer.source.itemId is required'' (
     bind_res (assert_readable_chain items readable [str_of sid] (str_of sid) 0) (\<lambda>_.
     bind_res (assert_inputs items readable (str_of sid) (extract_dependencies rawData)) (\<lambda>_.
     resolved items (str_of sid) (\<lambda>source. validate_and_enrich items queryRaw rawData (str_of sid) source)))))"

text \<open>The derived branch of reading, after the item itself was authorized.\<close>

definition read_derived_layer ::
  "items \<Rightarrow> date_iso \<Rightarrow> readable \<Rightarrow> string \<Rightarrow> item_row \<Rightarrow> read_opts \<Rightarrow> read_plan checked" where
  "read_derived_layer items date readable i item opts =
     (case source_id (it_data item) of
        None \<Rightarrow> Inr Empty_collection
      | Some sid \<Rightarrow>
          (case items sid of
             None \<Rightarrow> Inr Empty_collection
           | Some source \<Rightarrow>
               if it_deleted source \<or> \<not> readable source then Inr Empty_collection
               else if \<exists>dep \<in> set (data_dependencies (it_data item)). dep \<noteq> sid \<and> \<not> accessible items readable dep
               then Inr Empty_collection
               else get_geo_json items date i (it_data item) (Some (sid, source)) opts))"

subsection \<open>The preview\<close>

definition step_schema :: "tool_step list \<Rightarrow> schema \<Rightarrow> schema checked" where
  "step_schema steps sch =
     fold (\<lambda>step acc. bind_res acc (\<lambda>s.
       bind_res (get_generator (ts_tool step)) (\<lambda>generator.
       bind_res (t_validate generator (ts_params step) (Some s)) (\<lambda>validated.
         Inr (t_output generator s validated))))) steps (Inr sch)"

definition preview_limit :: "nat \<Rightarrow> nat" where
  "preview_limit cap = max 1 (min cap 50)"

definition preview_source_schema :: "layer_source \<Rightarrow> item_row \<Rightarrow> schema checked" where
  "preview_source_schema src sourceItem =
     (if it_type sourceItem = ''derived_layer''
      then (case it_data sourceItem of
              Recipe r \<Rightarrow> Inr (rc_schema r)
            | _ \<Rightarrow> Inl (Bad_request ''derived-layer preview: chained source has no cached outputSchema''))
      else let data = json_of (it_data sourceItem) in
           bind_res (resolve_sublayer data (read_source_version data) (ls_key src)) (\<lambda>sublayer.
             Inr (case sublayer of Some (_, fs) \<Rightarrow> fs | None \<Rightarrow> read_source_schema data)))"

record 'row preview =
  pv_count :: nat
  pv_truncated :: bool
  pv_sample :: "'row list"
  pv_schema :: schema

text \<open>\<open>run\<close> is the database: the rows of a statement.\<close>

definition preview_recipe ::
  "items \<Rightarrow> date_iso \<Rightarrow> (string \<Rightarrow> jsval list \<Rightarrow> 'row list) \<Rightarrow> layer_source \<Rightarrow> tool_step list \<Rightarrow>
   string \<Rightarrow> item_row \<Rightarrow> nat \<Rightarrow> nat \<Rightarrow> string \<Rightarrow> 'row preview checked" where
  "preview_recipe items date run src pipeline sid sourceItem upTo cap at_text =
     (if pipeline = [] then Inr \<lparr> pv_count = 0, pv_truncated = False, pv_sample = [], pv_schema = [] \<rparr>
      else
        let sliced = take (min upTo (length pipeline - 1) + 1) pipeline; previewLimit = preview_limit cap in
        require (it_type sourceItem = ''data_layer'' \<or> it_type sourceItem = ''derived_layer'')
          ''derived-layer preview: source must be a data_layer or derived_layer item'' (
        require (it_type sourceItem = ls_kind src)
          ''derived-layer preview: source.kind must match the resolved source item type'' (
        bind_res (preview_source_schema src sourceItem) (\<lambda>sch0.
        bind_res (step_schema sliced sch0) (\<lambda>sch.
        bind_res (get_geo_json items date ''preview-recipe''
            (Recipe \<lparr> rc_source = src, rc_pipeline = sliced, rc_limit = Fin (of_nat (previewLimit + 1)),
                      rc_schema = sch, rc_bbox = [] \<rparr>)
            (Some (sid, sourceItem)) \<lparr> ro_bbox = None, ro_at = at_text, ro_clip = [] \<rparr>) (\<lambda>plan.
          let allRows = (case plan of Empty_collection \<Rightarrow> [] | Query sql params \<Rightarrow> run sql params);
              truncated = (previewLimit < length allRows)
          in Inr \<lparr> pv_count = (if truncated then previewLimit else length allRows), pv_truncated = truncated,
                   pv_sample = take previewLimit allRows, pv_schema = sch \<rparr>))))))"

lemma preview_sample:
  "preview_recipe items date run src pipeline sid row upTo cap t = Inr pv \<Longrightarrow>
   pv_count pv = length (pv_sample pv) \<and> length (pv_sample pv) \<le> 50 \<and> (pv_truncated pv \<longrightarrow> pv_count pv = preview_limit cap)"
  unfolding preview_recipe_def preview_limit_def Let_def
  by (auto simp: bind_res_Inr split: if_splits)

subsection \<open>What was saved\<close>

text \<open>A step of a saved recipe comes from a step of the request.\<close>

definition saved_from :: "string \<Rightarrow> query \<Rightarrow> jsval \<Rightarrow> tool_step \<Rightarrow> bool" where
  "saved_from src q stepRaw s \<longleftrightarrow>
     is_object_like stepRaw \<and> field_of stepRaw ''tool'' = JStr (ts_tool s) \<and>
     (\<exists>g ctx v p. get_generator (ts_tool s) = Inr g \<and> t_validate g (field_of stepRaw ''params'') (Some ctx) = Inr v \<and>
        saved_params g v src q = Inr p \<and> ts_params s = JObj 0 p)"

lemma validate_steps_saved:
  "validate_steps src q raws sch reach = Inr (steps, out, total_reach) \<Longrightarrow> list_all2 (saved_from src q) raws steps"
proof (induction src q raws sch reach arbitrary: steps rule: validate_steps.induct)
  case (2 src q stepRaw raws sch reach)
  from 2(2) obtain g v p rest where
    o: "is_object_like stepRaw" "is_str (field_of stepRaw ''tool'')"
    and g: "get_generator (str_of (field_of stepRaw ''tool'')) = Inr g"
    and v: "t_validate g (field_of stepRaw ''params'') (Some sch) = Inr v" and p: "saved_params g v src q = Inr p"
    and r: "validate_steps src q raws (t_output g sch p) (n_add reach (t_reach g p)) = Inr (rest, out, total_reach)"
    and s: "steps = \<lparr> ts_tool = str_of (field_of stepRaw ''tool''), ts_params = JObj 0 p \<rparr> # rest"
    unfolding validate_steps.simps require_Inr bind_res_Inr by (auto simp only: split_paired_all prod.case sum.inject prod.inject)
  have "list_all2 (saved_from src q) raws rest" using 2(1) [OF g v p r] .
  moreover have "field_of stepRaw ''tool'' = JStr (str_of (field_of stepRaw ''tool''))"
    using o(2) by (cases "field_of stepRaw ''tool''") auto
  then have "saved_from src q stepRaw \<lparr> ts_tool = str_of (field_of stepRaw ''tool''), ts_params = JObj 0 p \<rparr>"
    using o(1) g v p unfolding saved_from_def tool_step.select_convs by blast
  ultimately show ?case by (simp add: s)
qed simp

lemma saved_steps:
  assumes "validate_and_enrich items q raw sid src = Inr r"
  shows "is_arr (field_of raw ''pipeline'')"
    and "\<exists>table. list_all2 (saved_from table q) (elems_of (field_of raw ''pipeline'')) (rc_pipeline r)"
    and "ls_item (rc_source r) = sid" and "ls_kind (rc_source r) = it_type src"
    and "field_of (field_of raw ''source'') ''itemId'' = JStr sid" and "sid \<noteq> []"
proof -
  let ?kd = "field_of (field_of raw ''source'') ''kind''"
  obtain info :: source_info and steps sch reach n where
    st: "validate_steps (si_table info) q (elems_of (field_of raw ''pipeline'')) (si_schema info) (Fin 0) = Inr (steps, sch, reach)"
    and c: "is_arr (field_of raw ''pipeline'')"
      "field_of (field_of raw ''source'') ''itemId'' = JStr sid" "full_str (field_of (field_of raw ''source'') ''itemId'')"
      "?kd = JStr (it_type src)"
    and r: "\<lparr> rc_source = \<lparr> ls_kind = str_of ?kd, ls_item = sid, ls_key = si_sublayer info \<rparr>, rc_pipeline = steps,
      rc_limit = n, rc_schema = sch, rc_bbox = pad_bbox (si_bbox info) reach \<rparr> = r"
    using assms unfolding validate_and_enrich_def Let_def require_Inr bind_res_Inr split_paired_Ex prod.case sum.inject
    by blast
  show "is_arr (field_of raw ''pipeline'')" "ls_item (rc_source r) = sid" "ls_kind (rc_source r) = it_type src"
    "field_of (field_of raw ''source'') ''itemId'' = JStr sid" "sid \<noteq> []"
    using c unfolding r [symmetric] by simp_all
  show "\<exists>table. list_all2 (saved_from table q) (elems_of (field_of raw ''pipeline'')) (rc_pipeline r)"
    using validate_steps_saved [OF st] unfolding r [symmetric] recipe.select_convs by blast
qed

subsection \<open>The ids a saved pipeline refers to\<close>

text \<open>Only four tools refer to another layer, and their checks do not depend on the schema.\<close>

lemma tools_with_deps:
  "t \<in> set REGISTRY \<Longrightarrow> t_deps t \<noteq> no_deps \<Longrightarrow> t \<in> {spatial_join_tool, spatial_filter_tool, clip_tool, erase_tool}"
  unfolding REGISTRY_def set_simps
  by (elim insertE)
    (simp_all add: buffer_tool_def dissolve_tool_def centroid_tool_def convex_hull_tool_def bbox_tool_def simplify_tool_def
      vertices_tool_def densify_tool_def top_n_tool_def random_sample_tool_def nearest_tool_def fishnet_tool_def
      calculate_geometry_tool_def filter_tool_def calculate_field_tool_def aggregate_tool_def contour_tool_def)

lemma deps_without_schema:
  assumes "t \<in> {spatial_join_tool, spatial_filter_tool, clip_tool, erase_tool}" and "t_validate t raw ctx = Inr v"
  shows "t_validate t raw None = Inr v" and "t_enrich t = None"
proof -
  show "t_enrich t = None"
    using assms(1) by (auto simp: spatial_join_tool_def spatial_filter_tool_def clip_tool_def erase_tool_def)
  have "clip_validate raw ctx = clip_validate raw None" "erase_validate raw ctx = erase_validate raw None"
    "spatial_filter_validate raw ctx = spatial_filter_validate raw None"
    unfolding clip_validate_def erase_validate_def spatial_filter_validate_def by (rule refl)+
  moreover have "spatial_join_validate raw None = Inr v" if "spatial_join_validate raw ctx = Inr v"
    using that unfolding spatial_join_validate_def with_object_Inr bind_res_Inr Let_def require_Inr option.case by blast
  ultimately show "t_validate t raw None = Inr v"
    using assms by (auto simp: spatial_join_tool_def spatial_filter_tool_def clip_tool_def erase_tool_def)
qed

lemma resolved_source_item:
  "parse_resolved_source w = Inr src \<Longrightarrow> full_str (field_of src ''itemId'') \<Longrightarrow> field_of src ''kind'' = JStr ''data_layer''"
  by (auto simp: parse_resolved_source_def bind_res_Inr get_Cons split: jsval.splits if_splits)

lemma scan_spatial_filter:
  assumes "spatial_filter_validate raw ctx = Inr v"
  shows "set (scan_other_source (JObj 0 v)) \<subseteq> set (filter (\<lambda>i. i \<noteq> []) (spatial_filter_deps v))"
  using assms
proof (rule spatial_filter_validate_Inr)
  fix src pr d
  assume p: "v = [(''otherSource'', src), (''predicate'', JStr pr)] @ opt_prop ''distanceMeters'' d"
    and w: "\<exists>w. parse_resolved_source w = Inr src"
  have o: "get v ''otherSource'' = src" by (rule spatial_filter_values(1) [OF p])
  have k: "field_of src ''kind'' = JStr ''data_layer''" if "full_str (field_of src ''itemId'')"
    using w that resolved_source_item by blast
  have "str_of (field_of src ''itemId'') \<noteq> []" if "full_str (field_of src ''itemId'')"
    using that unfolding full_str_JStr by auto
  then show ?thesis
    using k unfolding scan_other_source_def spatial_filter_deps_def field_of.simps o Let_def by auto
qed

lemma contour_no_source:
  assumes "contour_validate raw ctx = Inr v" and "contour_enrich v src q = Inr p"
  shows "get p ''otherSource'' = Undef"
proof -
  obtain a r where raw: "raw = JObj a r"
    using assms(1) unfolding contour_validate_def with_object_Inr by blast
  obtain more ck where m: "(if get r ''mode'' = JStr ''auto'' then contour_auto r else contour_manual r) = Inr more"
    and v: "[(''field'', get r ''field''), (''mode'', get r ''mode'')] @ more @ opt_prop ''cachedLevels'' ck = v"
    using assms(1) unfolding raw contour_validate_def with_object_JObj Let_def require_Inr
    by (blast dest: require_number_field_Inr [THEN require_Inr [THEN iffD1]] bind_res_Inr [THEN iffD1])
  have auto: "contour_auto r = Inr more \<Longrightarrow> ''otherSource'' \<notin> fst ` set more"
    unfolding contour_auto_def Let_def require_Inr bind_res_Inr by (auto simp: opt_prop_def split: if_splits)
  have man: "contour_manual r = Inr more \<Longrightarrow> ''otherSource'' \<notin> fst ` set more"
    unfolding contour_manual_def Let_def require_Inr by auto
  have "''otherSource'' \<notin> fst ` set v"
    using auto man m by (auto simp: v [symmetric] opt_prop_def split: if_splits)
  then have "get v ''otherSource'' = Undef"
    by (auto simp: get_def split: option.split dest!: map_of_SomeD) force
  then show ?thesis
    using assms(2)
    by (auto simp: contour_enrich_def contour_range_def stamp_levels_def Let_def get_obj_set split: if_splits list.splits)
qed

lemma step_deps_valid:
  "get_generator tool = Inr g \<Longrightarrow> t_validate g params None = Inr v \<Longrightarrow> tool \<noteq> [] \<Longrightarrow>
   step_deps tool params = filter (\<lambda>i. i \<noteq> []) (t_deps g v)"
  by (simp add: step_deps_def)

lemma step_deps_invalid:
  "get_generator tool = Inr g \<Longrightarrow> t_validate g params None = Inl e \<Longrightarrow> tool \<noteq> [] \<Longrightarrow>
   step_deps tool params = scan_other_source params"
  by (simp add: step_deps_def)

lemma saved_deps_other:
  assumes g: "get_generator tool = Inr g" and t: "tool \<noteq> []" and v: "t_validate g raw ctx = Inr v"
    and p: "saved_params g v src q = Inr p" and n: "g \<notin> {spatial_join_tool, spatial_filter_tool, clip_tool, erase_tool}"
  shows "step_deps tool (JObj 0 p) = []"
proof -
  have reg: "g \<in> set REGISTRY" using g get_generator_in by blast
  have d: "t_deps g = no_deps" using tools_with_deps [OF reg] n by blast
  show ?thesis
  proof (cases "g = contour_tool")
    case False
    then have "stored_tool g" using registry_stored [OF reg] n by blast
    from stored_tool.enriched [OF this v p] step_deps_valid [OF g _ t] d show ?thesis by (simp add: no_deps_def)
  next
    case True
    then have o: "get p ''otherSource'' = Undef"
      using contour_no_source v p by (auto simp: contour_tool_def saved_params_def)
    show ?thesis
    proof (cases "t_validate g (JObj 0 p) None")
      case (Inl e)
      with step_deps_invalid [OF g Inl t] o show ?thesis by (simp add: scan_other_source_def)
    next
      case (Inr w)
      with step_deps_valid [OF g Inr t] d show ?thesis by (simp add: no_deps_def)
    qed
  qed
qed

lemma saved_deps:
  assumes g: "get_generator tool = Inr g" and v: "t_validate g raw ctx = Inr v" and p: "saved_params g v src q = Inr p"
  shows "set (step_deps tool (JObj 0 p)) \<subseteq> set (step_deps tool raw)"
proof (cases "tool = []")
  case False
  note t = False
  show ?thesis
  proof (cases "g \<in> {spatial_join_tool, spatial_filter_tool, clip_tool, erase_tool}")
    case True
    have vn: "t_validate g raw None = Inr v" and e: "t_enrich g = None" using deps_without_schema [OF True v] by simp_all
    have pv: "p = v" using p e by (simp add: saved_params_def)
    have raw_deps: "step_deps tool raw = filter (\<lambda>i. i \<noteq> []) (t_deps g v)" using step_deps_valid [OF g vn t] .
    show ?thesis
    proof (cases "t_validate g (JObj 0 v) None")
      case (Inr w)
      have "w = v"
      proof (cases "g = spatial_filter_tool")
        case True
        have "spatial_filter_validate raw None = Inr v" "spatial_filter_validate (JObj 0 v) None = Inr w"
          using vn Inr True by (simp_all add: spatial_filter_tool_def)
        with spatial_filter_again [OF this(1), of 0 None] show ?thesis by (auto split: if_splits)
      next
        case False
        then have "stored_tool g" using True clip.stored_tool_axioms erase.stored_tool_axioms
            spatial_join.stored_tool_axioms by blast
        from stored_tool.again [OF this vn] Inr show ?thesis by simp
      qed
      then show ?thesis using step_deps_valid [OF g Inr t] raw_deps pv by simp
    next
      case (Inl er)
      have sf: "g = spatial_filter_tool"
      proof (rule ccontr)
        assume "g \<noteq> spatial_filter_tool"
        then have "stored_tool g" using True clip.stored_tool_axioms erase.stored_tool_axioms
            spatial_join.stored_tool_axioms by blast
        from stored_tool.again [OF this vn, of 0] Inl show False by simp
      qed
      then have "spatial_filter_validate raw None = Inr v" "t_deps g = spatial_filter_deps"
        using vn by (simp_all add: spatial_filter_tool_def)
      from scan_spatial_filter [OF this(1)] this(2) show ?thesis
        using step_deps_invalid [OF g Inl t] raw_deps pv by simp
    qed
  next
    case False
    then show ?thesis using saved_deps_other [OF g t v p] by simp
  qed
qed (simp add: step_deps_def)

subsection \<open>Who may save and who may read\<close>

text \<open>The items a layer draws on through its sources, itself included.\<close>

inductive ancestor :: "items \<Rightarrow> string \<Rightarrow> string \<Rightarrow> bool" for items where
  ancestor_self: "ancestor items i i"
| ancestor_up: "items i = Some row \<Longrightarrow> it_type row = ''derived_layer'' \<Longrightarrow> source_id (it_data row) = Some k \<Longrightarrow>
    ancestor items k j \<Longrightarrow> ancestor items i j"

lemma chain_readable:
  "ancestor items i j \<Longrightarrow> assert_readable_chain items readable visited i depth = Inr () \<Longrightarrow> accessible items readable j"
proof (induction arbitrary: visited depth rule: ancestor.induct)
  case (ancestor_self i)
  then show ?case
    by (subst (asm) assert_readable_chain.simps) (auto simp: accessible_def split: option.splits if_splits)
next
  case (ancestor_up i row k j)
  from ancestor_up.prems ancestor_up.hyps(1-3)
  have "assert_readable_chain items readable (k # visited) k (depth + 1) = Inr ()"
    by (subst (asm) assert_readable_chain.simps) (auto split: if_splits)
  then show ?case by (rule ancestor_up.IH)
qed

lemma assert_inputs_readable:
  "assert_inputs items readable sid deps = Inr () \<Longrightarrow> dep \<in> set deps \<Longrightarrow> dep = sid \<or> accessible items readable dep"
  by (induction items readable sid deps rule: assert_inputs.induct)
    (auto simp: bind_res_Inr assert_readable_input_def split: if_splits)

lemma list_all2_source: "list_all2 R xs ys \<Longrightarrow> y \<in> set ys \<Longrightarrow> \<exists>x \<in> set xs. R x y"
  by (induction rule: list_all2_induct) auto

text \<open>C17: when a recipe is saved, its author can read every item it draws on: the source, everything up
  the chain of the source to the data layer, and every other layer a step of the stored pipeline
  names. The ids are collected from the request before it is validated and rewritten; no stored
  step names a layer that was not among them.\<close>

theorem saved_recipe_authorised:
  assumes "enrich_derived_layer_data items queryRaw readable rawData = Inr r"
  shows "(\<forall>j. ancestor items (ls_item (rc_source r)) j \<longrightarrow> accessible items readable j) \<and>
    (\<forall>dep \<in> set (data_dependencies (Recipe r)). accessible items readable dep)"
proof -
  define sid where "sid = str_of (field_of (field_of rawData ''source'') ''itemId'')"
  from assms obtain src where
    chain: "assert_readable_chain items readable [sid] sid 0 = Inr ()"
    and inputs: "assert_inputs items readable sid (extract_dependencies rawData) = Inr ()"
    and saved: "validate_and_enrich items queryRaw rawData sid src = Inr r"
    unfolding enrich_derived_layer_data_def resolved_def Let_def require_Inr bind_res_Inr sid_def [symmetric]
    by (auto split: option.splits)
  note s = saved_steps [OF saved]
  have up: "accessible items readable j" if "ancestor items sid j" for j using chain_readable [OF that chain] .
  have "accessible items readable dep" if d: "dep \<in> set (data_dependencies (Recipe r))" for dep
  proof (cases "dep = sid")
    case True
    then show ?thesis using up ancestor_self by blast
  next
    case False
    then obtain st where st: "st \<in> set (rc_pipeline r)" "dep \<in> set (step_deps (ts_tool st) (ts_params st))"
      using d s(3) by (auto simp: data_dependencies_def split: if_splits)
    obtain table where l: "list_all2 (saved_from table queryRaw) (elems_of (field_of rawData ''pipeline'')) (rc_pipeline r)"
      using s(2) by blast
    from list_all2_source [OF l st(1)] obtain stepRaw where raw: "stepRaw \<in> set (elems_of (field_of rawData ''pipeline''))"
      and f: "saved_from table queryRaw stepRaw st"
      by blast
    from f obtain g ctx v p where "get_generator (ts_tool st) = Inr g"
      "t_validate g (field_of stepRaw ''params'') (Some ctx) = Inr v" "saved_params g v table queryRaw = Inr p"
      "ts_params st = JObj 0 p" by (auto simp: saved_from_def)
    from saved_deps [OF this(1-3)] this(4) st(2)
    have "dep \<in> set (step_deps (ts_tool st) (field_of stepRaw ''params''))" by auto
    then have "dep \<in> set (raw_step_deps stepRaw)" using f by (simp add: raw_step_deps_def saved_from_def)
    then have "dep \<in> set (extract_dependencies rawData)"
      using raw s(1) by (auto simp: extract_dependencies_def Let_def)
    from assert_inputs_readable [OF inputs this] False show ?thesis by simp
  qed
  then show ?thesis using up s(3) by simp
qed

text \<open>A chain of two layers over the example layer.\<close>

definition example_upper :: recipe where
  "example_upper =
     \<lparr> rc_source = \<lparr> ls_kind = ''derived_layer'', ls_item = ''b'', ls_key = None \<rparr>,
       rc_pipeline = [\<lparr> ts_tool = ''centroid'', ts_params = JObj 0 [] \<rparr>], rc_limit = Fin 10,
       rc_schema = [], rc_bbox = [] \<rparr>"

definition derived_row :: "string \<Rightarrow> recipe \<Rightarrow> item_row" where
  "derived_row i r =
     \<lparr> it_type = ''derived_layer'', it_item = example_item i ''u'', it_shares = [], it_data = Recipe r, it_bbox = None \<rparr>"

definition example_items :: items where
  "example_items = [''a'' \<mapsto> example_layer, ''b'' \<mapsto> derived_row ''b'' example_recipe]"

text \<open>Drafts of one step, and a clip by another layer.\<close>

definition example_draft :: "string \<Rightarrow> string \<Rightarrow> string \<Rightarrow> jsval \<Rightarrow> jsval" where
  "example_draft kd sid tool params =
     JObj 0 [(''version'', JNum (Fin 1)),
       (''source'', JObj 1 [(''kind'', JStr kd), (''itemId'', JStr sid)]),
       (''pipeline'', JArr 2 [JObj 3 [(''tool'', JStr tool), (''params'', params)]])]"

definition other_layer :: "string \<Rightarrow> jsval" where
  "other_layer i = JObj 5 [(''otherSource'', JObj 6 [(''kind'', JStr ''data_layer''), (''itemId'', JStr i)])]"

theorem saved_recipe_authorised_witness:
  "let items = example_items(''c'' \<mapsto> example_layer) in
   \<exists>r. enrich_derived_layer_data items (\<lambda>_ _. []) (\<lambda>_. True) (example_draft ''data_layer'' ''a'' ''clip'' (other_layer ''c'')) = Inr r \<and>
     ''c'' \<in> set (data_dependencies (Recipe r)) \<and> accessible items (\<lambda>_. True) ''c''"
proof -
  let ?items = "example_items(''c'' \<mapsto> example_layer)"
  let ?saved = "enrich_derived_layer_data ?items (\<lambda>_ _. []) (\<lambda>_. True) (example_draft ''data_layer'' ''a'' ''clip'' (other_layer ''c''))"
  have "case ?saved of Inr r \<Rightarrow> data_dependencies (Recipe r) = [''a'', ''c''] | Inl _ \<Rightarrow> False" by code_simp
  then obtain r where r: "?saved = Inr r" and d: "data_dependencies (Recipe r) = [''a'', ''c'']" by (cases ?saved) auto
  have "''c'' \<in> set (data_dependencies (Recipe r))" unfolding d by simp
  moreover from this have "accessible ?items (\<lambda>_. True) ''c''" using saved_recipe_authorised [OF r] by blast
  ultimately show ?thesis using r unfolding Let_def by blast
qed

text \<open>reading a derived layer asks only for the source it names and the layers its own steps name:
  users who agree on these get the same answer, whatever they may read further up the chain.\<close>

theorem read_gate_is_local:
  assumes "\<forall>j \<in> set (data_dependencies (it_data item)). \<forall>row. items j = Some row \<longrightarrow> readable row = readable' row"
  shows "read_derived_layer items date readable i item opts = read_derived_layer items date readable' i item opts"
proof (cases "source_id (it_data item)")
  case (Some sid)
  have sid: "sid \<in> set (data_dependencies (it_data item))"
    using Some by (cases "it_data item")
      (auto simp: source_id_def data_dependencies_def extract_dependencies_def Let_def split: if_splits)
  have acc: "accessible items readable dep = accessible items readable' dep" if "dep \<in> set (data_dependencies (it_data item))" for dep
    using assms that by (auto simp: accessible_def split: option.splits)
  have "readable row = readable' row" if "items sid = Some row" for row using assms sid that by blast
  then show ?thesis unfolding read_derived_layer_def Some option.case using acc by (auto split: option.split)
qed (simp add: read_derived_layer_def)

lemma example_ancestor: "ancestor example_items ''b'' ''a''"
  by (rule ancestor_up [where row = "derived_row ''b'' example_recipe", OF _ _ _ ancestor_self])
    (simp_all add: example_items_def derived_row_def example_recipe_def source_id_def)

theorem read_gate_is_local_witness:
  "let readable = (\<lambda>row. im_owner (it_item row) = ''u'') in
   \<not> accessible example_items readable ''a'' \<and> ancestor example_items ''b'' ''a'' \<and>
   is_query (read_derived_layer example_items (\<lambda>_. None) readable ''d'' (derived_row ''d'' example_upper) no_options)"
proof -
  let ?own = "\<lambda>row. im_owner (it_item row) = ''u''"
  let ?item = "derived_row ''d'' example_upper"
  have deps: "data_dependencies (it_data ?item) = [''b'']" by code_simp
  have "im_owner (it_item row) = ''u''" if "example_items ''b'' = Some row" for row
    using that by (auto simp: example_items_def derived_row_def example_item_def)
  then have "\<forall>j \<in> set (data_dependencies (it_data ?item)). \<forall>row. example_items j = Some row \<longrightarrow> True = ?own row"
    unfolding deps by simp
  from read_gate_is_local [OF this, of "\<lambda>_. None" "''d''" no_options]
  have "read_derived_layer example_items (\<lambda>_. None) ?own ''d'' ?item no_options =
      read_derived_layer example_items (\<lambda>_. None) (\<lambda>_. True) ''d'' ?item no_options"
    by (rule sym)
  moreover have "is_query (read_derived_layer example_items (\<lambda>_. None) (\<lambda>_. True) ''d'' ?item no_options)"
    by code_simp
  moreover have "\<not> accessible example_items ?own ''a''" by code_simp
  ultimately show ?thesis unfolding Let_def using example_ancestor by metis
qed

subsection \<open>What can be read\<close>

text \<open>A step that validates without the schema and gives a statement for every alias and offset.\<close>

definition step_reads :: "tool_step \<Rightarrow> bool" where
  "step_reads s \<longleftrightarrow> (\<exists>g p. step_params s = Inr (g, p) \<and> (\<forall>al off. \<exists>f. t_sql g al p off = Inr f))"

lemma saved_step_reads:
  assumes "saved_from table q raw s" and "ts_tool s \<notin> {''spatial-filter'', ''contour''}"
  shows "step_reads s"
proof -
  from assms(1) obtain g ctx v p where g: "get_generator (ts_tool s) = Inr g"
    and v: "t_validate g (field_of raw ''params'') (Some ctx) = Inr v" and p: "saved_params g v table q = Inr p"
    and s: "ts_params s = JObj 0 p" by (auto simp: saved_from_def)
  have reg: "g \<in> set REGISTRY" "t_kind g = ts_tool s" using get_generator_in [OF g] by simp_all
  then have "g \<noteq> spatial_filter_tool" "g \<noteq> contour_tool"
    using assms(2) by (auto simp: spatial_filter_tool_def contour_tool_def)
  then have st: "stored_tool g" using registry_stored reg(1) by blast
  have again: "t_validate g (JObj 0 p) None = Inr p" using stored_tool.enriched [OF st v p] .
  moreover have "\<forall>al off. \<exists>f. t_sql g al p off = Inr f" using stored_tool.runs [OF st again] by blast
  ultimately show ?thesis using g s by (auto simp: step_reads_def step_params_def)
qed

lemma layer_reach_reads: "\<forall>s \<in> set steps. step_reads s \<Longrightarrow> \<exists>x. layer_reach steps a = Inr x"
proof (induction steps arbitrary: a)
  case (Cons s steps)
  then obtain g p where "step_params s = Inr (g, p)" by (auto simp: step_reads_def)
  then show ?case using Cons by simp
qed simp

lemma pipeline_reads: "\<forall>s \<in> set steps. step_reads s \<Longrightarrow> \<exists>c'. pipeline_ctes prefix i steps c = Inr c'"
proof (induction prefix i steps c rule: pipeline_ctes.induct)
  case (2 prefix i s steps ctes al params)
  then obtain g p f where g: "step_params s = Inr (g, p)" and f: "t_sql g al p (length params) = Inr f"
    by (auto simp: step_reads_def) metis
  from 2(1) [OF g refl f] 2(2) show ?case by (simp add: g f)
qed (metis pipeline_ctes.simps(1))

text \<open>A chain of readable layers, with the ids of the derived layers above the first.\<close>

inductive chain_reads :: "items \<Rightarrow> recipe \<Rightarrow> string list \<Rightarrow> bool" for items where
  chain_leaf: "\<forall>s \<in> set (rc_pipeline r). step_reads s \<Longrightarrow> ls_kind (rc_source r) \<noteq> ''derived_layer'' \<Longrightarrow> chain_reads items r []"
| chain_up: "\<forall>s \<in> set (rc_pipeline r). step_reads s \<Longrightarrow> ls_kind (rc_source r) = ''derived_layer'' \<Longrightarrow>
    items (ls_item (rc_source r)) = Some row \<Longrightarrow> \<not> it_deleted row \<Longrightarrow> it_type row = ''derived_layer'' \<Longrightarrow>
    it_data row = Recipe pr \<Longrightarrow> chain_reads items pr ids \<Longrightarrow> chain_reads items r (ls_item (rc_source r) # ids)"

lemma chain_reads_unique: "chain_reads items r ids \<Longrightarrow> chain_reads items r ids' \<Longrightarrow> ids = ids'"
proof (induction arbitrary: ids' rule: chain_reads.induct)
  case (chain_leaf r)
  from chain_leaf(3,2) show ?case by (cases rule: chain_reads.cases) simp_all
next
  case (chain_up r row pr ids)
  from chain_up(9) chain_up(2,3,6) show ?case
    by (cases rule: chain_reads.cases) (auto dest: chain_up.IH)
qed

lemma chain_reads_suffix:
  "chain_reads items r ids \<Longrightarrow> k \<in> set ids \<Longrightarrow>
   \<exists>row pr rest. items k = Some row \<and> it_data row = Recipe pr \<and> chain_reads items pr rest \<and> length rest < length ids"
proof (induction rule: chain_reads.induct)
  case (chain_up r row pr ids)
  show ?case
  proof (cases "k = ls_item (rc_source r)")
    case True
    with chain_up(3,6,7) show ?thesis by auto
  next
    case False
    with chain_up(8,9) obtain row' pr' rest where "items k = Some row'" "it_data row' = Recipe pr'"
      "chain_reads items pr' rest" "length rest < length ids" by auto
    then show ?thesis by (intro exI [of _ row'] exI [of _ pr'] exI [of _ rest]) simp
  qed
qed simp

lemma chain_reads_distinct: "chain_reads items r ids \<Longrightarrow> distinct ids"
proof (induction rule: chain_reads.induct)
  case (chain_up r row pr ids)
  have "ls_item (rc_source r) \<notin> set ids"
  proof
    assume "ls_item (rc_source r) \<in> set ids"
    from chain_reads_suffix [OF chain_up(7) this] obtain rest where "chain_reads items pr rest" "length rest < length ids"
      using chain_up(3,6) by auto
    with chain_reads_unique [OF chain_up(7)] show False by auto
  qed
  with chain_up.IH show ?case by simp
qed simp

lemma chain_reads_new: "chain_reads items r ids \<Longrightarrow> items i = None \<Longrightarrow> chain_reads (items(i \<mapsto> row)) r ids"
proof (induction rule: chain_reads.induct)
  case (chain_up r row' pr ids)
  then show ?case by (intro chain_reads.chain_up [where row = row']) (auto split: if_splits)
qed (rule chain_reads.chain_leaf)

lemma compose_reads:
  "chain_reads items r ids \<Longrightarrow> depth + length ids \<le> MAX_CHAIN_DEPTH \<Longrightarrow> set ids \<inter> set visited = {} \<Longrightarrow>
   \<exists>c. compose_read_ctes items date opts r depth params visited = Inr c"
proof (induction arbitrary: depth params visited rule: chain_reads.induct)
  case (chain_leaf r)
  obtain x where "layer_reach (rc_pipeline r) (Fin 0) = Inr x" using layer_reach_reads chain_leaf(1) by blast
  moreover obtain c where "pipeline_ctes (depth_prefix depth) 0 (rc_pipeline r)
      (leaf_ctes items date opts (rc_source r) x (depth_prefix depth) params) = Inr c"
    using pipeline_reads chain_leaf(1) by blast
  ultimately show ?case using chain_leaf(2) by (cases c, subst compose_read_ctes.simps) (simp add: Let_def)
next
  case (chain_up r row pr ids)
  let ?k = "ls_item (rc_source r)"
  obtain x where x: "layer_reach (rc_pipeline r) (Fin 0) = Inr x" using layer_reach_reads chain_up(1) by blast
  have "distinct (?k # ids)" by (rule chain_reads_distinct [OF chain_reads.chain_up [OF chain_up(1-7)]])
  then have "set ids \<inter> set (?k # visited) = {}" using chain_up.prems(2) by auto
  moreover have "depth + 1 + length ids \<le> MAX_CHAIN_DEPTH" using chain_up.prems(1) by simp
  ultimately obtain c0 where c0: "compose_read_ctes items date opts pr (depth + 1) params (?k # visited) = Inr c0"
    using chain_up.IH by blast
  obtain c where c: "pipeline_ctes (depth_prefix depth) 0 (rc_pipeline r) c0 = Inr c"
    using pipeline_reads chain_up(1) by blast
  have "?k \<notin> set visited" "\<not> MAX_CHAIN_DEPTH < depth + 1" using chain_up.prems by auto
  then show ?case using x c0 c chain_up(2-6) by (cases c, subst compose_read_ctes.simps) (simp add: Let_def)
qed

text \<open>The source of a layer that is saved now can be read.\<close>

definition source_ready :: "items \<Rightarrow> item_row \<Rightarrow> bool" where
  "source_ready items src \<longleftrightarrow>
     (if it_type src = ''data_layer''
      then strict_eq (field_of (json_of (it_data src)) ''storageType'') (JStr ''postgis'')
      else \<exists>pr ids. it_data src = Recipe pr \<and> chain_reads items pr ids \<and> length ids < MAX_CHAIN_DEPTH)"

lemma saved_chain_reads:
  assumes steps: "\<forall>s \<in> set (rc_pipeline r). step_reads s" and s: "ls_item (rc_source r) = sid" "ls_kind (rc_source r) = it_type src"
    and src: "items sid = Some src" "\<not> it_deleted src" "source_ready items src" and new: "items i = None"
  shows "\<exists>ids. chain_reads (items(i \<mapsto> row)) r ids \<and> length ids \<le> MAX_CHAIN_DEPTH \<and> i \<notin> set ids"
proof (cases "it_type src = ''derived_layer''")
  case False
  then have "chain_reads (items(i \<mapsto> row)) r []" using chain_leaf [OF steps] s(2) by simp
  then show ?thesis by (intro exI [of _ "[]"]) simp
next
  case True
  then obtain pr ids where pr: "it_data src = Recipe pr" "chain_reads items pr ids" "length ids < MAX_CHAIN_DEPTH"
    using src(3) by (auto simp: source_ready_def)
  have at_source: "(items(i \<mapsto> row)) (ls_item (rc_source r)) = Some src" using src(1) new s(1) by auto
  have "ls_kind (rc_source r) = ''derived_layer''" using True s(2) by simp
  from chain_up [OF steps this at_source src(2) True pr(1) chain_reads_new [OF pr(2) new]]
  have "chain_reads (items(i \<mapsto> row)) r (sid # ids)" using s(1) by simp
  moreover have "i \<notin> set ids" using chain_reads_suffix [OF pr(2), of i] new by auto
  moreover have "i \<noteq> sid" using src(1) new by auto
  ultimately show ?thesis using pr(3) by (intro exI [of _ "sid # ids"]) simp
qed

text \<open>C21: a layer that was saved can be read: when its steps are of the tools other than spatial-filter and
  contour, and its source can be read, then a new item holding the recipe reads as a query, with any
  options. What the validators let through and the hooks rewrite passes the validators again without
  the schema of the source, every tool then writes its statement, and neither the cycle check nor
  the depth limit stops the chain.\<close>

theorem saved_recipe_reads:
  assumes saved: "validate_and_enrich items queryRaw rawData sid src = Inr r"
    and tools: "\<forall>s \<in> set (rc_pipeline r). ts_tool s \<notin> {''spatial-filter'', ''contour''}"
    and src: "items sid = Some src" "\<not> it_deleted src" "source_ready items src" and new: "items i = None"
  shows "\<exists>sql params. get_geo_json (items(i \<mapsto> row)) date i (Recipe r) (Some (sid, src)) opts = Inr (Query sql params)"
proof -
  let ?items = "items(i \<mapsto> row)"
  note s = saved_steps [OF saved]
  obtain table where l: "list_all2 (saved_from table queryRaw) (elems_of (field_of rawData ''pipeline'')) (rc_pipeline r)"
    using s(2) by blast
  have steps: "\<forall>st \<in> set (rc_pipeline r). step_reads st"
    using list_all2_source [OF l] saved_step_reads tools by blast
  have "\<exists>ids. chain_reads ?items r ids \<and> length ids \<le> MAX_CHAIN_DEPTH \<and> i \<notin> set ids"
    by (rule saved_chain_reads [OF steps s(3,4) src new])
  then obtain ids where "chain_reads ?items r ids" "length ids \<le> MAX_CHAIN_DEPTH" "i \<notin> set ids" by blast
  then obtain c where "compose_read_ctes ?items date opts r 0 [] [i] = Inr c" using compose_reads by force
  then show ?thesis
    using s(3,4) src(3)
    by (cases c) (simp add: get_geo_json_def source_ready_def final_query_def Let_def split: if_splits)
qed

lemma generator_found:
  "t \<in> set REGISTRY \<Longrightarrow> get_generator (t_kind t) = Inr t"
proof -
  assume t: "t \<in> set REGISTRY"
  have "distinct (map t_kind REGISTRY)" using registered_once by (simp add: registered_tools_def)
  then have "u = t" if "u \<in> set REGISTRY" "t_kind u = t_kind t" for u
    using t that by (auto simp: distinct_map inj_on_def)
  moreover obtain u where u: "find (\<lambda>u. t_kind u = t_kind t) REGISTRY = Some u"
    using t by (metis (mono_tags, lifting) find_None_iff option.exhaust)
  moreover have "u \<in> set REGISTRY" "t_kind u = t_kind t" using u by (auto simp: find_Some_iff)
  ultimately show ?thesis by (simp add: get_generator_def)
qed

lemma centroid_step_reads: "step_reads \<lparr> ts_tool = ''centroid'', ts_params = JObj 0 [] \<rparr>"
proof -
  have "centroid_tool \<in> set REGISTRY" by (simp add: REGISTRY_def)
  from generator_found [OF this] have "get_generator ''centroid'' = Inr centroid_tool" by (simp add: centroid_tool_def)
  then show ?thesis
    by (auto simp: step_reads_def step_params_def centroid_tool_def centroid_validate_def centroid_sql_def)
qed

theorem saved_recipe_reads_witness:
  "\<exists>r sql params. validate_and_enrich example_items (\<lambda>_ _. []) (example_draft ''derived_layer'' ''b'' ''buffer''
       (JObj 9 [(''distance'', JNum (Fin 5)), (''unit'', JStr ''feet'')])) ''b'' (derived_row ''b'' example_recipe) = Inr r \<and>
     get_geo_json (example_items(''d'' \<mapsto> derived_row ''d'' r)) (\<lambda>_. None) ''d'' (Recipe r)
       (Some (''b'', derived_row ''b'' example_recipe)) no_options = Inr (Query sql params)"
proof -
  let ?src = "derived_row ''b'' example_recipe"
  let ?saved = "validate_and_enrich example_items (\<lambda>_ _. []) (example_draft ''derived_layer'' ''b'' ''buffer''
       (JObj 9 [(''distance'', JNum (Fin 5)), (''unit'', JStr ''feet'')])) ''b'' ?src"
  have "case ?saved of Inr r \<Rightarrow> list_all (\<lambda>s. ts_tool s = ''buffer'') (rc_pipeline r) | Inl _ \<Rightarrow> False" by code_simp
  then obtain r where r: "?saved = Inr r" and t: "\<forall>s \<in> set (rc_pipeline r). ts_tool s = ''buffer''"
    by (cases ?saved) (auto simp: list_all_iff)
  have "chain_reads example_items example_recipe []"
    by (rule chain_leaf) (simp_all add: example_recipe_def centroid_step_reads)
  then have "source_ready example_items ?src"
    by (auto simp: source_ready_def derived_row_def MAX_CHAIN_DEPTH_def)
  then have "\<exists>sql params. get_geo_json (example_items(''d'' \<mapsto> derived_row ''d'' r)) (\<lambda>_. None) ''d'' (Recipe r)
      (Some (''b'', ?src)) no_options = Inr (Query sql params)"
    using saved_recipe_reads [OF r] t by (simp add: example_items_def derived_row_def example_item_def)
  with r show ?thesis by blast
qed

subsection \<open>What can never be read\<close>

text \<open>The steps the validators refuse once they are stored.\<close>

definition stuck_step :: "tool_step \<Rightarrow> bool" where
  "stuck_step s \<longleftrightarrow>
     (ts_tool s = ''spatial-filter'' \<and> field_of (ts_params s) ''predicate'' = JStr ''near'') \<or>
     (ts_tool s = ''contour'' \<and> elems_of (field_of (ts_params s) ''cachedLevels'') = [])"

lemma stuck_step_params:
  assumes "saved_from table q raw s" and "stuck_step s"
  shows "\<exists>e. step_params s = Inl e"
proof -
  from assms(1) obtain g ctx v p where g: "get_generator (ts_tool s) = Inr g"
    and v: "t_validate g (field_of raw ''params'') (Some ctx) = Inr v" and p: "saved_params g v table q = Inr p"
    and s: "ts_params s = JObj 0 p" by (auto simp: saved_from_def)
  have "\<exists>e. t_validate g (JObj 0 p) None = Inl e"
  proof (cases "ts_tool s = ''spatial-filter''")
    case True
    then have gt: "g = spatial_filter_tool"
      using generator_found [of spatial_filter_tool] g by (simp add: REGISTRY_def spatial_filter_tool_def)
    have "spatial_filter_validate (field_of raw ''params'') (Some ctx) = Inr p" "get p ''predicate'' = JStr ''near''"
      using v p s assms(2) True by (simp_all add: gt spatial_filter_tool_def saved_params_def stuck_step_def)
    with spatial_filter_again [OF this(1), of 0 None] show ?thesis by (simp add: gt spatial_filter_tool_def)
  next
    case False
    then have k: "ts_tool s = ''contour''" "elems_of (get p ''cachedLevels'') = []"
      using assms(2) s by (auto simp: stuck_step_def)
    then have gt: "g = contour_tool"
      using generator_found [of contour_tool] g by (simp add: REGISTRY_def contour_tool_def)
    have "contour_enrich v table q = Inr p" using p by (simp add: gt contour_tool_def saved_params_def)
    from contour_without_levels [OF this k(2), of 0 None] show ?thesis by (simp add: gt contour_tool_def)
  qed
  then show ?thesis by (auto simp: step_params_def g s)
qed

lemma layer_reach_stuck: "s \<in> set steps \<Longrightarrow> step_params s = Inl e \<Longrightarrow> \<exists>e'. layer_reach steps a = Inl e'"
proof (induction steps arbitrary: a)
  case (Cons t steps)
  show ?case
  proof (cases "step_params t")
    case (Inr gp)
    with Cons show ?thesis by (cases gp) auto
  qed simp
qed simp

text \<open>a saved layer with a spatial filter of the predicate \<open>near\<close>, or with contours whose levels came
  out empty, is accepted and stored and can then never be read, by anyone, whatever is stored
  around it: the filter reads its distance from \<open>distance\<close> and stores it as \<open>distanceMeters\<close>, and the
  contour validator refuses the empty list its own hook writes.\<close>

theorem stuck_recipe_never_reads:
  assumes "validate_and_enrich items queryRaw rawData sid src = Inr r" and "s \<in> set (rc_pipeline r)" and "stuck_step s"
  shows "\<not> is_query (get_geo_json items' date i (Recipe r) source opts)"
proof -
  obtain table where "list_all2 (saved_from table queryRaw) (elems_of (field_of rawData ''pipeline'')) (rc_pipeline r)"
    using saved_steps(2) [OF assms(1)] by blast
  from list_all2_source [OF this assms(2)] obtain e where "step_params s = Inl e" using stuck_step_params assms(3) by blast
  from layer_reach_stuck [OF assms(2) this] obtain e' where "layer_reach (rc_pipeline r) (Fin 0) = Inl e'" by blast
  then have "compose_read_ctes items' date opts r 0 [] [i] = Inl e'" by (subst compose_read_ctes.simps) simp
  then show ?thesis by (simp add: get_geo_json_def split: option.split prod.split)
qed

theorem stuck_recipe_never_reads_witness:
  "\<exists>r. enrich_derived_layer_data (example_items(''c'' \<mapsto> example_layer)) (\<lambda>_ _. []) (\<lambda>_. True)
      (example_draft ''data_layer'' ''a'' ''spatial-filter''
        (JObj 5 [(''otherSource'', JObj 6 [(''kind'', JStr ''data_layer''), (''itemId'', JStr ''c'')]),
                 (''predicate'', JStr ''near''), (''distance'', JNum (Fin 100))])) = Inr r \<and>
    \<not> is_query (get_geo_json (example_items(''c'' \<mapsto> example_layer)) (\<lambda>_. None) ''d'' (Recipe r) (Some (''a'', example_layer)) no_options)"
proof -
  let ?items = "example_items(''c'' \<mapsto> example_layer)"
  let ?raw = "example_draft ''data_layer'' ''a'' ''spatial-filter''
        (JObj 5 [(''otherSource'', JObj 6 [(''kind'', JStr ''data_layer''), (''itemId'', JStr ''c'')]),
                 (''predicate'', JStr ''near''), (''distance'', JNum (Fin 100))])"
  let ?saved = "validate_and_enrich ?items (\<lambda>_ _. []) ?raw ''a'' example_layer"
  have "case ?saved of Inr r \<Rightarrow> length (rc_pipeline r) = 1 \<and> stuck_step (hd (rc_pipeline r)) | Inl _ \<Rightarrow> False" by code_simp
  then obtain r s where r: "?saved = Inr r" "s \<in> set (rc_pipeline r)" "stuck_step s"
    by (cases ?saved) (fastforce simp: length_Suc_conv)+
  moreover have "enrich_derived_layer_data ?items (\<lambda>_ _. []) (\<lambda>_. True) ?raw = ?saved" by code_simp
  ultimately show ?thesis using stuck_recipe_never_reads [OF r] by metis
qed

end
