(* ===== verification/HtmlText.thy ===== *)
theory HtmlText
  imports Prelude
begin

text \<open>
  Text of \<open>shared-types/src/attribution-html.ts\<close>: code units, character references and their escapes,
  and the check of link targets (\<open>escapeHtml\<close>, \<open>decodeHtmlEntities\<close>, \<open>safeHttpUrl\<close>). Here a text is the
  list of its UTF-16 code units, since a reference may name any character; \<open>u\<close> gives the units of a
  literal of the source.

  \<open>toLowerCase\<close> is the mapping of ASCII letters: the code compares its results with ASCII words only,
  and no other character becomes a letter of \<open>href\<close>, \<open>http\<close> or \<open>https\<close>.
\<close>

type_synonym units = "int list"

definition u :: "string \<Rightarrow> units" where
  "u s = map of_char s"

definition lower_unit :: "int \<Rightarrow> int" where
  "lower_unit c = (if 65 \<le> c \<and> c \<le> 90 then c + 32 else c)"

definition lower :: "units \<Rightarrow> units" where
  "lower s = map lower_unit s"

definition unit_letter :: "int \<Rightarrow> bool" where
  "unit_letter c \<longleftrightarrow> (65 \<le> c \<and> c \<le> 90) \<or> (97 \<le> c \<and> c \<le> 122)"

definition unit_digit :: "int \<Rightarrow> bool" where
  "unit_digit c \<longleftrightarrow> 48 \<le> c \<and> c \<le> 57"

definition unit_hex :: "int \<Rightarrow> bool" where
  "unit_hex c \<longleftrightarrow> unit_digit c \<or> (65 \<le> c \<and> c \<le> 70) \<or> (97 \<le> c \<and> c \<le> 102)"

text \<open>The white space and line terminators \<open>trim\<close> removes.\<close>

definition unit_space :: "int \<Rightarrow> bool" where
  "unit_space c \<longleftrightarrow> (9 \<le> c \<and> c \<le> 13) \<or> (0x2000 \<le> c \<and> c \<le> 0x200a) \<or>
     c \<in> {32, 160, 0x1680, 0x2028, 0x2029, 0x202f, 0x205f, 0x3000, 0xfeff}"

definition trim_units :: "units \<Rightarrow> units" where
  "trim_units s = rev (dropWhile unit_space (rev (dropWhile unit_space s)))"

definition units_start :: "units \<Rightarrow> units \<Rightarrow> bool" where
  "units_start p s \<longleftrightarrow> take (length p) s = p"

subsection \<open>Escapes\<close>

definition HTML_ESCAPES :: "(int \<times> units) list" where
  "HTML_ESCAPES = [(38, u ''&amp;''), (60, u ''&lt;''), (62, u ''&gt;''), (34, u ''&quot;''), (39, u ''&#39;'')]"

definition escape_unit :: "int \<Rightarrow> units" where
  "escape_unit c = (case map_of HTML_ESCAPES c of None \<Rightarrow> [c] | Some e \<Rightarrow> e)"

definition escape_html :: "units \<Rightarrow> units" where
  "escape_html s = concat (map escape_unit s)"

subsection \<open>Character references\<close>

definition NAMED_ENTITIES :: "(units \<times> units) list" where
  "NAMED_ENTITIES =
     [(u ''amp'', [38]), (u ''lt'', [60]), (u ''gt'', [62]), (u ''quot'', [34]), (u ''apos'', [39]), (u ''nbsp'', [0xa0]),
      (u ''copy'', [0xa9]), (u ''reg'', [0xae]), (u ''trade'', [0x2122]), (u ''deg'', [0xb0]), (u ''middot'', [0xb7]),
      (u ''bull'', [0x2022]), (u ''hellip'', [0x2026]), (u ''ndash'', [0x2013]), (u ''mdash'', [0x2014]),
      (u ''lsquo'', [0x2018]), (u ''rsquo'', [0x2019]), (u ''ldquo'', [0x201c]), (u ''rdquo'', [0x201d]),
      (u ''laquo'', [0xab]), (u ''raquo'', [0xbb]), (u ''sect'', [0xa7]), (u ''para'', [0xb6]), (u ''dagger'', [0x2020]),
      (u ''permil'', [0x2030]), (u ''times'', [0xd7]), (u ''divide'', [0xf7]), (u ''euro'', [0x20ac]),
      (u ''pound'', [0xa3]), (u ''yen'', [0xa5]), (u ''cent'', [0xa2]), (u ''tab'', [9]), (u ''newline'', [10]),
      (u ''colon'', [58]), (u ''sol'', [47]), (u ''semi'', [59]), (u ''num'', [35]), (u ''percnt'', [37]), (u ''lpar'', [40]),
      (u ''rpar'', [41]), (u ''commat'', [64]), (u ''quest'', [63]), (u ''equals'', [61]), (u ''ast'', [42]), (u ''excl'', [33]),
      (u ''comma'', [44]), (u ''period'', [46]), (u ''dollar'', [36]), (u ''lowbar'', [95]), (u ''verbar'', [124]),
      (u ''grave'', [96]), (u ''plus'', [43])]"

text \<open>The table is a plain object: the word \<open>constructor\<close> finds the function \<open>Object\<close> it inherits, and
  the replacement is the text of that function.\<close>

definition named_entity :: "units \<Rightarrow> units option" where
  "named_entity k =
     (if k = u ''constructor'' then Some (u ''function Object() { [native code] }'') else map_of NAMED_ENTITIES k)"

definition unit_value :: "int \<Rightarrow> int" where
  "unit_value c = (if unit_digit c then c - 48 else if 97 \<le> c then c - 87 else c - 55)"

definition parse_int :: "int \<Rightarrow> units \<Rightarrow> int" where
  "parse_int base ds = foldl (\<lambda>acc c. acc * base + unit_value c) 0 ds"

text \<open>Characters beyond the first plane are a surrogate pair.\<close>

definition from_code_point :: "int \<Rightarrow> units" where
  "from_code_point code =
     (if code < 0x10000 then [code]
      else [0xd800 + (code - 0x10000) div 0x400, 0xdc00 + (code - 0x10000) mod 0x400])"

text \<open>What a reference stands for; one that names no character stays as it is.\<close>

definition decode_ref :: "units \<Rightarrow> units" where
  "decode_ref body =
     (let whole = 38 # body @ [59] in
      if units_start [35] body then
        let isHex = (\<exists>d \<in> {120, 88}. units_start [35, d] body);
            code = (if isHex then parse_int 16 (drop 2 body) else parse_int 10 (drop 1 body))
        in if code \<le> 0 \<or> 0x10ffff < code then whole
           else if 0xd800 \<le> code \<and> code \<le> 0xdfff then whole
           else from_code_point code
      else case named_entity (lower body) of None \<Rightarrow> whole | Some t \<Rightarrow> t)"

text \<open>\<open>ENTITY_PATTERN\<close> after its ampersand: the body of the reference and the text after the semicolon.\<close>

definition entity_body :: "units \<Rightarrow> units" where
  "entity_body s =
     (case s of
        [] \<Rightarrow> []
      | c # r \<Rightarrow>
          if c = 35 then
            (case r of
               [] \<Rightarrow> []
             | x # r' \<Rightarrow>
                 if x = 120 \<or> x = 88
                 then (let ds = takeWhile unit_hex r' in if ds = [] then [] else c # x # ds)
                 else (let ds = takeWhile unit_digit r in if ds = [] then [] else c # ds))
          else if unit_letter c then c # takeWhile (\<lambda>d. unit_letter d \<or> unit_digit d) r
          else [])"

definition entity_at :: "units \<Rightarrow> (units \<times> units) option" where
  "entity_at s =
     (let body = entity_body s in
      if body = [] then None
      else case drop (length body) s of
             c # rest \<Rightarrow> if c = 59 then Some (body, rest) else None
           | [] \<Rightarrow> None)"

lemma entity_at_shorter: "entity_at s = Some (b, r) \<Longrightarrow> length r < length s"
  by (auto simp: entity_at_def Let_def drop_eq_Nil2 split: list.splits if_splits dest!: arg_cong [where f = length])

function replace_entities :: "units \<Rightarrow> units" where
  "replace_entities [] = []"
| "replace_entities (c # r) =
     (if c = 38 then
        (case entity_at r of
           None \<Rightarrow> c # replace_entities r
         | Some (body, rest) \<Rightarrow> decode_ref body @ replace_entities rest)
      else c # replace_entities r)"
  by pat_completeness auto
termination
  by (relation "measure length") (auto dest: entity_at_shorter)

definition decode_html_entities :: "units \<Rightarrow> units" where
  "decode_html_entities value = (if 38 \<notin> set value then value else replace_entities value)"

subsection \<open>Link targets\<close>

definition url_control :: "int \<Rightarrow> bool" where
  "url_control c \<longleftrightarrow> c \<le> 0x1f \<or> c = 0x7f"

definition safe_http_url :: "units \<Rightarrow> units option" where
  "safe_http_url rawHref =
     (let normalized = trim_units (filter (\<lambda>c. \<not> url_control c) (decode_html_entities rawHref));
          lowered = lower normalized;
          scheme = (if units_start (u ''https://'') lowered then Some (u ''https://'')
                    else if units_start (u ''http://'') lowered then Some (u ''http://'') else None)
      in case scheme of
           None \<Rightarrow> None
         | Some sc \<Rightarrow> if length normalized = length sc then None else Some normalized)"

subsection \<open>Decoding undoes escaping\<close>

lemmas unit_class_defs = unit_letter_def unit_digit_def unit_hex_def

lemma escape_literals:
  "u ''&amp;'' = [38, 97, 109, 112, 59]" "u ''&lt;'' = [38, 108, 116, 59]" "u ''&gt;'' = [38, 103, 116, 59]"
  "u ''&quot;'' = [38, 113, 117, 111, 116, 59]" "u ''&#39;'' = [38, 35, 51, 57, 59]"
  by (simp_all add: u_def)

lemma escape_unit_cases:
  "escape_unit c =
     (if c = 38 then [38, 97, 109, 112, 59] else if c = 60 then [38, 108, 116, 59] else if c = 62 then [38, 103, 116, 59]
      else if c = 34 then [38, 113, 117, 111, 116, 59] else if c = 39 then [38, 35, 51, 57, 59] else [c])"
  by (simp add: escape_unit_def HTML_ESCAPES_def escape_literals)

lemma escape_Nil [simp]: "escape_html [] = []"
  by (simp add: escape_html_def)

lemma escape_Cons [simp]: "escape_html (c # s) = escape_unit c @ escape_html s"
  by (simp add: escape_html_def)

lemma escape_append [simp]: "escape_html (s @ t) = escape_html s @ escape_html t"
  by (simp add: escape_html_def)

lemma u_eq: "u s = u t \<longleftrightarrow> s = t"
  using inj_map_eq_map [of "of_char :: char \<Rightarrow> int" s t] by (simp add: u_def inj_on_def)

lemma named_escapes:
  "named_entity (u ''amp'') = Some [38]" "named_entity (u ''lt'') = Some [60]" "named_entity (u ''gt'') = Some [62]"
  "named_entity (u ''quot'') = Some [34]"
  by (simp_all add: named_entity_def NAMED_ENTITIES_def u_eq)

lemma lower_words:
  "lower [97, 109, 112] = u ''amp''" "lower [108, 116] = u ''lt''" "lower [103, 116] = u ''gt''"
  "lower [113, 117, 111, 116] = u ''quot''"
  by (simp_all add: lower_def lower_unit_def u_def)

lemma decode_escape_refs:
  "decode_ref [97, 109, 112] = [38]" "decode_ref [108, 116] = [60]" "decode_ref [103, 116] = [62]"
  "decode_ref [113, 117, 111, 116] = [34]" "decode_ref [35, 51, 57] = [39]"
  by (simp_all add: decode_ref_def Let_def units_start_def lower_words named_escapes parse_int_def unit_value_def
      unit_digit_def from_code_point_def)

lemma entity_at_escapes:
  "entity_at (97 # 109 # 112 # 59 # r) = Some ([97, 109, 112], r)"
  "entity_at (108 # 116 # 59 # r) = Some ([108, 116], r)"
  "entity_at (103 # 116 # 59 # r) = Some ([103, 116], r)"
  "entity_at (113 # 117 # 111 # 116 # 59 # r) = Some ([113, 117, 111, 116], r)"
  "entity_at (35 # 51 # 57 # 59 # r) = Some ([35, 51, 57], r)"
  by (simp_all add: entity_at_def entity_body_def unit_class_defs Let_def)

lemma replace_escape [simp]: "replace_entities (escape_html s) = s"
proof (induction s)
  case (Cons c s)
  have "replace_entities (escape_unit c @ escape_html s) = c # replace_entities (escape_html s)"
    by (cases "c \<in> {38, 60, 62, 34, 39}")
      (auto simp add: escape_unit_cases entity_at_escapes decode_escape_refs)
  then show ?case by (simp only: escape_Cons Cons)
qed simp

text \<open>Decoding what was escaped gives the text back.\<close>

lemma decode_escape [simp]: "decode_html_entities (escape_html s) = s"
proof (cases "38 \<in> set (escape_html s)")
  case False
  then have "escape_html s = s" by (induction s) (auto simp: escape_unit_cases split: if_splits)
  then show ?thesis using False by (simp add: decode_html_entities_def)
qed (simp add: decode_html_entities_def)

text \<open>Escaped text opens no tag and closes no attribute.\<close>

lemma escape_plain: "c \<in> set (escape_html s) \<Longrightarrow> c \<noteq> 60 \<and> c \<noteq> 62 \<and> c \<noteq> 34 \<and> c \<noteq> 39"
  by (induction s) (auto simp: escape_unit_cases split: if_splits)

subsection \<open>What the link check accepts\<close>

text \<open>The targets it yields: no control characters, no space around them, an absolute http URL with
  something after the scheme.\<close>

definition http_target :: "units \<Rightarrow> bool" where
  "http_target h \<longleftrightarrow> (\<forall>c \<in> set h. \<not> url_control c) \<and> trim_units h = h \<and>
     (\<exists>sc \<in> {u ''https://'', u ''http://''}. units_start sc (lower h) \<and> length sc < length h)"

lemma set_trim: "set (trim_units s) \<subseteq> set s"
  unfolding trim_units_def using set_dropWhileD by (metis set_rev subsetI)

lemma trim_units_idem [simp]: "trim_units (trim_units s) = trim_units s"
proof -
  let ?d = "dropWhile unit_space s" and ?t = "trim_units s"
  have r: "rev ?t = dropWhile unit_space (rev ?d)" by (simp add: trim_units_def)
  have "dropWhile unit_space ?t = ?t"
  proof (cases ?t)
    case (Cons c t)
    have "\<exists>p. rev ?d = p @ rev ?t" using r by (metis takeWhile_dropWhile_id)
    then obtain p where "rev ?d = p @ rev ?t" by blast
    then have "rev (rev ?d) = rev (p @ rev ?t)" by (rule arg_cong)
    then have "?d = ?t @ rev p" by simp
    then have "hd ?d = c" "?d \<noteq> []" using Cons by simp_all
    then have "\<not> unit_space c" using hd_dropWhile [of unit_space s] by simp
    then show ?thesis using Cons by simp
  qed simp
  moreover have "dropWhile unit_space (rev ?t) = rev ?t" unfolding r by (rule dropWhile_idem)
  ultimately show ?thesis by (simp add: trim_units_def [of ?t])
qed

lemma schemes: "u ''https://'' = [104, 116, 116, 112, 115, 58, 47, 47]" "u ''http://'' = [104, 116, 116, 112, 58, 47, 47]"
  by (simp_all add: u_def)

lemma units_start_length: "units_start p s \<Longrightarrow> length p \<le> length s"
  by (metis units_start_def length_take min.cobounded1 min.commute)

lemma units_start_nth: "units_start p s \<Longrightarrow> i < length p \<Longrightarrow> s ! i = p ! i"
  by (metis units_start_def nth_take)

lemma length_lower [simp]: "length (lower s) = length s"
  by (simp add: lower_def)

lemma safe_http_url_target: "safe_http_url raw = Some h \<Longrightarrow> http_target h"
proof -
  assume a: "safe_http_url raw = Some h"
  let ?n = "trim_units (filter (\<lambda>c. \<not> url_control c) (decode_html_entities raw))"
  have h: "h = ?n" and s: "\<exists>sc \<in> {u ''https://'', u ''http://''}. units_start sc (lower ?n) \<and> length ?n \<noteq> length sc"
    using a by (auto simp: safe_http_url_def Let_def split: if_splits)
  have "\<forall>c \<in> set ?n. \<not> url_control c" using set_trim by fastforce
  moreover from s obtain sc where sc: "sc \<in> {u ''https://'', u ''http://''}" "units_start sc (lower ?n)" "length ?n \<noteq> length sc"
    by blast
  moreover from units_start_length [OF sc(2)] sc(3) have "length sc < length ?n" unfolding length_lower by linarith
  ultimately show ?thesis unfolding http_target_def h trim_units_idem by blast
qed

text \<open>Checking an accepted target again, escaped as it is written, changes nothing.\<close>

lemma safe_http_url_again: "http_target h \<Longrightarrow> safe_http_url (escape_html h) = Some h"
proof -
  assume a: "http_target h"
  have f: "filter (\<lambda>c. \<not> url_control c) h = h" using a by (simp add: http_target_def)
  have e: False if "units_start (u ''https://'') (lower h)" "units_start (u ''http://'') (lower h)"
    using units_start_nth [OF that(1), of 4] units_start_nth [OF that(2), of 4] by (simp add: schemes)
  show ?thesis using a e f by (auto simp: safe_http_url_def http_target_def Let_def)
qed

end
