(* ===== verification/HtmlSanitize.thy ===== *)
theory HtmlSanitize
  imports HtmlText "HOL-Library.Sublist"
begin

text \<open>
  The sanitizer of \<open>shared-types/src/attribution-html.ts\<close>: the scanner of tags, the rendering of what is
  allowed, and \<open>sanitizeAttributionHtml\<close> and \<open>sanitizePopupHtml\<close>. The scanner walks the rest of the source
  where the code walks an index; the raw text of a tag is the part between two rests. The stack of
  open elements has the innermost first.
\<close>

subsection \<open>Profiles\<close>

record profile =
  pf_max :: nat
  pf_allowed :: "units list"
  pf_void :: "units list"

definition ALLOWED_ATTRIBUTION_TAGS :: "units list" where
  "ALLOWED_ATTRIBUTION_TAGS = map u [''a'', ''b'', ''strong'', ''em'', ''i'', ''span'']"

definition POPUP_HTML_TAGS :: "units list" where
  "POPUP_HTML_TAGS = ALLOWED_ATTRIBUTION_TAGS @ map u [''br'', ''p'', ''div'', ''ul'', ''ol'', ''li'', ''h1'', ''h2'', ''h3'']"

definition MAX_ATTRIBUTION_LENGTH :: nat where "MAX_ATTRIBUTION_LENGTH = 2000"

definition MAX_POPUP_HTML_LENGTH :: nat where "MAX_POPUP_HTML_LENGTH = 20000"

definition attribution_profile :: profile where
  "attribution_profile = \<lparr> pf_max = MAX_ATTRIBUTION_LENGTH, pf_allowed = ALLOWED_ATTRIBUTION_TAGS, pf_void = [] \<rparr>"

definition popup_profile :: profile where
  "popup_profile = \<lparr> pf_max = MAX_POPUP_HTML_LENGTH, pf_allowed = POPUP_HTML_TAGS, pf_void = [u ''br''] \<rparr>"

subsection \<open>Tokens\<close>

datatype html_token =
    Text_token units
  | Start_token units "(units \<times> units) list" units
  | End_token units units

definition html_space :: "int \<Rightarrow> bool" where
  "html_space c \<longleftrightarrow> c \<in> {32, 9, 10, 13, 12}"

definition tag_name_char :: "int \<Rightarrow> bool" where
  "tag_name_char c \<longleftrightarrow> unit_letter c \<or> unit_digit c \<or> c = 45"

definition attr_name_char :: "int \<Rightarrow> bool" where
  "attr_name_char c \<longleftrightarrow> \<not> html_space c \<and> c \<notin> {61, 62, 47, 34, 39}"

definition bare_value_char :: "int \<Rightarrow> bool" where
  "bare_value_char c \<longleftrightarrow> \<not> html_space c \<and> c \<noteq> 62"

text \<open>The value of an attribute and the rest, with the rest after its equals sign given.\<close>

definition read_value :: "units \<Rightarrow> (units \<times> units) option" where
  "read_value r =
     (let s = dropWhile html_space r in
      case s of
        q # t \<Rightarrow>
          if q = 34 \<or> q = 39
          then (if q \<in> set t then Some (takeWhile (\<lambda>c. c \<noteq> q) t, tl (dropWhile (\<lambda>c. c \<noteq> q) t)) else None)
          else Some (takeWhile bare_value_char s, dropWhile bare_value_char s)
      | [] \<Rightarrow> Some ([], []))"

lemma read_value_suffix: "read_value r = Some (v, r') \<Longrightarrow> suffix r' r"
proof -
  assume a: "read_value r = Some (v, r')"
  have s: "suffix (dropWhile html_space r) r" by (rule suffix_dropWhile)
  show ?thesis
  proof (cases "dropWhile html_space r")
    case (Cons q t)
    then have t: "suffix t r" using s suffix_ConsD by metis
    have "suffix r' t \<or> suffix r' (q # t)"
      using a Cons suffix_dropWhile [of bare_value_char "q # t"]
        suffix_order.trans [OF suffix_tl suffix_dropWhile, of "\<lambda>c. c \<noteq> q" t]
      by (auto simp: read_value_def Let_def split: if_splits)
    then show ?thesis using t s Cons suffix_order.trans by metis
  next
    case Nil
    with a show ?thesis by (simp add: read_value_def)
  qed
qed

text \<open>The attributes up to the end of the tag; of two with one name the first is kept.\<close>

definition add_attr :: "units \<Rightarrow> units \<Rightarrow> (units \<times> units) list \<Rightarrow> (units \<times> units) list" where
  "add_attr k v attrs = (if map_of attrs k = None then attrs @ [(k, v)] else attrs)"

function read_attrs :: "(units \<times> units) list \<Rightarrow> units \<Rightarrow> ((units \<times> units) list \<times> units) option" where
  "read_attrs attrs [] = None"
| "read_attrs attrs (c # r) =
     (if html_space c then read_attrs attrs r
      else if c = 62 then Some (attrs, r)
      else if c = 47 then read_attrs attrs r
      else if \<not> attr_name_char c then read_attrs attrs r
      else
        let name = lower (c # takeWhile attr_name_char r);
            after = dropWhile html_space (dropWhile attr_name_char r)
        in if units_start [61] after
           then (case read_value (tl after) of
                   None \<Rightarrow> None
                 | Some (v, rest) \<Rightarrow> read_attrs (add_attr name v attrs) rest)
           else read_attrs (add_attr name [] attrs) after)"
  by pat_completeness auto
termination
proof (relation "measure (length \<circ> snd)", goal_cases)
  case (5 attrs c r x xa y z xb)
  have "length (dropWhile html_space (dropWhile attr_name_char r)) \<le> length r"
    using le_trans [OF length_dropWhile_le length_dropWhile_le] .
  then show ?case using 5 by (auto dest!: read_value_suffix suffix_length_le)
next
  case (6 attrs c r x xa)
  have "length (dropWhile html_space (dropWhile attr_name_char r)) \<le> length r"
    using le_trans [OF length_dropWhile_le length_dropWhile_le] .
  then show ?case using 6 by auto
qed simp_all

lemma read_attrs_suffix: "read_attrs attrs s = Some (as, r) \<Longrightarrow> \<exists>c s'. s = c # s' \<and> suffix r s'"
proof (induction attrs s rule: read_attrs.induct)
  case (2 attrs c s)
  define after where "after = dropWhile html_space (dropWhile attr_name_char s)"
  have after: "suffix after s" unfolding after_def by (rule suffix_order.trans [OF suffix_dropWhile suffix_dropWhile])
  have val: "suffix rest s" if "read_value (tl after) = Some (v, rest)" for v rest
    using read_value_suffix [OF that] suffix_tl after suffix_order.trans by metis
  have step: "suffix r s" if "suffix t s" "\<exists>d t'. t = d # t' \<and> suffix r t'" for t
  proof -
    from that(2) obtain d t' where t: "t = d # t'" "suffix r t'" by blast
    from suffix_ConsI [OF t(2)] have "suffix r t" unfolding t(1) .
    then show ?thesis using that(1) by (rule suffix_order.trans)
  qed
  have "suffix r s"
  proof (cases "html_space c \<or> c \<noteq> 62 \<and> (c = 47 \<or> \<not> attr_name_char c)")
    case True
    then have r: "read_attrs attrs s = Some (as, r)" using 2(6) by (auto split: if_splits)
    have "\<exists>d t'. s = d # t' \<and> suffix r t'"
      using True 2(1) [OF _ r] 2(2) [OF _ _ _ r] 2(3) [OF _ _ _ _ r] by argo
    then show ?thesis by (rule step [OF suffix_order.refl])
  next
    case False
    show ?thesis
    proof (cases "c = 62")
      case True
      then show ?thesis using 2(6) False by simp
    next
      case c: False
      let ?nm = "lower (c # takeWhile attr_name_char s)"
      show ?thesis
      proof (cases "units_start [61] after")
        case True
        then obtain v rest where v: "read_value (tl after) = Some (v, rest)"
          and r: "read_attrs (add_attr ?nm v attrs) rest = Some (as, r)"
          using 2(6) False c by (auto simp: Let_def after_def [symmetric] split: option.splits)
        from 2(4) [OF _ c _ _ refl after_def True v [symmetric, THEN sym] refl r] False c
        have "\<exists>d t'. rest = d # t' \<and> suffix r t'" by simp
        then show ?thesis by (rule step [OF val [OF v]])
      next
        case n: False
        then have "read_attrs (add_attr ?nm [] attrs) after = Some (as, r)"
          using 2(6) False c by (simp add: Let_def after_def [symmetric])
        from 2(5) [OF _ c _ _ refl after_def n this] False c
        have "\<exists>d t'. after = d # t' \<and> suffix r t'" by simp
        then show ?thesis by (rule step [OF after])
      qed
    qed
  qed
  then show ?case by simp
qed simp

text \<open>A tag after its angle bracket, with its raw text, and the rest.\<close>

definition read_tag :: "units \<Rightarrow> (html_token \<times> units) option" where
  "read_tag r =
     (let isEnd = units_start [47] r; s = (if isEnd then tl r else r);
          raw = (\<lambda>rest. 60 # take (length r - length rest) r)
      in case s of
           [] \<Rightarrow> None
         | c # t \<Rightarrow>
             if \<not> unit_letter c then None
             else
               let name = lower (c # takeWhile tag_name_char t); after = dropWhile tag_name_char t
               in if isEnd
                  then (case dropWhile html_space after of
                          [] \<Rightarrow> None
                        | d # rest \<Rightarrow> if d = 62 then Some (End_token name (raw rest), rest) else None)
                  else (case read_attrs [] after of
                          None \<Rightarrow> None
                        | Some (attrs, rest) \<Rightarrow> Some (Start_token name attrs (raw rest), rest)))"

fun token_raw :: "html_token \<Rightarrow> units" where
  "token_raw (Text_token t) = t"
| "token_raw (Start_token _ _ raw) = raw"
| "token_raw (End_token _ raw) = raw"

lemma suffix_take: "suffix t r \<Longrightarrow> take (length r - length t) r @ t = r"
  by (auto simp: suffix_def)

lemma read_tag_suffix: "read_tag r = Some (tok, rest) \<Longrightarrow> strict_suffix rest r \<and> token_raw tok @ rest = 60 # r"
proof -
  assume a: "read_tag r = Some (tok, rest)"
  define s where "s = (if units_start [47] r then tl r else r)"
  have s: "suffix s r" by (simp add: s_def suffix_tl)
  obtain c t where ct: "s = c # t" using a by (auto simp: read_tag_def Let_def s_def [symmetric] split: list.splits)
  define after where "after = dropWhile tag_name_char t"
  have after: "suffix after t" unfolding after_def by (rule suffix_dropWhile)
  have "suffix rest after"
    using a ct suffix_dropWhile [of html_space after]
    by (auto simp: read_tag_def Let_def s_def [symmetric] after_def [symmetric] split: if_splits list.splits option.splits
        dest!: read_attrs_suffix intro: suffix_ConsI dest: suffix_ConsD)
  then have "suffix rest t" using after by (rule suffix_order.trans)
  then have "strict_suffix rest s" unfolding ct by (auto simp: strict_suffix_def suffix_ConsI dest: suffix_length_le)
  then have st: "strict_suffix rest r" using s suffix_order.less_le_trans by blast
  moreover have "token_raw tok = 60 # take (length r - length rest) r"
    using a by (auto simp: read_tag_def Let_def split: if_splits list.splits option.splits)
  ultimately show ?thesis using suffix_take [of rest r] suffix_order.less_imp_le by auto
qed

definition flush_text :: "units \<Rightarrow> html_token list" where
  "flush_text t = (if t \<noteq> [] then [Text_token t] else [])"

function html_tokens :: "units \<Rightarrow> units \<Rightarrow> html_token list" where
  "html_tokens buf [] = flush_text buf"
| "html_tokens buf (c # r) =
     (if c \<noteq> 60 then html_tokens (buf @ [c]) r
      else case read_tag r of
             None \<Rightarrow> html_tokens (buf @ [60]) r
           | Some (tok, rest) \<Rightarrow> flush_text buf @ tok # html_tokens [] rest)"
  by pat_completeness auto
termination
  by (relation "measure (length \<circ> snd)")
    (auto dest!: read_tag_suffix suffix_length_less)

text \<open>Every unit of the source is in a tag or in the text.\<close>

lemma tokens_cover: "concat (map token_raw (html_tokens buf s)) = buf @ s"
proof (induction buf s rule: html_tokens.induct)
  case (2 buf c r)
  have f: "concat (map token_raw (flush_text buf)) = buf" by (simp add: flush_text_def)
  show ?case using 2 f by (auto split: option.split dest!: read_tag_suffix)
qed (simp add: flush_text_def)

subsection \<open>Rendering\<close>

definition open_tag :: "units \<Rightarrow> units" where
  "open_tag name = [60] @ name @ [62]"

definition close_tag :: "units \<Rightarrow> units" where
  "close_tag name = [60, 47] @ name @ [62]"

definition anchor_tag :: "units \<Rightarrow> units" where
  "anchor_tag safe = u ''<a href=\"'' @ escape_html safe @ u ''\" target=\"_blank\" rel=\"noopener noreferrer\">''"

definition render_start_tag :: "units \<Rightarrow> (units \<times> units) list \<Rightarrow> units list \<Rightarrow> units option" where
  "render_start_tag name attrs allowed =
     (if name \<notin> set allowed then None
      else if name = u ''br'' then Some (u ''<br>'')
      else if name \<noteq> u ''a'' then Some (open_tag name)
      else case map_of attrs (u ''href'') of
             None \<Rightarrow> None
           | Some href \<Rightarrow> (case safe_http_url href of None \<Rightarrow> None | Some safe \<Rightarrow> Some (anchor_tag safe)))"

definition close_tags :: "units list \<Rightarrow> units" where
  "close_tags names = concat (map close_tag names)"

definition as_text :: "units \<Rightarrow> units" where
  "as_text t = escape_html (decode_html_entities t)"

fun emit_html :: "profile \<Rightarrow> html_token list \<Rightarrow> units list \<Rightarrow> units" where
  "emit_html p [] opened = close_tags opened"
| "emit_html p (Text_token t # ts) opened = as_text t @ emit_html p ts opened"
| "emit_html p (Start_token name attrs raw # ts) opened =
     (case render_start_tag name attrs (pf_allowed p) of
        None \<Rightarrow> as_text raw @ emit_html p ts opened
      | Some rendered \<Rightarrow> rendered @ emit_html p ts (if name \<in> set (pf_void p) then opened else name # opened))"
| "emit_html p (End_token name raw # ts) opened =
     (if name \<notin> set opened then as_text raw @ emit_html p ts opened
      else close_tags (takeWhile (\<lambda>n. n \<noteq> name) opened @ [name]) @
           emit_html p ts (tl (dropWhile (\<lambda>n. n \<noteq> name) opened)))"

text \<open>\<open>None\<close> stands for an input that is not a string.\<close>

definition sanitize_html :: "units option \<Rightarrow> profile \<Rightarrow> units" where
  "sanitize_html input p =
     (case input of
        None \<Rightarrow> []
      | Some s \<Rightarrow> if s = [] then [] else emit_html p (html_tokens [] (take (pf_max p) s)) [])"

definition sanitize_attribution_html :: "units option \<Rightarrow> units" where
  "sanitize_attribution_html input = sanitize_html input attribution_profile"

definition sanitize_popup_html :: "units option \<Rightarrow> units" where
  "sanitize_popup_html input = sanitize_html input popup_profile"

subsection \<open>The grammar of clean html\<close>

text \<open>A clean fragment is a sequence of escaped texts and of tags of the profile, in balance; a link has
  an accepted target and nothing else of the author's.\<close>

datatype html_piece = Escaped units | Opened units "units option" | Closed units

fun piece_units :: "html_piece \<Rightarrow> units" where
  "piece_units (Escaped t) = escape_html t"
| "piece_units (Opened n None) = open_tag n"
| "piece_units (Opened n (Some h)) = anchor_tag h"
| "piece_units (Closed n) = close_tag n"

fun piece_allowed :: "units list \<Rightarrow> html_piece \<Rightarrow> bool" where
  "piece_allowed allowed (Opened n None) \<longleftrightarrow> n \<in> set allowed \<and> n \<noteq> u ''a''"
| "piece_allowed allowed (Opened n (Some h)) \<longleftrightarrow> n \<in> set allowed \<and> n = u ''a'' \<and> http_target h"
| "piece_allowed allowed _ = True"

fun balanced :: "units list \<Rightarrow> html_piece list \<Rightarrow> units list \<Rightarrow> bool" where
  "balanced voids [] opened \<longleftrightarrow> opened = []"
| "balanced voids (Escaped t # ps) opened \<longleftrightarrow> balanced voids ps opened"
| "balanced voids (Opened n h # ps) opened \<longleftrightarrow> balanced voids ps (if n \<in> set voids then opened else n # opened)"
| "balanced voids (Closed n # ps) opened \<longleftrightarrow> opened \<noteq> [] \<and> hd opened = n \<and> balanced voids ps (tl opened)"

definition clean :: "profile \<Rightarrow> units list \<Rightarrow> units \<Rightarrow> bool" where
  "clean p opened out \<longleftrightarrow>
     (\<exists>ps. out = concat (map piece_units ps) \<and> list_all (piece_allowed (pf_allowed p)) ps \<and> balanced (pf_void p) ps opened)"

lemma clean_Nil: "clean p [] []"
  unfolding clean_def by (rule exI [of _ "[]"]) simp

lemma clean_text: "clean p opened out \<Longrightarrow> clean p opened (as_text t @ out)"
proof -
  assume "clean p opened out"
  then obtain ps where "out = concat (map piece_units ps)" "list_all (piece_allowed (pf_allowed p)) ps"
    "balanced (pf_void p) ps opened" by (auto simp: clean_def)
  then show ?thesis
    unfolding clean_def by (intro exI [of _ "Escaped (decode_html_entities t) # ps"]) (simp add: as_text_def)
qed

lemma clean_close: "clean p opened out \<Longrightarrow> clean p (names @ opened) (close_tags names @ out)"
proof (induction names)
  case (Cons n names)
  then obtain ps where "close_tags names @ out = concat (map piece_units ps)"
    "list_all (piece_allowed (pf_allowed p)) ps" "balanced (pf_void p) ps (names @ opened)" by (auto simp: clean_def)
  then show ?case
    unfolding clean_def by (intro exI [of _ "Closed n # ps"]) (simp add: close_tags_def)
qed (simp add: close_tags_def)

lemma clean_open:
  assumes "render_start_tag n attrs (pf_allowed p) = Some r" and "clean p (if n \<in> set (pf_void p) then opened else n # opened) out"
  shows "clean p opened (r @ out)"
proof -
  have "u ''<br>'' = open_tag (u ''br'')" by (simp add: u_def open_tag_def)
  then obtain h where h: "r = piece_units (Opened n h)" "piece_allowed (pf_allowed p) (Opened n h)"
    using assms(1) safe_http_url_target
    by (fastforce simp: render_start_tag_def u_eq split: if_splits option.splits intro: that [of None] that [of "Some _"])
  from assms(2) obtain ps where "out = concat (map piece_units ps)" "list_all (piece_allowed (pf_allowed p)) ps"
    "balanced (pf_void p) ps (if n \<in> set (pf_void p) then opened else n # opened)" by (auto simp: clean_def)
  with h show ?thesis unfolding clean_def by (intro exI [of _ "Opened n h # ps"]) simp
qed

lemma split_at_name: "n \<in> set xs \<Longrightarrow> (takeWhile (\<lambda>m. m \<noteq> n) xs @ [n]) @ tl (dropWhile (\<lambda>m. m \<noteq> n) xs) = xs"
  by (induction xs) auto

lemma emit_clean: "clean p opened (emit_html p ts opened)"
proof (induction p ts opened rule: emit_html.induct)
  case (1 p opened)
  from clean_close [OF clean_Nil, of p opened] show ?case by simp
next
  case (2 p t ts opened)
  then show ?case by (simp add: clean_text)
next
  case (3 p n attrs raw ts opened)
  then show ?case by (auto simp: clean_text clean_open split: option.split)
next
  case (4 p n raw ts opened)
  show ?case
  proof (cases "n \<in> set opened")
    case True
    from clean_close [OF 4(2) [OF _ ], of "takeWhile (\<lambda>m. m \<noteq> n) opened @ [n]"] True show ?thesis
      by (simp only: split_at_name emit_html.simps) simp
  next
    case False
    then show ?thesis using 4(1) by (simp add: clean_text)
  qed
qed


subsection \<open>Cleaning what is clean\<close>

text \<open>The names of the profiles, as the scanner reads them.\<close>

definition tag_word :: "units \<Rightarrow> bool" where
  "tag_word n \<longleftrightarrow> n \<noteq> [] \<and> unit_letter (hd n) \<and> list_all (\<lambda>c. tag_name_char c \<and> lower_unit c = c) n"

lemma profile_words: "list_all tag_word POPUP_HTML_TAGS" "list_all tag_word ALLOWED_ATTRIBUTION_TAGS"
  by (simp_all add: POPUP_HTML_TAGS_def ALLOWED_ATTRIBUTION_TAGS_def tag_word_def u_def tag_name_char_def
      unit_class_defs lower_unit_def)

lemma tag_word_split:
  assumes "tag_word n"
  shows "\<exists>c t. n = c # t \<and> unit_letter c \<and> lower (c # t) = n \<and> takeWhile tag_name_char (t @ 62 # r) = t \<and>
    dropWhile tag_name_char (t @ 62 # r) = 62 # r"
proof -
  obtain c t where n: "n = c # t" using assms by (cases n) (auto simp: tag_word_def)
  have s: "\<not> tag_name_char 62" by (simp add: tag_name_char_def unit_class_defs)
  have t: "\<forall>x \<in> set t. tag_name_char x" using assms by (simp add: tag_word_def n list_all_iff)
  have "lower n = n" using assms by (simp add: tag_word_def n list_all_iff lower_def map_idI)
  then show ?thesis using assms n s t by (simp add: tag_word_def takeWhile_append dropWhile_append)
qed

lemma read_open: "tag_word n \<Longrightarrow> \<exists>raw. read_tag (n @ 62 # r) = Some (Start_token n [] raw, r)"
proof -
  assume n: "tag_word n"
  from tag_word_split [OF n, of r] obtain c t where s: "n = c # t" "unit_letter c" "lower (c # t) = n"
    "takeWhile tag_name_char (t @ 62 # r) = t" "dropWhile tag_name_char (t @ 62 # r) = 62 # r" by blast
  have "c \<noteq> 47" using s(2) by (auto simp: unit_class_defs)
  moreover have "\<not> html_space 62" by (simp add: html_space_def)
  ultimately show ?thesis using s by (auto simp: read_tag_def Let_def units_start_def)
qed

lemma read_close: "tag_word n \<Longrightarrow> \<exists>raw. read_tag (47 # n @ 62 # r) = Some (End_token n raw, r)"
proof -
  assume n: "tag_word n"
  from tag_word_split [OF n, of r] obtain c t where s: "n = c # t" "unit_letter c" "lower (c # t) = n"
    "takeWhile tag_name_char (t @ 62 # r) = t" "dropWhile tag_name_char (t @ 62 # r) = 62 # r" by blast
  have "\<not> html_space 62" by (simp add: html_space_def)
  then show ?thesis using s by (auto simp: read_tag_def Let_def units_start_def)
qed

text \<open>An attribute with a quoted value.\<close>

lemma read_attr:
  assumes "nm \<noteq> []" and "list_all (\<lambda>c. attr_name_char c \<and> lower_unit c = c) nm" and "34 \<notin> set v"
  shows "read_attrs as (32 # nm @ [61, 34] @ v @ 34 # r) = read_attrs (add_attr nm v as) r"
proof -
  obtain c t where n: "nm = c # t" using assms(1) by (cases nm) auto
  have c: "\<not> html_space c" "c \<noteq> 62" "c \<noteq> 47" "attr_name_char c" using assms(2) by (simp_all add: n attr_name_char_def)
  have t: "\<forall>x \<in> set t. attr_name_char x" "\<not> attr_name_char 61"
    using assms(2) by (simp_all add: n list_all_iff attr_name_char_def)
  have l: "lower (c # t) = c # t" using assms(2) by (simp add: n list_all_iff lower_def map_idI)
  have sp: "html_space 32" "\<not> html_space 61" "\<not> html_space 34" by (simp_all add: html_space_def)
  have v: "read_value (34 # v @ 34 # r) = Some (v, r)"
    using assms(3) sp by (simp add: read_value_def takeWhile_append dropWhile_append split: if_splits)
  show ?thesis
    using c t l sp v by (simp add: n units_start_def takeWhile_append dropWhile_append)
qed

lemma anchor_literals:
  "u ''<a href=\"'' = [60, 97] @ 32 # u ''href'' @ [61, 34]"
  "u ''\" target=\"_blank\" rel=\"noopener noreferrer\">'' =
     34 # (32 # u ''target'' @ [61, 34] @ u ''_blank'' @ [34]) @ (32 # u ''rel'' @ [61, 34] @ u ''noopener noreferrer'' @ [34]) @ [62]"
  by (simp_all add: u_def)

lemma attr_words:
  "list_all (\<lambda>c. attr_name_char c \<and> lower_unit c = c) (u ''href'')" "u ''href'' \<noteq> []"
  "list_all (\<lambda>c. attr_name_char c \<and> lower_unit c = c) (u ''target'')" "u ''target'' \<noteq> []"
  "list_all (\<lambda>c. attr_name_char c \<and> lower_unit c = c) (u ''rel'')" "u ''rel'' \<noteq> []"
  "34 \<notin> set (u ''_blank'')" "34 \<notin> set (u ''noopener noreferrer'')"
  by (simp_all add: u_def attr_name_char_def html_space_def lower_unit_def)

lemma read_anchor:
  "\<exists>attrs raw. read_tag (tl (anchor_tag h) @ r) = Some (Start_token (u ''a'') attrs raw, r) \<and>
     map_of attrs (u ''href'') = Some (escape_html h)"
proof -
  let ?rest = "32 # u ''href'' @ [61, 34] @ escape_html h @ 34 #
    (32 # u ''target'' @ [61, 34] @ u ''_blank'' @ 34 # (32 # u ''rel'' @ [61, 34] @ u ''noopener noreferrer'' @ 34 # (62 # r)))"
  let ?attrs = "add_attr (u ''rel'') (u ''noopener noreferrer'')
    (add_attr (u ''target'') (u ''_blank'') (add_attr (u ''href'') (escape_html h) []))"
  have q: "34 \<notin> set (escape_html h)" using escape_plain by blast
  have e: "read_attrs as (62 # r) = Some (as, r)" for as by (simp add: html_space_def)
  have attrs: "read_attrs [] ?rest = Some (?attrs, r)"
    by (simp only: read_attr [OF attr_words(2,1) q] read_attr [OF attr_words(4,3,7)] read_attr [OF attr_words(6,5,8)] e)
  have tl: "tl (anchor_tag h) @ r = 97 # ?rest"
    by (simp only: anchor_tag_def anchor_literals append.simps append_assoc list.sel)
  have "lower [97] = u ''a''" by (simp add: lower_def lower_unit_def u_def)
  moreover have "unit_letter 97" "\<not> tag_name_char 32" by (simp_all add: unit_class_defs tag_name_char_def)
  ultimately have "\<exists>raw. read_tag (97 # ?rest) = Some (Start_token (u ''a'') ?attrs raw, r)"
    using attrs unfolding read_tag_def Let_def by (simp add: units_start_def)
  moreover have "map_of ?attrs (u ''href'') = Some (escape_html h)" by (simp add: add_attr_def u_eq)
  ultimately show ?thesis unfolding tl by blast
qed

lemma tokens_text: "60 \<notin> set s \<Longrightarrow> html_tokens buf (s @ r) = html_tokens (buf @ s) r"
  by (induction s arbitrary: buf) auto

lemma emit_flush: "emit_html p (flush_text (escape_html w) @ ts) opened = escape_html w @ emit_html p ts opened"
  by (simp add: flush_text_def as_text_def)

lemma br_open: "u ''<br>'' = open_tag (u ''br'')"
  by (simp add: u_def open_tag_def)

lemma emit_again:
  assumes "list_all tag_word (pf_allowed p)"
  shows "list_all (piece_allowed (pf_allowed p)) ps \<Longrightarrow> balanced (pf_void p) ps opened \<Longrightarrow>
    list_all tag_word opened \<Longrightarrow>
    emit_html p (html_tokens (escape_html w) (concat (map piece_units ps))) opened = escape_html w @ concat (map piece_units ps)"
proof (induction ps arbitrary: opened w)
  case Nil
  then show ?case using emit_flush [of p w "[]"] by (simp add: close_tags_def)
next
  case (Cons x ps)
  show ?case
  proof (cases x)
    case (Escaped t)
    have "60 \<notin> set (escape_html t)" using escape_plain by blast
    from tokens_text [OF this] Cons.IH [of opened "w @ t"] Cons.prems Escaped show ?thesis by simp
  next
    case (Closed n)
    with Cons.prems obtain rest where o: "opened = n # rest" "tag_word n" "list_all tag_word rest" "balanced (pf_void p) ps rest"
      by (cases opened) auto
    obtain raw where "read_tag (47 # n @ 62 # concat (map piece_units ps)) = Some (End_token n raw, concat (map piece_units ps))"
      using read_close [OF o(2)] by blast
    then show ?thesis using Cons.IH [of rest "[]"] Cons.prems o
      by (simp add: Closed close_tag_def close_tags_def emit_flush)
  next
    case (Opened n h)
    let ?out = "concat (map piece_units ps)"
    have n: "n \<in> set (pf_allowed p)" "tag_word n"
      using Cons.prems(1) assms by (cases h; auto simp: Opened list_all_iff)+
    obtain attrs raw where t: "read_tag (tl (piece_units x) @ ?out) = Some (Start_token n attrs raw, ?out)"
      and r: "render_start_tag n attrs (pf_allowed p) = Some (piece_units x)"
      and hd: "piece_units x = 60 # tl (piece_units x)"
    proof (cases h)
      case None
      then have "render_start_tag n [] (pf_allowed p) = Some (open_tag n)"
        using Cons.prems(1) n by (simp add: Opened render_start_tag_def br_open)
      then show ?thesis using read_open [OF n(2), of ?out] that None Opened by (auto simp: open_tag_def)
    next
      case (Some t)
      then have "n = u ''a''" "http_target t" using Cons.prems(1) by (simp_all add: Opened)
      moreover have "anchor_tag t = 60 # tl (anchor_tag t)" by (simp add: anchor_tag_def anchor_literals)
      ultimately show ?thesis
        using read_anchor [of t ?out] that n(1) safe_http_url_again [of t] Some Opened
        by (auto simp: render_start_tag_def u_eq)
    qed
    let ?opened = "if n \<in> set (pf_void p) then opened else n # opened"
    have "emit_html p (html_tokens [] ?out) ?opened = ?out"
      using Cons.IH [of ?opened "[]"] Cons.prems n by (simp add: Opened)
    moreover have "html_tokens (escape_html w) (piece_units x @ ?out) =
        flush_text (escape_html w) @ Start_token n attrs raw # html_tokens [] ?out"
      using t by (subst hd) simp
    ultimately show ?thesis using r by (simp add: emit_flush)
  qed
qed

lemma sanitize_again:
  assumes "list_all tag_word (pf_allowed p)" and "length (sanitize_html input p) \<le> pf_max p"
  shows "sanitize_html (Some (sanitize_html input p)) p = sanitize_html input p"
proof -
  let ?out = "sanitize_html input p"
  have "clean p [] ?out"
    using emit_clean [of p "[]"] clean_Nil [of p] by (auto simp: sanitize_html_def split: option.split)
  then obtain ps where ps: "?out = concat (map piece_units ps)" "list_all (piece_allowed (pf_allowed p)) ps"
    "balanced (pf_void p) ps []" by (auto simp: clean_def)
  have "emit_html p (html_tokens [] ?out) [] = ?out"
    using emit_again [OF assms(1) ps(2,3), of "[]"] by (simp add: ps(1))
  then show ?thesis using assms(2) by (simp add: sanitize_html_def [of "Some ?out"])
qed

text \<open>C31: cleaning twice is cleaning once, as long as the clean text is within the length limit.\<close>

theorem sanitize_idempotent:
  "(length (sanitize_attribution_html input) \<le> MAX_ATTRIBUTION_LENGTH \<longrightarrow>
      sanitize_attribution_html (Some (sanitize_attribution_html input)) = sanitize_attribution_html input) \<and>
   (length (sanitize_popup_html input) \<le> MAX_POPUP_HTML_LENGTH \<longrightarrow>
      sanitize_popup_html (Some (sanitize_popup_html input)) = sanitize_popup_html input)"
  using sanitize_again [of attribution_profile input] sanitize_again [of popup_profile input] profile_words
  by (simp add: sanitize_attribution_html_def sanitize_popup_html_def attribution_profile_def popup_profile_def)

theorem sanitize_idempotent_witness:
  "let once = u ''<a href=\"http://x.org?a&amp;b\" target=\"_blank\" rel=\"noopener noreferrer\">&lt;X</a>'' in
   sanitize_attribution_html (Some (u ''<a href=http://x.org?a&b>&lt;X'')) = once \<and>
   sanitize_attribution_html (Some once) = once"
proof -
  let ?in = "Some (u ''<a href=http://x.org?a&b>&lt;X'')"
  let ?once = "u ''<a href=\"http://x.org?a&amp;b\" target=\"_blank\" rel=\"noopener noreferrer\">&lt;X</a>''"
  have "sanitize_attribution_html ?in = ?once" by code_simp
  moreover have "length ?once \<le> MAX_ATTRIBUTION_LENGTH" by code_simp
  ultimately show ?thesis using sanitize_idempotent [of ?in] by (simp add: Let_def)
qed

text \<open>Escaping makes the text longer than the limit, and the next pass cuts it.\<close>

lemma plain_pass:
  "60 \<notin> set s \<Longrightarrow> sanitize_html (Some s) p = as_text (take (pf_max p) s)"
proof (cases "take (pf_max p) s = []")
  case False
  assume "60 \<notin> set s"
  then have "60 \<notin> set (take (pf_max p) s)" by (meson in_set_takeD)
  from tokens_text [OF this, of "[]" "[]"] False show ?thesis
    by (auto simp: sanitize_html_def flush_text_def close_tags_def)
qed (auto simp: sanitize_html_def as_text_def decode_html_entities_def close_tags_def flush_text_def)

text \<open>A reference to the inherited property becomes the text of a function.\<close>

lemma inherited_entity: "sanitize_popup_html (Some (u ''&constructor;'')) = u ''function Object() { [native code] }''"
proof -
  have "lower (u ''constructor'') = u ''constructor''" "\<not> units_start [35] (u ''constructor'')"
    by (simp_all add: u_def lower_def lower_unit_def units_start_def)
  then have "decode_ref (u ''constructor'') = u ''function Object() { [native code] }''"
    by (simp add: decode_ref_def named_entity_def Let_def)
  moreover have "entity_at (u ''constructor;'') = Some (u ''constructor'', [])"
    by (simp add: u_def entity_at_def entity_body_def unit_class_defs Let_def)
  moreover have "u ''&constructor;'' = 38 # u ''constructor;''" by (simp add: u_def)
  moreover have "escape_html (u ''function Object() { [native code] }'') = u ''function Object() { [native code] }''"
    by (simp add: u_def escape_unit_cases)
  moreover have "60 \<notin> set (u ''&constructor;'')" "length (u ''&constructor;'') \<le> pf_max popup_profile"
    by (simp_all add: u_def popup_profile_def MAX_POPUP_HTML_LENGTH_def)
  ultimately show ?thesis
    using plain_pass [of "u ''&constructor;''" popup_profile]
    by (simp add: sanitize_popup_html_def as_text_def decode_html_entities_def)
qed

lemma replace_amps: "replace_entities (replicate n 38) = replicate n 38"
proof (induction n)
  case (Suc n)
  have "entity_at (replicate n 38) = None"
    by (cases n) (simp_all add: entity_at_def entity_body_def unit_class_defs)
  with Suc show ?case by simp
qed simp

lemma take_amps: "take (5 * n) (escape_html (replicate (n + m) 38)) = escape_html (replicate n 38)"
proof -
  have "length (escape_html (replicate n 38)) = 5 * n" by (induction n) (simp_all add: escape_unit_cases)
  then show ?thesis by (simp add: replicate_add)
qed

text \<open>Two thousand ampersands are a clean attribution of ten thousand characters; saving or showing
  it again leaves four hundred of them.\<close>

theorem resanitizing_truncates:
  "let once = sanitize_attribution_html (Some (replicate 2000 38)) in
   once = escape_html (replicate 2000 38) \<and> sanitize_attribution_html (Some once) = escape_html (replicate 400 38)"
proof -
  have "(5 * 400 :: nat) = 2000" "(400 + 1600 :: nat) = 2000" by simp_all
  with take_amps [of 400 1600] have cut: "take 2000 (escape_html (replicate 2000 38)) = escape_html (replicate 400 38)"
    by (simp only:)
  have p: "60 \<notin> set (replicate 2000 (38 :: int))" "60 \<notin> set (escape_html (replicate 2000 38))"
    using escape_plain by auto
  have m: "pf_max attribution_profile = 2000" by (simp add: attribution_profile_def MAX_ATTRIBUTION_LENGTH_def)
  have once: "sanitize_attribution_html (Some (replicate 2000 38)) = escape_html (replicate 2000 38)"
    using plain_pass [OF p(1), of attribution_profile] replace_amps [of 2000]
    by (simp add: sanitize_attribution_html_def m as_text_def decode_html_entities_def)
  moreover have "sanitize_attribution_html (Some (escape_html (replicate 2000 38))) = escape_html (replicate 400 38)"
    using plain_pass [OF p(2), of attribution_profile] by (simp add: sanitize_attribution_html_def m cut as_text_def)
  ultimately show ?thesis by (simp add: Let_def)
qed

end
