(* ===== verification/FilterMatch.thy ===== *)
theory FilterMatch
  imports GeometryGuard
begin

text \<open>
  Filters on attributes: \<open>matchesFilter\<close> of \<open>shared-types/src/filter-match.ts\<close> on a row in memory, and
  \<open>compileAttrFilter\<close> of \<open>portal-api/src/engine/data-layer.ts\<close>, which puts the same filter to the database.
  A condition of the database is a tree with one node per template of the code; what the nodes mean is
  stated as a law. Patterns of \<open>ILIKE\<close> are matched by \<open>like\<close>.
\<close>

datatype filter_op = Op_eq | Op_ne | Op_gt | Op_ge | Op_lt | Op_le | Op_contains | Op_is_null | Op_not_null | Op_other string

record filter_clause =
  fc_field :: string
  fc_op :: filter_op
  fc_value :: string

datatype combinator = All_of | Any_of

record map_filter =
  mf_combinator :: combinator
  mf_clauses :: "filter_clause list"

subsection \<open>In memory\<close>

definition text_of :: "jsval \<Rightarrow> string option" where
  "text_of v =
     (case v of
        Undef \<Rightarrow> None
      | JNull \<Rightarrow> None
      | JStr s \<Rightarrow> Some s
      | JNum n \<Rightarrow> Some (num_to_string n)
      | JBool b \<Rightarrow> Some (if b then ''true'' else ''false'')
      | _ \<Rightarrow> Some (json_text v))"

definition number_of :: "jsval \<Rightarrow> jsnum option" where
  "number_of v =
     (case text_of v of
        None \<Rightarrow> None
      | Some t \<Rightarrow> if trim t = [] then None
                   else let n = string_to_num t in if is_finite n then Some n else None)"

fun numeric_op :: "filter_op \<Rightarrow> jsnum \<Rightarrow> jsnum \<Rightarrow> bool" where
  "numeric_op Op_gt a b = n_lt b a"
| "numeric_op Op_ge a b = n_le b a"
| "numeric_op Op_lt a b = n_lt a b"
| "numeric_op _ a b = n_le a b"

definition matches_clause :: "obj option \<Rightarrow> filter_clause \<Rightarrow> bool" where
  "matches_clause props c =
     (if fc_field c = [] then True
      else
        let raw = (case props of None \<Rightarrow> Undef | Some m \<Rightarrow> get m (fc_field c)); txt1 = text_of raw
        in case fc_op c of
             Op_eq \<Rightarrow> txt1 \<noteq> None \<and> txt1 = Some (fc_value c)
           | Op_ne \<Rightarrow> txt1 \<noteq> Some (fc_value c)
           | Op_contains \<Rightarrow> (case txt1 of None \<Rightarrow> False | Some t \<Rightarrow> str_includes (fc_value c) t)
           | Op_is_null \<Rightarrow> txt1 = None
           | Op_not_null \<Rightarrow> txt1 \<noteq> None
           | Op_other _ \<Rightarrow> True
           | oper \<Rightarrow> (case (number_of raw, number_of (JStr (fc_value c))) of
                      (Some a, Some b) \<Rightarrow> numeric_op oper a b
                    | _ \<Rightarrow> False))"

definition matches_filter :: "obj option \<Rightarrow> map_filter option \<Rightarrow> bool" where
  "matches_filter props flt =
     (case flt of
        None \<Rightarrow> True
      | Some f \<Rightarrow>
          if mf_clauses f = [] then True
          else if mf_combinator f = Any_of then list_ex (matches_clause props) (mf_clauses f)
          else list_all (matches_clause props) (mf_clauses f))"

lemma matches_all [simp]:
  "matches_filter props (Some \<lparr> mf_combinator = All_of, mf_clauses = cs \<rparr>) = list_all (matches_clause props) cs"
  by (simp add: matches_filter_def)

subsection \<open>In the database\<close>

datatype attr_condition =
    A_equal string string
  | A_distinct string string
  | A_number filter_op string jsnum
  | A_ilike string string
  | A_null string
  | A_not_null string

definition attr_name_ok :: "string \<Rightarrow> bool" where
  "attr_name_ok s \<longleftrightarrow> list_all (\<lambda>c. 32 \<le> cu c) s \<and> 1 \<le> length s \<and> length s \<le> 128"

definition replace_char :: "char \<Rightarrow> string \<Rightarrow> string \<Rightarrow> string" where
  "replace_char c by_text s = concat (map (\<lambda>x. if x = c then by_text else [x]) s)"

definition escape_like :: "string \<Rightarrow> string" where
  "escape_like s =
     replace_char CHR ''_'' [CHR 0x5C, CHR ''_''] (replace_char CHR ''%'' [CHR 0x5C, CHR ''%'']
       (replace_char CHR 0x5C [CHR 0x5C, CHR 0x5C] s))"

definition compile_clause :: "filter_clause \<Rightarrow> string + attr_condition" where
  "compile_clause c =
     (if \<not> attr_name_ok (fc_field c) then Inl ''Invalid attribute name''
      else case fc_op c of
             Op_eq \<Rightarrow> Inr (A_equal (fc_field c) (fc_value c))
           | Op_ne \<Rightarrow> Inr (A_distinct (fc_field c) (fc_value c))
           | Op_contains \<Rightarrow> Inr (A_ilike (fc_field c) (''%'' @ escape_like (fc_value c) @ ''%''))
           | Op_is_null \<Rightarrow> Inr (A_null (fc_field c))
           | Op_not_null \<Rightarrow> Inr (A_not_null (fc_field c))
           | Op_other _ \<Rightarrow> Inl ''Unsupported filter op''
           | oper \<Rightarrow> Inr (A_number oper (fc_field c) (string_to_num (fc_value c))))"

fun compile_clauses :: "filter_clause list \<Rightarrow> string + attr_condition list" where
  "compile_clauses [] = Inr []"
| "compile_clauses (c # cs) =
     (case compile_clause c of
        Inl e \<Rightarrow> Inl e
      | Inr a \<Rightarrow> (case compile_clauses cs of Inl e \<Rightarrow> Inl e | Inr as \<Rightarrow> Inr (a # as)))"

text \<open>The whole predicate; a filter without clauses compiles to nothing.\<close>

definition compile_attr_filter :: "map_filter \<Rightarrow> string + (combinator \<times> attr_condition list) option" where
  "compile_attr_filter f =
     (case compile_clauses (mf_clauses f) of
        Inl e \<Rightarrow> Inl e
      | Inr parts \<Rightarrow> Inr (if parts = [] then None else Some (mf_combinator f, parts)))"

subsection \<open>Patterns\<close>

text \<open>\<open>LIKE\<close>: \<open>%\<close> stands for any text, \<open>_\<close> for any character, and a backslash takes the next one literally.\<close>

fun like :: "string \<Rightarrow> string \<Rightarrow> bool" where
  "like [] s \<longleftrightarrow> s = []"
| "like (p # ps) s \<longleftrightarrow>
     (if p = CHR ''%'' then (\<exists>k \<le> length s. like ps (drop k s))
      else if p = CHR ''_'' then s \<noteq> [] \<and> like ps (tl s)
      else if p = CHR 0x5C
      then (case ps of [] \<Rightarrow> False | q # qs \<Rightarrow> s \<noteq> [] \<and> hd s = q \<and> like qs (tl s))
      else s \<noteq> [] \<and> hd s = p \<and> like ps (tl s))"

definition like_unit :: "char \<Rightarrow> string" where
  "like_unit c = (if c \<in> {CHR ''_'', CHR ''%'', CHR 0x5C} then [CHR 0x5C, c] else [c])"

lemma escape_like_units: "escape_like s = concat (map like_unit s)"
  by (induction s) (auto simp: escape_like_def replace_char_def like_unit_def)

lemma like_literal: "like (concat (map like_unit w) @ ps) s \<longleftrightarrow> (\<exists>t. s = w @ t \<and> like ps t)"
proof (induction w arbitrary: s)
  case (Cons c w)
  have "like (like_unit c @ qs) s \<longleftrightarrow> s \<noteq> [] \<and> hd s = c \<and> like qs (tl s)" for qs
    by (simp add: like_unit_def)
  then have "like (concat (map like_unit (c # w)) @ ps) s \<longleftrightarrow>
      s \<noteq> [] \<and> hd s = c \<and> (\<exists>t. tl s = w @ t \<and> like ps t)" by (simp add: Cons.IH)
  also have "\<dots> \<longleftrightarrow> (\<exists>t. s = (c # w) @ t \<and> like ps t)" by (cases s) auto
  finally show ?case .
qed simp

lemma like_percent: "like (''%'' @ ps) s \<longleftrightarrow> (\<exists>k \<le> length s. like ps (drop k s))"
  by simp

lemma like_rest: "like ''%'' s"
  using like_percent [of "[]" s] by (auto intro: exI [of _ "length s"])

lemma str_includes_iff: "str_includes w s \<longleftrightarrow> (\<exists>a b. s = a @ w @ b)"
proof (induction s)
  case (Cons c s)
  note IH = Cons.IH
  show ?case
  proof
    assume "str_includes w (c # s)"
    then consider b where "c # s = w @ b" | "str_includes w s" by (auto simp: starts_with_iff)
    then show "\<exists>a b. c # s = a @ w @ b"
    proof cases
      case 1
      then show ?thesis by (intro exI [of _ "[]"] exI [of _ b]) simp
    next
      case 2
      then obtain a b where "s = a @ w @ b" using Cons.IH by blast
      then show ?thesis by (intro exI [of _ "c # a"] exI [of _ b]) simp
    qed
  next
    assume "\<exists>a b. c # s = a @ w @ b"
    then obtain a b where "c # s = a @ w @ b" by blast
    show "str_includes w (c # s)"
    proof (cases a)
      case Nil
      then have "starts_with w (c # s)" using \<open>c # s = a @ w @ b\<close> by (simp add: starts_with_iff)
      then show ?thesis by simp
    next
      case (Cons d a')
      then have "s = a' @ w @ b" using \<open>c # s = a @ w @ b\<close> by simp
      then have "str_includes w s" using IH by blast
      then show ?thesis by simp
    qed
  qed
qed auto

lemma like_contains: "like (''%'' @ escape_like w @ ''%'') s \<longleftrightarrow> str_includes w s"
proof -
  have "like (''%'' @ escape_like w @ ''%'') s \<longleftrightarrow> (\<exists>k \<le> length s. \<exists>t. drop k s = w @ t)"
    using like_percent [of "escape_like w @ ''%''" s] by (simp only: escape_like_units like_literal like_rest simp_thms)
  also have "\<dots> \<longleftrightarrow> (\<exists>a b. s = a @ w @ b)"
  proof
    assume "\<exists>k \<le> length s. \<exists>t. drop k s = w @ t"
    then obtain k t where "drop k s = w @ t" by blast
    then have "s = take k s @ w @ t" by (metis append_take_drop_id)
    then show "\<exists>a b. s = a @ w @ b" by blast
  next
    assume "\<exists>a b. s = a @ w @ b"
    then obtain a b where "s = a @ w @ b" by blast
    then show "\<exists>k \<le> length s. \<exists>t. drop k s = w @ t" by (intro exI [of _ "length a"]) auto
  qed
  finally show ?thesis by (simp add: str_includes_iff)
qed

subsection \<open>Agreement\<close>

text \<open>What the database makes of the nodes: \<open>attrs\<close> gives the text of an attribute (\<open>->>\<close>), \<open>double\<close> its
  value when it is valid input for a number. \<open>NULL\<close> counts as false where a row is selected.\<close>

definition attr_semantics ::
  "(string \<Rightarrow> string option) \<Rightarrow> (string \<Rightarrow> jsnum option) \<Rightarrow> (attr_condition \<Rightarrow> bool) \<Rightarrow> bool" where
  "attr_semantics attrs double holds \<longleftrightarrow>
     (\<forall>f v. holds (A_equal f v) \<longleftrightarrow> attrs f = Some v) \<and>
     (\<forall>f v. holds (A_distinct f v) \<longleftrightarrow> attrs f \<noteq> Some v) \<and>
     (\<forall>f oper n. holds (A_number oper f n) \<longleftrightarrow>
        (\<exists>t a. attrs f = Some t \<and> double t = Some a \<and> numeric_op oper a n)) \<and>
     (\<forall>f p. holds (A_ilike f p) \<longleftrightarrow> (\<exists>t. attrs f = Some t \<and> like (to_lower p) (to_lower t))) \<and>
     (\<forall>f. holds (A_null f) \<longleftrightarrow> attrs f = None) \<and>
     (\<forall>f. holds (A_not_null f) \<longleftrightarrow> attrs f \<noteq> None)"

definition selected :: "(attr_condition \<Rightarrow> bool) \<Rightarrow> (combinator \<times> attr_condition list) option \<Rightarrow> bool" where
  "selected holds p =
     (case p of
        None \<Rightarrow> True
      | Some (Any_of, cs) \<Rightarrow> list_ex holds cs
      | Some (All_of, cs) \<Rightarrow> list_all holds cs)"

text \<open>A clause both sides read alike: no \<open>contains\<close> with letters, and a number where a number is compared.\<close>

definition fold_free :: "string \<Rightarrow> bool" where
  "fold_free s \<longleftrightarrow> to_lower s = s"

definition alike_clause :: "obj \<Rightarrow> filter_clause \<Rightarrow> bool" where
  "alike_clause row c \<longleftrightarrow>
     (case fc_op c of
        Op_contains \<Rightarrow> fold_free (fc_value c) \<and> (\<forall>t. text_of (get row (fc_field c)) = Some t \<longrightarrow> fold_free t)
      | Op_gt \<Rightarrow> number_of (JStr (fc_value c)) \<noteq> None
      | Op_ge \<Rightarrow> number_of (JStr (fc_value c)) \<noteq> None
      | Op_lt \<Rightarrow> number_of (JStr (fc_value c)) \<noteq> None
      | Op_le \<Rightarrow> number_of (JStr (fc_value c)) \<noteq> None
      | _ \<Rightarrow> True)"

lemma to_lower_append: "to_lower (s @ t) = to_lower s @ to_lower t"
  by (simp add: to_lower_def)

lemma lower_like_unit: "fold_free w \<Longrightarrow> to_lower (escape_like w) = escape_like w"
proof (induction w)
  case (Cons c w)
  then have "lower_char c = c" "fold_free w" by (simp_all add: fold_free_def to_lower_def)
  moreover have "lower_char (CHR 0x5C) = CHR 0x5C" by (simp add: lower_char_def is_upper_az_def cu_def)
  ultimately show ?case using Cons.IH by (auto simp: escape_like_units like_unit_def to_lower_def)
qed (simp add: escape_like_units to_lower_def)

lemma clause_agrees:
  assumes sem: "attr_semantics attrs double holds" and a: "attrs (fc_field c) = text_of (get row (fc_field c))"
    and d: "\<And>t. text_of (get row (fc_field c)) = Some t \<Longrightarrow> double t = number_of (JStr t)"
    and c: "compile_clause c = Inr cond" and l: "alike_clause row c"
  shows "holds cond \<longleftrightarrow> matches_clause (Some row) c"
proof -
  let ?raw = "get row (fc_field c)"
  have f: "fc_field c \<noteq> []" using c by (auto simp: compile_clause_def attr_name_ok_def split: if_splits)
  have num: "number_of ?raw = (case text_of ?raw of None \<Rightarrow> None | Some t \<Rightarrow> number_of (JStr t))"
    by (simp add: number_of_def text_of_def split: option.split)
  have cmp: "holds (A_number oper (fc_field c) (string_to_num (fc_value c))) \<longleftrightarrow>
      (case (number_of ?raw, number_of (JStr (fc_value c))) of (Some x, Some y) \<Rightarrow> numeric_op oper x y | _ \<Rightarrow> False)"
    if n: "number_of (JStr (fc_value c)) \<noteq> None" for oper
  proof -
    have y: "number_of (JStr (fc_value c)) = Some (string_to_num (fc_value c))"
      using n by (auto simp: number_of_def text_of_def Let_def split: if_splits)
    have h: "holds (A_number oper (fc_field c) (string_to_num (fc_value c))) \<longleftrightarrow>
        (\<exists>t x. text_of ?raw = Some t \<and> double t = Some x \<and> numeric_op oper x (string_to_num (fc_value c)))"
      using sem unfolding attr_semantics_def a [symmetric] by blast
    show ?thesis
    proof (cases "text_of ?raw")
      case (Some t)
      then show ?thesis unfolding h num y using d [OF Some] by (simp split: option.split)
    qed (simp add: h num)
  qed
  have inc: "holds (A_ilike (fc_field c) (''%'' @ escape_like (fc_value c) @ ''%'')) \<longleftrightarrow>
      (case text_of ?raw of None \<Rightarrow> False | Some t \<Rightarrow> str_includes (fc_value c) t)"
    if "fc_op c = Op_contains"
  proof -
    have v: "fold_free (fc_value c)" and t: "\<And>t. text_of ?raw = Some t \<Longrightarrow> to_lower t = t"
      using l that by (auto simp: alike_clause_def fold_free_def)
    have "to_lower ''%'' = ''%''" by (simp add: to_lower_def lower_char_def is_upper_az_def cu_def)
    then have p: "to_lower (''%'' @ escape_like (fc_value c) @ ''%'') = ''%'' @ escape_like (fc_value c) @ ''%''"
      by (simp only: to_lower_append lower_like_unit [OF v])
    have "holds (A_ilike (fc_field c) (''%'' @ escape_like (fc_value c) @ ''%'')) \<longleftrightarrow>
        (\<exists>t. text_of ?raw = Some t \<and> like (to_lower (''%'' @ escape_like (fc_value c) @ ''%'')) (to_lower t))"
      using sem unfolding attr_semantics_def a [symmetric] by blast
    also have "\<dots> \<longleftrightarrow> (\<exists>t. text_of ?raw = Some t \<and> str_includes (fc_value c) t)"
      unfolding p using t like_contains by metis
    finally show ?thesis by (simp split: option.split)
  qed
  have basic: "\<And>v. holds (A_equal (fc_field c) v) \<longleftrightarrow> text_of ?raw = Some v" "\<And>v. holds (A_distinct (fc_field c) v) \<longleftrightarrow> text_of ?raw \<noteq> Some v"
    "holds (A_null (fc_field c)) \<longleftrightarrow> text_of ?raw = None" "holds (A_not_null (fc_field c)) \<longleftrightarrow> text_of ?raw \<noteq> None"
    using sem a unfolding attr_semantics_def by simp_all
  show ?thesis
    using c l f cmp inc basic
    by (cases "fc_op c") (auto simp: compile_clause_def matches_clause_def alike_clause_def Let_def split: if_splits)
qed

lemma clauses_agree:
  assumes "attr_semantics attrs double holds" and "\<And>k. attrs k = text_of (get row k)"
    and "\<And>k t. text_of (get row k) = Some t \<Longrightarrow> double t = number_of (JStr t)"
  shows "compile_clauses cs = Inr conds \<Longrightarrow> list_all (alike_clause row) cs \<Longrightarrow>
    list_all2 (\<lambda>cond c. holds cond \<longleftrightarrow> matches_clause (Some row) c) conds cs"
proof (induction cs arbitrary: conds)
  case (Cons c cs)
  then obtain a as where c: "compile_clause c = Inr a" "compile_clauses cs = Inr as" "conds = a # as"
    by (auto split: sum.splits)
  have "holds a \<longleftrightarrow> matches_clause (Some row) c"
    using clause_agrees [OF assms(1) assms(2) assms(3) c(1)] Cons.prems(2) by simp
  with c Cons show ?case by simp
qed simp

lemma list_all2_all: "list_all2 (\<lambda>x y. P x \<longleftrightarrow> Q y) xs ys \<Longrightarrow> list_all P xs \<longleftrightarrow> list_all Q ys"
  by (induction rule: list_all2_induct) auto

lemma list_all2_ex: "list_all2 (\<lambda>x y. P x \<longleftrightarrow> Q y) xs ys \<Longrightarrow> list_ex P xs \<longleftrightarrow> list_ex Q ys"
  by (induction rule: list_all2_induct) auto


text \<open>A database that reads the row as it is.\<close>

fun row_holds :: "obj \<Rightarrow> attr_condition \<Rightarrow> bool" where
  "row_holds row (A_equal f v) \<longleftrightarrow> text_of (get row f) = Some v"
| "row_holds row (A_distinct f v) \<longleftrightarrow> text_of (get row f) \<noteq> Some v"
| "row_holds row (A_number oper f n) \<longleftrightarrow> (case number_of (get row f) of None \<Rightarrow> False | Some a \<Rightarrow> numeric_op oper a n)"
| "row_holds row (A_ilike f p) \<longleftrightarrow> (case text_of (get row f) of None \<Rightarrow> False | Some t \<Rightarrow> like (to_lower p) (to_lower t))"
| "row_holds row (A_null f) \<longleftrightarrow> text_of (get row f) = None"
| "row_holds row (A_not_null f) \<longleftrightarrow> text_of (get row f) \<noteq> None"

lemma number_of_text: "number_of v = (case text_of v of None \<Rightarrow> None | Some t \<Rightarrow> number_of (JStr t))"
  by (simp add: number_of_def text_of_def split: option.split)

lemma row_holds_semantics: "attr_semantics (\<lambda>k. text_of (get row k)) (\<lambda>t. number_of (JStr t)) (row_holds row)"
proof -
  have "row_holds row (A_number oper f n) \<longleftrightarrow>
      (\<exists>t a. text_of (get row f) = Some t \<and> number_of (JStr t) = Some a \<and> numeric_op oper a n)" for oper f n
    using number_of_text [of "get row f"] by (auto split: option.split)
  moreover have "row_holds row (A_ilike f p) \<longleftrightarrow> (\<exists>t. text_of (get row f) = Some t \<and> like (to_lower p) (to_lower t))" for f p
    by (auto split: option.split)
  ultimately show ?thesis unfolding attr_semantics_def by (simp del: row_holds.simps(3,4))
qed

definition example_filter :: map_filter where
  "example_filter =
     \<lparr> mf_combinator = All_of,
       mf_clauses = [\<lparr> fc_field = ''depth'', fc_op = Op_ge, fc_value = ''2'' \<rparr>, \<lparr> fc_field = ''state'', fc_op = Op_ne, fc_value = ''shut'' \<rparr>,
                     \<lparr> fc_field = ''kind'', fc_op = Op_contains, fc_value = ''5%'' \<rparr>] \<rparr>"


text \<open>Where they differ: searching for a text with capitals, and comparing with a blank bound.\<close>

lemma search_differs:
  assumes "attr_semantics attrs double holds" and "attrs ''name'' = Some ''oak''"
  shows "\<exists>cond. compile_clause \<lparr> fc_field = ''name'', fc_op = Op_contains, fc_value = ''Oak'' \<rparr> = Inr cond \<and> holds cond \<and>
    \<not> matches_clause (Some [(''name'', JStr ''oak'')]) \<lparr> fc_field = ''name'', fc_op = Op_contains, fc_value = ''Oak'' \<rparr>"
proof -
  let ?c = "\<lparr> fc_field = ''name'', fc_op = Op_contains, fc_value = ''Oak'' \<rparr>"
  have c: "compile_clause ?c = Inr (A_ilike ''name'' ''%Oak%'')" by code_simp
  have "to_lower ''%Oak%'' = ''%'' @ escape_like ''oak'' @ ''%''" "to_lower ''oak'' = ''oak''" "str_includes ''oak'' ''oak''"
    by code_simp+
  then have "like (to_lower ''%Oak%'') (to_lower ''oak'')" using like_contains by metis
  then have "holds (A_ilike ''name'' ''%Oak%'')" using assms unfolding attr_semantics_def by blast
  moreover have "\<not> matches_clause (Some [(''name'', JStr ''oak'')]) ?c" by code_simp
  ultimately show ?thesis using c by blast
qed

lemma blank_bound_differs:
  assumes "attr_semantics attrs double holds" and "attrs ''depth'' = Some ''3''" and "double ''3'' = Some (Fin 3)"
  shows "\<exists>cond. compile_clause \<lparr> fc_field = ''depth'', fc_op = Op_gt, fc_value = [] \<rparr> = Inr cond \<and> holds cond \<and>
    \<not> matches_clause (Some [(''depth'', JNum (Fin 3))]) \<lparr> fc_field = ''depth'', fc_op = Op_gt, fc_value = [] \<rparr>"
proof -
  let ?c = "\<lparr> fc_field = ''depth'', fc_op = Op_gt, fc_value = [] \<rparr>"
  have "attr_name_ok ''depth''" by code_simp
  then have "compile_clause ?c = Inr (A_number Op_gt ''depth'' (Fin 0))"
    by (simp add: compile_clause_def string_to_num_def)
  moreover have "numeric_op Op_gt (Fin 3) (Fin 0)" by simp
  with assms(2,3) have "\<exists>t a. attrs ''depth'' = Some t \<and> double t = Some a \<and> numeric_op Op_gt a (Fin 0)" by blast
  with assms(1) have "holds (A_number Op_gt ''depth'' (Fin 0))" unfolding attr_semantics_def by blast
  moreover have "number_of (JStr []) = None" by (simp add: number_of_def text_of_def)
  then have "\<not> matches_clause (Some [(''depth'', JNum (Fin 3))]) ?c"
    by (simp add: matches_clause_def Let_def split: option.split)
  ultimately show ?thesis by blast
qed

end
