(* ===== verification/SourceScope.thy ===== *)
theory SourceScope
  imports FilterMatch
begin

text \<open>
  What narrows a data source of an app: \<open>shared-types/src/source-scope.ts\<close>. Optional texts that the code
  tests for truth are options; the empty text of a target layer counts as none.
\<close>

subsection \<open>Sources, selections, scopes\<close>

record viewer_target =
  vt_data_layer :: string
  vt_layer_key :: string

record source_via =
  sv_source :: string
  sv_parent_field :: string
  sv_my_field :: string

record app_source =
  as_id :: string
  as_layer :: viewer_target
  as_where :: "map_filter option"
  as_via :: "source_via option"

record selection =
  sl_widget :: string
  sl_source :: string
  sl_field :: string
  sl_value :: "string option"
  sl_label :: string
  sl_clauses :: "filter_clause list option"

type_synonym bbox4 = "jsnum \<times> jsnum \<times> jsnum \<times> jsnum"

record resolved_via =
  rv_my_field :: string
  rv_parent_field :: string
  rv_parent_item :: string
  rv_parent_layer :: string
  rv_parent_bbox :: "bbox4 option"
  rv_parent_where :: "map_filter option"

record resolved_scope =
  ss_bbox :: "bbox4 option"
  ss_where :: "map_filter option"
  ss_via :: "resolved_via option"
  ss_note :: "string option"
  ss_spatial :: bool

definition selection_clauses :: "selection \<Rightarrow> filter_clause list" where
  "selection_clauses sel =
     (case sl_clauses sel of
        Some (c # cs) \<Rightarrow> c # cs
      | _ \<Rightarrow> [case sl_value sel of
               None \<Rightarrow> \<lparr> fc_field = sl_field sel, fc_op = Op_is_null, fc_value = [] \<rparr>
             | Some v \<Rightarrow> \<lparr> fc_field = sl_field sel, fc_op = Op_eq, fc_value = v \<rparr>])"

definition filter_clauses :: "map_filter option \<Rightarrow> filter_clause list" where
  "filter_clauses flt = (case flt of None \<Rightarrow> [] | Some f \<Rightarrow> mf_clauses f)"

definition all_of_clauses :: "filter_clause list \<Rightarrow> map_filter" where
  "all_of_clauses cs = \<lparr> mf_combinator = All_of, mf_clauses = cs \<rparr>"

subsection \<open>On the layers of a map\<close>

record layer_via =
  lv_my_field :: string
  lv_parent_field :: string
  lv_parent_where :: "map_filter option"

record map_layer =
  ml_id :: string
  ml_filter :: "map_filter option"
  ml_via :: "layer_via option"

definition narrow_layer :: "string option \<Rightarrow> string list \<Rightarrow> filter_clause list \<Rightarrow> map_layer \<Rightarrow> map_layer" where
  "narrow_layer target related clauses l =
     (if Some (ml_id l) = target
      then l\<lparr> ml_filter := Some (all_of_clauses (filter_clauses (ml_filter l) @ clauses)) \<rparr>
      else if ml_id l \<in> set related
      then (case ml_via l of
              None \<Rightarrow> l
            | Some via \<Rightarrow> l\<lparr> ml_via := Some (via\<lparr> lv_parent_where :=
                 Some (all_of_clauses (filter_clauses (lv_parent_where via) @ clauses)) \<rparr>) \<rparr>)
      else l)"

definition apply_selection_to_layers ::
  "map_layer list \<Rightarrow> string option \<Rightarrow> string list \<Rightarrow> selection option \<Rightarrow> map_layer list" where
  "apply_selection_to_layers layers target related sel =
     (case sel of
        None \<Rightarrow> layers
      | Some s \<Rightarrow>
          if (target = None \<or> target = Some []) \<and> related = [] then layers
          else if selection_clauses s = [] then layers
          else map (narrow_layer target related (selection_clauses s)) layers)"

subsection \<open>The scope of a source\<close>

record scope_args =
  sa_source :: "app_source option"
  sa_parent :: "app_source option"
  sa_bbox :: "bbox4 option"
  sa_parent_bbox :: "bbox4 option"
  sa_selection :: "selection option"
  sa_selection_layer :: "viewer_target option"
  sa_ignore :: "string option"

definition same_layer :: "viewer_target option \<Rightarrow> viewer_target \<Rightarrow> bool" where
  "same_layer a b \<longleftrightarrow>
     (case a of None \<Rightarrow> False | Some t \<Rightarrow> vt_data_layer t = vt_data_layer b \<and> vt_layer_key t = vt_layer_key b)"

definition applies_to :: "scope_args \<Rightarrow> selection \<Rightarrow> app_source \<Rightarrow> bool" where
  "applies_to a sel s \<longleftrightarrow> sl_source sel = as_id s \<or> same_layer (sa_selection_layer a) (as_layer s)"

text \<open>The selection that counts, and where it reaches a source.\<close>

definition effective_selection :: "scope_args \<Rightarrow> selection option" where
  "effective_selection a =
     (case sa_selection a of
        None \<Rightarrow> None
      | Some s \<Rightarrow> if sa_ignore a = Some (sl_widget s) then None else Some s)"

definition selecting :: "scope_args \<Rightarrow> app_source option \<Rightarrow> selection option" where
  "selecting a src =
     (case (effective_selection a, src) of
        (Some sel, Some s) \<Rightarrow> if applies_to a sel s then Some sel else None
      | _ \<Rightarrow> None)"

definition selected_clauses :: "selection option \<Rightarrow> filter_clause list" where
  "selected_clauses sel = (case sel of None \<Rightarrow> [] | Some s \<Rightarrow> selection_clauses s)"

definition where_of :: "filter_clause list \<Rightarrow> map_filter option" where
  "where_of cs = (if cs = [] then None else Some (all_of_clauses cs))"

definition author_clauses :: "app_source option \<Rightarrow> filter_clause list" where
  "author_clauses src = (case src of None \<Rightarrow> [] | Some s \<Rightarrow> filter_clauses (as_where s))"

definition resolve_via :: "scope_args \<Rightarrow> resolved_via option" where
  "resolve_via a =
     (case (sa_source a, sa_parent a) of
        (Some s, Some parent) \<Rightarrow>
          (case as_via s of
             None \<Rightarrow> None
           | Some via \<Rightarrow> Some
               \<lparr> rv_my_field = sv_my_field via, rv_parent_field = sv_parent_field via,
                 rv_parent_item = vt_data_layer (as_layer parent), rv_parent_layer = vt_layer_key (as_layer parent),
                 rv_parent_bbox = sa_parent_bbox a,
                 rv_parent_where = where_of (filter_clauses (as_where parent) @ selected_clauses (selecting a (sa_parent a))) \<rparr>)
      | _ \<Rightarrow> None)"

definition resolve_source_scope :: "scope_args \<Rightarrow> resolved_scope" where
  "resolve_source_scope a =
     (let here = selecting a (sa_source a); above = selecting a (sa_parent a)
      in \<lparr> ss_bbox = sa_bbox a,
           ss_where = where_of (author_clauses (sa_source a) @ selected_clauses here),
           ss_via = resolve_via a,
           ss_note = (case here of
                        Some s \<Rightarrow> Some (sl_label s)
                      | None \<Rightarrow> if resolve_via a = None then None else map_option sl_label above),
           ss_spatial = (sa_bbox a \<noteq> None) \<rparr>)"

subsection \<open>What a selection does\<close>

text \<open>The same arguments when nothing is selected.\<close>

definition unselected :: "scope_args \<Rightarrow> scope_args" where
  "unselected a = a\<lparr> sa_selection := None \<rparr>"

lemma matches_where_of [simp]: "matches_filter row (where_of cs) \<longleftrightarrow> list_all (matches_clause row) cs"
  by (simp add: where_of_def all_of_clauses_def matches_filter_def)

lemma unselected_simps [simp]:
  "sa_source (unselected a) = sa_source a" "sa_parent (unselected a) = sa_parent a" "sa_bbox (unselected a) = sa_bbox a"
  "sa_parent_bbox (unselected a) = sa_parent_bbox a" "selecting (unselected a) src = None"
  by (simp_all add: unselected_def selecting_def effective_selection_def)

definition parent_where :: "resolved_scope \<Rightarrow> map_filter option" where
  "parent_where s = (case ss_via s of None \<Rightarrow> None | Some v \<Rightarrow> rv_parent_where v)"

lemma ss_where_iff:
  "matches_filter row (ss_where (resolve_source_scope a)) \<longleftrightarrow>
     list_all (matches_clause row) (author_clauses (sa_source a)) \<and>
     list_all (matches_clause row) (selected_clauses (selecting a (sa_source a)))"
  by (simp add: resolve_source_scope_def Let_def)

text \<open>Where a selection reaches: it is not the one to ignore, and it names the source, or the layer it is
  expressed in is the source's layer.\<close>

definition reaches :: "scope_args \<Rightarrow> selection \<Rightarrow> app_source option \<Rightarrow> bool" where
  "reaches a sel src \<longleftrightarrow>
     sa_selection a = Some sel \<and> sa_ignore a \<noteq> Some (sl_widget sel) \<and>
     (\<exists>s. src = Some s \<and> (sl_source sel = as_id s \<or> sa_selection_layer a = Some (as_layer s)))"

lemma selecting_reaches: "selecting a src = Some sel \<longleftrightarrow> reaches a sel src"
proof -
  have "same_layer x t \<longleftrightarrow> x = Some t" for x t by (cases x) (auto simp: same_layer_def)
  then show ?thesis
    by (auto simp: selecting_def reaches_def effective_selection_def applies_to_def split: option.splits if_splits)
qed

lemma selected_clauses_reach:
  "list_all P (selected_clauses (selecting a src)) \<longleftrightarrow> (\<forall>sel. reaches a sel src \<longrightarrow> list_all P (selection_clauses sel))"
  unfolding selecting_reaches [symmetric] by (simp add: selected_clauses_def split: option.split)


text \<open>A map that draws the source's layer with the source's own predicate narrows it as the scope does.\<close>

lemma layer_follows_scope:
  assumes "sa_source a = Some s" and "effective_selection a = Some sel" and "applies_to a sel s"
    and "ml_filter l = as_where s" and "ml_id l \<noteq> []" and "selection_clauses sel \<noteq> []"
  shows "map ml_filter (apply_selection_to_layers [l] (Some (ml_id l)) related (Some sel)) = [ss_where (resolve_source_scope a)]"
  using assms
  by (simp add: apply_selection_to_layers_def narrow_layer_def resolve_source_scope_def Let_def selecting_def
      selected_clauses_def author_clauses_def where_of_def)

text \<open>A layer that is both the target and related gets the first narrowing only.\<close>

lemma layer_both_ways:
  "Some (ml_id l) = target \<Longrightarrow> ml_id l \<in> set related \<Longrightarrow> ml_via (narrow_layer target related clauses l) = ml_via l"
  by (simp add: narrow_layer_def)

text \<open>without any selection, an author's predicate whose clauses must all hold is resolved as it was
  fixed; but one of which any clause suffices is resolved as if all were required, so rows that
  match it by some of its clauses only are out of scope.\<close>

theorem author_choice_lost:
  assumes "sa_source a = Some s" and "as_where s = Some flt"
  shows "(mf_combinator flt = All_of \<longrightarrow>
      (matches_filter row (ss_where (resolve_source_scope (unselected a))) \<longleftrightarrow> matches_filter row (as_where s))) \<and>
    (mf_combinator flt = Any_of \<and> list_ex (matches_clause row) (mf_clauses flt) \<and> \<not> list_all (matches_clause row) (mf_clauses flt) \<longrightarrow>
      matches_filter row (as_where s) \<and> \<not> matches_filter row (ss_where (resolve_source_scope (unselected a))))"
proof -
  have "matches_filter row (ss_where (resolve_source_scope (unselected a))) \<longleftrightarrow> list_all (matches_clause row) (mf_clauses flt)"
    using assms by (simp add: ss_where_iff author_clauses_def filter_clauses_def selected_clauses_def)
  then show ?thesis using assms by (auto simp: matches_filter_def)
qed

definition example_args :: scope_args where
  "example_args =
     \<lparr> sa_source = Some \<lparr> as_id = ''sites'', as_layer = \<lparr> vt_data_layer = ''l'', vt_layer_key = ''k'' \<rparr>,
         as_where = Some \<lparr> mf_combinator = Any_of,
           mf_clauses = [\<lparr> fc_field = ''state'', fc_op = Op_eq, fc_value = ''open'' \<rparr>,
                         \<lparr> fc_field = ''kind'', fc_op = Op_eq, fc_value = ''well'' \<rparr>] \<rparr>,
         as_via = None \<rparr>,
       sa_parent = None, sa_bbox = None, sa_parent_bbox = None, sa_selection = None, sa_selection_layer = None, sa_ignore = None \<rparr>"

theorem author_choice_lost_witness:
  "let row = Some [(''state'', JStr ''open''), (''kind'', JStr ''pond'')]; src = the (sa_source example_args) in
   matches_filter row (as_where src) \<and> \<not> matches_filter row (ss_where (resolve_source_scope (unselected example_args)))"
proof -
  let ?row = "Some [(''state'', JStr ''open''), (''kind'', JStr ''pond'')]" and ?src = "the (sa_source example_args)"
  have s: "sa_source example_args = Some ?src" by (simp add: example_args_def)
  have f: "as_where ?src = Some (the (as_where ?src))" by (simp add: example_args_def)
  have c: "mf_combinator (the (as_where ?src)) = Any_of" "list_ex (matches_clause ?row) (mf_clauses (the (as_where ?src)))"
    "\<not> list_all (matches_clause ?row) (mf_clauses (the (as_where ?src)))"
    by code_simp+
  from author_choice_lost [OF s f, of ?row] c show ?thesis unfolding Let_def by blast
qed

definition example_selection :: selection where
  "example_selection =
     \<lparr> sl_widget = ''w'', sl_source = ''other'', sl_field = ''kind'', sl_value = Some ''pond'', sl_label = ''Kind: pond'',
       sl_clauses = None \<rparr>"


end
