(* ===== verification/Uuid.thy ===== *)
theory Uuid
  imports GeometryGuard "HOL-Library.Word"
begin

unbundle bit_operations_syntax

text \<open>
  Identifiers of the observation log: \<open>packages/engine/src/uuid.ts\<close>. A clock reading is an integer of
  any size (the code's \<open>BigInt\<close>), the ten random bytes are a parameter. Texts compare code unit by code
  unit, which for identifiers in lower case is the order of the database's \<open>uuid\<close> type.
\<close>

type_synonym byte = "8 word"

subsection \<open>Making identifiers\<close>

definition time_byte :: "nat \<Rightarrow> int \<Rightarrow> byte" where
  "time_byte k ts = word_of_int (drop_bit k ts AND 0xff)"

definition uuid_bytes :: "int \<Rightarrow> byte list \<Rightarrow> byte list" where
  "uuid_bytes ts r =
     [time_byte 40 ts, time_byte 32 ts, time_byte 24 ts, time_byte 16 ts, time_byte 8 ts, time_byte 0 ts,
      (r ! 0 AND 0x0f) OR 0x70, r ! 1, (r ! 2 AND 0x3f) OR 0x80, r ! 3,
      r ! 4, r ! 5, r ! 6, r ! 7, r ! 8, r ! 9]"

definition hex_byte :: "byte \<Rightarrow> string" where
  "hex_byte b = [hex_digit (unat b div 16), hex_digit (unat b mod 16)]"

definition uuidv7 :: "int \<Rightarrow> byte list \<Rightarrow> string" where
  "uuidv7 now r =
     (let hex = concat (map hex_byte (uuid_bytes now r))
      in Prelude.slice 0 8 hex @ ''-'' @ Prelude.slice 8 12 hex @ ''-'' @ Prelude.slice 12 16 hex @ ''-'' @
         Prelude.slice 16 20 hex @ ''-'' @ drop 20 hex)"

subsection \<open>Reading identifiers\<close>

text \<open>\<open>Number.parseInt(s, 16)\<close>.\<close>

definition parse_int16 :: "string \<Rightarrow> jsnum" where
  "parse_int16 s =
     (let t = dropWhile is_space s;
          neg = (t \<noteq> [] \<and> hd t = CHR ''-'');
          u = (if t \<noteq> [] \<and> hd t \<in> {CHR ''-'', CHR ''+''} then tl t else t);
          v = (if take 2 u \<in> {''0x'', ''0X''} then drop 2 u else u);
          n = radix_num 16 (takeWhile (\<lambda>c. digit_val c < 16) v)
      in if neg then n_neg n else n)"

definition uuidv7_timestamp :: "string \<Rightarrow> jsnum option" where
  "uuidv7_timestamp uuid =
     (let stripped = filter (\<lambda>c. c \<noteq> CHR ''-'') uuid
      in if length stripped \<noteq> 32 then None
         else if stripped ! 12 \<noteq> CHR ''7'' then None
         else Some (parse_int16 (take 12 stripped)))"

definition is_hex_char :: "char \<Rightarrow> bool" where
  "is_hex_char c \<longleftrightarrow> digit_val c < 16"

definition is_uuid_text :: "string \<Rightarrow> bool" where
  "is_uuid_text s \<longleftrightarrow>
     map length (split_at_char CHR ''-'' s) = [8, 4, 4, 4, 12] \<and>
     list_all (list_all is_hex_char) (split_at_char CHR ''-'' s)"

definition is_uuid :: "jsval \<Rightarrow> bool" where
  "is_uuid v = (case v of JStr s \<Rightarrow> is_uuid_text s | _ \<Rightarrow> False)"

subsection \<open>Digits\<close>

definition lower_hex :: "char \<Rightarrow> bool" where
  "lower_hex c \<longleftrightarrow> is_digit_char c \<or> (97 \<le> cu c \<and> cu c \<le> 102)"

lemma cu_char_of: "n < 256 \<Longrightarrow> cu (char_of n) = n"
  by (simp add: cu_def)

lemma cu_hex_digit: "n < 16 \<Longrightarrow> cu (hex_digit n) = (if n < 10 then 48 + n else 87 + n)"
  by (simp add: hex_digit_def cu_char_of)

lemma digit_val_hex: "n < 16 \<Longrightarrow> digit_val (hex_digit n) = n"
  by (auto simp: digit_val_def is_digit_char_def is_lower_az_def is_upper_az_def cu_hex_digit)

lemma lower_hex_digit: "n < 16 \<Longrightarrow> lower_hex (hex_digit n)"
  by (auto simp: lower_hex_def is_digit_char_def cu_hex_digit)

lemma lower_hex_is_hex: "lower_hex c \<Longrightarrow> is_hex_char c"
  by (auto simp: lower_hex_def is_hex_char_def digit_val_def is_digit_char_def is_lower_az_def is_upper_az_def)

lemma lower_hex_neq: "lower_hex c \<Longrightarrow> c \<noteq> CHR ''-''" "lower_hex c \<Longrightarrow> c \<noteq> CHR ''x''" "lower_hex c \<Longrightarrow> c \<noteq> CHR ''X''"
    "lower_hex c \<Longrightarrow> c \<noteq> CHR ''+''" "lower_hex c \<Longrightarrow> \<not> is_space c"
  by (auto simp: lower_hex_def is_digit_char_def is_space_def cu_def)

lemma unat_byte_bound: "unat (b :: byte) div 16 < 16" "unat (b :: byte) mod 16 < 16"
proof -
  have "unat b < 2 ^ LENGTH(8)" by (rule unsigned_less)
  then show "unat b div 16 < 16" by (intro less_mult_imp_div_less) simp
qed simp

lemma hex_byte_lower: "list_all lower_hex (hex_byte b)"
  by (simp add: hex_byte_def lower_hex_digit unat_byte_bound)

lemma length_hex_byte [simp]: "length (hex_byte b) = 2"
  by (simp add: hex_byte_def)

lemma digits_val_byte: "digits_val 16 acc (hex_byte b @ ds) = digits_val 16 (256 * acc + unat b) ds"
proof -
  have "16 * (16 * acc + unat b div 16) + unat b mod 16 = 256 * acc + (unat b div 16 * 16 + unat b mod 16)"
    by simp
  also have "\<dots> = 256 * acc + unat b" by (simp only: div_mult_mod_eq)
  finally show ?thesis by (simp add: hex_byte_def digit_val_hex unat_byte_bound add.commute)
qed

lemma hex_lower: "list_all lower_hex (concat (map hex_byte bs))"
  using hex_byte_lower by (induction bs) (auto simp: list_all_append)

lemma length_hex: "length (concat (map hex_byte bs)) = 2 * length bs"
  by (induction bs) auto

subsection \<open>The time in an identifier\<close>

lemma uint_time_byte: "uint (time_byte k ts) = ts div 2 ^ k mod 256"
proof -
  have "(0xff :: int) = mask 8" by (simp add: mask_eq_exp_minus_1)
  then have "drop_bit k ts AND 0xff = ts div 2 ^ k mod 256"
    by (simp only: flip: take_bit_eq_mask) (simp add: take_bit_eq_mod drop_bit_eq_div)
  then show ?thesis by (simp add: time_byte_def uint_word_of_int)
qed

lemma time_step: "0 < m \<Longrightarrow> 256 * (ts div 2 ^ (k + 8) mod m) + ts div 2 ^ k mod 256 = ts div 2 ^ k mod (256 * m)"
  for ts m :: int
  by (simp add: power_add zdiv_zmult2_eq zmod_zmult2_eq)

text \<open>The digits of the bytes from the \<open>n\<close>-th down, after digits whose value is \<open>acc\<close>.\<close>

lemma digits_time_bytes:
  assumes "int acc = ts div 2 ^ (8 * n) mod m" and "0 < m"
  shows "int (digits_val 16 acc (concat (map (\<lambda>j. hex_byte (time_byte (8 * j) ts)) (rev [0..<n])))) = ts mod (256 ^ n * m)"
  using assms
proof (induction n arbitrary: acc m)
  case (Suc n)
  let ?acc = "256 * acc + unat (time_byte (8 * n) ts)"
  have "int acc = ts div 2 ^ (8 * n + 8) mod m" using Suc.prems(1) by (simp add: add.commute)
  then have "int ?acc = 256 * (ts div 2 ^ (8 * n + 8) mod m) + ts div 2 ^ (8 * n) mod 256"
    by (simp add: uint_time_byte)
  also have "\<dots> = ts div 2 ^ (8 * n) mod (256 * m)" by (rule time_step [OF Suc.prems(2)])
  finally have "int (digits_val 16 ?acc (concat (map (\<lambda>j. hex_byte (time_byte (8 * j) ts)) (rev [0..<n])))) =
      ts mod (256 ^ n * (256 * m))"
    using Suc.IH [of ?acc "256 * m"] Suc.prems(2) by simp
  then show ?case by (simp add: digits_val_byte ac_simps)
qed simp

definition time_hex :: "int \<Rightarrow> string" where
  "time_hex ts = concat (map (\<lambda>k. hex_byte (time_byte k ts)) [40, 32, 24, 16, 8, 0])"

lemma time_digits: "int (digits_val 16 0 (time_hex ts)) = ts mod 2 ^ 48"
proof -
  have "time_hex ts = concat (map (\<lambda>j. hex_byte (time_byte (8 * j) ts)) (rev [0..<6]))"
    by (simp add: time_hex_def upt_rec numeral_nat del: upt_Suc)
  then show ?thesis using digits_time_bytes [of 0 ts 6 1] by simp
qed

definition tail_hex :: "byte list \<Rightarrow> string" where
  "tail_hex r = concat (map hex_byte (drop 6 (uuid_bytes 0 r)))"

lemma uuid_hex: "concat (map hex_byte (uuid_bytes ts r)) = time_hex ts @ tail_hex r"
  by (simp add: uuid_bytes_def time_hex_def tail_hex_def)

lemma length_time_hex [simp]: "length (time_hex ts) = 12"
  by (simp add: time_hex_def)

lemma length_tail_hex [simp]: "length (tail_hex r) = 20"
  by (simp add: tail_hex_def uuid_bytes_def)

lemma time_hex_lower: "list_all lower_hex (time_hex ts)"
  by (simp add: time_hex_def hex_byte_lower)

lemma tail_hex_lower: "list_all lower_hex (tail_hex r)"
  by (simp add: tail_hex_def hex_lower)

lemma uuidv7_eq:
  "uuidv7 ts r = take 8 (time_hex ts) @ ''-'' @ drop 8 (time_hex ts) @ ''-'' @ take 4 (tail_hex r) @ ''-'' @
     take 4 (drop 4 (tail_hex r)) @ ''-'' @ drop 8 (tail_hex r)"
  by (simp add: uuidv7_def uuid_hex Prelude.slice_def)

text \<open>The dashes are the only characters that are not digits.\<close>

lemma filter_lower: "list_all lower_hex s \<Longrightarrow> filter (\<lambda>c. c \<noteq> CHR ''-'') s = s"
  by (induction s) (auto dest: lower_hex_neq)

lemma lower_take: "list_all lower_hex s \<Longrightarrow> list_all lower_hex (take n s)"
  by (auto simp: list_all_iff dest: in_set_takeD)

lemma lower_drop: "list_all lower_hex s \<Longrightarrow> list_all lower_hex (drop n s)"
  by (auto simp: list_all_iff dest: in_set_dropD)

lemmas lower_parts = lower_take lower_drop time_hex_lower tail_hex_lower

lemma strip_uuidv7: "filter (\<lambda>c. c \<noteq> CHR ''-'') (uuidv7 ts r) = time_hex ts @ tail_hex r"
proof -
  have "take 4 (tail_hex r) @ take 4 (drop 4 (tail_hex r)) @ drop 8 (tail_hex r) = tail_hex r"
    using append_take_drop_id [of 4 "tail_hex r"] append_take_drop_id [of 4 "drop 4 (tail_hex r)"] by simp
  then show ?thesis by (simp add: uuidv7_eq filter_lower lower_parts flip: append_assoc)
qed

lemma split_at_dash:
  "CHR ''-'' \<notin> set p \<Longrightarrow> split_at_char CHR ''-'' (p @ CHR ''-'' # s) = p # split_at_char CHR ''-'' s"
  by (induction p) (auto split: list.split)

lemma split_no_dash: "CHR ''-'' \<notin> set p \<Longrightarrow> split_at_char CHR ''-'' p = [p]"
  by (induction p) auto

lemma lower_no_dash: "list_all lower_hex s \<Longrightarrow> CHR ''-'' \<notin> set s"
  using lower_hex_neq(1) by (auto simp: list_all_iff)

lemma lower_all_hex: "list_all lower_hex s \<Longrightarrow> list_all is_hex_char s"
  by (auto simp: list_all_iff lower_hex_is_hex)

lemma is_uuid_uuidv7: "is_uuid_text (uuidv7 ts r)"
proof -
  have "split_at_char CHR ''-'' (uuidv7 ts r) =
      [take 8 (time_hex ts), drop 8 (time_hex ts), take 4 (tail_hex r), take 4 (drop 4 (tail_hex r)), drop 8 (tail_hex r)]"
    by (simp add: uuidv7_eq split_at_dash split_no_dash lower_no_dash lower_parts)
  then show ?thesis by (simp add: is_uuid_text_def lower_all_hex lower_parts)
qed

lemma parse_int16_lower:
  assumes "list_all lower_hex s" and "s \<noteq> []"
  shows "parse_int16 s = fl (of_nat (digits_val 16 0 s))"
proof -
  obtain c cs where s: "s = c # cs" using assms(2) by (cases s) auto
  with assms(1) have c: "lower_hex c" "c \<noteq> CHR ''-''" "c \<noteq> CHR ''+''" "\<not> is_space c"
    using lower_hex_neq [of c] by auto
  have "take 2 s \<noteq> ''0x'' \<and> take 2 s \<noteq> ''0X''"
    using assms(1) lower_hex_neq(2,3) by (cases cs) (auto simp: s)
  moreover have "list_all (\<lambda>c. digit_val c < 16) s"
    using lower_all_hex [OF assms(1)] by (simp add: list_all_iff is_hex_char_def)
  moreover have "dropWhile is_space s = s" using c by (simp add: s)
  moreover have "takeWhile (\<lambda>c. digit_val c < 16) s = s"
    using lower_all_hex [OF assms(1)] by (auto simp: takeWhile_eq_all_conv list_all_iff is_hex_char_def)
  moreover have "\<not> (s \<noteq> [] \<and> hd s = CHR ''-'')" "\<not> (s \<noteq> [] \<and> hd s \<in> {CHR ''-'', CHR ''+''})"
    using c by (auto simp: s)
  ultimately show ?thesis
    using assms(2) by (simp add: parse_int16_def radix_num_def Let_def del: takeWhile_eq_all_conv)
qed

lemma version_digit: "tail_hex r ! 0 = CHR ''7''"
proof -
  have "unat ((b AND 0x0f) OR 0x70 :: byte) div 16 = 7" for b :: byte
  proof -
    have "drop_bit 4 ((b AND 0x0f) OR 0x70) = drop_bit 4 (0x70 :: byte) OR (drop_bit 4 b AND drop_bit 4 0x0f)"
      by (simp only: drop_bit_or drop_bit_and or.commute)
    also have "\<dots> = 7" by simp
    finally have "drop_bit 4 ((b AND 0x0f) OR 0x70) = (7 :: byte)" .
    then have "unat (drop_bit 4 ((b AND 0x0f) OR 0x70 :: byte)) = 7" by (simp only:) simp
    then show ?thesis by (simp only: unat_drop_bit_eq) (simp add: drop_bit_eq_div)
  qed
  moreover have "char_of (55 :: nat) = CHR ''7''" by code_simp
  ultimately show ?thesis by (simp add: tail_hex_def uuid_bytes_def hex_byte_def hex_digit_def)
qed

lemma timestamp_uuidv7: "uuidv7_timestamp (uuidv7 ts r) = Some (Fin (of_int (ts mod 2 ^ 48)))"
proof -
  let ?n = "digits_val 16 0 (time_hex ts)"
  have n: "int ?n = ts mod 2 ^ 48" by (rule time_digits)
  moreover have "ts mod 2 ^ 48 < 2 ^ 48" by (rule pos_mod_bound) simp
  ultimately have "\<bar>int ?n\<bar> < 2 ^ 53" by simp
  then have "fl (of_int (int ?n)) = Fin (of_int (int ?n))" by (rule fl_int)
  then have "fl (of_nat ?n) = Fin (of_int (ts mod 2 ^ 48))" by (simp only: n [symmetric] of_int_of_nat_eq)
  moreover have "parse_int16 (time_hex ts) = fl (of_nat ?n)"
    using parse_int16_lower [OF time_hex_lower, of ts] by (metis length_time_hex list.size(3) zero_neq_numeral)
  ultimately show ?thesis
    using version_digit [of r] by (simp add: uuidv7_timestamp_def strip_uuidv7 nth_append)
qed

subsection \<open>The order of identifiers\<close>

text \<open>\<open>precedes xs ys\<close>: the texts differ, and at their first difference \<open>xs\<close> has the smaller character.\<close>

fun precedes :: "string \<Rightarrow> string \<Rightarrow> bool" where
  "precedes (x # xs) (y # ys) \<longleftrightarrow> (if x = y then precedes xs ys else cu x < cu y)"
| "precedes _ _ \<longleftrightarrow> False"

lemma precedes_append: "length xs = length ys \<Longrightarrow> precedes (xs @ us) (ys @ vs) \<longleftrightarrow> precedes xs ys \<or> (xs = ys \<and> precedes us vs)"
  by (induction xs ys rule: list_induct2) auto

lemma less_char_cu: "c < d \<longleftrightarrow> cu c < cu d"
  by (simp add: cu_def less_char_def)

lemma precedes_less: "precedes xs ys \<Longrightarrow> xs < ys"
  by (induction xs ys rule: precedes.induct) (auto simp: less_char_cu split: if_splits)

lemma digits_val_bounds:
  "list_all lower_hex ds \<Longrightarrow> acc * 16 ^ length ds \<le> digits_val 16 acc ds \<and> digits_val 16 acc ds < (acc + 1) * 16 ^ length ds"
proof (induction ds arbitrary: acc)
  case (Cons d ds)
  then have "digit_val d < 16" using lower_hex_is_hex by (auto simp: is_hex_char_def)
  then have "16 * acc \<le> 16 * acc + digit_val d" "16 * acc + digit_val d + 1 \<le> 16 * (acc + 1)" by simp_all
  then have "16 * acc * 16 ^ length ds \<le> (16 * acc + digit_val d) * 16 ^ length ds"
      "(16 * acc + digit_val d + 1) * 16 ^ length ds \<le> 16 * (acc + 1) * 16 ^ length ds"
    by (intro mult_right_mono; simp)+
  moreover have "(16 * acc + digit_val d) * 16 ^ length ds \<le> digits_val 16 (16 * acc + digit_val d) ds"
      "digits_val 16 (16 * acc + digit_val d) ds < (16 * acc + digit_val d + 1) * 16 ^ length ds"
    using Cons.IH [of "16 * acc + digit_val d"] Cons.prems by simp_all
  moreover have "acc * 16 ^ length (d # ds) = 16 * acc * 16 ^ length ds"
      "(acc + 1) * 16 ^ length (d # ds) = 16 * (acc + 1) * 16 ^ length ds" by (simp_all add: algebra_simps)
  ultimately show ?case by (simp only: digits_val.simps) linarith
qed simp

lemma digit_val_lower: "lower_hex c \<Longrightarrow> digit_val c = (if cu c \<le> 57 then cu c - 48 else cu c - 87)"
  by (auto simp: lower_hex_def digit_val_def is_digit_char_def is_lower_az_def)

lemma cu_inject: "cu c = cu d \<longleftrightarrow> c = d"
  by (simp add: cu_def)

lemma digit_val_inject: "lower_hex c \<Longrightarrow> lower_hex d \<Longrightarrow> digit_val c = digit_val d \<Longrightarrow> c = d"
  by (subst cu_inject [symmetric]) (auto simp: digit_val_lower lower_hex_def is_digit_char_def split: if_splits)

lemma cu_lower_hex: "lower_hex c \<Longrightarrow> lower_hex d \<Longrightarrow> digit_val c < digit_val d \<Longrightarrow> cu c < cu d"
  by (auto simp: digit_val_lower lower_hex_def is_digit_char_def split: if_splits)

lemma digits_precede:
  assumes "length xs = length ys" and "list_all lower_hex xs" and "list_all lower_hex ys"
    and "digits_val 16 acc xs < digits_val 16 acc ys"
  shows "precedes xs ys"
  using assms
proof (induction xs ys arbitrary: acc rule: list_induct2)
  case (Cons x xs y ys)
  show ?case
  proof (cases "x = y")
    case False
    have "digit_val x < digit_val y \<or> digit_val x = digit_val y \<or> digit_val y < digit_val x" by linarith
    moreover have "\<not> digit_val y < digit_val x"
    proof
      assume "digit_val y < digit_val x"
      then have "(16 * acc + digit_val y + 1) * 16 ^ length ys \<le> (16 * acc + digit_val x) * 16 ^ length xs"
        using Cons.hyps by (intro mult_mono) auto
      then show False
        using digits_val_bounds [of xs "16 * acc + digit_val x"] digits_val_bounds [of ys "16 * acc + digit_val y"] Cons.prems
        by simp
    qed
    moreover have "digit_val x \<noteq> digit_val y"
      using False Cons.prems digit_val_inject [of x y] by auto
    ultimately show ?thesis using False Cons.prems by (auto intro: cu_lower_hex)
  qed (use Cons in auto)
qed simp

lemma uuidv7_precedes:
  assumes "0 \<le> a" and "a < b" and "b < 2 ^ 48"
  shows "precedes (uuidv7 a r) (uuidv7 b q)"
proof -
  have "int (digits_val 16 0 (time_hex a)) < int (digits_val 16 0 (time_hex b))"
    using assms by (simp add: time_digits)
  then have "precedes (time_hex a) (time_hex b)"
    by (intro digits_precede [where acc = 0]) (simp_all add: time_hex_lower)
  then have "precedes (take 8 (time_hex a) @ drop 8 (time_hex a)) (take 8 (time_hex b) @ drop 8 (time_hex b))" by simp
  then have "precedes (take 8 (time_hex a)) (take 8 (time_hex b)) \<or>
      take 8 (time_hex a) = take 8 (time_hex b) \<and> precedes (drop 8 (time_hex a)) (drop 8 (time_hex b))"
    by (subst (asm) precedes_append) simp_all
  then show ?thesis by (auto simp: uuidv7_eq precedes_append)
qed

lemma tail_precedes: "precedes (tail_hex (replicate 10 0)) (tail_hex (replicate 10 255))"
proof -
  have "tail_hex (replicate 10 0) = ''700080'' @ replicate 14 CHR ''0''" by code_simp
  moreover have "tail_hex (replicate 10 255) = ''7fffbf'' @ replicate 14 CHR ''f''" by code_simp
  moreover have "cu CHR ''0'' < cu CHR ''f''" by code_simp
  ultimately show ?thesis by simp
qed

text \<open>C11: an identifier made at a clock reading of up to 48 bits has the shape of a uuid, gives the
  reading back, and compares below every identifier made at a later reading, whatever the random
  bytes; within one millisecond the random bytes decide, in either direction.\<close>

theorem uuidv7_sortable:
  assumes "0 \<le> a" and "a < b" and "b < 2 ^ 48"
  shows "is_uuid (JStr (uuidv7 a r)) \<and> uuidv7_timestamp (uuidv7 a r) = Some (Fin (of_int a)) \<and>
    uuidv7 a r < uuidv7 b q \<and> (\<exists>x y. uuidv7 a x < uuidv7 a y \<and> length x = 10 \<and> length y = 10)"
proof -
  have "uuidv7 a (replicate 10 0) < uuidv7 a (replicate 10 255)"
  proof (rule precedes_less)
    let ?x = "tail_hex (replicate 10 0)" and ?y = "tail_hex (replicate 10 255)"
    have "precedes (take 4 ?x @ take 4 (drop 4 ?x) @ drop 8 ?x) (take 4 ?y @ take 4 (drop 4 ?y) @ drop 8 ?y)"
      using tail_precedes append_take_drop_id [of 4 "drop 4 ?x"] append_take_drop_id [of 4 "drop 4 ?y"] by simp
    then show "precedes (uuidv7 a (replicate 10 0)) (uuidv7 a (replicate 10 255))"
      by (auto simp: uuidv7_eq precedes_append)
  qed
  then have "\<exists>x y. uuidv7 a x < uuidv7 a y \<and> length x = 10 \<and> length y = 10"
    by (intro exI [of _ "replicate 10 0"] exI [of _ "replicate 10 255"]) simp
  moreover have "uuidv7 a r < uuidv7 b q" by (rule precedes_less [OF uuidv7_precedes [OF assms]])
  moreover have "a mod 2 ^ 48 = a" using assms by simp
  ultimately show ?thesis using is_uuid_uuidv7 timestamp_uuidv7 [of a r] by (simp add: is_uuid_def)
qed

theorem uuidv7_sortable_witness:
  "is_uuid (JStr (uuidv7 1 (replicate 10 255))) \<and> uuidv7_timestamp (uuidv7 1 (replicate 10 255)) = Some (Fin 1) \<and>
   uuidv7 1 (replicate 10 255) < uuidv7 2 (replicate 10 0)"
  using uuidv7_sortable [of 1 2 "replicate 10 255" "replicate 10 0"] by simp

end
