(* ===== verification/Observation.thy ===== *)
theory Observation
  imports Uuid LayerSource
begin

text \<open>
  What the observation log stores and refuses: \<open>packages/engine/src/types.ts\<close>, \<open>validate.ts\<close>, \<open>cell.ts\<close> and
  \<open>lens.ts\<close>. The attributes of an observation are values as the caller hands them over, since the check
  looks at their types. The cell of a point comes from the h3 library and is a parameter.
\<close>

datatype js_date = Js_date "int option" | Not_date jsval

text \<open>\<open>Js_date None\<close> is an invalid date, whose time is not a number.\<close>

record observation =
  ob_id :: "string option"
  ob_txTime :: "js_date option"
  ob_validFrom :: js_date
  ob_validTo :: js_date
  ob_scope :: jsval
  ob_entity :: jsval
  ob_kind :: jsval
  ob_attrs :: jsval
  ob_geom :: jsval
  ob_cell :: jsval
  ob_author :: jsval
  ob_source :: jsval
  ob_parents :: jsval

datatype engine_error = Invalid_observation string string | Type_failure | Database_error

fun and_then :: "'e + 'a \<Rightarrow> ('a \<Rightarrow> 'e + 'b) \<Rightarrow> 'e + 'b" where
  "and_then (Inl e) f = Inl e"
| "and_then (Inr x) f = f x"

lemma and_then_Inr: "and_then r f = Inr y \<longleftrightarrow> (\<exists>x. r = Inr x \<and> f x = Inr y)"
  by (cases r) auto

lemma and_then_Inl: "and_then r f = Inl e \<longleftrightarrow> r = Inl e \<or> (\<exists>x. r = Inr x \<and> f x = Inl e)"
  by (cases r) auto

subsection \<open>The check before insertion\<close>

definition VALID_KINDS :: "string list" where
  "VALID_KINDS = [''create'', ''update'', ''delete'', ''derive'', ''observe'']"

fun nonempty_str :: "jsval \<Rightarrow> bool" where
  "nonempty_str (JStr s) = (s \<noteq> [])"
| "nonempty_str _ = False"

fun date_ok :: "js_date \<Rightarrow> bool" where
  "date_ok (Js_date (Some t)) = True"
| "date_ok _ = False"

fun not_after :: "js_date \<Rightarrow> js_date \<Rightarrow> bool" where
  "not_after (Js_date (Some a)) (Js_date (Some b)) = (a \<le> b)"
| "not_after _ _ = False"

fun check_parents :: "jsval list \<Rightarrow> engine_error + unit" where
  "check_parents [] = Inr ()"
| "check_parents (p # ps) =
     (if \<not> is_uuid p
      then Inl (Invalid_observation (''parents entry '' @ [CHR 0x22] @ js_string p @ [CHR 0x22] @ '' is not a UUID'') ''parents_invalid'')
      else check_parents ps)"

definition validate_observation :: "observation \<Rightarrow> engine_error + unit" where
  "validate_observation obs =
     (if \<not> nonempty_str (ob_scope obs)
      then Inl (Invalid_observation ''scope must be a non-empty string'' ''scope_required'')
      else if \<not> is_uuid (ob_entity obs)
      then Inl (Invalid_observation ''entity must be a UUIDv7-shaped string'' ''entity_invalid'')
      else if ob_kind obs \<notin> JStr ` set VALID_KINDS
      then Inl (Invalid_observation (''kind must be one of '' @ join '', '' VALID_KINDS) ''kind_invalid'')
      else if \<not> date_ok (ob_validFrom obs)
      then Inl (Invalid_observation ''validFrom must be a valid Date'' ''valid_from_invalid'')
      else if ob_validTo obs \<noteq> Not_date JNull \<and> \<not> date_ok (ob_validTo obs)
      then Inl (Invalid_observation ''validTo must be a valid Date or null'' ''valid_to_invalid'')
      else if ob_validTo obs \<noteq> Not_date JNull \<and> not_after (ob_validTo obs) (ob_validFrom obs)
      then Inl (Invalid_observation ''validTo must be strictly after validFrom'' ''valid_range_invalid'')
      else if \<not> nonempty_str (field_of (ob_author obs) ''sub'')
      then Inl (Invalid_observation ''author.sub must be a non-empty string'' ''author_required'')
      else if \<not> nonempty_str (field_of (ob_source obs) ''kind'')
      then Inl (Invalid_observation ''source.kind must be a non-empty string'' ''source_required'')
      else case ob_parents obs of
             JArr _ ps \<Rightarrow> check_parents ps
           | _ \<Rightarrow> Inl (Invalid_observation ''parents must be an array (possibly empty)'' ''parents_invalid''))"

lemma check_parents_iff: "check_parents ps = Inr () \<longleftrightarrow> list_all is_uuid ps"
  by (induction ps) auto

text \<open>What an observation must be; the check accepts exactly these.\<close>

definition well_formed :: "observation \<Rightarrow> bool" where
  "well_formed obs \<longleftrightarrow>
     (\<exists>s. ob_scope obs = JStr s \<and> s \<noteq> []) \<and> (\<exists>e. ob_entity obs = JStr e \<and> is_uuid_text e) \<and>
     (\<exists>k \<in> set VALID_KINDS. ob_kind obs = JStr k) \<and>
     (\<exists>f. ob_validFrom obs = Js_date (Some f) \<and>
        (ob_validTo obs = Not_date JNull \<or> (\<exists>t. ob_validTo obs = Js_date (Some t) \<and> f < t))) \<and>
     (\<exists>u. field_of (ob_author obs) ''sub'' = JStr u \<and> u \<noteq> []) \<and>
     (\<exists>k. field_of (ob_source obs) ''kind'' = JStr k \<and> k \<noteq> []) \<and>
     (\<exists>a ps. ob_parents obs = JArr a ps \<and> list_all is_uuid ps)"

lemma nonempty_str_iff: "nonempty_str v \<longleftrightarrow> (\<exists>s. v = JStr s \<and> s \<noteq> [])"
  by (cases v) auto

lemma is_uuid_iff: "is_uuid v \<longleftrightarrow> (\<exists>e. v = JStr e \<and> is_uuid_text e)"
  by (cases v) (auto simp: is_uuid_def)

lemma date_ok_iff: "date_ok d \<longleftrightarrow> (\<exists>t. d = Js_date (Some t))"
  by (cases d rule: date_ok.cases) auto

lemma validate_observation_iff: "validate_observation obs = Inr () \<longleftrightarrow> well_formed obs"
proof -
  have "validate_observation obs = Inr () \<longleftrightarrow>
      nonempty_str (ob_scope obs) \<and> is_uuid (ob_entity obs) \<and> ob_kind obs \<in> JStr ` set VALID_KINDS \<and>
      date_ok (ob_validFrom obs) \<and>
      (ob_validTo obs = Not_date JNull \<or> date_ok (ob_validTo obs) \<and> \<not> not_after (ob_validTo obs) (ob_validFrom obs)) \<and>
      nonempty_str (field_of (ob_author obs) ''sub'') \<and> nonempty_str (field_of (ob_source obs) ''kind'') \<and>
      (\<exists>a ps. ob_parents obs = JArr a ps \<and> list_all is_uuid ps)"
    by (auto simp: validate_observation_def check_parents_iff split: jsval.splits)
  also have "\<dots> \<longleftrightarrow> well_formed obs"
    by (auto simp: well_formed_def nonempty_str_iff is_uuid_iff date_ok_iff not_le)
  finally show ?thesis .
qed

subsection \<open>Cells\<close>

definition H3_RESOLUTION :: nat where "H3_RESOLUTION = 7"

fun elem0 :: "jsval \<Rightarrow> jsval" where
  "elem0 (JArr _ (v # _)) = v"
| "elem0 (JStr (c # _)) = JStr [c]"
| "elem0 _ = Undef"

definition index0 :: "jsval \<Rightarrow> engine_error + jsval" where
  "index0 v = (if nullish v then Inl Type_failure else Inr (elem0 v))"

definition first_of :: "jsval \<Rightarrow> jsval" where
  "first_of v = (if truthy v \<and> elem0 v \<noteq> Undef then elem0 v else JNull)"

definition representative_point :: "jsval \<Rightarrow> engine_error + jsval" where
  "representative_point geom =
     (let t = field_of geom ''type''; coordinates = field_of geom ''coordinates'' in
      if t = JStr ''Point'' then Inr coordinates
      else if t \<in> {JStr ''MultiPoint'', JStr ''LineString''}
      then and_then (index0 coordinates) (\<lambda>p. Inr (coalesce p JNull))
      else if t \<in> {JStr ''MultiLineString'', JStr ''Polygon''}
      then and_then (index0 coordinates) (\<lambda>ring. Inr (coalesce (first_of ring) JNull))
      else if t = JStr ''MultiPolygon''
      then and_then (index0 coordinates) (\<lambda>poly. Inr (coalesce (first_of (first_of poly)) JNull))
      else Inr JNull)"

text \<open>Destructuring a pair takes a value that can be iterated.\<close>

fun pair_of :: "jsval \<Rightarrow> engine_error + jsval \<times> jsval" where
  "pair_of (JArr _ []) = Inr (Undef, Undef)"
| "pair_of (JArr _ [a]) = Inr (a, Undef)"
| "pair_of (JArr _ (a # b # _)) = Inr (a, b)"
| "pair_of (JStr []) = Inr (Undef, Undef)"
| "pair_of (JStr [c]) = Inr (JStr [c], Undef)"
| "pair_of (JStr (c # d # _)) = Inr (JStr [c], JStr [d])"
| "pair_of _ = Inl Type_failure"

type_synonym h3_cell = "jsval \<Rightarrow> jsval \<Rightarrow> nat \<Rightarrow> engine_error + string"

definition cell_for_geometry :: "h3_cell \<Rightarrow> jsval \<Rightarrow> engine_error + jsval" where
  "cell_for_geometry h3 geom =
     (if geom = JNull then Inr JNull
      else if geom = Undef then Inl Type_failure
      else and_then (representative_point geom) (\<lambda>point.
             if point = JNull then Inr JNull
             else and_then (pair_of point) (\<lambda>(lng, lat).
                    and_then (h3 lat lng H3_RESOLUTION) (\<lambda>c. Inr (JStr c)))))"

subsection \<open>The box of a geometry\<close>

type_synonym bbox = "jsnum \<times> jsnum \<times> jsnum \<times> jsnum"

fun visit_coord :: "jsval list \<Rightarrow> bbox \<Rightarrow> bbox" where
  "visit_coord (JNum x # JNum y # _) (minX, minY, maxX, maxY) =
     (if n_lt x minX then x else minX, if n_lt y minY then y else minY,
      if n_lt maxX x then x else maxX, if n_lt maxY y then y else maxY)"
| "visit_coord _ b = b"

fun walk_coords :: "jsval \<Rightarrow> bbox \<Rightarrow> bbox" where
  "walk_coords (JArr _ vs) b =
     (if vs \<noteq> [] \<and> is_num (hd vs) then visit_coord vs b else fold walk_coords vs b)"
| "walk_coords _ b = b"

definition bbox_from_geometry :: "jsval \<Rightarrow> string + bbox" where
  "bbox_from_geometry geom =
     (let (minX, minY, maxX, maxY) = walk_coords (field_of geom ''coordinates'') (PInf, PInf, NInf, NInf)
      in if \<not> is_finite minX then Inl ''bboxFromGeometry: geometry has no usable coordinates''
         else Inr (minX, minY, maxX, maxY))"

definition is_lens :: "jsval \<Rightarrow> bool" where
  "is_lens v \<longleftrightarrow>
     is_object_like v \<and> is_str (field_of v ''id'') \<and> is_str (field_of v ''name'') \<and>
     is_arr (field_of (field_of v ''query'') ''scopes'') \<and> is_str (field_of (field_of v ''render'') ''kind'')"

end
