(* ===== verification/ObsLog.thy ===== *)
theory ObsLog
  imports Observation
begin

text \<open>
  The observation log and the service that writes and reads it:
  \<open>apps/portal-api/src/engine/engine.service.ts\<close> over the table of the migration
  \<open>20260507120000_engine_observation_log\<close>. A log is the list of its rows; a row is only ever added. The
  database keeps identifiers in lower case, keeps of a payload what \<open>JSON.stringify\<close> writes, and decides
  between rows with equal sort keys by their place in the list. What PostGIS does with a geometry is a
  parameter: \<open>g_store\<close> gives the GeoJSON the database answers for one it was given, or refuses it.
  Fresh identifiers and clock readings are arguments.
\<close>

record row =
  o_id :: string
  o_tx :: int
  o_from :: int
  o_to :: "int option"
  o_scope :: string
  o_entity :: string
  o_kind :: string
  o_attrs :: jsval
  o_geom :: jsval
  o_cell :: jsval
  o_author :: string
  o_source :: jsval
  o_parents :: "string list"

type_synonym log = "row list"

record gis =
  g_cell :: h3_cell
  g_store :: "jsval \<Rightarrow> jsval option"
  g_overlaps :: "jsval \<Rightarrow> jsval list \<Rightarrow> bool"
  g_intersects :: "jsval \<Rightarrow> jsval \<Rightarrow> bool"

subsection \<open>Insertion\<close>

text \<open>A payload after \<open>JSON.stringify\<close> and \<open>jsonb\<close>, but for the order of its keys.\<close>

fun json_value :: "jsval \<Rightarrow> jsval"
  and json_pairs :: "(string \<times> jsval) list \<Rightarrow> (string \<times> jsval) list" where
  "json_value Undef = JNull"
| "json_value (JNum n) = (if is_finite n then JNum n else JNull)"
| "json_value (JArr a vs) = JArr a (map json_value vs)"
| "json_value (JObj a m) = JObj a (json_pairs m)"
| "json_value v = v"
| "json_pairs [] = []"
| "json_pairs ((k, v) # m) = (if v = Undef then [] else [(k, json_value v)]) @ json_pairs m"

definition uuid_column :: "jsval \<Rightarrow> engine_error + string" where
  "uuid_column v = (case v of JStr s \<Rightarrow> if is_uuid_text s then Inr (to_lower s) else Inl Database_error | _ \<Rightarrow> Inl Database_error)"

fun uuid_columns :: "jsval list \<Rightarrow> engine_error + string list" where
  "uuid_columns [] = Inr []"
| "uuid_columns (v # vs) = and_then (uuid_column v) (\<lambda>s. and_then (uuid_columns vs) (\<lambda>ss. Inr (s # ss)))"

fun text_column :: "jsval \<Rightarrow> engine_error + string" where
  "text_column (JStr s) = Inr s"
| "text_column _ = Inl Database_error"

fun time_column :: "js_date \<Rightarrow> engine_error + int option" where
  "time_column (Js_date (Some t)) = Inr (Some t)"
| "time_column (Not_date JNull) = Inr None"
| "time_column _ = Inl Database_error"

fun required :: "'a option \<Rightarrow> engine_error + 'a" where
  "required (Some x) = Inr x"
| "required None = Inl Database_error"

definition geom_column :: "gis \<Rightarrow> jsval \<Rightarrow> engine_error + jsval" where
  "geom_column g geom = (if geom = JNull then Inr JNull else required (g_store g (json_value geom)))"

definition insert_one :: "gis \<Rightarrow> observation \<Rightarrow> engine_error + row" where
  "insert_one g obs =
     and_then (uuid_column (case ob_id obs of None \<Rightarrow> Undef | Some s \<Rightarrow> JStr s)) (\<lambda>oid.
     and_then (and_then (time_column (case ob_txTime obs of None \<Rightarrow> Not_date Undef | Some t \<Rightarrow> t)) required) (\<lambda>tx.
     and_then (and_then (time_column (ob_validFrom obs)) required) (\<lambda>vfrom.
     and_then (time_column (ob_validTo obs)) (\<lambda>vto.
     and_then (text_column (ob_scope obs)) (\<lambda>scope.
     and_then (uuid_column (ob_entity obs)) (\<lambda>entity.
     and_then (text_column (ob_kind obs)) (\<lambda>kind.
     and_then (geom_column g (ob_geom obs)) (\<lambda>geom.
     and_then (text_column (field_of (ob_author obs) ''sub'')) (\<lambda>author.
     and_then (uuid_columns (case ob_parents obs of JArr _ ps \<Rightarrow> ps | _ \<Rightarrow> [Undef])) (\<lambda>parents.
       Inr \<lparr> o_id = oid, o_tx = tx, o_from = vfrom, o_to = vto, o_scope = scope, o_entity = entity, o_kind = kind,
             o_attrs = (if ob_attrs obs = JNull then JNull else json_value (ob_attrs obs)), o_geom = geom,
             o_cell = coalesce (ob_cell obs) JNull, o_author = author, o_source = json_value (ob_source obs),
             o_parents = parents \<rparr>))))))))))"

subsection \<open>The current row of an entity\<close>

definition older :: "row \<Rightarrow> row \<Rightarrow> bool" where
  "older r s \<longleftrightarrow> o_from r < o_from s \<or> o_from r = o_from s \<and> o_tx r < o_tx s"

text \<open>\<open>ORDER BY valid_from DESC, tx_time DESC LIMIT 1\<close>.\<close>

fun latest :: "log \<Rightarrow> row option" where
  "latest [] = None"
| "latest (r # rs) = (case latest rs of None \<Rightarrow> Some r | Some s \<Rightarrow> Some (if older r s then s else r))"

definition history :: "log \<Rightarrow> string \<Rightarrow> string \<Rightarrow> log" where
  "history lg scope entity = filter (\<lambda>r. o_scope r = scope \<and> o_entity r = entity) lg"

definition head_of :: "log \<Rightarrow> string \<Rightarrow> string \<Rightarrow> row option" where
  "head_of lg scope entity = latest (history lg scope (to_lower entity))"

subsection \<open>Writing\<close>

definition complete :: "gis \<Rightarrow> observation \<Rightarrow> string \<Rightarrow> int \<Rightarrow> engine_error + observation" where
  "complete g input fresh now =
     and_then (if nullish (ob_cell input) then cell_for_geometry (g_cell g) (ob_geom input) else Inr (ob_cell input)) (\<lambda>cell.
       let obs = input\<lparr> ob_id := Some (case ob_id input of None \<Rightarrow> fresh | Some i \<Rightarrow> i),
                        ob_txTime := Some (case ob_txTime input of None \<Rightarrow> Js_date (Some now) | Some t \<Rightarrow> t),
                        ob_cell := cell \<rparr>
       in and_then (validate_observation obs) (\<lambda>_. Inr obs))"

definition write_one :: "gis \<Rightarrow> observation \<Rightarrow> string \<Rightarrow> int \<Rightarrow> log \<Rightarrow> engine_error + (log \<times> observation)" where
  "write_one g input fresh now lg =
     and_then (complete g input fresh now) (\<lambda>obs.
     and_then (insert_one g obs) (\<lambda>r. Inr (lg @ [r], obs)))"

datatype guarded = Written observation | Head_conflict "string option"

definition write_if_head ::
  "gis \<Rightarrow> observation \<Rightarrow> string \<Rightarrow> int \<Rightarrow> string \<Rightarrow> log \<Rightarrow> engine_error + (log \<times> guarded)" where
  "write_if_head g input fresh now expectedHeadId lg =
     and_then (complete g input fresh now) (\<lambda>obs.
     and_then (text_column (ob_scope obs)) (\<lambda>scope.
     and_then (text_column (ob_entity obs)) (\<lambda>entity.
       let headId = map_option o_id (head_of lg scope entity)
       in if headId = None \<or> headId \<noteq> Some expectedHeadId then Inr (lg, Head_conflict headId)
          else and_then (insert_one g obs) (\<lambda>r. Inr (lg @ [r], Written obs)))))"

definition WRITE_BATCH_SIZE :: nat where "WRITE_BATCH_SIZE = 2000"

fun complete_all :: "gis \<Rightarrow> (nat \<Rightarrow> string) \<Rightarrow> (nat \<Rightarrow> int) \<Rightarrow> nat \<Rightarrow> observation list \<Rightarrow> engine_error + observation list" where
  "complete_all g fresh now i [] = Inr []"
| "complete_all g fresh now i (ob # obs) =
     and_then (if nullish (ob_cell ob) then cell_for_geometry (g_cell g) (ob_geom ob) else Inr (ob_cell ob)) (\<lambda>cell.
     and_then (complete_all g fresh now (i + 1) obs) (\<lambda>rest.
       Inr (ob\<lparr> ob_id := Some (case ob_id ob of None \<Rightarrow> fresh i | Some x \<Rightarrow> x),
                ob_txTime := Some (case ob_txTime ob of None \<Rightarrow> Js_date (Some (now i)) | Some t \<Rightarrow> t),
                ob_cell := cell \<rparr> # rest)))"

fun validate_all_observations :: "observation list \<Rightarrow> engine_error + unit" where
  "validate_all_observations [] = Inr ()"
| "validate_all_observations (ob # obs) = and_then (validate_observation ob) (\<lambda>_. validate_all_observations obs)"

fun insert_rows :: "gis \<Rightarrow> observation list \<Rightarrow> engine_error + row list" where
  "insert_rows g [] = Inr []"
| "insert_rows g (ob # obs) = and_then (insert_one g ob) (\<lambda>r. and_then (insert_rows g obs) (\<lambda>rs. Inr (r # rs)))"

text \<open>A batch is one statement: all its rows or none. Batches before a failing one stay.\<close>

function write_batches :: "gis \<Rightarrow> observation list \<Rightarrow> log \<Rightarrow> log \<times> (engine_error + unit)" where
  "write_batches g obs lg =
     (if obs = [] then (lg, Inr ())
      else case insert_rows g (take WRITE_BATCH_SIZE obs) of
             Inl e \<Rightarrow> (lg, Inl e)
           | Inr rs \<Rightarrow> write_batches g (drop WRITE_BATCH_SIZE obs) (lg @ rs))"
  by pat_completeness auto
termination by (relation "measure (\<lambda>(_, obs, _). length obs)") (auto simp: WRITE_BATCH_SIZE_def)

declare write_batches.simps [simp del]

definition write_many ::
  "gis \<Rightarrow> (nat \<Rightarrow> string) \<Rightarrow> (nat \<Rightarrow> int) \<Rightarrow> observation list \<Rightarrow> log \<Rightarrow> log \<times> (engine_error + observation list)" where
  "write_many g fresh now inputs lg =
     (case complete_all g fresh now 0 inputs of
        Inl e \<Rightarrow> (lg, Inl e)
      | Inr filled \<Rightarrow>
          (case validate_all_observations filled of
             Inl e \<Rightarrow> (lg, Inl e)
           | Inr _ \<Rightarrow> (case write_batches g filled lg of
                         (lg', Inl e) \<Rightarrow> (lg', Inl e)
                       | (lg', Inr _) \<Rightarrow> (lg', Inr filled))))"

subsection \<open>Reading\<close>

text \<open>\<open>SELECT DISTINCT ON (entity) ... ORDER BY entity, valid_from DESC, tx_time DESC\<close>.\<close>

definition entities :: "log \<Rightarrow> string list" where
  "entities rs = sort (remdups (map o_entity rs))"

definition current_of :: "log \<Rightarrow> string \<Rightarrow> row list" where
  "current_of rs e = (case latest (filter (\<lambda>r. o_entity r = e) rs) of None \<Rightarrow> [] | Some r \<Rightarrow> [r])"

definition distinct_on_entity :: "log \<Rightarrow> row list" where
  "distinct_on_entity rs = concat (map (current_of rs) (entities rs))"

record read_query =
  q_scope :: string
  q_entity :: "string option"
  q_asOf :: "int option"
  q_limit :: "nat option"

record read_feature =
  rf_id :: string
  rf_geometry :: jsval
  rf_properties :: obj

definition attrs_of :: "jsval \<Rightarrow> obj" where
  "attrs_of v = (case v of JObj _ m \<Rightarrow> m | _ \<Rightarrow> [])"

definition iso_or_null :: "(int \<Rightarrow> string) \<Rightarrow> int option \<Rightarrow> jsval" where
  "iso_or_null stamp t = (case t of None \<Rightarrow> JNull | Some x \<Rightarrow> JStr (stamp x))"

definition engine_feature :: "(int \<Rightarrow> string) \<Rightarrow> row \<Rightarrow> read_feature" where
  "engine_feature stamp r =
     \<lparr> rf_id = o_entity r, rf_geometry = o_geom r,
       rf_properties = spread (attrs_of (o_attrs r))
         [(''__engine'', JObj 0
             [(''observationId'', JStr (o_id r)), (''validFrom'', JStr (stamp (o_from r))),
              (''validTo'', iso_or_null stamp (o_to r)), (''txTime'', JStr (stamp (o_tx r))),
              (''kind'', JStr (o_kind r)), (''authorSub'', JStr (o_author r))])] \<rparr>"

definition read_rows :: "read_query \<Rightarrow> int \<Rightarrow> log \<Rightarrow> engine_error + row list" where
  "read_rows query now lg =
     (let asOf = (case q_asOf query of None \<Rightarrow> now | Some t \<Rightarrow> t);
          limit = (case q_limit query of None \<Rightarrow> 1000 | Some n \<Rightarrow> n)
      in and_then (case q_entity query of None \<Rightarrow> Inr None | Some e \<Rightarrow> and_then (uuid_column (JStr e)) (\<lambda>u. Inr (Some u))) (\<lambda>entity.
           let visible = filter (\<lambda>r. o_scope r = q_scope query \<and> o_from r \<le> asOf \<and>
                                     (entity = None \<or> entity = Some (o_entity r))) lg
           in Inr (take limit (filter (\<lambda>r. o_kind r \<noteq> ''delete'') (distinct_on_entity visible)))))"

definition read_features :: "(int \<Rightarrow> string) \<Rightarrow> read_query \<Rightarrow> int \<Rightarrow> log \<Rightarrow> engine_error + read_feature list" where
  "read_features stamp query now lg = and_then (read_rows query now lg) (\<lambda>rs. Inr (map (engine_feature stamp) rs))"

subsection \<open>The latest row\<close>

lemma latest_None [simp]: "latest rs = None \<longleftrightarrow> rs = []"
  by (cases rs) (auto split: option.splits)

lemma latest_in: "latest rs = Some r \<Longrightarrow> r \<in> set rs"
  by (induction rs arbitrary: r) (auto split: option.splits if_splits)

lemma older_trans: "older a b \<Longrightarrow> older b c \<Longrightarrow> older a c"
  by (auto simp: older_def)

lemma older_irrefl [simp]: "\<not> older a a"
  by (simp add: older_def)

lemma not_older_trans: "\<not> older a b \<Longrightarrow> \<not> older b c \<Longrightarrow> \<not> older a c"
  by (auto simp: older_def)

lemma latest_max: "latest rs = Some r \<Longrightarrow> s \<in> set rs \<Longrightarrow> \<not> older r s"
proof (induction rs arbitrary: r s)
  case (Cons x xs)
  show ?case
  proof (cases "latest xs")
    case (Some t)
    have t: "\<not> older t y" if "y \<in> set xs" for y using Cons.IH [OF Some that] .
    show ?thesis
    proof (cases "older x t")
      case True
      with Cons.prems(1) Some have "r = t" by simp
      then show ?thesis using Cons.prems(2) t True older_trans [of t x t] by auto
    next
      case False
      with Cons.prems(1) Some have "r = x" by simp
      then show ?thesis using Cons.prems(2) t False not_older_trans [of x t s] by auto
    qed
  qed (use Cons.prems in auto)
qed simp

text \<open>Rows that are older than a row after them do not decide.\<close>

lemma latest_append_older:
  assumes "latest rs = Some r" and "\<forall>s \<in> set ss. older s r"
  shows "latest (rs @ ss) = Some r"
  using assms
proof (induction rs arbitrary: r)
  case (Cons x xs)
  show ?case
  proof (cases "latest xs")
    case None
    then have "xs = []" "r = x" using Cons.prems(1) by simp_all
    moreover have "latest ss = None \<or> (\<exists>s. latest ss = Some s \<and> older s x)"
      using Cons.prems(2) \<open>r = x\<close> latest_in by (cases "latest ss") auto
    ultimately show ?thesis using older_trans [of _ x _] by (auto simp: older_def)
  next
    case (Some t)
    show ?thesis
    proof (cases "older x t")
      case True
      with Cons.prems Some have "r = t" by simp
      then show ?thesis using Cons.IH [OF Some] Cons.prems(2) True by simp
    next
      case False
      with Cons.prems Some have r: "r = x" by simp
      have "xs \<noteq> []" using Some by auto
      then have "latest (xs @ ss) \<noteq> None" by simp
      then obtain u where u: "latest (xs @ ss) = Some u" by blast
      then have "u \<in> set xs \<or> u \<in> set ss" using latest_in by fastforce
      then have "\<not> older x u" using latest_max [OF Cons.prems(1)] Cons.prems(2) older_trans [of x u x] by (auto simp: r)
      then show ?thesis by (simp add: u r)
    qed
  qed
qed simp

lemma latest_append_newer:
  assumes "\<forall>s \<in> set rs. older s r"
  shows "latest (rs @ [r]) = Some r"
  using assms by (induction rs) auto

lemma set_entities [simp]: "set (entities rs) = o_entity ` set rs"
  by (simp add: entities_def)

lemma sorted_entities [simp]: "sorted (entities rs)" "distinct (entities rs)"
  by (simp_all add: entities_def)

lemma sorted_wrt_entities [simp]: "sorted_wrt (<) (entities rs)"
  by (simp add: strict_sorted_iff)

lemma current_of_entity: "r \<in> set (current_of rs e) \<Longrightarrow> r \<in> set rs \<and> o_entity r = e"
  by (auto simp: current_of_def split: option.splits dest: latest_in [OF sym])

lemma current_of_nonempty: "e \<in> o_entity ` set rs \<Longrightarrow> \<exists>r. current_of rs e = [r] \<and> o_entity r = e"
proof -
  assume "e \<in> o_entity ` set rs"
  then have "latest (filter (\<lambda>r. o_entity r = e) rs) \<noteq> None" by (auto simp: filter_empty_conv)
  then obtain r where r: "latest (filter (\<lambda>r. o_entity r = e) rs) = Some r" by blast
  then have "o_entity r = e" using latest_in [OF r] by simp
  then show ?thesis using r by (simp add: current_of_def)
qed

lemma distinct_on_entity_keys: "map o_entity (distinct_on_entity rs) = entities rs"
proof -
  have "map o_entity (concat (map (current_of rs) es)) = es" if "set es \<subseteq> o_entity ` set rs" for es
    using that
  proof (induction es)
    case (Cons e es)
    then obtain r where "current_of rs e = [r]" "o_entity r = e" using current_of_nonempty [of e rs] by auto
    then show ?case using Cons by simp
  qed simp
  then show ?thesis by (simp add: distinct_on_entity_def)
qed

lemma set_distinct_on_entity:
  "r \<in> set (distinct_on_entity rs) \<longleftrightarrow> latest (filter (\<lambda>s. o_entity s = o_entity r) rs) = Some r"
proof
  assume "r \<in> set (distinct_on_entity rs)"
  then obtain e where e: "r \<in> set (current_of rs e)" by (auto simp: distinct_on_entity_def)
  then have "o_entity r = e" using current_of_entity by blast
  with e show "latest (filter (\<lambda>s. o_entity s = o_entity r) rs) = Some r" by (auto simp: current_of_def split: option.splits)
next
  assume r: "latest (filter (\<lambda>s. o_entity s = o_entity r) rs) = Some r"
  then have "o_entity r \<in> set (entities rs)" using latest_in [OF r] by simp
  moreover have "r \<in> set (current_of rs (o_entity r))" using r by (simp add: current_of_def)
  ultimately show "r \<in> set (distinct_on_entity rs)" by (auto simp: distinct_on_entity_def simp del: set_entities)
qed

end
