(* ===== verification/LayerLog.thy ===== *)
theory LayerLog
  imports ObsLog
begin

text \<open>
  The writes of a layer of features: the \<open>write...\<close> methods of \<open>DataLayerEngine\<close> in
  \<open>apps/portal-api/src/engine/data-layer.ts\<close>. A write of several features counts them from 0; the
  fresh identifiers and the clock readings of the \<open>i\<close>-th are those of the \<open>clock\<close> at \<open>i\<close>. The advisory
  locks make a guarded write and an idempotent create one step each as far as other such writes are
  concerned; theory \<open>LayerRace\<close> takes them apart.
\<close>

record clock =
  k_entity :: "nat \<Rightarrow> string"
  k_id :: "nat \<Rightarrow> string"
  k_from :: "nat \<Rightarrow> int"
  k_tx :: "nat \<Rightarrow> int"

record feature_args =
  fa_itemId :: string
  fa_layerId :: string
  fa_principal :: jsval
  fa_source :: jsval
  fa_properties :: jsval
  fa_geometry :: jsval
  fa_globalId :: "string option"
  fa_expectedHead :: "string option"

definition DEFAULT_SOURCE :: jsval where
  "DEFAULT_SOURCE = JObj 0 [(''kind'', JStr ''data_layer:write'')]"

definition scope_of :: "feature_args \<Rightarrow> string" where
  "scope_of args = data_layer_scope (fa_itemId args) (fa_layerId args)"

definition layer_observation :: "string \<Rightarrow> string \<Rightarrow> int \<Rightarrow> feature_args \<Rightarrow> observation" where
  "layer_observation kind entity vfrom args =
     \<lparr> ob_id = None, ob_txTime = None, ob_validFrom = Js_date (Some vfrom), ob_validTo = Not_date JNull,
       ob_scope = JStr (scope_of args), ob_entity = JStr entity, ob_kind = JStr kind,
       ob_attrs = coalesce (fa_properties args) JNull, ob_geom = coalesce (fa_geometry args) JNull, ob_cell = Undef,
       ob_author = fa_principal args, ob_source = coalesce (fa_source args) DEFAULT_SOURCE, ob_parents = JArr 0 [] \<rparr>"

subsection \<open>Creating\<close>

definition entity_of :: "clock \<Rightarrow> nat \<Rightarrow> feature_args \<Rightarrow> string" where
  "entity_of k i args = (case fa_globalId args of None \<Rightarrow> k_entity k i | Some e \<Rightarrow> e)"

definition id_text :: "observation \<Rightarrow> string" where
  "id_text obs = (case ob_id obs of None \<Rightarrow> [] | Some i \<Rightarrow> i)"

definition write_feature_create ::
  "gis \<Rightarrow> clock \<Rightarrow> feature_args \<Rightarrow> log \<Rightarrow> engine_error + (log \<times> string \<times> string)" where
  "write_feature_create g k args lg =
     (let entity = entity_of k 0 args
      in and_then (write_one g (layer_observation ''create'' entity (k_from k 0) args) (k_id k 0) (k_tx k 0) lg)
           (\<lambda>(lg', obs). Inr (lg', entity, id_text obs)))"

record create_result =
  cr_globalId :: string
  cr_observationId :: "string option"
  cr_deduplicated :: bool

fun create_observations :: "clock \<Rightarrow> nat \<Rightarrow> feature_args list \<Rightarrow> observation list" where
  "create_observations k i [] = []"
| "create_observations k i (args # rest) =
     layer_observation ''create'' (entity_of k i args) (k_from k i) args # create_observations k (i + 1) rest"

definition created :: "observation \<Rightarrow> create_result" where
  "created obs = \<lparr> cr_globalId = js_string (ob_entity obs), cr_observationId = Some (id_text obs), cr_deduplicated = False \<rparr>"

definition write_features_create ::
  "gis \<Rightarrow> clock \<Rightarrow> feature_args list \<Rightarrow> log \<Rightarrow> log \<times> (engine_error + create_result list)" where
  "write_features_create g k inputs lg =
     (if inputs = [] then (lg, Inr [])
      else case write_many g (k_id k) (k_tx k) (create_observations k 0 inputs) lg of
             (lg', Inl e) \<Rightarrow> (lg', Inl e)
           | (lg', Inr written) \<Rightarrow> (lg', Inr (map created written)))"

subsection \<open>Creating at most once\<close>

definition lock_key :: "string \<Rightarrow> string \<Rightarrow> string" where
  "lock_key scope entity = scope @ ''|'' @ entity"

text \<open>The inputs that carry an identifier, with the number each has among them.\<close>

fun with_id :: "nat \<Rightarrow> feature_args list \<Rightarrow> (nat \<times> feature_args \<times> string) list" where
  "with_id i [] = []"
| "with_id i (args # rest) =
     (case fa_globalId args of None \<Rightarrow> with_id i rest | Some e \<Rightarrow> (i, args, e) # with_id (i + 1) rest)"

definition key_of :: "nat \<times> feature_args \<times> string \<Rightarrow> string" where
  "key_of w = (case w of (i, args, e) \<Rightarrow> lock_key (scope_of args) e)"

fun unique_rows ::
  "gis \<Rightarrow> clock \<Rightarrow> string list \<Rightarrow> (nat \<times> feature_args \<times> string) list \<Rightarrow> engine_error + (string \<times> observation) list" where
  "unique_rows g k seen [] = Inr []"
| "unique_rows g k seen (w # ws) =
     (if key_of w \<in> set seen then unique_rows g k seen ws
      else case w of (i, args, e) \<Rightarrow>
        and_then (cell_for_geometry (g_cell g) (coalesce (fa_geometry args) JNull)) (\<lambda>cell.
        let obs = (layer_observation ''create'' e (k_from k i) args)
                    \<lparr> ob_id := Some (k_id k i), ob_txTime := Some (Js_date (Some (k_tx k i))), ob_cell := cell \<rparr>
        in and_then (validate_observation obs) (\<lambda>_.
           and_then (unique_rows g k (key_of w # seen) ws) (\<lambda>rest. Inr ((key_of w, obs) # rest)))))"

definition alive :: "log \<Rightarrow> string \<Rightarrow> string \<Rightarrow> bool" where
  "alive lg scope entity = (case head_of lg scope entity of None \<Rightarrow> False | Some h \<Rightarrow> o_kind h \<noteq> ''delete'')"

text \<open>The guarded insertion: every row is tested against the log before the statement.\<close>

definition missing :: "log \<Rightarrow> observation \<Rightarrow> bool" where
  "missing lg obs \<longleftrightarrow> \<not> alive lg (js_string (ob_scope obs)) (js_string (ob_entity obs))"

definition first_with_key :: "string \<Rightarrow> (nat \<times> feature_args \<times> string) list \<Rightarrow> nat option" where
  "first_with_key key ws = map_option fst (find (\<lambda>w. key_of w = key) ws)"

definition create_outcome ::
  "string list \<Rightarrow> (string \<times> observation) list \<Rightarrow> (nat \<times> feature_args \<times> string) list \<Rightarrow> nat \<times> feature_args \<times> string \<Rightarrow> create_result" where
  "create_outcome insertedKeys uniq ws w =
     (let key = key_of w;
          inserted = (key \<in> set insertedKeys \<and> first_with_key key ws = Some (fst w))
      in \<lparr> cr_globalId = snd (snd w),
           cr_observationId = (if inserted then map_option id_text (map_of uniq key) else None),
           cr_deduplicated = (\<not> inserted) \<rparr>)"

fun merge_results :: "feature_args list \<Rightarrow> create_result list \<Rightarrow> create_result list \<Rightarrow> create_result list" where
  "merge_results [] unkeyed keyed = []"
| "merge_results (args # rest) unkeyed keyed =
     (if fa_globalId args = None
      then (case unkeyed of [] \<Rightarrow> [] | r # rs \<Rightarrow> r # merge_results rest rs keyed)
      else (case keyed of [] \<Rightarrow> [] | r # rs \<Rightarrow> r # merge_results rest unkeyed rs))"

definition insert_missing ::
  "gis \<Rightarrow> clock \<Rightarrow> (nat \<times> feature_args \<times> string) list \<Rightarrow> log \<Rightarrow> engine_error + (log \<times> create_result list)" where
  "insert_missing g k ws lg =
     and_then (unique_rows g k [] ws) (\<lambda>uniq.
     and_then (insert_rows g (filter (missing lg) (map snd uniq))) (\<lambda>rs.
       let insertedKeys = map (\<lambda>r. lock_key (o_scope r) (o_entity r)) rs
       in Inr (lg @ rs, map (create_outcome insertedKeys uniq ws) ws)))"

definition write_features_create_idempotent ::
  "gis \<Rightarrow> clock \<Rightarrow> clock \<Rightarrow> feature_args list \<Rightarrow> log \<Rightarrow> log \<times> (engine_error + create_result list)" where
  "write_features_create_idempotent g k k' inputs lg =
     (if inputs = [] then (lg, Inr [])
      else case write_features_create g k (filter (\<lambda>a. fa_globalId a = None) inputs) lg of
             (lg1, Inl e) \<Rightarrow> (lg1, Inl e)
           | (lg1, Inr unkeyed) \<Rightarrow>
               (if with_id 0 inputs = [] then (lg1, Inr (merge_results inputs unkeyed []))
                else case insert_missing g k' (with_id 0 inputs) lg1 of
                       Inl e \<Rightarrow> (lg1, Inl e)
                     | Inr (lg2, keyed) \<Rightarrow> (lg2, Inr (merge_results inputs unkeyed keyed))))"

subsection \<open>Changing and deleting\<close>

datatype guarded_result = Wrote string | Lost "string option"

definition write_guarded ::
  "gis \<Rightarrow> observation \<Rightarrow> string \<Rightarrow> int \<Rightarrow> string option \<Rightarrow> log \<Rightarrow> engine_error + (log \<times> guarded_result)" where
  "write_guarded g observation fresh now expected lg =
     (case expected of
        None \<Rightarrow> and_then (write_one g observation fresh now lg) (\<lambda>(lg', obs). Inr (lg', Wrote (id_text obs)))
      | Some e \<Rightarrow>
          and_then (write_if_head g observation fresh now e lg) (\<lambda>(lg', r).
            case r of Written obs \<Rightarrow> Inr (lg', Wrote (id_text obs)) | Head_conflict h \<Rightarrow> Inr (lg', Lost h)))"

definition target_of :: "feature_args \<Rightarrow> string" where
  "target_of args = (case fa_globalId args of None \<Rightarrow> [] | Some e \<Rightarrow> e)"

definition write_feature_update ::
  "gis \<Rightarrow> clock \<Rightarrow> feature_args \<Rightarrow> log \<Rightarrow> engine_error + (log \<times> guarded_result)" where
  "write_feature_update g k args lg =
     write_guarded g (layer_observation ''update'' (target_of args) (k_from k 0) args) (k_id k 0) (k_tx k 0) (fa_expectedHead args) lg"

fun update_observations :: "clock \<Rightarrow> nat \<Rightarrow> feature_args list \<Rightarrow> observation list" where
  "update_observations k i [] = []"
| "update_observations k i (args # rest) =
     layer_observation ''update'' (target_of args) (k_from k i) args # update_observations k (i + 1) rest"

definition write_features_update ::
  "gis \<Rightarrow> clock \<Rightarrow> feature_args list \<Rightarrow> log \<Rightarrow> log \<times> (engine_error + string list)" where
  "write_features_update g k inputs lg =
     (if inputs = [] then (lg, Inr [])
      else case write_many g (k_id k) (k_tx k) (update_observations k 0 inputs) lg of
             (lg', Inl e) \<Rightarrow> (lg', Inl e)
           | (lg', Inr written) \<Rightarrow> (lg', Inr (map id_text written)))"

definition write_feature_delete ::
  "gis \<Rightarrow> clock \<Rightarrow> feature_args \<Rightarrow> log \<Rightarrow> engine_error + (log \<times> guarded_result)" where
  "write_feature_delete g k args lg =
     write_guarded g (layer_observation ''delete'' (target_of args) (k_from k 0) args\<lparr> ob_attrs := JNull, ob_geom := JNull \<rparr>)
       (k_id k 0) (k_tx k 0) (fa_expectedHead args) lg"

subsection \<open>What an insertion writes\<close>

lemma insert_one_row:
  assumes "insert_one g obs = Inr r"
  shows "ob_scope obs = JStr (o_scope r)" "\<exists>e. ob_entity obs = JStr e \<and> o_entity r = to_lower e"
    "ob_kind obs = JStr (o_kind r)" "\<exists>i. ob_id obs = Some i \<and> o_id r = to_lower i"
    "ob_validFrom obs = Js_date (Some (o_from r))" "ob_txTime obs = Some (Js_date (Some (o_tx r)))"
proof -
  have text_iff: "text_column v = Inr t \<longleftrightarrow> v = JStr t" for v t by (cases v) auto
  have time_iff: "time_column d = Inr (Some t) \<longleftrightarrow> d = Js_date (Some t)" for d t
    by (cases d rule: time_column.cases) auto
  have required_iff: "required x = Inr y \<longleftrightarrow> x = Some y" for x and y :: int by (cases x) auto
  have uuid_iff: "uuid_column v = Inr t \<longleftrightarrow> (\<exists>s. v = JStr s \<and> is_uuid_text s \<and> t = to_lower s)" for v t
    by (cases v) (auto simp: uuid_column_def)
  note iffs = and_then_Inr text_iff time_iff required_iff uuid_iff
  show "ob_scope obs = JStr (o_scope r)" "\<exists>e. ob_entity obs = JStr e \<and> o_entity r = to_lower e"
    "ob_kind obs = JStr (o_kind r)" "\<exists>i. ob_id obs = Some i \<and> o_id r = to_lower i"
    "ob_validFrom obs = Js_date (Some (o_from r))" "ob_txTime obs = Some (Js_date (Some (o_tx r)))"
    using assms unfolding insert_one_def by (auto simp: iffs split: option.splits)
qed

subsection \<open>Creates are idempotent\<close>

lemma length_split: "length s + 1 = sum_list (map length (split_at_char c s)) + length (split_at_char c s)"
proof (induction s)
  case (Cons x s)
  then show ?case by (cases "split_at_char c s") auto
qed simp

lemma length_uuid: "is_uuid_text s \<Longrightarrow> length s = 36"
proof -
  assume "is_uuid_text s"
  then have m: "map length (split_at_char CHR ''-'' s) = [8, 4, 4, 4, 12]" by (simp add: is_uuid_text_def)
  then have "length (split_at_char CHR ''-'' s) = 5" using length_map [of length "split_at_char CHR ''-'' s"] by simp
  then show ?thesis using length_split [of s "CHR ''-''"] m by simp
qed

lemma lock_key_inject:
  "length e = length e' \<Longrightarrow> lock_key s e = lock_key s' e' \<longleftrightarrow> s = s' \<and> e = e'"
  by (auto simp: lock_key_def)

definition row_ok :: "clock \<Rightarrow> nat \<times> feature_args \<times> string \<Rightarrow> observation \<Rightarrow> bool" where
  "row_ok k w obs \<longleftrightarrow>
     (case w of (i, args, e) \<Rightarrow>
        ob_scope obs = JStr (scope_of args) \<and> ob_entity obs = JStr e \<and> is_uuid_text e \<and> ob_kind obs = JStr ''create'' \<and>
        ob_validFrom obs = Js_date (Some (k_from k i)) \<and> ob_id obs = Some (k_id k i))"

lemma unique_rows_ok:
  assumes "unique_rows g k seen ws = Inr uniq"
  shows "distinct (map fst uniq) \<and> set (map fst uniq) = key_of ` set ws - set seen \<and>
    (\<forall>(key, obs) \<in> set uniq. \<exists>w \<in> set ws. find (\<lambda>w. key_of w = key) ws = Some w \<and> row_ok k w obs)"
  using assms
proof (induction ws arbitrary: seen uniq)
  case (Cons w ws)
  show ?case
  proof (cases "key_of w \<in> set seen")
    case True
    then have "unique_rows g k seen ws = Inr uniq" using Cons.prems by simp
    note IH = Cons.IH [OF this]
    have "key \<noteq> key_of w" if "(key, obs) \<in> set uniq" for key obs
      using IH that True by force
    then show ?thesis using IH True by (fastforce simp: insert_Diff_if)
  next
    case False
    obtain i args e where w: "w = (i, args, e)" by (cases w) auto
    from Cons.prems False obtain cell rest where cell: "cell_for_geometry (g_cell g) (coalesce (fa_geometry args) JNull) = Inr cell"
      and ok: "validate_observation ((layer_observation ''create'' e (k_from k i) args)
          \<lparr> ob_id := Some (k_id k i), ob_txTime := Some (Js_date (Some (k_tx k i))), ob_cell := cell \<rparr>) = Inr ()"
      and rest: "unique_rows g k (key_of w # seen) ws = Inr rest"
      and u: "uniq = (key_of w, (layer_observation ''create'' e (k_from k i) args)
          \<lparr> ob_id := Some (k_id k i), ob_txTime := Some (Js_date (Some (k_tx k i))), ob_cell := cell \<rparr>) # rest"
      by (auto simp: w and_then_Inr Let_def)
    note IH = Cons.IH [OF rest]
    have "is_uuid_text e" using ok by (simp add: validate_observation_iff well_formed_def layer_observation_def)
    then have "row_ok k w (snd (hd uniq))" by (simp add: u w row_ok_def layer_observation_def)
    moreover have "key \<noteq> key_of w" if "(key, obs) \<in> set rest" for key obs
      using IH that by force
    ultimately show ?thesis using IH False u by fastforce
  qed
qed simp

lemma validate_layer:
  "validate_observation ((layer_observation kind e t args)\<lparr> ob_id := x, ob_txTime := y, ob_cell := c \<rparr>) =
   validate_observation (layer_observation kind e t' args)"
  by (simp add: validate_observation_def layer_observation_def)

lemma unique_rows_again: "unique_rows g k seen ws = Inr uniq \<Longrightarrow> \<exists>uniq'. unique_rows g j seen ws = Inr uniq'"
proof (induction ws arbitrary: seen uniq)
  case (Cons w ws)
  obtain i args e where w: "w = (i, args, e)" by (cases w) auto
  show ?case
    using Cons by (auto simp: w and_then_Inr Let_def validate_layer [where t' = 0])
qed simp

lemma insert_rows_all2: "insert_rows g obs = Inr rs \<Longrightarrow> list_all2 (\<lambda>ob r. insert_one g ob = Inr r) obs rs"
  by (induction obs arbitrary: rs) (auto simp: and_then_Inr)

definition uuid_args :: "feature_args \<Rightarrow> bool" where
  "uuid_args args \<longleftrightarrow> (\<exists>e. fa_globalId args = Some e \<and> is_uuid_text e \<and> to_lower e = e)"

lemma with_id_in: "w \<in> set (with_id i inputs) \<Longrightarrow> (case w of (j, args, e) \<Rightarrow> args \<in> set inputs \<and> fa_globalId args = Some e)"
  by (induction inputs arbitrary: i) (auto split: option.splits)

lemma with_id_ids:
  "\<forall>args \<in> set inputs. uuid_args args \<Longrightarrow> map (\<lambda>w. Some (snd (snd w))) (with_id i inputs) = map fa_globalId inputs"
  by (induction inputs arbitrary: i) (auto simp: uuid_args_def)

lemma merge_all_keyed:
  "\<forall>args \<in> set inputs. uuid_args args \<Longrightarrow> length keyed = length inputs \<Longrightarrow> merge_results inputs [] keyed = keyed"
  by (induction inputs arbitrary: keyed) (auto simp: uuid_args_def length_Suc_conv)

lemma history_append: "history (a @ b) s e = history a s e @ history b s e"
  by (simp add: history_def)

lemma list_all2_members:
  "list_all2 P xs ys \<Longrightarrow> (\<And>x y. x \<in> set xs \<Longrightarrow> P x y \<Longrightarrow> Q x y) \<Longrightarrow> list_all2 Q xs ys"
  by (simp add: list_all2_conv_all_nth)

text \<open>The rows of a guarded insertion, under the keys of the unique inputs.\<close>

lemma inserted_rows:
  assumes u: "unique_rows g k [] ws = Inr uniq" and i: "insert_rows g (filter (missing lg) (map snd uniq)) = Inr rs"
    and low: "\<forall>(i, args, e) \<in> set ws. is_uuid_text e \<and> to_lower e = e"
  shows "map (\<lambda>r. lock_key (o_scope r) (o_entity r)) rs = map fst (filter (\<lambda>(key, obs). missing lg obs) uniq)"
    and "\<forall>r \<in> set rs. is_uuid_text (o_entity r) \<and> \<not> alive lg (o_scope r) (o_entity r) \<and> o_kind r = ''create'' \<and> (\<exists>i. o_from r = k_from k i)"
proof -
  note ok = unique_rows_ok [OF u]
  have row: "lock_key (o_scope r) (o_entity r) = key \<and> is_uuid_text (o_entity r) \<and> o_kind r = ''create'' \<and> (\<exists>i. o_from r = k_from k i) \<and>
      (missing lg obs \<longleftrightarrow> \<not> alive lg (o_scope r) (o_entity r))"
    if "(key, obs) \<in> set uniq" "insert_one g obs = Inr r" for key obs r
  proof -
    from ok that(1) obtain j args e where w: "(j, args, e) \<in> set ws" "find (\<lambda>w. key_of w = key) ws = Some (j, args, e)"
        "row_ok k (j, args, e) obs" by fastforce
    then have "key_of (j, args, e) = key" by (auto simp: find_Some_iff)
    moreover have "to_lower e = e" using low w(1) by auto
    ultimately show ?thesis
      using w(3) insert_one_row [OF that(2)] by (auto simp: row_ok_def key_of_def missing_def)
  qed
  have l: "list_all2 (\<lambda>ob r. insert_one g ob = Inr r) (map snd (filter (\<lambda>(key, obs). missing lg obs) uniq)) rs"
    using insert_rows_all2 [OF i] by (simp add: filter_map o_def case_prod_unfold)
  then have "list_all2 (\<lambda>x r. x \<in> set uniq \<and> missing lg (snd x) \<and> insert_one g (snd x) = Inr r) (filter (\<lambda>(key, obs). missing lg obs) uniq) rs"
    unfolding list_all2_map1 by (rule list_all2_members) auto
  then show "map (\<lambda>r. lock_key (o_scope r) (o_entity r)) rs = map fst (filter (\<lambda>(key, obs). missing lg obs) uniq)"
      "\<forall>r \<in> set rs. is_uuid_text (o_entity r) \<and> \<not> alive lg (o_scope r) (o_entity r) \<and> o_kind r = ''create'' \<and> (\<exists>i. o_from r = k_from k i)"
    by (induction rule: list_all2_induct) (use row in \<open>auto simp: case_prod_unfold\<close>)
qed

lemma filter_key: "distinct (map f xs) \<Longrightarrow> x \<in> set xs \<Longrightarrow> filter (\<lambda>y. f y = f x) xs = [x]"
  by (induction xs) (auto simp: filter_empty_conv, metis imageI)

lemma alive_after:
  assumes u: "unique_rows g k [] ws = Inr uniq" and i: "insert_rows g (filter (missing lg) (map snd uniq)) = Inr rs"
    and low: "\<forall>(i, args, e) \<in> set ws. is_uuid_text e \<and> to_lower e = e"
    and new: "\<forall>r \<in> set lg. \<forall>i. o_from r < k_from k i"
    and w: "(j, args, e) \<in> set ws"
  shows "alive (lg @ rs) (scope_of args) e"
proof -
  note rows = inserted_rows [OF u i low]
  let ?f = "\<lambda>r. lock_key (o_scope r) (o_entity r)"
  have e: "is_uuid_text e" "to_lower e = e" using low w by auto
  have same: "o_scope r = scope_of args \<and> o_entity r = e \<longleftrightarrow> ?f r = key_of (j, args, e)" if "r \<in> set rs" for r
    using lock_key_inject [of "o_entity r" e "o_scope r" "scope_of args"] rows(2) that e(1) by (auto simp: key_of_def length_uuid)
  show ?thesis
  proof (cases "alive lg (scope_of args) e")
    case True
    then have "history rs (scope_of args) e = []"
      using rows(2) by (auto simp: history_def filter_empty_conv)
    then show ?thesis using True e by (simp add: alive_def head_of_def history_append)
  next
    case False
    have "key_of (j, args, e) \<in> set (map fst uniq)" using unique_rows_ok [OF u] w by (simp add: image_iff) blast
    then obtain obs where obs: "(key_of (j, args, e), obs) \<in> set uniq" by auto
    then obtain j' args' e' where "(j', args', e') \<in> set ws" "row_ok k (j', args', e') obs" "key_of (j', args', e') = key_of (j, args, e)"
      using unique_rows_ok [OF u] by (fastforce simp: find_Some_iff)
    moreover from this low have "is_uuid_text e'" by auto
    ultimately have "scope_of args' = scope_of args" "e' = e" "row_ok k (j', args', e') obs"
      using lock_key_inject [of e' e] e(1) by (auto simp: key_of_def length_uuid)
    then have "missing lg obs" using False by (simp add: row_ok_def missing_def)
    then have "key_of (j, args, e) \<in> set (map ?f rs)" unfolding rows(1) using obs by force
    then obtain r where r: "r \<in> set rs" "?f r = key_of (j, args, e)" by auto
    have "distinct (map ?f rs)" unfolding rows(1) using unique_rows_ok [OF u] by (simp add: distinct_map_filter)
    then have "filter (\<lambda>y. ?f y = ?f r) rs = [r]" using r(1) by (rule filter_key)
    moreover have "history rs (scope_of args) e = filter (\<lambda>y. ?f y = ?f r) rs"
      unfolding history_def r(2) by (rule filter_cong) (simp_all add: same)
    ultimately have "history rs (scope_of args) e = [r]" by simp
    moreover have "\<forall>s \<in> set (history lg (scope_of args) e). older s r"
      using new rows(2) r(1) by (auto simp: history_def older_def)
    ultimately have "latest (history (lg @ rs) (scope_of args) e) = Some r"
      by (simp add: history_append latest_append_newer)
    then show ?thesis using rows(2) r(1) e by (simp add: alive_def head_of_def)
  qed
qed

text \<open>C8: a create that is sent again writes nothing and answers with the same features, all marked as
  duplicates; the first one wrote one \<open>create\<close> row for each identifier that was not alive.\<close>

theorem create_retry_adds_nothing:
  assumes "write_features_create_idempotent g k k' inputs lg = (lg1, Inr res)"
    and "\<forall>args \<in> set inputs. uuid_args args"
    and "\<forall>r \<in> set lg. \<forall>i. o_from r < k_from k' i"
  shows "(\<exists>res'. write_features_create_idempotent g j j' inputs lg1 = (lg1, Inr res') \<and>
       map cr_globalId res' = map cr_globalId res \<and> list_all cr_deduplicated res') \<and>
    (\<exists>rs. lg1 = lg @ rs \<and> distinct (map (\<lambda>r. (o_scope r, o_entity r)) rs) \<and>
       (\<forall>r \<in> set rs. o_kind r = ''create'' \<and> \<not> alive lg (o_scope r) (o_entity r)))"
proof (cases "inputs = []")
  case True
  then show ?thesis using assms(1) by (simp add: write_features_create_idempotent_def)
next
  case False
  let ?ws = "with_id 0 inputs"
  have none: "filter (\<lambda>a. fa_globalId a = None) inputs = []" using assms(2) by (auto simp: filter_empty_conv uuid_args_def)
  have len: "length ?ws = length inputs" using with_id_ids [OF assms(2), of 0] by (metis length_map)
  then have ws: "?ws \<noteq> []" using False by auto
  have low: "\<forall>(i, args, e) \<in> set ?ws. is_uuid_text e \<and> to_lower e = e"
    using assms(2) with_id_in by (fastforce simp: uuid_args_def)
  have run: "write_features_create_idempotent g c c' inputs l =
      (case insert_missing g c' ?ws l of Inl er \<Rightarrow> (l, Inl er) | Inr (l', keyed) \<Rightarrow> (l', Inr (merge_results inputs [] keyed)))" for c c' l
    using False ws none by (simp add: write_features_create_idempotent_def write_features_create_def)
  from assms(1) obtain uniq rs where u: "unique_rows g k' [] ?ws = Inr uniq"
      and i: "insert_rows g (filter (missing lg) (map snd uniq)) = Inr rs" and l: "lg1 = lg @ rs"
      and res: "map cr_globalId res = map (\<lambda>w. snd (snd w)) ?ws"
    by (auto simp: run insert_missing_def and_then_Inr Let_def merge_all_keyed [OF assms(2)] len create_outcome_def
        split: sum.splits prod.splits)
  obtain uniq' where u': "unique_rows g j' [] ?ws = Inr uniq'" using unique_rows_again [OF u] by blast
  have "\<not> missing lg1 obs" if "(key, obs) \<in> set uniq'" for key obs
  proof -
    from unique_rows_ok [OF u'] that obtain n args e where "(n, args, e) \<in> set ?ws" "row_ok j' (n, args, e) obs" by fastforce
    then show ?thesis using alive_after [OF u i low assms(3)] by (simp add: l row_ok_def missing_def)
  qed
  then have "filter (missing lg1) (map snd uniq') = []" by (auto simp: filter_empty_conv)
  then have "write_features_create_idempotent g j j' inputs lg1 = (lg1, Inr (map (create_outcome [] uniq' ?ws) ?ws))"
    by (simp add: run insert_missing_def u' Let_def merge_all_keyed [OF assms(2)] len)
  moreover have "map cr_globalId (map (create_outcome [] uniq' ?ws) ?ws) = map cr_globalId res"
    by (simp add: res create_outcome_def o_def)
  moreover have "list_all cr_deduplicated (map (create_outcome [] uniq' ?ws) ?ws)"
    by (auto simp: list_all_iff create_outcome_def)
  moreover have "distinct (map (\<lambda>r. (o_scope r, o_entity r)) rs)"
  proof -
    have "distinct (map (\<lambda>r. lock_key (o_scope r) (o_entity r)) rs)"
      unfolding inserted_rows(1) [OF u i low] using unique_rows_ok [OF u] by (simp add: distinct_map_filter)
    then show ?thesis by (auto simp: distinct_map inj_on_def)
  qed
  ultimately show ?thesis using inserted_rows(2) [OF u i low] l by blast
qed

text \<open>C10: an identifier that is not in lower case is written in lower case, and the answer says that
  the feature was there already and nothing was written.\<close>

theorem other_spelling_misreported:
  assumes "write_features_create_idempotent g k k' [args] lg = (lg', Inr res)"
    and "fa_globalId args = Some e" and "to_lower e \<noteq> e" and "\<not> alive lg (scope_of args) e"
  shows "\<exists>r. lg' = lg @ [r] \<and> o_kind r = ''create'' \<and> o_scope r = scope_of args \<and> o_entity r = to_lower e \<and>
    res = [\<lparr> cr_globalId = e, cr_observationId = None, cr_deduplicated = True \<rparr>]"
proof -
  let ?w = "(0, args, e)"
  have w: "with_id 0 [args] = [?w]" using assms(2) by simp
  from assms(1,2) obtain uniq rs where u: "unique_rows g k' [] [?w] = Inr uniq"
      and i: "insert_rows g (filter (missing lg) (map snd uniq)) = Inr rs" and l: "lg' = lg @ rs"
      and res: "res = [create_outcome (map (\<lambda>r. lock_key (o_scope r) (o_entity r)) rs) uniq [?w] ?w]"
    by (auto simp: write_features_create_idempotent_def write_features_create_def insert_missing_def and_then_Inr Let_def
        split: sum.splits prod.splits)
  from u obtain obs where obs: "uniq = [(key_of ?w, obs)]" by (auto simp: and_then_Inr Let_def)
  with unique_rows_ok [OF u] have ok: "row_ok k' ?w obs" by auto
  then have m: "missing lg obs" using assms(4) by (simp add: row_ok_def missing_def)
  with i obs obtain r where r: "rs = [r]" "insert_one g obs = Inr r" by (auto simp: and_then_Inr)
  have row: "o_scope r = scope_of args" "o_entity r = to_lower e" "o_kind r = ''create''"
    using insert_one_row [OF r(2)] ok by (auto simp: row_ok_def)
  have "lock_key (o_scope r) (o_entity r) \<noteq> key_of ?w"
    using assms(3) by (simp add: key_of_def row lock_key_inject to_lower_def)
  then have "res = [\<lparr> cr_globalId = e, cr_observationId = None, cr_deduplicated = True \<rparr>]"
    by (simp add: res r(1) create_outcome_def Let_def)
  then show ?thesis using l r(1) row by simp
qed

subsection \<open>Examples\<close>

definition gis0 :: gis where
  "gis0 = \<lparr> g_cell = (\<lambda>_ _ _. Inr ''872830828ffffff''), g_store = Some, g_overlaps = (\<lambda>_ _. True), g_intersects = (\<lambda>_ _. True) \<rparr>"

definition clock_at :: "char \<Rightarrow> int \<Rightarrow> clock" where
  "clock_at c t = \<lparr> k_entity = (\<lambda>_. ''00000000-0000-7000-8000-00000000000'' @ [c]),
     k_id = (\<lambda>_. ''11111111-0000-7000-8000-00000000000'' @ [c]), k_from = (\<lambda>_. t), k_tx = (\<lambda>_. t) \<rparr>"

definition args_with :: "string \<Rightarrow> feature_args" where
  "args_with e = \<lparr> fa_itemId = ''i'', fa_layerId = ''l'', fa_principal = JObj 1 [(''sub'', JStr ''u'')], fa_source = Undef,
     fa_properties = JObj 2 [(''name'', JStr ''oak'')], fa_geometry = Undef, fa_globalId = Some e, fa_expectedHead = None \<rparr>"

definition tree_id :: string where "tree_id = ''018f0000-0000-7000-8000-0000000000aa''"
definition tree_id_upper :: string where "tree_id_upper = ''018F0000-0000-7000-8000-0000000000AA''"

definition tree_row :: "char \<Rightarrow> int \<Rightarrow> string \<Rightarrow> row" where
  "tree_row c t kind = \<lparr> o_id = ''11111111-0000-7000-8000-00000000000'' @ [c], o_tx = t, o_from = t, o_to = None,
     o_scope = ''data_layer:i:l'', o_entity = tree_id, o_kind = kind,
     o_attrs = (if kind = ''delete'' then JNull else JObj 2 [(''name'', JStr ''oak'')]),
     o_geom = JNull, o_cell = JNull, o_author = ''u'', o_source = DEFAULT_SOURCE, o_parents = [] \<rparr>"

lemma tree_created:
  "write_features_create_idempotent gis0 (clock_at CHR ''1'' 5) (clock_at CHR ''2'' 5) [args_with tree_id] [] =
     ([tree_row CHR ''2'' 5 ''create''],
      Inr [\<lparr> cr_globalId = tree_id, cr_observationId = Some (''11111111-0000-7000-8000-000000000002''), cr_deduplicated = False \<rparr>])"
  by code_simp

lemma tree_created_upper:
  "write_features_create_idempotent gis0 (clock_at CHR ''1'' 5) (clock_at CHR ''2'' 5) [args_with tree_id_upper] [] =
     ([tree_row CHR ''2'' 5 ''create''],
      Inr [\<lparr> cr_globalId = tree_id_upper, cr_observationId = None, cr_deduplicated = True \<rparr>])"
  by code_simp

lemma uuid_args_tree: "uuid_args (args_with tree_id)"
proof -
  have "is_uuid_text tree_id" "to_lower tree_id = tree_id" by code_simp+
  then show ?thesis by (simp add: uuid_args_def args_with_def)
qed

theorem create_retry_adds_nothing_witness:
  "\<exists>res'. write_features_create_idempotent gis0 (clock_at CHR ''3'' 6) (clock_at CHR ''4'' 6) [args_with tree_id]
     [tree_row CHR ''2'' 5 ''create''] = ([tree_row CHR ''2'' 5 ''create''], Inr res') \<and> list_all cr_deduplicated res'"
  using create_retry_adds_nothing [OF tree_created] uuid_args_tree by auto

theorem other_spelling_misreported_witness:
  "\<exists>r. [tree_row CHR ''2'' 5 ''create''] = [] @ [r] \<and> o_entity r = to_lower tree_id_upper"
proof -
  have "to_lower tree_id_upper \<noteq> tree_id_upper" "\<not> alive [] (scope_of (args_with tree_id_upper)) tree_id_upper" by code_simp+
  then show ?thesis using other_spelling_misreported [OF tree_created_upper] by (simp add: args_with_def)
qed

end
