(* ===== verification/LayerRead.thy ===== *)
theory LayerRead
  imports LayerLog FilterMatch
begin

text \<open>
  The reads of a layer of features: \<open>listFeatures\<close>, \<open>buildReadFilters\<close>, \<open>readFeaturePage\<close> and
  \<open>iterateFeatures\<close> of \<open>DataLayerEngine\<close> in \<open>apps/portal-api/src/engine/data-layer.ts\<close>. The statements are
  modelled by the rows they select: filters on the \<open>create\<close> row, filters on the identifier, and filters on
  the content, which hold of a row when the database's condition is true. The comparison of a text cast
  to a time with a bound is a parameter; a text the database cannot cast ends the statement, which is
  outside the model.
\<close>

record time_tests =
  tt_not_before :: "string \<Rightarrow> string \<Rightarrow> bool"
  tt_not_after :: "string \<Rightarrow> string \<Rightarrow> bool"

record read_args =
  ra_itemId :: string
  ra_layerId :: string
  ra_asOf :: "int option"
  ra_limit :: "nat option"
  ra_entity :: "string option"
  ra_entityIds :: "string list option"
  ra_bbox :: "jsval list option"
  ra_geoLimit :: jsval
  ra_boundaryClip :: jsval
  ra_ownRowsOnly :: "string option"
  ra_parentFk :: "(string \<times> string) option"
  ra_time :: "(string \<times> string option \<times> string option) option"
  ra_isTable :: bool

record layer_feature =
  ft_id :: string
  ft_geometry :: jsval
  ft_properties :: obj

datatype read_error = Rejected tool_error | Cast_failed

subsection \<open>Filters\<close>

definition sanitize_jsonb_key :: "string \<Rightarrow> string" where
  "sanitize_jsonb_key raw =
     map (\<lambda>c. if is_digit_char c \<or> is_lower_az c \<or> is_upper_az c \<or> c = CHR ''_'' then c else CHR ''_'') raw"

text \<open>\<open>attrs->>col\<close>.\<close>

definition attr_text :: "row \<Rightarrow> string \<Rightarrow> string option" where
  "attr_text r col = text_of (field_of (o_attrs r) col)"

text \<open>\<open>'^[0-9]{4}-[0-9]{2}-[0-9]{2}'\<close>.\<close>

definition starts_with_date :: "string \<Rightarrow> bool" where
  "starts_with_date s \<longleftrightarrow>
     10 \<le> length s \<and> s ! 4 = CHR ''-'' \<and> s ! 7 = CHR ''-'' \<and>
     list_all (\<lambda>i. is_digit_char (s ! i)) [0, 1, 2, 3, 5, 6, 8, 9]"

definition date_bound :: "(string \<Rightarrow> string \<Rightarrow> bool) \<Rightarrow> string \<Rightarrow> string \<Rightarrow> row \<Rightarrow> bool" where
  "date_bound test col bound r =
     (case attr_text r col of None \<Rightarrow> False | Some t \<Rightarrow> starts_with_date t \<and> test t bound)"

definition candidate_filters :: "read_args \<Rightarrow> read_error + (row \<Rightarrow> bool) list" where
  "candidate_filters args =
     (let own = (case ra_ownRowsOnly args of None \<Rightarrow> [] | Some u \<Rightarrow> [\<lambda>r. o_author r = u])
      in case ra_entity args of
           None \<Rightarrow> Inr own
         | Some e \<Rightarrow> if is_uuid_text e then Inr (own @ [\<lambda>r. o_entity r = to_lower e]) else Inl Cast_failed)"

definition current_filters :: "read_args \<Rightarrow> read_error + (row \<Rightarrow> bool) list" where
  "current_filters args =
     (case ra_entityIds args of
        None \<Rightarrow> Inr []
      | Some ids \<Rightarrow> if ids = [] then Inr []
                    else if list_all is_uuid_text ids then Inr [\<lambda>r. o_entity r \<in> set (map to_lower ids)]
                    else Inl Cast_failed)"

definition content_filters :: "gis \<Rightarrow> time_tests \<Rightarrow> read_args \<Rightarrow> (row \<Rightarrow> bool) list" where
  "content_filters g tt args =
     (if ra_isTable args then []
      else (case ra_bbox args of None \<Rightarrow> [] | Some b \<Rightarrow> [\<lambda>r. o_geom r \<noteq> JNull \<and> g_overlaps g (o_geom r) b]) @
           (if ra_geoLimit args = Undef then [] else [\<lambda>r. o_geom r = JNull \<or> g_intersects g (o_geom r) (ra_geoLimit args)]) @
           (if ra_boundaryClip args = Undef then []
            else [\<lambda>r. o_geom r \<noteq> JNull \<and> g_intersects g (o_geom r) (ra_boundaryClip args)])) @
     (case ra_parentFk args of None \<Rightarrow> [] | Some (col, parentId) \<Rightarrow> [\<lambda>r. attr_text r (sanitize_jsonb_key col) = Some parentId]) @
     (case ra_time args of
        None \<Rightarrow> []
      | Some (column, from_, to_) \<Rightarrow>
          (case from_ of None \<Rightarrow> [] | Some b \<Rightarrow> [date_bound (tt_not_before tt) (sanitize_jsonb_key column) b]) @
          (case to_ of None \<Rightarrow> [] | Some b \<Rightarrow> [date_bound (tt_not_after tt) (sanitize_jsonb_key column) b]))"

record read_filters =
  rq_candidate :: "(row \<Rightarrow> bool) list"
  rq_current :: "(row \<Rightarrow> bool) list"
  rq_content :: "(row \<Rightarrow> bool) list"

definition build_read_filters :: "gis \<Rightarrow> time_tests \<Rightarrow> read_args \<Rightarrow> read_error + read_filters" where
  "build_read_filters g tt args =
     (case validate_geojson (ra_geoLimit args) (validate_geojson (ra_boundaryClip args) (Inr ())) of
        Inl e \<Rightarrow> Inl (Rejected e)
      | Inr _ \<Rightarrow>
          and_then (candidate_filters args) (\<lambda>candidate.
          and_then (current_filters args) (\<lambda>current.
            Inr \<lparr> rq_candidate = candidate, rq_current = current, rq_content = content_filters g tt args \<rparr>)))"

definition holds_all :: "(row \<Rightarrow> bool) list \<Rightarrow> row \<Rightarrow> bool" where
  "holds_all ps r \<longleftrightarrow> list_all (\<lambda>p. p r) ps"

subsection \<open>Rows and features\<close>

definition layer_feature :: "(int \<Rightarrow> string) \<Rightarrow> row \<Rightarrow> row \<Rightarrow> layer_feature" where
  "layer_feature stamp c cr =
     \<lparr> ft_id = o_entity c, ft_geometry = o_geom c,
       ft_properties = spread (attrs_of (o_attrs c))
         [(''_global_id'', JStr (o_entity c)), (''_created_by'', JStr (o_author cr)), (''_created_at'', JStr (stamp (o_tx cr))),
          (''_edited_by'', JStr (o_author c)), (''_edited_at'', JStr (stamp (o_tx c))), (''_observation_id'', JStr (o_id c))] \<rparr>"

text \<open>\<open>currents c JOIN creates cr ON cr.entity = c.entity\<close>.\<close>

definition create_rows :: "log \<Rightarrow> string \<Rightarrow> string \<Rightarrow> row list" where
  "create_rows lg scope e = filter (\<lambda>r. o_scope r = scope \<and> o_kind r = ''create'' \<and> o_entity r = e) lg"

definition join_creates :: "log \<Rightarrow> string \<Rightarrow> row list \<Rightarrow> (row \<times> row) list" where
  "join_creates lg scope currents = concat (map (\<lambda>c. map (Pair c) (create_rows lg scope (o_entity c))) currents)"

definition candidate_entities :: "log \<Rightarrow> string \<Rightarrow> read_filters \<Rightarrow> string list" where
  "candidate_entities lg scope f =
     map o_entity (filter (\<lambda>r. o_scope r = scope \<and> o_kind r = ''create'' \<and> holds_all (rq_candidate f) r) lg)"

text \<open>The rows of the scope at an instant that the filters on identifiers admit; \<open>cands\<close> is \<open>None\<close> when there is
  no filter on the \<open>create\<close> row.\<close>

definition visible_rows :: "log \<Rightarrow> string \<Rightarrow> int \<Rightarrow> read_filters \<Rightarrow> string list option \<Rightarrow> row list" where
  "visible_rows lg scope asOf f cands =
     filter (\<lambda>r. o_scope r = scope \<and> o_from r \<le> asOf \<and>
                 (case cands of None \<Rightarrow> True | Some es \<Rightarrow> o_entity r \<in> set es) \<and> holds_all (rq_current f) r) lg"

definition at_instant :: "log \<Rightarrow> string \<Rightarrow> int \<Rightarrow> string \<Rightarrow> row list" where
  "at_instant lg scope asOf e =
     (case latest (filter (\<lambda>r. o_scope r = scope \<and> o_entity r = e \<and> o_from r \<le> asOf) lg) of None \<Rightarrow> [] | Some r \<Rightarrow> [r])"

subsection \<open>Listing\<close>

definition list_rows :: "read_filters \<Rightarrow> string \<Rightarrow> int \<Rightarrow> nat \<Rightarrow> log \<Rightarrow> (row \<times> row) list" where
  "list_rows f scope asOf limit lg =
     (let usesCandidateCte = (rq_candidate f \<noteq> []);
          innerLimit = limit + 10;
          canPush = (usesCandidateCte \<and> rq_current f = [] \<and> rq_content f = []);
          all_cands = candidate_entities lg scope f;
          cands = (if \<not> usesCandidateCte then None
                   else Some (if canPush then take innerLimit (sort all_cands) else all_cands));
          visible = visible_rows lg scope asOf f cands;
          currents =
            (if rq_content f = [] then take innerLimit (distinct_on_entity visible)
             else take innerLimit
                    (filter (\<lambda>r. o_kind r \<noteq> ''delete'' \<and> holds_all (rq_content f) r)
                      (concat (map (at_instant lg scope asOf) (entities (filter (holds_all (rq_content f)) visible))))))
      in take limit (filter (\<lambda>(c, cr). o_kind c \<noteq> ''delete'') (join_creates lg scope currents)))"

definition apply_lens_policy :: "(string \<times> (layer_feature \<Rightarrow> bool)) option \<Rightarrow> layer_feature list \<Rightarrow> layer_feature list" where
  "apply_lens_policy spec features =
     (case spec of
        None \<Rightarrow> features
      | Some (policy, check) \<Rightarrow> if trim policy = [] then features else filter check features)"

definition list_features ::
  "gis \<Rightarrow> time_tests \<Rightarrow> (int \<Rightarrow> string) \<Rightarrow> (string \<times> (layer_feature \<Rightarrow> bool)) option \<Rightarrow> read_args \<Rightarrow> int \<Rightarrow> log \<Rightarrow>
   read_error + layer_feature list" where
  "list_features g tt stamp lens args now lg =
     (let scope = data_layer_scope (ra_itemId args) (ra_layerId args);
          asOf = (case ra_asOf args of None \<Rightarrow> now | Some t \<Rightarrow> t);
          limit = (case ra_limit args of None \<Rightarrow> 100000 | Some n \<Rightarrow> n)
      in and_then (build_read_filters g tt args) (\<lambda>f.
           Inr (apply_lens_policy lens (map (\<lambda>(c, cr). layer_feature stamp c cr) (list_rows f scope asOf limit lg)))))"

subsection \<open>Pages\<close>

definition page_size :: "int option \<Rightarrow> nat" where
  "page_size n = nat (min (max (case n of None \<Rightarrow> 10000 | Some k \<Rightarrow> k) 1) 50000)"

definition above :: "string option \<Rightarrow> row \<Rightarrow> bool" where
  "above cursor r \<longleftrightarrow> (case cursor of None \<Rightarrow> True | Some c \<Rightarrow> to_lower c < o_entity r)"

text \<open>The rows a page looks at, with whether the content condition is true of each.\<close>

definition page_rows :: "read_filters \<Rightarrow> string \<Rightarrow> int \<Rightarrow> nat \<Rightarrow> string option \<Rightarrow> log \<Rightarrow> (row \<times> row \<times> bool) list" where
  "page_rows f scope asOf n cursor lg =
     (let cands = (if rq_candidate f = [] then None else Some (candidate_entities lg scope f));
          visible = filter (above cursor) (visible_rows lg scope asOf f cands)
      in if rq_content f \<noteq> []
         then map (\<lambda>(c, cr). (c, cr, holds_all (rq_content f) c))
                (join_creates lg scope
                  (concat (map (at_instant lg scope asOf) (take n (entities (filter (holds_all (rq_content f)) visible))))))
         else map (\<lambda>(c, cr). (c, cr, True)) (join_creates lg scope (take n (distinct_on_entity visible))))"

definition read_page ::
  "(int \<Rightarrow> string) \<Rightarrow> read_filters \<Rightarrow> string \<Rightarrow> int \<Rightarrow> nat \<Rightarrow> string option \<Rightarrow> log \<Rightarrow> layer_feature list \<times> string option" where
  "read_page stamp f scope asOf n cursor lg =
     (let rows = page_rows f scope asOf n cursor lg
      in if rows = [] then ([], None)
         else (map (\<lambda>(c, cr, _). layer_feature stamp c cr) (filter (\<lambda>(c, cr, ok). o_kind c \<noteq> ''delete'' \<and> ok) rows),
               if length rows < n then None else Some (o_entity (fst (last rows)))))"

record feature_page =
  fp_features :: "layer_feature list"
  fp_nextCursor :: "string option"
  fp_asOf :: int

definition read_feature_page ::
  "gis \<Rightarrow> time_tests \<Rightarrow> (int \<Rightarrow> string) \<Rightarrow> read_args \<Rightarrow> int option \<Rightarrow> string option \<Rightarrow> int \<Rightarrow> log \<Rightarrow> read_error + feature_page" where
  "read_feature_page g tt stamp args pageSize after now lg =
     (let scope = data_layer_scope (ra_itemId args) (ra_layerId args);
          asOf = (case ra_asOf args of None \<Rightarrow> now | Some t \<Rightarrow> t)
      in and_then (build_read_filters g tt args) (\<lambda>f.
           case read_page stamp f scope asOf (page_size pageSize) after lg of
             (features, next) \<Rightarrow> Inr \<lparr> fp_features = features, fp_nextCursor = next, fp_asOf = asOf \<rparr>))"

text \<open>The walk: \<open>logs i\<close> is the log when the \<open>i\<close>-th page is read. A walk that does not end is \<open>None\<close>.\<close>

partial_function (option) walk_pages ::
  "(int \<Rightarrow> string) \<Rightarrow> read_filters \<Rightarrow> string \<Rightarrow> int \<Rightarrow> nat \<Rightarrow> (nat \<Rightarrow> log) \<Rightarrow> nat \<Rightarrow> string option \<Rightarrow> layer_feature list list option" where
  "walk_pages stamp f scope asOf n logs i after =
     (case read_page stamp f scope asOf n after (logs i) of
        (features, next) \<Rightarrow>
          let batch = (if features \<noteq> [] then [features] else [])
          in case next of
               None \<Rightarrow> Some batch
             | Some c \<Rightarrow> Option.bind (walk_pages stamp f scope asOf n logs (i + 1) (Some c)) (\<lambda>rest. Some (batch @ rest)))"

definition iterate_features ::
  "gis \<Rightarrow> time_tests \<Rightarrow> (int \<Rightarrow> string) \<Rightarrow> read_args \<Rightarrow> int option \<Rightarrow> int \<Rightarrow> (nat \<Rightarrow> log) \<Rightarrow> (read_error + layer_feature list list) option" where
  "iterate_features g tt stamp args pageSize now logs =
     (case build_read_filters g tt args of
        Inl e \<Rightarrow> Some (Inl e)
      | Inr f \<Rightarrow>
          map_option Inr (walk_pages stamp f (data_layer_scope (ra_itemId args) (ra_layerId args))
            (case ra_asOf args of None \<Rightarrow> now | Some t \<Rightarrow> t) (page_size pageSize) logs 0 None))"

end
