(* ===== verification/LayerPages.thy ===== *)
theory LayerPages
  imports LayerRead
begin

text \<open>
  What the reads of a layer answer. \<open>live_rows\<close> is the specification: the latest row of every entity at
  an instant, when it is no tombstone and passes the filters. A listing joins each of them with every
  \<open>create\<close> row of its entity, so an entity that was created again after it was deleted is listed
  twice. A walk over pages visits every live entity once as long as entities have one \<open>create\<close> row.
\<close>

definition candidates_of :: "log \<Rightarrow> string \<Rightarrow> read_filters \<Rightarrow> string list option" where
  "candidates_of lg scope f = (if rq_candidate f = [] then None else Some (candidate_entities lg scope f))"

definition in_view :: "log \<Rightarrow> string \<Rightarrow> int \<Rightarrow> read_filters \<Rightarrow> row list" where
  "in_view lg scope asOf f = visible_rows lg scope asOf f (candidates_of lg scope f)"

definition live_rows :: "read_filters \<Rightarrow> string \<Rightarrow> int \<Rightarrow> log \<Rightarrow> row list" where
  "live_rows f scope asOf lg =
     filter (\<lambda>r. o_kind r \<noteq> ''delete'' \<and> holds_all (rq_content f) r) (distinct_on_entity (in_view lg scope asOf f))"

subsection \<open>Filters on identifiers\<close>

definition by_entity :: "(row \<Rightarrow> bool) \<Rightarrow> bool" where
  "by_entity p \<longleftrightarrow> (\<forall>r s. o_entity r = o_entity s \<longrightarrow> p r = p s)"

definition sound_filters :: "read_filters \<Rightarrow> bool" where
  "sound_filters f \<longleftrightarrow> by_entity (holds_all (rq_current f))"

lemma built_filters_sound: "build_read_filters g tt args = Inr f \<Longrightarrow> sound_filters f"
  by (auto simp: build_read_filters_def and_then_Inr current_filters_def sound_filters_def by_entity_def holds_all_def
      split: option.splits if_splits sum.splits)

lemma in_view_iff:
  "r \<in> set (in_view lg scope asOf f) \<longleftrightarrow> r \<in> set lg \<and> o_scope r = scope \<and> o_from r \<le> asOf \<and>
     (rq_candidate f \<noteq> [] \<longrightarrow> o_entity r \<in> set (candidate_entities lg scope f)) \<and> holds_all (rq_current f) r"
  by (auto simp: in_view_def visible_rows_def candidates_of_def)

text \<open>Within the view, the rows of an entity are all its rows at the instant.\<close>

lemma view_entity:
  assumes "sound_filters f" and "e \<in> o_entity ` set (in_view lg scope asOf f)"
  shows "filter (\<lambda>r. o_entity r = e) (in_view lg scope asOf f) =
    filter (\<lambda>r. o_scope r = scope \<and> o_entity r = e \<and> o_from r \<le> asOf) lg"
proof -
  obtain r0 where r0: "r0 \<in> set (in_view lg scope asOf f)" "o_entity r0 = e" using assms(2) by auto
  have "holds_all (rq_current f) r" if "o_entity r = e" for r
    using assms(1) r0 that by (auto simp: sound_filters_def by_entity_def in_view_iff)
  then show ?thesis
    using r0 unfolding in_view_def visible_rows_def filter_filter
    by (intro filter_cong) (auto simp: candidates_of_def visible_rows_def in_view_def)
qed

lemma at_instant_view:
  assumes "sound_filters f" and "e \<in> o_entity ` set (in_view lg scope asOf f)"
  shows "at_instant lg scope asOf e = current_of (in_view lg scope asOf f) e"
  by (simp add: at_instant_def current_of_def view_entity [OF assms])

definition row_of :: "row list \<Rightarrow> string \<Rightarrow> row" where
  "row_of rs e = hd (current_of rs e)"

lemma current_of_row_of: "e \<in> o_entity ` set rs \<Longrightarrow> current_of rs e = [row_of rs e] \<and> o_entity (row_of rs e) = e"
  using current_of_nonempty by (fastforce simp: row_of_def)

lemma row_of_in: "e \<in> o_entity ` set rs \<Longrightarrow> row_of rs e \<in> set rs"
  using current_of_row_of [of e rs] current_of_entity [of "row_of rs e" rs e] by simp

lemma concat_singletons: "(\<And>x. x \<in> set xs \<Longrightarrow> f x = [g x]) \<Longrightarrow> concat (map f xs) = map g xs"
  by (induction xs) auto

lemma distinct_on_row_of: "distinct_on_entity rs = map (row_of rs) (entities rs)"
  unfolding distinct_on_entity_def by (rule concat_singletons) (simp add: current_of_row_of)

lemma at_instant_rows:
  assumes "sound_filters f" and "set es \<subseteq> o_entity ` set (in_view lg scope asOf f)"
  shows "concat (map (at_instant lg scope asOf) es) = map (row_of (in_view lg scope asOf f)) es"
  using assms by (intro concat_singletons) (auto simp: at_instant_view current_of_row_of)

subsection \<open>The entities looked at\<close>

lemma entities_filter: "entities (filter (\<lambda>r. P (o_entity r)) rs) = filter P (entities rs)"
proof -
  have "map o_entity (filter (\<lambda>r. P (o_entity r)) rs) = filter P (map o_entity rs)"
    by (simp add: filter_map o_def)
  then show ?thesis by (simp add: entities_def remdups_filter [symmetric] filter_sort)
qed

definition scanned :: "read_filters \<Rightarrow> row list \<Rightarrow> string list" where
  "scanned f view = entities (if rq_content f = [] then view else filter (holds_all (rq_content f)) view)"

lemma scanned_subset: "set (scanned f view) \<subseteq> o_entity ` set view"
  by (auto simp: scanned_def)

lemma sorted_scanned: "sorted_wrt (<) (scanned f view)"
  by (simp add: scanned_def)

text \<open>An entity that is not looked at has a current row that fails the content filters.\<close>

lemma live_scanned:
  "filter (\<lambda>e. holds_all (rq_content f) (row_of view e) \<and> Q e) (entities view) =
   filter (\<lambda>e. holds_all (rq_content f) (row_of view e) \<and> Q e) (scanned f view)"
proof (rule sorted_distinct_set_unique)
  have "e \<in> o_entity ` set (filter (holds_all (rq_content f)) view)"
    if "e \<in> o_entity ` set view" "holds_all (rq_content f) (row_of view e)" for e
    using that row_of_in [of e view] current_of_row_of [of e view] by (force simp: image_iff)
  then show "set (filter (\<lambda>e. holds_all (rq_content f) (row_of view e) \<and> Q e) (entities view)) =
      set (filter (\<lambda>e. holds_all (rq_content f) (row_of view e) \<and> Q e) (scanned f view))"
    by (auto simp: scanned_def split: if_splits)
qed (auto simp: scanned_def sorted_wrt_filter)

lemma live_rows_scanned:
  "live_rows f scope asOf lg = map (row_of (in_view lg scope asOf f))
     (filter (\<lambda>e. o_kind (row_of (in_view lg scope asOf f) e) \<noteq> ''delete'' \<and> holds_all (rq_content f) (row_of (in_view lg scope asOf f) e))
       (scanned f (in_view lg scope asOf f)))"
proof -
  let ?v = "in_view lg scope asOf f"
  have "live_rows f scope asOf lg = map (row_of ?v)
      (filter (\<lambda>e. holds_all (rq_content f) (row_of ?v e) \<and> o_kind (row_of ?v e) \<noteq> ''delete'') (entities ?v))"
    by (simp add: live_rows_def distinct_on_row_of filter_map o_def conj_commute)
  then show ?thesis unfolding live_scanned by (simp add: conj_commute)
qed

subsection \<open>Listing\<close>

lemma create_rows_count:
  "distinct (map o_entity cs) \<Longrightarrow>
   length (join_creates lg scope cs) = length (filter (\<lambda>r. o_scope r = scope \<and> o_kind r = ''create'' \<and> o_entity r \<in> o_entity ` set cs) lg)"
proof (induction cs)
  case (Cons c cs)
  let ?P = "\<lambda>r. o_scope r = scope \<and> o_kind r = ''create''"
  have two: "length (filter P xs) + length (filter Q xs) = length (filter (\<lambda>x. P x \<or> Q x) xs)"
    if "\<And>x. \<not> (P x \<and> Q x)" for P Q :: "row \<Rightarrow> bool" and xs
    using that by (induction xs) auto
  have "length (join_creates lg scope (c # cs)) =
      length (filter (\<lambda>r. ?P r \<and> o_entity r = o_entity c) lg) + length (filter (\<lambda>r. ?P r \<and> o_entity r \<in> o_entity ` set cs) lg)"
    using Cons by (simp add: join_creates_def create_rows_def)
  also have "\<dots> = length (filter (\<lambda>r. ?P r \<and> o_entity r = o_entity c \<or> ?P r \<and> o_entity r \<in> o_entity ` set cs) lg)"
    using Cons.prems by (intro two) auto
  finally show ?case by (simp add: conj_disj_distribL cong: conj_cong)
qed (simp add: join_creates_def)

lemma join_creates_bound: "distinct (map o_entity cs) \<Longrightarrow> length (join_creates lg scope cs) \<le> length lg"
  by (simp add: create_rows_count)

lemma live_rows_entities: "map o_entity (live_rows f scope asOf lg) = filter
    (\<lambda>e. o_kind (row_of (in_view lg scope asOf f) e) \<noteq> ''delete'' \<and> holds_all (rq_content f) (row_of (in_view lg scope asOf f) e))
    (scanned f (in_view lg scope asOf f))"
  unfolding live_rows_scanned map_map
  by (rule map_idI) (use scanned_subset [of f "in_view lg scope asOf f"] current_of_row_of in auto)

lemma distinct_live: "sorted_wrt (<) (map o_entity (live_rows f scope asOf lg))"
  unfolding live_rows_entities by (rule sorted_wrt_filter [OF sorted_scanned])

lemma length_entities: "length (entities rs) \<le> length rs"
  by (simp add: entities_def length_remdups_leq [THEN order_trans])

lemma length_in_view: "length (in_view lg scope asOf f) \<le> length lg"
  by (simp add: in_view_def visible_rows_def)

lemma candidates_pushed:
  assumes "length lg \<le> n"
  shows "visible_rows lg scope asOf f
     (if rq_candidate f = [] then None
      else Some (if push then take n (sort (candidate_entities lg scope f)) else candidate_entities lg scope f)) =
     in_view lg scope asOf f"
proof -
  have "length (candidate_entities lg scope f) \<le> n"
    using assms by (simp add: candidate_entities_def le_trans [OF length_filter_le])
  then show ?thesis by (simp add: in_view_def visible_rows_def candidates_of_def)
qed

lemma join_filter:
  "filter (\<lambda>(c, cr). P c) (join_creates lg scope cs) = join_creates lg scope (filter P cs)"
  by (induction cs) (auto simp: join_creates_def filter_map o_def)

lemma list_rows_exact:
  assumes sound: "sound_filters f" and limit: "length lg \<le> limit"
  shows "list_rows f scope asOf limit lg = join_creates lg scope (live_rows f scope asOf lg)"
proof -
  let ?v = "in_view lg scope asOf f"
  have v: "visible_rows lg scope asOf f
      (if \<not> rq_candidate f \<noteq> [] then None
       else Some (if push then take (limit + 10) (sort (candidate_entities lg scope f)) else candidate_entities lg scope f)) = ?v" for push
    unfolding not_not using limit by (intro candidates_pushed) simp
  have small: "length xs \<le> limit + 10" if "length xs \<le> length (entities ?v)" for xs :: "row list"
    using that length_entities [of ?v] length_in_view [of lg scope asOf f] limit by simp
  have bound: "length (join_creates lg scope (live_rows f scope asOf lg)) \<le> limit"
    using join_creates_bound [of "live_rows f scope asOf lg"] distinct_live [of f scope asOf lg] limit
    by (meson le_trans strict_sorted_iff)
  have alive: "join_creates lg scope (filter (\<lambda>c. o_kind c \<noteq> ''delete'') (live_rows f scope asOf lg)) = join_creates lg scope (live_rows f scope asOf lg)"
    by (rule arg_cong [OF filter_True]) (simp add: live_rows_def)
  show ?thesis
  proof (cases "rq_content f = []")
    case True
    then have "live_rows f scope asOf lg = filter (\<lambda>c. o_kind c \<noteq> ''delete'') (distinct_on_entity ?v)"
      by (simp add: live_rows_def holds_all_def)
    moreover have "take (limit + 10) (distinct_on_entity ?v) = distinct_on_entity ?v"
      using small [of "distinct_on_entity ?v"] by (simp add: distinct_on_row_of)
    ultimately show ?thesis
      using bound by (simp add: list_rows_def Let_def v [simplified] True join_filter)
  next
    case False
    let ?cs = "filter (\<lambda>r. o_kind r \<noteq> ''delete'' \<and> holds_all (rq_content f) r)
        (concat (map (at_instant lg scope asOf) (entities (filter (holds_all (rq_content f)) ?v))))"
    have cs: "?cs = live_rows f scope asOf lg"
      unfolding live_rows_scanned scanned_def using False
      by (subst at_instant_rows [OF sound]) (auto simp: filter_map o_def)
    have "length (live_rows f scope asOf lg) \<le> length (entities ?v)"
      by (simp add: live_rows_def distinct_on_row_of le_trans [OF length_filter_le])
    then have all: "take (limit + 10) (live_rows f scope asOf lg) = live_rows f scope asOf lg"
      by (intro take_all small)
    have "list_rows f scope asOf limit lg =
        take limit (filter (\<lambda>(c, cr). o_kind c \<noteq> ''delete'') (join_creates lg scope (take (limit + 10) ?cs)))"
      unfolding list_rows_def Let_def v using False by (simp only: if_False if_True simp_thms)
    then show ?thesis unfolding cs all join_filter alive using bound by simp
  qed
qed

text \<open>C9: a listing with a limit no smaller than the log is the join of the current rows with the
  \<open>create\<close> rows: a live entity is listed once for every time it was created, and no other entity is
  listed.\<close>

theorem listed_once_per_create:
  assumes "build_read_filters g tt args = Inr f"
    and "length lg \<le> (case ra_limit args of None \<Rightarrow> 100000 | Some n \<Rightarrow> n)"
  shows "\<exists>fs. list_features g tt stamp None args now lg = Inr fs \<and>
    (\<forall>e. length (filter (\<lambda>x. ft_id x = e) fs) =
       (if e \<in> o_entity ` set (live_rows f (data_layer_scope (ra_itemId args) (ra_layerId args))
             (case ra_asOf args of None \<Rightarrow> now | Some t \<Rightarrow> t) lg)
        then length (create_rows lg (data_layer_scope (ra_itemId args) (ra_layerId args)) e) else 0))"
proof -
  let ?s = "data_layer_scope (ra_itemId args) (ra_layerId args)"
  let ?t = "case ra_asOf args of None \<Rightarrow> now | Some t \<Rightarrow> t"
  let ?live = "live_rows f ?s ?t lg"
  have count: "length (filter (\<lambda>x. ft_id x = e) (map (\<lambda>(c, cr). layer_feature stamp c cr) (join_creates lg ?s cs))) =
      (if e \<in> o_entity ` set cs then length (create_rows lg ?s e) else 0)" if "distinct (map o_entity cs)" for cs e
    using that
  proof (induction cs)
    case (Cons c cs)
    have "filter (\<lambda>x. ft_id x = e) (map (\<lambda>(c, cr). layer_feature stamp c cr) (map (Pair c) (create_rows lg ?s (o_entity c)))) =
        (if o_entity c = e then map (layer_feature stamp c) (create_rows lg ?s e) else [])"
      by (auto simp: filter_map o_def layer_feature_def)
    then show ?case using Cons by (auto simp: join_creates_def)
  qed (simp add: join_creates_def)
  have "list_features g tt stamp None args now lg = Inr (map (\<lambda>(c, cr). layer_feature stamp c cr) (join_creates lg ?s ?live))"
    using assms by (simp add: list_features_def apply_lens_policy_def list_rows_exact built_filters_sound Let_def)
  moreover have "distinct (map o_entity ?live)" using distinct_live strict_sorted_iff by blast
  ultimately show ?thesis using count by simp
qed

subsection \<open>Pages\<close>

definition past :: "string option \<Rightarrow> string \<Rightarrow> bool" where
  "past cursor e \<longleftrightarrow> (case cursor of None \<Rightarrow> True | Some c \<Rightarrow> to_lower c < e)"

lemma above_past: "above cursor = (\<lambda>r. past cursor (o_entity r))"
  by (simp add: above_def past_def fun_eq_iff)

lemma page_view:
  assumes "sound_filters f"
  shows "page_rows f scope asOf n cursor lg =
    map (\<lambda>(c, cr). (c, cr, rq_content f \<noteq> [] \<longrightarrow> holds_all (rq_content f) c))
      (join_creates lg scope (map (row_of (in_view lg scope asOf f))
         (take n (filter (past cursor) (scanned f (in_view lg scope asOf f))))))"
proof -
  let ?v = "in_view lg scope asOf f"
  have v: "visible_rows lg scope asOf f (if rq_candidate f = [] then None else Some (candidate_entities lg scope f)) = ?v"
    by (simp add: in_view_def candidates_of_def)
  show ?thesis
  proof (cases "rq_content f = []")
    case True
    have "row_of (filter (\<lambda>r. past cursor (o_entity r)) ?v) e = row_of ?v e" if "past cursor e" for e
    proof -
      have "filter (\<lambda>r. o_entity r = e) (filter (\<lambda>r. past cursor (o_entity r)) ?v) = filter (\<lambda>r. o_entity r = e) ?v"
        unfolding filter_filter using that by (intro filter_cong) auto
      then show ?thesis by (simp only: row_of_def current_of_def)
    qed
    then have "map (row_of (filter (above cursor) ?v)) (entities (filter (above cursor) ?v)) =
        map (row_of ?v) (filter (past cursor) (entities ?v))"
      unfolding above_past entities_filter by (intro map_cong) auto
    then have "take n (distinct_on_entity (filter (above cursor) ?v)) = map (row_of ?v) (take n (filter (past cursor) (scanned f ?v)))"
      by (simp add: distinct_on_row_of take_map True scanned_def)
    then show ?thesis using True by (simp add: page_rows_def v Let_def)
  next
    case False
    have "entities (filter (holds_all (rq_content f)) (filter (above cursor) ?v)) = filter (past cursor) (scanned f ?v)"
      using entities_filter [of "past cursor" "filter (holds_all (rq_content f)) ?v"] False by (simp add: above_past scanned_def conj_commute)
    moreover have "set (take n (filter (past cursor) (scanned f ?v))) \<subseteq> o_entity ` set ?v"
      using scanned_subset [of f ?v] by (auto dest!: in_set_takeD)
    ultimately show ?thesis using False by (simp add: page_rows_def v Let_def at_instant_rows [OF assms])
  qed
qed

text \<open>One \<open>create\<close> row for each entity.\<close>

definition created_once :: "log \<Rightarrow> string \<Rightarrow> bool" where
  "created_once lg scope \<longleftrightarrow> (\<forall>r \<in> set lg. o_scope r = scope \<longrightarrow> length (create_rows lg scope (o_entity r)) = 1)"

definition creation :: "log \<Rightarrow> string \<Rightarrow> string \<Rightarrow> row" where
  "creation lg scope e = hd (create_rows lg scope e)"

lemma join_created_once:
  assumes "created_once lg scope" and "set cs \<subseteq> {r. r \<in> set lg \<and> o_scope r = scope}"
  shows "join_creates lg scope cs = map (\<lambda>c. (c, creation lg scope (o_entity c))) cs"
  unfolding join_creates_def
proof (rule concat_singletons)
  fix c assume "c \<in> set cs"
  then have "length (create_rows lg scope (o_entity c)) = 1" using assms by (auto simp: created_once_def)
  then show "map (Pair c) (create_rows lg scope (o_entity c)) = [(c, creation lg scope (o_entity c))]"
    by (cases "create_rows lg scope (o_entity c)") (auto simp: creation_def)
qed

definition entity_feature :: "(int \<Rightarrow> string) \<Rightarrow> read_filters \<Rightarrow> string \<Rightarrow> int \<Rightarrow> log \<Rightarrow> string \<Rightarrow> layer_feature" where
  "entity_feature stamp f scope asOf lg e = layer_feature stamp (row_of (in_view lg scope asOf f) e) (creation lg scope e)"

definition entity_live :: "read_filters \<Rightarrow> string \<Rightarrow> int \<Rightarrow> log \<Rightarrow> string \<Rightarrow> bool" where
  "entity_live f scope asOf lg e \<longleftrightarrow>
     (let r = row_of (in_view lg scope asOf f) e in o_kind r \<noteq> ''delete'' \<and> holds_all (rq_content f) r)"

lemma read_page_chunk:
  assumes "sound_filters f" and "created_once lg scope" and "0 < n"
  shows "read_page stamp f scope asOf n cursor lg =
    (let ch = take n (filter (past cursor) (scanned f (in_view lg scope asOf f)))
     in (map (entity_feature stamp f scope asOf lg) (filter (entity_live f scope asOf lg) ch),
         if length ch < n then None else Some (last ch)))"
proof -
  let ?v = "in_view lg scope asOf f"
  let ?ch = "take n (filter (past cursor) (scanned f ?v))"
  have sub: "set ?ch \<subseteq> o_entity ` set ?v" using scanned_subset [of f ?v] by (auto dest!: in_set_takeD)
  have "set (map (row_of ?v) ?ch) \<subseteq> {r. r \<in> set lg \<and> o_scope r = scope}"
    using sub row_of_in [of _ ?v] by (auto simp: in_view_iff)
  then have rows: "page_rows f scope asOf n cursor lg =
      map (\<lambda>e. (row_of ?v e, creation lg scope e, rq_content f \<noteq> [] \<longrightarrow> holds_all (rq_content f) (row_of ?v e))) ?ch"
    using sub current_of_row_of [of _ ?v]
    by (simp add: page_view [OF assms(1)] join_created_once [OF assms(2)] subset_iff)
  have h: "(rq_content f \<noteq> [] \<longrightarrow> holds_all (rq_content f) r) = holds_all (rq_content f) r" for r
    by (auto simp: holds_all_def)
  have last: "o_entity (row_of ?v (last ?ch)) = last ?ch" if "?ch \<noteq> []"
    using sub last_in_set [OF that] current_of_row_of [of "last ?ch" ?v] by blast
  show ?thesis
  proof (cases "?ch = []")
    case True
    then show ?thesis using assms(3) by (simp add: read_page_def rows Let_def)
  next
    case False
    have "filter (\<lambda>(c, cr, ok). o_kind c \<noteq> ''delete'' \<and> ok) (page_rows f scope asOf n cursor lg) =
        map (\<lambda>e. (row_of ?v e, creation lg scope e, True)) (filter (entity_live f scope asOf lg) ?ch)"
      by (auto simp: rows h filter_map o_def entity_live_def Let_def intro!: map_cong filter_cong)
    moreover have "length (page_rows f scope asOf n cursor lg) = length ?ch" by (simp add: rows)
    moreover have "fst (last (page_rows f scope asOf n cursor lg)) = row_of ?v (last ?ch)"
      using False by (simp add: rows last_map)
    moreover have "page_rows f scope asOf n cursor lg \<noteq> []" using False by (simp add: rows)
    ultimately show ?thesis
      using last [OF False] by (simp add: read_page_def Let_def entity_feature_def o_def)
  qed
qed

subsection \<open>The walk\<close>

lemma chunk_rest:
  assumes "sorted_wrt (<) (xs :: string list)" and "0 < n" and "n \<le> length xs"
  shows "filter (\<lambda>e. last (take n xs) < e) xs = drop n xs"
proof -
  have ne: "take n xs \<noteq> []" using assms(2,3) by auto
  have s: "sorted_wrt (<) (take n xs @ drop n xs)" using assms(1) by simp
  have "\<not> last (take n xs) < e" if "e \<in> set (take n xs)" for e
  proof -
    obtain ys where ys: "take n xs = ys @ [last (take n xs)]" using ne append_butlast_last_id by metis
    have "sorted_wrt (<) (ys @ [last (take n xs)])" using s ys by (metis sorted_wrt_append)
    then have "e = last (take n xs) \<or> e < last (take n xs)" using that ys by (metis Un_iff empty_iff insert_iff list.set(1) list.set(2) set_append sorted_wrt_append)
    then show ?thesis by auto
  qed
  moreover have "last (take n xs) < e" if "e \<in> set (drop n xs)" for e
    using s that last_in_set [OF ne] unfolding sorted_wrt_append by blast
  ultimately have "filter (\<lambda>e. last (take n xs) < e) (take n xs @ drop n xs) = [] @ drop n xs"
    unfolding filter_append by (intro arg_cong2 [where f = append]) (auto simp: filter_empty_conv filter_id_conv)
  then show ?thesis by simp
qed

definition lower_ids :: "log \<Rightarrow> bool" where
  "lower_ids lg \<longleftrightarrow> (\<forall>r \<in> set lg. to_lower (o_entity r) = o_entity r)"

lemma past_next:
  assumes "sorted_wrt (<) es" and "0 < n" and "n \<le> length (filter (past cursor) es)"
    and "to_lower (last (take n (filter (past cursor) es))) = last (take n (filter (past cursor) es))"
  shows "filter (past (Some (last (take n (filter (past cursor) es))))) es = drop n (filter (past cursor) es)"
proof -
  let ?rem = "filter (past cursor) es" and ?c = "last (take n (filter (past cursor) es))"
  have "take n ?rem \<noteq> []" using assms(2,3) by auto
  then have "?c \<in> set ?rem" using last_in_set in_set_takeD by metis
  then have up: "past cursor e" if "?c < e" for e using that by (auto simp: past_def split: option.splits)
  have "filter (past (Some ?c)) es = filter (\<lambda>e. ?c < e) ?rem"
  proof -
    have "past (Some ?c) e \<longleftrightarrow> past cursor e \<and> ?c < e" for e
      unfolding past_def [of "Some _"] option.case assms(4) using up by blast
    then show ?thesis unfolding filter_filter by presburger
  qed
  also have "\<dots> = drop n ?rem" using assms(1-3) by (intro chunk_rest sorted_wrt_filter)
  finally show ?thesis .
qed

lemma scanned_in: "e \<in> set (scanned f (in_view lg scope asOf f)) \<Longrightarrow> \<exists>r \<in> set lg. o_entity r = e \<and> o_scope r = scope \<and> o_from r \<le> asOf"
proof -
  assume "e \<in> set (scanned f (in_view lg scope asOf f))"
  then obtain r where "r \<in> set (in_view lg scope asOf f)" "o_entity r = e" using scanned_subset by blast
  then show ?thesis by (auto simp: in_view_iff)
qed

lemma walk_complete:
  assumes f: "sound_filters f" "created_once lg scope" "0 < n" "lower_ids lg"
    and same: "\<And>i c. read_page stamp f scope asOf n c (logs i) = read_page stamp f scope asOf n c lg"
  shows "\<exists>pages. walk_pages stamp f scope asOf n logs i cursor = Some pages \<and> [] \<notin> set pages \<and>
    concat pages = map (entity_feature stamp f scope asOf lg)
      (filter (entity_live f scope asOf lg) (filter (past cursor) (scanned f (in_view lg scope asOf f))))"
proof (induction "length (filter (past cursor) (scanned f (in_view lg scope asOf f)))" arbitrary: i cursor rule: less_induct)
  case less
  let ?es = "scanned f (in_view lg scope asOf f)"
  let ?rem = "filter (past cursor) ?es"
  let ?feat = "\<lambda>es. map (entity_feature stamp f scope asOf lg) (filter (entity_live f scope asOf lg) es)"
  let ?batch = "if ?feat (take n ?rem) \<noteq> [] then [?feat (take n ?rem)] else []"
  have page: "read_page stamp f scope asOf n cursor (logs i) =
      (?feat (take n ?rem), if length ?rem < n then None else Some (last (take n ?rem)))"
    by (simp add: same read_page_chunk [OF f(1-3)] Let_def min_def)
  show ?case
  proof (cases "length ?rem < n")
    case True
    then show ?thesis by (subst walk_pages.simps) (simp add: page Let_def)
  next
    case False
    let ?c = "last (take n ?rem)"
    have "take n ?rem \<noteq> []" using False f(3) by auto
    then have "?c \<in> set ?es" using last_in_set in_set_takeD filter_is_subset by (metis subset_iff)
    then have low: "to_lower ?c = ?c" using scanned_in f(4) by (fastforce simp: lower_ids_def)
    have rest: "filter (past (Some ?c)) ?es = drop n ?rem"
      using False by (intro past_next [OF sorted_scanned f(3) _ low]) simp
    have "length (filter (past (Some ?c)) ?es) < length ?rem" unfolding rest using False f(3) by simp
    then obtain pages where pages: "walk_pages stamp f scope asOf n logs (i + 1) (Some ?c) = Some pages" "[] \<notin> set pages"
        "concat pages = ?feat (filter (past (Some ?c)) ?es)"
      using less by blast
    have "walk_pages stamp f scope asOf n logs i cursor = Some (?batch @ pages)"
      using False by (subst walk_pages.simps) (simp add: page Let_def pages(1) [simplified])
    moreover have "concat (?batch @ pages) = ?feat ?rem"
    proof -
      have "concat ?batch = ?feat (take n ?rem)" by simp
      then show ?thesis unfolding concat_append pages(3) rest
        by (simp only: map_append [symmetric] filter_append [symmetric] append_take_drop_id)
    qed
    ultimately show ?thesis using pages(2) by auto
  qed
qed

text \<open>Rows written after the instant of a walk, which create no entity a second time.\<close>

definition later_rows :: "log \<Rightarrow> string \<Rightarrow> int \<Rightarrow> log \<Rightarrow> bool" where
  "later_rows lg scope asOf ex \<longleftrightarrow>
     (\<forall>r \<in> set ex. asOf < o_from r \<and>
        (o_scope r = scope \<longrightarrow> o_kind r = ''create'' \<longrightarrow> (\<forall>s \<in> set lg. o_scope s = scope \<longrightarrow> o_entity s \<noteq> o_entity r)))"

lemma read_page_later:
  assumes "sound_filters f" and "later_rows lg scope asOf ex"
  shows "read_page stamp f scope asOf n cursor (lg @ ex) = read_page stamp f scope asOf n cursor lg"
proof -
  have late: "asOf < o_from r" if "r \<in> set ex" for r using assms(2) that by (simp add: later_rows_def)
  have "e \<in> set (candidate_entities (lg @ ex) scope f) \<longleftrightarrow> e \<in> set (candidate_entities lg scope f)"
    if "s \<in> set lg" "o_scope s = scope" "o_entity s = e" for s e
    using assms(2) that by (auto simp: candidate_entities_def later_rows_def)
  then have "filter (\<lambda>r. o_scope r = scope \<and> o_from r \<le> asOf \<and>
       (case candidates_of (lg @ ex) scope f of None \<Rightarrow> True | Some es \<Rightarrow> o_entity r \<in> set es) \<and> holds_all (rq_current f) r) lg =
      in_view lg scope asOf f"
    unfolding in_view_def visible_rows_def by (intro filter_cong) (auto simp: candidates_of_def)
  then have view: "in_view (lg @ ex) scope asOf f = in_view lg scope asOf f"
    using late by (simp add: in_view_def [of "lg @ ex"] visible_rows_def filter_empty_conv)
      (meson leD)
  have "create_rows (lg @ ex) scope e = create_rows lg scope e" if "s \<in> set lg" "o_scope s = scope" "o_entity s = e" for s e
  proof -
    have "\<not> (o_scope r = scope \<and> o_kind r = ''create'' \<and> o_entity r = e)" if "r \<in> set ex" for r
      using assms(2) that \<open>s \<in> set lg\<close> \<open>o_scope s = scope\<close> \<open>o_entity s = e\<close> unfolding later_rows_def by metis
    then show ?thesis by (auto simp: create_rows_def filter_empty_conv)
  qed
  then have "join_creates (lg @ ex) scope cs = join_creates lg scope cs" if "set cs \<subseteq> {r. r \<in> set lg \<and> o_scope r = scope}" for cs
    using that unfolding join_creates_def by (intro arg_cong [of _ _ concat] map_cong) auto
  moreover have "set (map (row_of (in_view lg scope asOf f)) (take n (filter (past cursor) (scanned f (in_view lg scope asOf f)))))
      \<subseteq> {r. r \<in> set lg \<and> o_scope r = scope}"
    using scanned_subset [of f "in_view lg scope asOf f"] row_of_in [of _ "in_view lg scope asOf f"]
    by (auto simp: in_view_iff dest!: in_set_takeD)
  ultimately have "page_rows f scope asOf n cursor (lg @ ex) = page_rows f scope asOf n cursor lg"
    by (simp add: page_view [OF assms(1)] view del: set_map)
  then show ?thesis by (simp add: read_page_def)
qed

text \<open>C7: a walk over the pages of a layer ends and yields every feature that is live at its instant
  exactly once, in the order of the identifiers, though other rows are written between its pages, as
  long as every entity has one \<open>create\<close> row and the new rows are later than the instant.\<close>

theorem walk_exact:
  assumes "build_read_filters g tt args = Inr f" and "ra_asOf args = Some asOf"
    and "created_once lg (data_layer_scope (ra_itemId args) (ra_layerId args))" and "lower_ids lg"
    and "\<And>i. \<exists>ex. logs i = lg @ ex \<and> later_rows lg (data_layer_scope (ra_itemId args) (ra_layerId args)) asOf ex"
  shows "\<exists>pages. iterate_features g tt stamp args pageSize now logs = Some (Inr pages) \<and> [] \<notin> set pages \<and>
    map ft_id (concat pages) = map o_entity (live_rows f (data_layer_scope (ra_itemId args) (ra_layerId args)) asOf lg) \<and>
    sorted_wrt (<) (map ft_id (concat pages))"
proof -
  let ?s = "data_layer_scope (ra_itemId args) (ra_layerId args)"
  let ?v = "in_view lg ?s asOf f"
  have f: "sound_filters f" by (rule built_filters_sound [OF assms(1)])
  have "0 < page_size pageSize" by (simp add: page_size_def)
  moreover have "read_page stamp f ?s asOf n c (logs i) = read_page stamp f ?s asOf n c lg" for n i c
    using assms(5) [of i] read_page_later [OF f] by auto
  ultimately obtain pages where pages: "walk_pages stamp f ?s asOf (page_size pageSize) logs 0 None = Some pages" "[] \<notin> set pages"
      "concat pages = map (entity_feature stamp f ?s asOf lg) (filter (entity_live f ?s asOf lg) (filter (past None) (scanned f ?v)))"
    using walk_complete [OF f assms(3) _ assms(4), of "page_size pageSize"] by metis
  have "ft_id (entity_feature stamp f ?s asOf lg e) = e" if "e \<in> set (scanned f ?v)" for e
    using that scanned_subset [of f ?v] current_of_row_of [of e ?v] by (auto simp: entity_feature_def layer_feature_def)
  note that = this
  have ids: "map ft_id (concat pages) = filter (entity_live f ?s asOf lg) (scanned f ?v)"
  proof -
    have "filter (past None) (scanned f ?v) = scanned f ?v" by (simp add: past_def)
    moreover have "map (ft_id \<circ> entity_feature stamp f ?s asOf lg) (filter (entity_live f ?s asOf lg) (scanned f ?v)) =
        filter (entity_live f ?s asOf lg) (scanned f ?v)"
      using that by (intro map_idI) simp
    ultimately show ?thesis unfolding pages(3) map_map by (simp only:)
  qed
  moreover have "filter (entity_live f ?s asOf lg) (scanned f ?v) = map o_entity (live_rows f ?s asOf lg)"
    unfolding live_rows_entities by (rule filter_cong) (simp_all add: entity_live_def Let_def)
  ultimately show ?thesis
    using pages(1,2) assms(1,2) distinct_live [of f ?s asOf lg] by (simp add: iterate_features_def)
qed

subsection \<open>Examples\<close>

definition tests0 :: time_tests where
  "tests0 = \<lparr> tt_not_before = (\<lambda>t b. b \<le> t), tt_not_after = (\<lambda>t b. t \<le> b) \<rparr>"

definition tree_args :: read_args where
  "tree_args = \<lparr> ra_itemId = ''i'', ra_layerId = ''l'', ra_asOf = Some 100, ra_limit = None, ra_entity = None, ra_entityIds = None,
     ra_bbox = None, ra_geoLimit = Undef, ra_boundaryClip = Undef, ra_ownRowsOnly = None, ra_parentFk = None, ra_time = None,
     ra_isTable = False \<rparr>"

definition no_filters :: read_filters where
  "no_filters = \<lparr> rq_candidate = [], rq_current = [], rq_content = [] \<rparr>"

lemma tree_filters: "build_read_filters gis0 tests0 tree_args = Inr no_filters"
  by (simp add: build_read_filters_def tree_args_def validate_geojson_def candidate_filters_def current_filters_def
      content_filters_def no_filters_def)

definition stamp0 :: "int \<Rightarrow> string" where "stamp0 t = int_to_string t"

text \<open>A tree that was created, deleted and created again, and one that was created once.\<close>

definition oak_log :: log where
  "oak_log = [tree_row CHR ''1'' 1 ''create'', tree_row CHR ''2'' 2 ''delete'', tree_row CHR ''3'' 3 ''create'']"

theorem listed_once_per_create_witness:
  "\<exists>fs. list_features gis0 tests0 stamp0 None tree_args 0 oak_log = Inr fs \<and> length (filter (\<lambda>x. ft_id x = tree_id) fs) = 2"
proof -
  have "o_entity ` set (live_rows no_filters (data_layer_scope ''i'' ''l'') 100 oak_log) = {tree_id}" by code_simp
  moreover have "length (create_rows oak_log (data_layer_scope ''i'' ''l'') tree_id) = 2" by code_simp
  ultimately show ?thesis
    using listed_once_per_create [OF tree_filters, of oak_log stamp0 0] by (auto simp: tree_args_def oak_log_def)
qed

theorem walk_exact_witness:
  "\<exists>pages. iterate_features gis0 tests0 stamp0 tree_args (Some 1) 0
      (\<lambda>i. [tree_row CHR ''1'' 1 ''create''] @ replicate i (tree_row CHR ''2'' 200 ''update'')) = Some (Inr pages) \<and>
    map ft_id (concat pages) = [tree_id]"
proof -
  let ?lg = "[tree_row CHR ''1'' 1 ''create'']"
  have "created_once ?lg (data_layer_scope ''i'' ''l'')" "lower_ids ?lg"
      "map o_entity (live_rows no_filters (data_layer_scope ''i'' ''l'') 100 ?lg) = [tree_id]" by code_simp+
  moreover have "later_rows ?lg (data_layer_scope ''i'' ''l'') 100 (replicate i (tree_row CHR ''2'' 200 ''update''))" for i
    by (auto simp: later_rows_def tree_row_def)
  ultimately show ?thesis
    using walk_exact [OF tree_filters, of 100 ?lg "\<lambda>i. ?lg @ replicate i (tree_row CHR ''2'' 200 ''update'')" stamp0 "Some 1" 0]
    by (auto simp: tree_args_def)
qed

text \<open>The reserve of ten rows: a listing without content filters looks at the first entities only, so
  enough tombstones among them hide the live features behind them.\<close>

lemma tombstones_hide:
  assumes "rq_candidate f = []" and "rq_content f = []"
    and "\<forall>r \<in> set (take (limit + 10) (distinct_on_entity (in_view lg scope asOf f))). o_kind r = ''delete''"
  shows "list_rows f scope asOf limit lg = []"
proof -
  have "visible_rows lg scope asOf f None = in_view lg scope asOf f" using assms(1) by (simp add: in_view_def candidates_of_def)
  moreover have "filter (\<lambda>c. o_kind c \<noteq> ''delete'') (take (limit + 10) (distinct_on_entity (in_view lg scope asOf f))) = []"
    using assms(3) by (simp add: filter_empty_conv)
  ultimately show ?thesis using assms(1,2) by (simp add: list_rows_def Let_def join_filter) (simp add: join_creates_def)
qed

end
