(* ===== verification/LayerRace.thy ===== *)
theory LayerRace
  imports LayerLog
begin

text \<open>
  Writers of one entity side by side. Theory \<open>LayerLog\<close> takes a guarded write as one step; \<open>writeIfHead\<close> in
  \<open>engine.service.ts\<close> is a transaction that takes the advisory lock of the entity, reads the head, inserts and
  commits. An idempotent create takes the same lock, a plain write takes none. The key of the lock is made from the
  identifier as the request spells it, while the database compares identifiers in lower case. A statement sees what
  was committed before it.
\<close>

record race =
  rc_log :: log
  rc_lock :: "string \<Rightarrow> nat option"
  rc_checked :: "nat \<Rightarrow> (string \<times> string \<times> row) option"
  rc_done :: "(log \<times> string \<times> row) list"

text \<open>The step of a writer \<open>w\<close>. \<open>unguarded\<close> allows writes without a guard, \<open>spellings\<close> are the identifiers that
  requests use for the entity. \<open>Leave\<close> is the end of a transaction that found a conflict or failed.\<close>

inductive race_step :: "bool \<Rightarrow> string set \<Rightarrow> string \<Rightarrow> string \<Rightarrow> race \<Rightarrow> race \<Rightarrow> bool" for unguarded spellings scope entity where
  Acquire: "sp \<in> spellings \<Longrightarrow> rc_lock s (lock_key scope sp) = None \<Longrightarrow>
    race_step unguarded spellings scope entity s (s\<lparr> rc_lock := (rc_lock s)(lock_key scope sp := Some w) \<rparr>)"
| Check: "rc_lock s (lock_key scope sp) = Some w \<Longrightarrow> sp \<in> spellings \<Longrightarrow> head_of (rc_log s) scope sp = Some h \<Longrightarrow>
    o_scope r = scope \<Longrightarrow> o_entity r = entity \<Longrightarrow>
    race_step unguarded spellings scope entity s (s\<lparr> rc_checked := (rc_checked s)(w := Some (sp, o_id h, r)) \<rparr>)"
| Commit: "rc_checked s w = Some (sp, e, r) \<Longrightarrow> rc_lock s (lock_key scope sp) = Some w \<Longrightarrow>
    race_step unguarded spellings scope entity s
      (s\<lparr> rc_log := rc_log s @ [r], rc_lock := (rc_lock s)(lock_key scope sp := None),
          rc_checked := (rc_checked s)(w := None), rc_done := rc_done s @ [(rc_log s, e, r)] \<rparr>)"
| Create: "rc_lock s (lock_key scope sp) = Some w \<Longrightarrow> sp \<in> spellings \<Longrightarrow> \<not> alive (rc_log s) scope sp \<Longrightarrow>
    race_step unguarded spellings scope entity s
      (s\<lparr> rc_log := rc_log s @ [r], rc_lock := (rc_lock s)(lock_key scope sp := None), rc_checked := (rc_checked s)(w := None) \<rparr>)"
| Leave: "rc_lock s (lock_key scope sp) = Some w \<Longrightarrow> sp \<in> spellings \<Longrightarrow>
    race_step unguarded spellings scope entity s
      (s\<lparr> rc_lock := (rc_lock s)(lock_key scope sp := None), rc_checked := (rc_checked s)(w := None) \<rparr>)"
| Other: "o_scope r \<noteq> scope \<or> o_entity r \<noteq> entity \<Longrightarrow>
    race_step unguarded spellings scope entity s (s\<lparr> rc_log := rc_log s @ [r] \<rparr>)"
| Plain: "unguarded \<Longrightarrow> race_step unguarded spellings scope entity s (s\<lparr> rc_log := rc_log s @ [r] \<rparr>)"

definition race_start :: "log \<Rightarrow> race" where
  "race_start lg = \<lparr> rc_log = lg, rc_lock = (\<lambda>_. None), rc_checked = (\<lambda>_. None), rc_done = [] \<rparr>"

text \<open>A guarded write on its own is the run that acquires, checks and commits.\<close>

lemma guarded_write_run:
  assumes "write_if_head g ob fresh now e lg = Inr (lg', Written obs)"
    and "ob_scope ob = JStr scope" "ob_entity ob = JStr sp" "sp \<in> spellings"
  shows "\<exists>r s. (race_step unguarded spellings scope (to_lower sp))\<^sup>*\<^sup>* (race_start lg) s \<and> rc_log s = lg' \<and> rc_done s = [(lg, e, r)] \<and>
    insert_one g obs = Inr r \<and> rc_lock s = (\<lambda>_. None)"
proof -
  let ?R = "race_step unguarded spellings scope (to_lower sp)" let ?k = "lock_key scope sp"
  have obs: "complete g ob fresh now = Inr obs" "ob_scope obs = JStr scope" "ob_entity obs = JStr sp"
    using assms(1-3) by (auto simp: write_if_head_def complete_def and_then_Inr Let_def split: if_splits)
  then obtain r h where r: "insert_one g obs = Inr r" "lg' = lg @ [r]" "head_of lg scope sp = Some h" "o_id h = e"
    using assms(1) by (auto simp: write_if_head_def and_then_Inr Let_def split: if_splits)
  have "o_scope r = scope" "o_entity r = to_lower sp" using insert_one_row [OF r(1)] obs by auto
  let ?s1 = "race_start lg\<lparr> rc_lock := (rc_lock (race_start lg))(?k := Some 0) \<rparr>"
  let ?s2 = "?s1\<lparr> rc_checked := (rc_checked ?s1)(0 := Some (sp, o_id h, r)) \<rparr>"
  let ?s3 = "?s2\<lparr> rc_log := rc_log ?s2 @ [r], rc_lock := (rc_lock ?s2)(?k := None), rc_checked := (rc_checked ?s2)(0 := None),
    rc_done := rc_done ?s2 @ [(rc_log ?s2, e, r)] \<rparr>"
  have st1: "?R (race_start lg) ?s1" by (rule Acquire [OF assms(4)]) (simp add: race_start_def)
  have st2: "?R ?s1 ?s2"
    by (rule Check) (use r \<open>o_scope r = scope\<close> \<open>o_entity r = to_lower sp\<close> assms(4) in \<open>simp_all add: race_start_def\<close>)
  have st3: "?R ?s2 ?s3"
    by (rule Commit [where sp = sp]) (use r in \<open>simp_all add: race_start_def\<close>)
  have "?R\<^sup>*\<^sup>* (race_start lg) ?s3"
    by (rule converse_rtranclp_into_rtranclp [OF st1 converse_rtranclp_into_rtranclp [OF st2 r_into_rtranclp [of ?R, OF st3]]])
  then show ?thesis using r by (intro exI [of _ r] exI [of _ ?s3] conjI) (simp_all add: race_start_def)
qed

subsection \<open>Guarded writers do not overwrite each other\<close>

text \<open>What a writer has checked stays true while it holds the lock.\<close>

definition held_ok :: "string \<Rightarrow> string \<Rightarrow> string \<Rightarrow> race \<Rightarrow> bool" where
  "held_ok scope entity sp s \<longleftrightarrow>
     (\<forall>w sp' e r. rc_checked s w = Some (sp', e, r) \<longrightarrow>
        sp' = sp \<and> rc_lock s (lock_key scope sp) = Some w \<and> o_scope r = scope \<and> o_entity r = entity \<and>
        (\<exists>h. head_of (rc_log s) scope entity = Some h \<and> o_id h = e))"

definition done_ok :: "string \<Rightarrow> string \<Rightarrow> race \<Rightarrow> bool" where
  "done_ok scope entity s \<longleftrightarrow>
     (\<forall>(lg, e, r) \<in> set (rc_done s). o_scope r = scope \<and> o_entity r = entity \<and>
        (\<exists>h. head_of lg scope entity = Some h \<and> o_id h = e) \<and> (\<exists>rest. rc_log s = lg @ r # rest))"

lemma only_holder:
  assumes "held_ok scope entity sp s" "rc_lock s (lock_key scope sp) = Some w"
  shows "(rc_checked s)(w := None) = (\<lambda>_. None)"
proof
  fix w'
  show "((rc_checked s)(w := None)) w' = None"
  proof (cases "rc_checked s w'")
    case (Some x)
    then have "w' = w" using assms by (cases x) (auto simp: held_ok_def)
    then show ?thesis by simp
  qed simp
qed

lemma done_ok_append: "done_ok scope entity s \<Longrightarrow> done_ok scope entity (s\<lparr> rc_log := rc_log s @ rs, rc_lock := l, rc_checked := c \<rparr>)"
  by (fastforce simp: done_ok_def)

lemma head_other:
  assumes "o_scope r \<noteq> scope \<or> o_entity r \<noteq> to_lower entity"
  shows "head_of (lg @ [r]) scope entity = head_of lg scope entity"
  using assms by (auto simp: head_of_def history_def)

lemma guarded_step:
  assumes "race_step False {sp} scope entity s s'" "held_ok scope entity sp s" "done_ok scope entity s"
    and "to_lower sp = entity" "to_lower entity = entity"
  shows "held_ok scope entity sp s' \<and> done_ok scope entity s'"
  using assms(1)
proof (cases rule: race_step.cases)
  case (Acquire sp' w)
  then show ?thesis using assms(2,3) by (auto simp: held_ok_def done_ok_def)
next
  case (Check sp' w h r)
  have "head_of (rc_log s) scope entity = Some h" using Check assms(4,5) by (simp add: head_of_def)
  then show ?thesis using assms(2,3) Check by (simp add: held_ok_def done_ok_def)
next
  case (Commit w sp' e r)
  then have c: "sp' = sp" "o_scope r = scope" "o_entity r = entity" "\<exists>h. head_of (rc_log s) scope entity = Some h \<and> o_id h = e"
    using assms(2) by (auto simp: held_ok_def)
  have "done_ok scope entity s'"
    using done_ok_append [OF assms(3), where rs = "[r]" and l = "rc_lock s'" and c = "rc_checked s'"] Commit c by (simp add: done_ok_def)
  then show ?thesis using only_holder [OF assms(2)] Commit c by (simp add: held_ok_def)
next
  case (Create sp' w r)
  then show ?thesis
    using only_holder [OF assms(2)] done_ok_append [OF assms(3), where rs = "[r]"] by (simp add: held_ok_def)
next
  case (Leave sp' w)
  then show ?thesis
    using only_holder [OF assms(2)] assms(3) by (simp add: held_ok_def done_ok_def)
next
  case (Other r)
  then show ?thesis
    using assms(2,5) head_other [of r scope entity "rc_log s"] done_ok_append [OF assms(3), where rs = "[r]" and l = "rc_lock s" and c = "rc_checked s"]
    by (auto simp: held_ok_def)
qed simp

lemma head_appended:
  assumes "head_of lg scope sp = Some h" "o_scope r = scope" "o_entity r = to_lower sp" "older h r"
  shows "head_of (lg @ [r]) scope sp = Some r"
proof -
  have "\<forall>x \<in> set (history lg scope (to_lower sp)). older x r"
    using latest_max assms(1,4) not_older_trans [of h _ r] by (auto simp: head_of_def)
  moreover have "history (lg @ [r]) scope (to_lower sp) = history lg scope (to_lower sp) @ [r]"
    using assms(2,3) by (simp add: history_def)
  ultimately show ?thesis by (simp add: head_of_def latest_append_newer)
qed

text \<open>C4: Writers that name an entity alike and guard their writes never overwrite each other: each row they commit was written on the very row its writer had seen, and is the new head when its time is later.\<close>

theorem guarded_writes_never_clobber:
  assumes "(race_step False {sp} scope (to_lower sp))\<^sup>*\<^sup>* (race_start lg0) s" and "(lg, e, r) \<in> set (rc_done s)"
    and "to_lower (to_lower sp) = to_lower sp"
  shows "\<exists>h rest. head_of lg scope sp = Some h \<and> o_id h = e \<and> rc_log s = lg @ r # rest \<and>
    (older h r \<longrightarrow> head_of (lg @ [r]) scope sp = Some r)"
proof -
  have "held_ok scope (to_lower sp) sp s \<and> done_ok scope (to_lower sp) s"
    using assms(1)
  proof (induction rule: rtranclp_induct)
    case base
    then show ?case by (simp add: held_ok_def done_ok_def race_start_def)
  next
    case (step s s')
    then show ?case using guarded_step assms(3) by blast
  qed
  then obtain h rest where h: "head_of lg scope sp = Some h" "o_id h = e" "rc_log s = lg @ r # rest" "o_scope r = scope" "o_entity r = to_lower sp"
    using assms(2,3) by (fastforce simp: done_ok_def head_of_def)
  have "older h r \<Longrightarrow> head_of (lg @ [r]) scope sp = Some r" by (rule head_appended [OF h(1,4,5)])
  then show ?thesis using h by blast
qed

subsection \<open>Where the guard does not hold\<close>

text \<open>A writer that has the lock and has checked.\<close>

definition holding :: "string \<Rightarrow> nat \<Rightarrow> string \<Rightarrow> string \<Rightarrow> row \<Rightarrow> race \<Rightarrow> race" where
  "holding scope w sp e r s =
     s\<lparr> rc_lock := (rc_lock s)(lock_key scope sp := Some w), rc_checked := (rc_checked s)(w := Some (sp, e, r)) \<rparr>"

lemma begin_guarded:
  assumes "sp \<in> spellings" "rc_lock s (lock_key scope sp) = None" "head_of (rc_log s) scope sp = Some h"
    and "o_scope r = scope" "o_entity r = entity"
  shows "(race_step unguarded spellings scope entity)\<^sup>*\<^sup>* s (holding scope w sp (o_id h) r s)"
proof -
  let ?s = "s\<lparr> rc_lock := (rc_lock s)(lock_key scope sp := Some w) \<rparr>"
  have "race_step unguarded spellings scope entity s ?s" by (rule Acquire [OF assms(1,2)])
  moreover have "race_step unguarded spellings scope entity ?s (?s\<lparr> rc_checked := (rc_checked ?s)(w := Some (sp, o_id h, r)) \<rparr>)"
    by (rule Check) (use assms in simp_all)
  ultimately show ?thesis by (simp add: holding_def converse_rtranclp_into_rtranclp r_into_rtranclp)
qed

lemma commit_guarded:
  assumes "rc_checked s w = Some (sp, e, r)" "rc_lock s (lock_key scope sp) = Some w"
  shows "\<exists>s'. (race_step unguarded spellings scope entity)\<^sup>*\<^sup>* s s' \<and> rc_log s' = rc_log s @ [r] \<and> rc_done s' = rc_done s @ [(rc_log s, e, r)] \<and>
    (\<forall>k. k \<noteq> lock_key scope sp \<longrightarrow> rc_lock s' k = rc_lock s k) \<and> (\<forall>w'. w' \<noteq> w \<longrightarrow> rc_checked s' w' = rc_checked s w')"
  by (rule exI, rule conjI, rule r_into_rtranclp, rule Commit [OF assms]) simp

lemma plain_bypasses:
  assumes "head_of lg scope sp = Some h" and r: "o_scope r = scope" "o_entity r = to_lower sp"
  shows "\<exists>s. (race_step True {sp} scope (to_lower sp))\<^sup>*\<^sup>* (race_start lg) s \<and> rc_log s = lg @ [p, r] \<and> rc_done s = [(lg @ [p], o_id h, r)]"
proof -
  let ?R = "race_step True {sp} scope (to_lower sp)"
  let ?s1 = "holding scope 0 sp (o_id h) r (race_start lg)"
  have st1: "?R\<^sup>*\<^sup>* (race_start lg) ?s1"
    by (rule begin_guarded) (use assms in \<open>simp_all add: race_start_def\<close>)
  let ?s2 = "?s1\<lparr> rc_log := rc_log ?s1 @ [p] \<rparr>"
  have st2: "?R ?s1 ?s2" by (rule Plain) simp
  obtain s where s: "?R\<^sup>*\<^sup>* ?s2 s" "rc_log s = rc_log ?s2 @ [r]" "rc_done s = rc_done ?s2 @ [(rc_log ?s2, o_id h, r)]"
    using commit_guarded [of ?s2 0 sp "o_id h" r scope True "{sp}" "to_lower sp"] by (auto simp: holding_def)
  have "?R\<^sup>*\<^sup>* (race_start lg) s" using rtranclp_trans [OF rtranclp.rtrancl_into_rtrancl [of ?R, OF st1 st2] s(1)] .
  then show ?thesis using s by (intro exI [of _ s]) (simp add: holding_def race_start_def)
qed

lemma spelling_bypasses:
  assumes "head_of lg scope sp = Some h" and p: "o_scope p = scope" "o_entity p = to_lower sp" and r: "o_scope r = scope" "o_entity r = to_lower sp"
    and "to_lower sp' = to_lower sp" "lock_key scope sp' \<noteq> lock_key scope sp"
  shows "\<exists>s. (race_step False {sp, sp'} scope (to_lower sp))\<^sup>*\<^sup>* (race_start lg) s \<and> rc_log s = lg @ [p, r] \<and>
    rc_done s = [(lg, o_id h, p), (lg @ [p], o_id h, r)]"
proof -
  let ?R = "race_step False {sp, sp'} scope (to_lower sp)"
  let ?s1 = "holding scope 0 sp (o_id h) r (race_start lg)"
  let ?s2 = "holding scope 1 sp' (o_id h) p ?s1"
  have st1: "?R\<^sup>*\<^sup>* (race_start lg) ?s1"
    by (rule begin_guarded) (use assms in \<open>simp_all add: race_start_def\<close>)
  have st2: "?R\<^sup>*\<^sup>* ?s1 ?s2"
    by (rule begin_guarded) (use assms in \<open>simp_all add: race_start_def holding_def head_of_def\<close>)
  obtain s3 where s3: "?R\<^sup>*\<^sup>* ?s2 s3" "rc_log s3 = lg @ [p]" "rc_done s3 = [(lg, o_id h, p)]"
      "rc_lock s3 (lock_key scope sp) = Some 0" "rc_checked s3 0 = Some (sp, o_id h, r)"
    using commit_guarded [of ?s2 1 sp' "o_id h" p scope False "{sp, sp'}" "to_lower sp"] assms(7)
    by (auto simp: holding_def race_start_def)
  obtain s4 where s4: "?R\<^sup>*\<^sup>* s3 s4" "rc_log s4 = lg @ [p, r]" "rc_done s4 = [(lg, o_id h, p), (lg @ [p], o_id h, r)]"
    using commit_guarded [OF s3(5,4), of False "{sp, sp'}" "to_lower sp"] s3 by auto
  have "?R\<^sup>*\<^sup>* (race_start lg) s4"
    using rtranclp_trans [OF st1 rtranclp_trans [OF st2 rtranclp_trans [OF s3(1) s4(1)]]] .
  then show ?thesis using s4 by blast
qed

text \<open>C26: The guard binds only writers that guard and spell alike. A plain write between the check and the commit of a guarded one is overwritten without a conflict, and so is a guarded write under another spelling of the identifier.\<close>

theorem guard_is_bypassed:
  assumes "head_of lg scope sp = Some h" and "o_scope p = scope" "o_entity p = to_lower sp" "o_scope r = scope" "o_entity r = to_lower sp"
    and "older h p" "older p r" and "to_lower sp' = to_lower sp" "lock_key scope sp' \<noteq> lock_key scope sp"
  shows "head_of (lg @ [p]) scope sp = Some p \<and> head_of (lg @ [p, r]) scope sp = Some r \<and>
    (\<exists>s. (race_step True {sp} scope (to_lower sp))\<^sup>*\<^sup>* (race_start lg) s \<and> rc_log s = lg @ [p, r] \<and>
      rc_done s = [(lg @ [p], o_id h, r)]) \<and>
    (\<exists>s. (race_step False {sp, sp'} scope (to_lower sp))\<^sup>*\<^sup>* (race_start lg) s \<and> rc_log s = lg @ [p, r] \<and>
      rc_done s = [(lg, o_id h, p), (lg @ [p], o_id h, r)])"
proof -
  have p: "head_of (lg @ [p]) scope sp = Some p" by (rule head_appended [OF assms(1,2,3,6)])
  have "head_of (lg @ [p, r]) scope sp = Some r" using head_appended [OF p assms(4,5,7)] by simp
  then show ?thesis
    using p plain_bypasses [OF assms(1,4,5), of p] spelling_bypasses [OF assms(1,2,3,4,5,8,9)] by blast
qed

subsection \<open>Examples\<close>

theorem guarded_writes_never_clobber_witness:
  "\<exists>s h rest. (race_step False {tree_id} ''data_layer:i:l'' (to_lower tree_id))\<^sup>*\<^sup>* (race_start [tree_row CHR ''1'' 1 ''create'']) s \<and>
    head_of [tree_row CHR ''1'' 1 ''create''] ''data_layer:i:l'' tree_id = Some h \<and> o_id h = o_id (tree_row CHR ''1'' 1 ''create'') \<and>
    rc_log s = [tree_row CHR ''1'' 1 ''create''] @ tree_row CHR ''2'' 2 ''update'' # rest"
proof -
  let ?lg = "[tree_row CHR ''1'' 1 ''create'']" let ?R = "race_step False {tree_id} ''data_layer:i:l'' (to_lower tree_id)"
  let ?r = "tree_row CHR ''2'' 2 ''update''"
  have low: "to_lower tree_id = tree_id" by code_simp
  have h: "head_of ?lg ''data_layer:i:l'' tree_id = Some (tree_row CHR ''1'' 1 ''create'')"
    by (simp add: head_of_def history_def low tree_row_def)
  let ?s1 = "holding ''data_layer:i:l'' 0 tree_id (o_id (tree_row CHR ''1'' 1 ''create'')) ?r (race_start ?lg)"
  have st1: "?R\<^sup>*\<^sup>* (race_start ?lg) ?s1"
    by (rule begin_guarded) (use h low in \<open>simp_all add: race_start_def\<close>, simp_all add: tree_row_def)
  obtain s where s: "?R\<^sup>*\<^sup>* ?s1 s" "rc_done s = [(?lg, o_id (tree_row CHR ''1'' 1 ''create''), ?r)]"
    using commit_guarded [of ?s1 0 tree_id "o_id (tree_row CHR ''1'' 1 ''create'')" ?r "''data_layer:i:l''" False "{tree_id}" "to_lower tree_id"]
    by (auto simp: holding_def race_start_def)
  have "?R\<^sup>*\<^sup>* (race_start ?lg) s" by (rule rtranclp_trans [OF st1 s(1)])
  moreover from this have "\<exists>h rest. head_of ?lg ''data_layer:i:l'' tree_id = Some h \<and> o_id h = o_id (tree_row CHR ''1'' 1 ''create'') \<and>
      rc_log s = ?lg @ ?r # rest \<and> (older h ?r \<longrightarrow> head_of (?lg @ [?r]) ''data_layer:i:l'' tree_id = Some ?r)"
    by (rule guarded_writes_never_clobber) (simp_all add: s(2) low)
  ultimately show ?thesis by blast
qed

theorem guard_is_bypassed_witness:
  "\<exists>s. (race_step True {tree_id} ''data_layer:i:l'' (to_lower tree_id))\<^sup>*\<^sup>* (race_start [tree_row CHR ''1'' 1 ''create'']) s \<and>
    rc_log s = [tree_row CHR ''1'' 1 ''create'', tree_row CHR ''2'' 2 ''update'', tree_row CHR ''3'' 3 ''update'']"
proof -
  have low: "to_lower tree_id = tree_id" "to_lower tree_id_upper = tree_id" "tree_id_upper \<noteq> tree_id" by code_simp+
  have h: "head_of [tree_row CHR ''1'' 1 ''create''] ''data_layer:i:l'' tree_id = Some (tree_row CHR ''1'' 1 ''create'')"
    by (simp add: head_of_def history_def low tree_row_def)
  have "older (tree_row CHR ''1'' 1 ''create'') (tree_row CHR ''2'' 2 ''update'')" "older (tree_row CHR ''2'' 2 ''update'') (tree_row CHR ''3'' 3 ''update'')"
    by (simp_all add: older_def tree_row_def)
  moreover have "o_scope (tree_row c t k) = ''data_layer:i:l''" "o_entity (tree_row c t k) = to_lower tree_id" for c t k
    by (simp_all add: tree_row_def low)
  moreover have "to_lower tree_id_upper = to_lower tree_id" "lock_key ''data_layer:i:l'' tree_id_upper \<noteq> lock_key ''data_layer:i:l'' tree_id"
    using low by (simp_all add: lock_key_def)
  ultimately show ?thesis
    using guard_is_bypassed [OF h, of "tree_row CHR ''2'' 2 ''update''" "tree_row CHR ''3'' 3 ''update''" tree_id_upper] by auto
qed

end
