(* ===== verification/LayerVersion.thy ===== *)
theory LayerVersion
  imports LayerLog
begin

text \<open>
  The counter of write batches that a layer carries in the data of its item, and the ring of lost edits beside it:
  \<open>bumpLayerSyncVersion\<close>, \<open>readLayerSyncVersion\<close>, \<open>recordSyncConflict\<close> and \<open>dismissSyncConflict\<close> of
  \<open>apps/portal-api/src/data-layer/features.service.ts\<close> and \<open>layer-delta.ts\<close>. Each is a loop that reads the item,
  computes new data and writes them if \<open>updatedAt\<close> is still what it read. What others do to the item before the
  read of an attempt and between its read and its write are arguments of the loop. The data of an item are what the
  column gave back, so only an entry that is new is passed through \<open>JSON.stringify\<close>.
\<close>

record layer_item =
  it_type :: string
  it_data :: jsval
  it_updatedAt :: int

datatype version_error = Bad_request string | Not_found string | Write_conflict string | Crash

subsection \<open>Layers in the data of an item\<close>

definition v3_layers :: "jsval \<Rightarrow> jsval list option" where
  "v3_layers d =
     (if truthy d \<and> strict_eq (field_of d ''version'') (JNum (Fin 3))
      then case field_of d ''layers'' of JArr _ ls \<Rightarrow> Some ls | _ \<Rightarrow> None
      else None)"

text \<open>\<open>findIndex((l) => l.id === layerId)\<close>; the property of \<open>null\<close> throws.\<close>

fun layer_index :: "string \<Rightarrow> jsval list \<Rightarrow> version_error + nat option" where
  "layer_index k [] = Inr None"
| "layer_index k (l # ls) =
     (if nullish l then Inl Crash
      else if strict_eq (field_of l ''id'') (JStr k) then Inr (Some 0)
      else and_then (layer_index k ls) (\<lambda>i. Inr (map_option Suc i)))"

fun counter_of :: "jsval \<Rightarrow> int" where
  "counter_of (JNum (Fin q)) = max 0 \<lfloor>q\<rfloor>"
| "counter_of _ = 0"

text \<open>\<open>{ ...l, [k]: v }\<close> and \<open>{ ...data, layers }\<close> of objects.\<close>

definition with_field :: "jsval \<Rightarrow> string \<Rightarrow> jsval \<Rightarrow> jsval" where
  "with_field l k v = JObj 0 (spread (attrs_of l) [(k, v)])"

definition with_layer :: "jsval \<Rightarrow> jsval list \<Rightarrow> nat \<Rightarrow> jsval \<Rightarrow> jsval" where
  "with_layer d ls i l = with_field d ''layers'' (JArr 0 (ls[i := l]))"

definition read_layer_sync_version :: "string \<Rightarrow> layer_item option \<Rightarrow> version_error + int" where
  "read_layer_sync_version layerId it =
     (case Option.bind it (\<lambda>r. v3_layers (it_data r)) of
        None \<Rightarrow> Inr 0
      | Some ls \<Rightarrow> and_then (layer_index layerId ls) (\<lambda>i.
          Inr (case i of None \<Rightarrow> 0 | Some i \<Rightarrow> counter_of (field_of (ls ! i) ''syncVersion''))))"

subsection \<open>Optimistic writes of an item\<close>

definition write_data :: "int \<Rightarrow> int \<Rightarrow> jsval \<Rightarrow> layer_item option \<Rightarrow> layer_item option \<times> bool" where
  "write_data seen now d it =
     (case it of
        None \<Rightarrow> (None, False)
      | Some r \<Rightarrow> if it_updatedAt r = seen then (Some (r\<lparr> it_data := d, it_updatedAt := now \<rparr>), True) else (it, False))"

type_synonym 'a plan = "layer_item option \<Rightarrow> version_error + (int \<times> jsval \<times> 'a)"

fun optimistic ::
  "(nat \<Rightarrow> bool \<Rightarrow> layer_item option \<Rightarrow> layer_item option) \<Rightarrow> (nat \<Rightarrow> int) \<Rightarrow> 'a plan \<Rightarrow> version_error \<Rightarrow> nat \<Rightarrow> layer_item option \<Rightarrow>
   layer_item option \<times> (version_error + 'a)" where
  "optimistic others now plan gave_up 0 it = (it, Inl gave_up)"
| "optimistic others now plan gave_up (Suc n) it =
     (let it0 = others n False it
      in case plan it0 of
           Inl e \<Rightarrow> (it0, Inl e)
         | Inr (seen, d, x) \<Rightarrow>
             (case write_data seen (now n) d (others n True it0) of
                (it', True) \<Rightarrow> (it', Inr x)
              | (it', False) \<Rightarrow> optimistic others now plan gave_up n it'))"

subsection \<open>The counter\<close>

definition bump_plan :: "string \<Rightarrow> jsnum plan" where
  "bump_plan layerId it =
     (case it of
        None \<Rightarrow> Inl (Not_found ''Item not found'')
      | Some r \<Rightarrow>
          (case v3_layers (it_data r) of
             None \<Rightarrow> Inl (Bad_request ''syncVersion is only defined on v3 data_layer items.'')
           | Some ls \<Rightarrow> and_then (layer_index layerId ls) (\<lambda>idx.
               case idx of
                 None \<Rightarrow> Inl (Not_found ''Layer not found'')
               | Some i \<Rightarrow>
                   let next_version = n_add (Fin (of_int (counter_of (field_of (ls ! i) ''syncVersion'')))) (Fin 1)
                   in Inr (it_updatedAt r, with_layer (it_data r) ls i (with_field (ls ! i) ''syncVersion'' (JNum next_version)),
                           next_version))))"

definition bump_layer_sync_version ::
  "(nat \<Rightarrow> bool \<Rightarrow> layer_item option \<Rightarrow> layer_item option) \<Rightarrow> (nat \<Rightarrow> int) \<Rightarrow> string \<Rightarrow> layer_item option \<Rightarrow>
   layer_item option \<times> (version_error + jsnum)" where
  "bump_layer_sync_version others now layerId it =
     optimistic others now (bump_plan layerId) (Write_conflict ''Could not bump layer syncVersion; try the write again.'') 8 it"

definition sync_version_source :: "jsnum \<Rightarrow> jsval" where
  "sync_version_source v = JObj 0 [(''kind'', JStr ''data_layer:write''), (''details'', JObj 0 [(''syncVersion'', JNum v)])]"

subsection \<open>The ring of lost edits\<close>

definition MAX_SYNC_CONFLICTS :: nat where "MAX_SYNC_CONFLICTS = 50"

record conflict_args =
  ca_id :: string
  ca_at :: string
  ca_featureId :: string
  ca_op :: string
  ca_base :: "string option"
  ca_losingSide :: jsval
  ca_current :: jsval

definition conflict_entry :: "conflict_args \<Rightarrow> jsval" where
  "conflict_entry c =
     json_value (JObj 0
       ([(''id'', JStr (ca_id c)), (''at'', JStr (ca_at c)), (''featureId'', JStr (ca_featureId c)), (''op'', JStr (ca_op c))]
        @ (case ca_base c of None \<Rightarrow> [] | Some b \<Rightarrow> [(''baseObservationId'', JStr b)])
        @ [(''losingSide'', ca_losingSide c), (''current'', ca_current c)]))"

definition conflicts_of :: "jsval \<Rightarrow> jsval list" where
  "conflicts_of l = (case field_of l ''syncConflicts'' of JArr _ cs \<Rightarrow> cs | _ \<Rightarrow> [])"

definition last_of :: "nat \<Rightarrow> 'a list \<Rightarrow> 'a list" where
  "last_of n xs = drop (length xs - n) xs"

definition record_plan :: "string \<Rightarrow> conflict_args \<Rightarrow> string plan" where
  "record_plan layerId c it =
     (case it of
        None \<Rightarrow> Inl Crash
      | Some r \<Rightarrow>
          (case v3_layers (it_data r) of
             None \<Rightarrow> Inl Crash
           | Some ls \<Rightarrow> and_then (layer_index layerId ls) (\<lambda>idx.
               case idx of
                 None \<Rightarrow> Inl Crash
               | Some i \<Rightarrow>
                   let next_conflicts = last_of MAX_SYNC_CONFLICTS (conflicts_of (ls ! i) @ [conflict_entry c])
                   in Inr (it_updatedAt r, with_layer (it_data r) ls i (with_field (ls ! i) ''syncConflicts'' (JArr 0 next_conflicts)),
                           ca_id c))))"

text \<open>Whatever goes wrong, the answer is \<open>undefined\<close>: \<open>Crash\<close> above stands for the early returns as well.\<close>

definition record_sync_conflict ::
  "(nat \<Rightarrow> bool \<Rightarrow> layer_item option \<Rightarrow> layer_item option) \<Rightarrow> (nat \<Rightarrow> int) \<Rightarrow> string \<Rightarrow> conflict_args \<Rightarrow> layer_item option \<Rightarrow>
   layer_item option \<times> string option" where
  "record_sync_conflict others now layerId c it =
     (case optimistic others now (record_plan layerId c) Crash 5 it of
        (it', Inl _) \<Rightarrow> (it', None)
      | (it', Inr i) \<Rightarrow> (it', Some i))"

definition dismiss_plan :: "string \<Rightarrow> string \<Rightarrow> unit plan" where
  "dismiss_plan layerId conflictId it =
     (case it of
        None \<Rightarrow> Inl (Not_found ''Item not found'')
      | Some r \<Rightarrow>
          if it_type r \<noteq> ''data_layer'' then Inl (Bad_request ''Sync conflicts only exist on data layers'')
          else (case v3_layers (it_data r) of
             None \<Rightarrow> Inl (Bad_request ''Sync conflicts require a v3 data layer'')
           | Some ls \<Rightarrow> and_then (layer_index layerId ls) (\<lambda>idx.
               case idx of
                 None \<Rightarrow> Inl (Not_found ''Layer not found'')
               | Some i \<Rightarrow>
                   let prev = conflicts_of (ls ! i);
                       next_conflicts = filter (\<lambda>c. \<not> strict_eq (field_of c ''id'') (JStr conflictId)) prev
                   in if length next_conflicts = length prev then Inl (Not_found ''Sync conflict not found'')
                      else Inr (it_updatedAt r,
                             with_layer (it_data r) ls i (with_field (ls ! i) ''syncConflicts'' (JArr 0 next_conflicts)), ()))))"

definition dismiss_sync_conflict ::
  "(nat \<Rightarrow> bool \<Rightarrow> layer_item option \<Rightarrow> layer_item option) \<Rightarrow> (nat \<Rightarrow> int) \<Rightarrow> string \<Rightarrow> string \<Rightarrow> layer_item option \<Rightarrow>
   layer_item option \<times> (version_error + unit)" where
  "dismiss_sync_conflict others now layerId conflictId it =
     (if trim conflictId = [] then (it, Inl (Bad_request ''conflictId is required''))
      else optimistic others now (dismiss_plan layerId (trim conflictId))
             (Write_conflict ''Could not dismiss that sync conflict; try again.'') 5 it)"

subsection \<open>An optimistic write is one step\<close>

text \<open>Others are noticed when a change of theirs moves \<open>updatedAt\<close>. The column counts milliseconds, so this excludes
  two writes of one item within a millisecond.\<close>

definition noticed :: "(nat \<Rightarrow> bool \<Rightarrow> layer_item option \<Rightarrow> layer_item option) \<Rightarrow> bool" where
  "noticed others \<longleftrightarrow>
     (\<forall>n r r'. others n True (Some r) = Some r' \<longrightarrow> it_updatedAt r' = it_updatedAt r \<longrightarrow> r' = r)"

lemma write_data_True:
  "write_data seen now d it = (it', True) \<longleftrightarrow>
   (\<exists>r. it = Some r \<and> it_updatedAt r = seen \<and> it' = Some (r\<lparr> it_data := d, it_updatedAt := now \<rparr>))"
  by (auto simp: write_data_def split: option.splits)

lemma write_data_False: "write_data seen now d it = (it', False) \<Longrightarrow> it' = it"
  by (auto simp: write_data_def split: option.splits if_splits)

text \<open>What a loop needs of the computation it repeats: it works on an item, and the stamp it hands to the write is
  that of the item it read.\<close>

locale item_plan =
  fixes plan :: "'a plan"
  assumes reads_item: "plan it = Inr (seen, d, x) \<Longrightarrow> \<exists>r. it = Some r \<and> it_updatedAt r = seen"
begin

lemma one_step:
  assumes "optimistic others now plan e n it = (it', Inr x)" and "noticed others"
  shows "\<exists>r m d. m < n \<and> plan (Some r) = Inr (it_updatedAt r, d, x) \<and> it' = Some (r\<lparr> it_data := d, it_updatedAt := now m \<rparr>)"
  using assms(1)
proof (induction n arbitrary: it)
  case (Suc n)
  let ?it = "others n False it"
  from Suc.prems obtain seen d y where p: "plan ?it = Inr (seen, d, y)"
    by (auto simp: Let_def split: sum.splits)
  obtain r where r: "?it = Some r" "it_updatedAt r = seen" using reads_item p by blast
  obtain it1 ok where w: "write_data seen (now n) d (others n True ?it) = (it1, ok)" by fastforce
  show ?case
  proof (cases ok)
    case True
    then obtain r1 where r1: "others n True (Some r) = Some r1" "it_updatedAt r1 = seen"
        "it1 = Some (r1\<lparr> it_data := d, it_updatedAt := now n \<rparr>)" using w r by (auto simp: write_data_True)
    then have "r1 = r" using assms(2) r by (auto simp: noticed_def)
    moreover have "it' = it1" "y = x" using Suc.prems p w True by (auto simp: Let_def)
    ultimately show ?thesis using p r r1 by (intro exI [of _ r] exI [of _ n]) auto
  next
    case False
    then have "optimistic others now plan e n it1 = (it', Inr x)" using Suc.prems p w by (simp add: Let_def)
    from Suc.IH [OF this] show ?thesis using less_SucI by blast
  qed
qed simp

lemma alone:
  "plan (Some r) = Inr (seen, d, x) \<Longrightarrow>
   optimistic (\<lambda>_ _ it. it) now plan e (Suc n) (Some r) = (Some (r\<lparr> it_data := d, it_updatedAt := now n \<rparr>), Inr x)"
  using reads_item [of "Some r"] by (fastforce simp: write_data_def)

end

interpretation bumping: item_plan "bump_plan k" for k
  by unfold_locales (auto simp: bump_plan_def Let_def and_then_Inr split: option.splits)

interpretation recording: item_plan "record_plan k c" for k c
  by unfold_locales (auto simp: record_plan_def Let_def and_then_Inr split: option.splits)

interpretation dismissing: item_plan "dismiss_plan k cid" for k cid
  by unfold_locales (auto simp: dismiss_plan_def Let_def and_then_Inr split: option.splits if_splits)

lemma layer_index_Some:
  "layer_index k ls = Inr (Some i) \<Longrightarrow> i < length ls \<and> strict_eq (field_of (ls ! i) ''id'') (JStr k) \<and> (\<forall>j \<le> i. \<not> nullish (ls ! j))
     \<and> (\<forall>j < i. \<not> strict_eq (field_of (ls ! j) ''id'') (JStr k))"
proof (induction ls arbitrary: i)
  case (Cons l ls)
  show ?case
  proof (cases "strict_eq (field_of l ''id'') (JStr k)")
    case True
    then show ?thesis using Cons.prems by (auto split: if_splits)
  next
    case False
    then obtain j where "layer_index k ls = Inr (Some j)" "i = Suc j" "\<not> nullish l"
      using Cons.prems by (auto simp: and_then_Inr split: if_splits)
    then show ?thesis using Cons.IH [of j] False by (auto simp: All_less_Suc2 le_Suc_eq nth_Cons')
  qed
qed simp

lemma layer_index_update:
  assumes "layer_index k ls = Inr (Some i)" and "\<not> nullish l" "strict_eq (field_of l ''id'') (JStr k)"
  shows "layer_index k (ls[i := l]) = Inr (Some i)"
  using assms by (induction ls arbitrary: i) (auto simp: and_then_Inr split: if_splits nat.splits)

lemma get_set_field: "get (obj_set k v m) j = (if j = k then v else get m j)"
  by (simp add: get_def)

lemma field_with_field: "field_of (with_field l k v) j = (if j = k then v else get (attrs_of l) j)"
  by (simp add: with_field_def get_set_field)

lemma get_attrs: "field_of l j \<noteq> Undef \<Longrightarrow> get (attrs_of l) j = field_of l j"
  by (cases l) (auto simp: attrs_of_def)

lemma truthy_with_field [simp]: "truthy (with_field l k v)" "\<not> nullish (with_field l k v)"
  by (simp_all add: with_field_def)

lemma strict_eq_str: "strict_eq v (JStr k) \<longleftrightarrow> v = JStr k"
  by (cases v) auto

lemma v3_layers_with_layer:
  assumes "v3_layers d = Some ls"
  shows "v3_layers (with_layer d ls i l) = Some (ls[i := l])"
proof -
  have "strict_eq (field_of d ''version'') (JNum (Fin 3))" using assms by (auto simp: v3_layers_def split: if_splits)
  moreover from this have "get (attrs_of d) ''version'' = field_of d ''version''"
    by (intro get_attrs) auto
  ultimately show ?thesis by (simp add: v3_layers_def with_layer_def field_with_field)
qed

text \<open>The layer of an item after a field of it was replaced.\<close>

lemma layer_replaced:
  assumes "v3_layers d = Some ls" "layer_index k ls = Inr (Some i)" "f \<noteq> ''id''"
  shows "v3_layers (with_layer d ls i (with_field (ls ! i) f v)) = Some (ls[i := with_field (ls ! i) f v])"
    and "layer_index k (ls[i := with_field (ls ! i) f v]) = Inr (Some i)"
    and "field_of (with_field (ls ! i) f v) f = v"
    and "g \<noteq> f \<Longrightarrow> field_of (ls ! i) g \<noteq> Undef \<Longrightarrow> field_of (with_field (ls ! i) f v) g = field_of (ls ! i) g"
proof -
  note i = layer_index_Some [OF assms(2)]
  show "v3_layers (with_layer d ls i (with_field (ls ! i) f v)) = Some (ls[i := with_field (ls ! i) f v])"
    by (rule v3_layers_with_layer [OF assms(1)])
  have "field_of (with_field (ls ! i) f v) ''id'' = field_of (ls ! i) ''id''"
    using i assms(3) by (auto simp: field_with_field strict_eq_str get_attrs)
  then show "layer_index k (ls[i := with_field (ls ! i) f v]) = Inr (Some i)"
    using i by (intro layer_index_update [OF assms(2)]) auto
  show "field_of (with_field (ls ! i) f v) f = v" by (simp add: field_with_field)
  show "g \<noteq> f \<Longrightarrow> field_of (ls ! i) g \<noteq> Undef \<Longrightarrow> field_of (with_field (ls ! i) f v) g = field_of (ls ! i) g"
    by (simp add: field_with_field get_attrs)
qed

subsection \<open>Versions are handed out once\<close>

text \<open>A layer whose counter stands at \<open>c\<close>.\<close>

definition has_counter :: "string \<Rightarrow> int \<Rightarrow> layer_item \<Rightarrow> bool" where
  "has_counter k c r \<longleftrightarrow>
     (\<exists>ls i. v3_layers (it_data r) = Some ls \<and> layer_index k ls = Inr (Some i) \<and> counter_of (field_of (ls ! i) ''syncVersion'') = c)"

lemma read_has_counter: "has_counter k c r \<Longrightarrow> read_layer_sync_version k (Some r) = Inr c"
  by (auto simp: has_counter_def read_layer_sync_version_def)

lemma has_counter_nonneg: "has_counter k c r \<Longrightarrow> 0 \<le> c"
proof -
  have "0 \<le> counter_of v" for v by (cases v rule: counter_of.cases) auto
  then show "has_counter k c r \<Longrightarrow> 0 \<le> c" by (auto simp: has_counter_def)
qed

lemma next_version: "0 \<le> c \<Longrightarrow> c + 1 < 2 ^ 53 \<Longrightarrow> n_add (Fin (of_int c)) (Fin 1) = Fin (of_int (c + 1))"
  using fl_int [of "c + 1"] by simp

lemma bump_plan_counter:
  assumes "has_counter k c r" "c + 1 < 2 ^ 53"
  shows "\<exists>d. bump_plan k (Some r) = Inr (it_updatedAt r, d, Fin (of_int (c + 1))) \<and>
    (\<forall>t. has_counter k (c + 1) (r\<lparr> it_data := d, it_updatedAt := t \<rparr>))"
proof -
  obtain ls i where r: "v3_layers (it_data r) = Some ls" "layer_index k ls = Inr (Some i)"
      "counter_of (field_of (ls ! i) ''syncVersion'') = c" using assms(1) by (auto simp: has_counter_def)
  have i: "i < length ls" using layer_index_Some [OF r(2)] by simp
  have v: "n_add (Fin (of_int c)) (Fin 1) = Fin (of_int (c + 1))"
    using next_version [OF has_counter_nonneg [OF assms(1)] assms(2)] .
  let ?l = "with_field (ls ! i) ''syncVersion'' (JNum (Fin (of_int (c + 1))))"
  have plan: "bump_plan k (Some r) = Inr (it_updatedAt r, with_layer (it_data r) ls i ?l, Fin (of_int (c + 1)))"
    using r v by (simp add: bump_plan_def Let_def del: n_add.simps)
  note new = layer_replaced [OF r(1,2), where f = "''syncVersion''" and v = "JNum (Fin (of_int (c + 1)))"]
  have "has_counter k (c + 1) (r\<lparr> it_data := with_layer (it_data r) ls i ?l, it_updatedAt := t \<rparr>)" for t
    unfolding has_counter_def using new i has_counter_nonneg [OF assms(1)]
    by (intro exI [of _ "ls[i := ?l]"] exI [of _ i]) simp
  with plan show ?thesis by blast
qed

text \<open>
  Many writers bump the counter of one layer: each reads, and later writes if nobody else wrote meanwhile. An edit
  is any other write of the item that leaves the counter as it is. The clock moves between two writes.
\<close>

record counter_state =
  cs_item :: layer_item
  cs_held :: "nat \<Rightarrow> (int \<times> jsval \<times> jsnum) option"
  cs_given :: "jsnum list"

inductive counter_step :: "string \<Rightarrow> counter_state \<Rightarrow> counter_state \<Rightarrow> bool" for k where
  Bump_read: "bump_plan k (Some (cs_item s)) = Inr p \<Longrightarrow> counter_step k s (s\<lparr> cs_held := (cs_held s)(w := Some p) \<rparr>)"
| Bump_write: "cs_held s w = Some (seen, d, v) \<Longrightarrow> it_updatedAt (cs_item s) < now \<Longrightarrow>
    write_data seen now d (Some (cs_item s)) = (Some r, ok) \<Longrightarrow>
    counter_step k s (s\<lparr> cs_item := r, cs_held := (cs_held s)(w := None), cs_given := cs_given s @ (if ok then [v] else []) \<rparr>)"
| Edit: "has_counter k c (cs_item s) \<Longrightarrow> has_counter k c r \<Longrightarrow> it_updatedAt (cs_item s) < it_updatedAt r \<Longrightarrow>
    counter_step k s (s\<lparr> cs_item := r \<rparr>)"

inductive_cases counter_stepE: "counter_step k s s'"

definition counting :: "string \<Rightarrow> int \<Rightarrow> counter_state \<Rightarrow> bool" where
  "counting k c s \<longleftrightarrow>
     has_counter k (c + int (length (cs_given s))) (cs_item s) \<and>
     cs_given s = map (\<lambda>j. Fin (of_int (c + 1 + int j))) [0..<length (cs_given s)] \<and>
     (\<forall>w seen d v. cs_held s w = Some (seen, d, v) \<longrightarrow>
        seen \<le> it_updatedAt (cs_item s) \<and>
        (seen = it_updatedAt (cs_item s) \<longrightarrow> bump_plan k (Some (cs_item s)) = Inr (seen, d, v)))"

lemma has_counter_unique: "has_counter k c r \<Longrightarrow> has_counter k c' r \<Longrightarrow> c = c'"
  by (auto simp: has_counter_def)

lemma bump_plan_seen: "bump_plan k (Some r) = Inr (seen, d, v) \<Longrightarrow> seen = it_updatedAt r"
  by (auto simp: bump_plan_def Let_def and_then_Inr split: option.splits)

lemma counting_step:
  assumes "counter_step k s s'" "counting k c s" "c + int (length (cs_given s')) < 2 ^ 53"
  shows "counting k c s'"
  using assms(1)
proof (cases rule: counter_step.cases)
  case (Bump_read p w)
  obtain seen d v where p: "p = (seen, d, v)" by (cases p)
  show ?thesis
    using assms(2) bump_plan_seen Bump_read p by (auto simp: counting_def)
next
  case (Edit r)
  then show ?thesis using assms(2) has_counter_unique by (fastforce simp: counting_def)
next
  case (Bump_write w seen d v now r ok)
  note held = assms(2) [unfolded counting_def, THEN conjunct2, THEN conjunct2, rule_format]
  let ?n = "length (cs_given s)"
  show ?thesis
  proof (cases ok)
    case False
    then have "r = cs_item s" using write_data_False Bump_write(4) by fastforce
    then show ?thesis using assms(2) Bump_write False by (simp add: counting_def)
  next
    case True
    then have r: "seen = it_updatedAt (cs_item s)" "r = (cs_item s)\<lparr> it_data := d, it_updatedAt := now \<rparr>"
      using Bump_write(4) by (auto simp: write_data_True)
    have "has_counter k (c + int ?n) (cs_item s)" using assms(2) by (simp add: counting_def)
    moreover have "c + int ?n + 1 < 2 ^ 53" using assms(3) Bump_write True by simp
    ultimately obtain d' where "bump_plan k (Some (cs_item s)) = Inr (it_updatedAt (cs_item s), d', Fin (of_int (c + int ?n + 1)))"
        "\<forall>t. has_counter k (c + int ?n + 1) ((cs_item s)\<lparr> it_data := d', it_updatedAt := t \<rparr>)"
      using bump_plan_counter by blast
    moreover have "bump_plan k (Some (cs_item s)) = Inr (seen, d, v)" using held [OF Bump_write(2)] r by simp
    ultimately have new: "v = Fin (of_int (c + int ?n + 1))" "has_counter k (c + int ?n + 1) r" using r by auto
    have given: "cs_given s = map (\<lambda>j. Fin (of_int (c + 1 + int j))) [0..<?n]" using assms(2) by (simp add: counting_def)
    have "cs_given s' = map (\<lambda>j. Fin (of_int (c + 1 + int j))) [0..<Suc ?n]"
      using Bump_write True new given by (simp add: algebra_simps)
    moreover have "seen' < it_updatedAt r" if "cs_held s w' = Some (seen', d', v')" for w' seen' d' v'
      using held [OF that] r Bump_write(3) by simp
    ultimately show ?thesis
      using Bump_write True new by (fastforce simp: counting_def algebra_simps)
  qed
qed

lemma given_grows: "counter_step k s s' \<Longrightarrow> length (cs_given s) \<le> length (cs_given s')"
  by (auto elim: counter_stepE)

lemma counting_run:
  assumes "(counter_step k)\<^sup>*\<^sup>* \<lparr> cs_item = r, cs_held = (\<lambda>_. None), cs_given = [] \<rparr> s"
    and "has_counter k c r" and "c + int (length (cs_given s)) < 2 ^ 53"
  shows "counting k c s"
  using assms
proof (induction rule: rtranclp_induct)
  case base
  then show ?case by (simp add: counting_def)
next
  case (step s s')
  then show ?case using counting_step given_grows by fastforce
qed

text \<open>C6: Whatever the order in which writers read and write the item, the versions they are given are the counter's successors, each once and in order.\<close>

theorem versions_handed_out_once:
  assumes "(counter_step k)\<^sup>*\<^sup>* \<lparr> cs_item = r, cs_held = (\<lambda>_. None), cs_given = [] \<rparr> s"
    and "has_counter k c r" and "c + int (length (cs_given s)) < 2 ^ 53"
  shows "cs_given s = map (\<lambda>j. Fin (of_int (c + 1 + int j))) [0..<length (cs_given s)] \<and>
    read_layer_sync_version k (Some (cs_item s)) = Inr (c + int (length (cs_given s)))"
  using counting_run [OF assms] by (auto simp: counting_def intro: read_has_counter)

text \<open>
  The write of a layer's data by \<open>ItemsService.update\<close>: the schema editor sends the data as it loaded them, with
  its changes, and the column is replaced.
\<close>

definition save_item_data :: "jsval \<Rightarrow> int \<Rightarrow> layer_item \<Rightarrow> layer_item" where
  "save_item_data nextData now r = r\<lparr> it_data := nextData, it_updatedAt := now \<rparr>"

text \<open>C27: A schema that is saved as it was loaded takes the counter back: the next batch gets a version that was already given to another.\<close>

theorem saved_schema_reuses_versions:
  assumes "(counter_step k)\<^sup>*\<^sup>* \<lparr> cs_item = r, cs_held = (\<lambda>_. None), cs_given = [] \<rparr> s"
    and "has_counter k c r" and "c + int (length (cs_given s)) < 2 ^ 53" and "cs_given s \<noteq> []"
    and "has_counter k c (save_item_data d t (cs_item s))"
  shows "read_layer_sync_version k (Some (cs_item s)) = Inr (c + int (length (cs_given s))) \<and>
    read_layer_sync_version k (Some (save_item_data d t (cs_item s))) = Inr c \<and>
    (\<exists>it v. bump_layer_sync_version (\<lambda>_ _ it. it) now k (Some (save_item_data d t (cs_item s))) = (it, Inr v) \<and> v \<in> set (cs_given s))"
proof -
  note run = counting_run [OF assms(1,2,3), unfolded counting_def]
  let ?r = "save_item_data d t (cs_item s)"
  have given: "cs_given s = map (\<lambda>j. Fin (of_int (c + 1 + int j))) [0..<length (cs_given s)]" using run by blast
  have len: "0 < length (cs_given s)" using assms(4) by simp
  then have "Fin (of_int (c + 1)) \<in> set (map (\<lambda>j. Fin (of_int (c + 1 + int j))) [0..<length (cs_given s)])"
    by (force simp: image_iff)
  then have "Fin (of_int (c + 1)) \<in> set (cs_given s)" by (subst given)
  moreover have "c + 1 < 2 ^ 53" using assms(3) len by linarith
  moreover from this obtain d' where "bump_plan k (Some ?r) = Inr (it_updatedAt ?r, d', Fin (of_int (c + 1)))"
    using bump_plan_counter [OF assms(5)] by blast
  note bumping.alone [OF this, of now "Write_conflict ''Could not bump layer syncVersion; try the write again.''" 7]
  ultimately show ?thesis
    using run read_has_counter assms(5) by (fastforce simp: bump_layer_sync_version_def)
qed

subsection \<open>The ring keeps the latest fifty\<close>

definition layer_of :: "string \<Rightarrow> layer_item \<Rightarrow> jsval option" where
  "layer_of k r =
     (case v3_layers (it_data r) of
        None \<Rightarrow> None
      | Some ls \<Rightarrow> (case layer_index k ls of Inr (Some i) \<Rightarrow> Some (ls ! i) | _ \<Rightarrow> None))"

lemma layer_of_replaced:
  assumes "v3_layers (it_data r) = Some ls" "layer_index k ls = Inr (Some i)" "f \<noteq> ''id''"
  shows "layer_of k (r\<lparr> it_data := with_layer (it_data r) ls i (with_field (ls ! i) f v), it_updatedAt := t \<rparr>) = Some (with_field (ls ! i) f v)"
  using layer_replaced [OF assms] layer_index_Some [OF assms(2)] by (simp add: layer_of_def)

lemma last_of_bound: "length (last_of n xs) \<le> n"
  by (simp add: last_of_def)

lemma conflicts_with_field: "conflicts_of (with_field l ''syncConflicts'' (JArr a cs)) = cs"
  by (simp add: conflicts_of_def field_with_field)

lemma record_exact:
  assumes "noticed others" and a: "record_sync_conflict others now k c it = (it', Some i)"
  shows "\<exists>r r' l l'. it' = Some r' \<and> layer_of k r = Some l \<and> layer_of k r' = Some l' \<and>
    conflicts_of l' = last_of 50 (conflicts_of l @ [conflict_entry c]) \<and>
    (\<forall>g. g \<noteq> ''syncConflicts'' \<longrightarrow> field_of l g \<noteq> Undef \<longrightarrow> field_of l' g = field_of l g)"
proof -
  have opt: "optimistic others now (record_plan k c) Crash 5 it = (it', Inr i)"
    using a by (auto simp: record_sync_conflict_def split: prod.splits sum.splits)
  from recording.one_step [OF opt assms(1)] obtain r m d where
    r: "record_plan k c (Some r) = Inr (it_updatedAt r, d, i)" "it' = Some (r\<lparr> it_data := d, it_updatedAt := now m \<rparr>)" by blast
  then obtain ls j where ls: "v3_layers (it_data r) = Some ls" "layer_index k ls = Inr (Some j)"
      "d = with_layer (it_data r) ls j (with_field (ls ! j) ''syncConflicts''
             (JArr 0 (last_of 50 (conflicts_of (ls ! j) @ [conflict_entry c]))))"
    by (auto simp: record_plan_def Let_def and_then_Inr MAX_SYNC_CONFLICTS_def split: option.splits)
  have "layer_of k r = Some (ls ! j)" using ls by (simp add: layer_of_def)
  then show ?thesis
    using r(2) ls(3) layer_of_replaced [OF ls(1,2), of "''syncConflicts''" "now m" "JArr 0 cs" for cs]
    by (intro exI [of _ r] exI [of _ "r\<lparr> it_data := d, it_updatedAt := now m \<rparr>"] exI [of _ "ls ! j"]
          exI [of _ "with_field (ls ! j) ''syncConflicts'' (JArr 0 (last_of 50 (conflicts_of (ls ! j) @ [conflict_entry c])))"])
       (auto simp: conflicts_with_field field_with_field get_attrs)
qed

lemma dismiss_exact:
  assumes "noticed others" and a: "dismiss_sync_conflict others now k cid it = (it', Inr u)"
  shows "\<exists>r r' l l'. it' = Some r' \<and> layer_of k r = Some l \<and> layer_of k r' = Some l' \<and>
    conflicts_of l' = filter (\<lambda>x. field_of x ''id'' \<noteq> JStr (trim cid)) (conflicts_of l) \<and> conflicts_of l' \<noteq> conflicts_of l \<and>
    (\<forall>g. g \<noteq> ''syncConflicts'' \<longrightarrow> field_of l g \<noteq> Undef \<longrightarrow> field_of l' g = field_of l g)"
proof -
  have opt: "optimistic others now (dismiss_plan k (trim cid))
      (Write_conflict ''Could not dismiss that sync conflict; try again.'') 5 it = (it', Inr ())"
    using a by (auto simp: dismiss_sync_conflict_def split: if_splits)
  from dismissing.one_step [OF opt assms(1)] obtain r m d where
    r: "dismiss_plan k (trim cid) (Some r) = Inr (it_updatedAt r, d, ())" "it' = Some (r\<lparr> it_data := d, it_updatedAt := now m \<rparr>)" by blast
  then obtain ls j where ls: "v3_layers (it_data r) = Some ls" "layer_index k ls = Inr (Some j)"
      "d = with_layer (it_data r) ls j (with_field (ls ! j) ''syncConflicts''
             (JArr 0 (filter (\<lambda>x. field_of x ''id'' \<noteq> JStr (trim cid)) (conflicts_of (ls ! j)))))"
    and ne: "length (filter (\<lambda>x. field_of x ''id'' \<noteq> JStr (trim cid)) (conflicts_of (ls ! j))) \<noteq> length (conflicts_of (ls ! j))"
    by (auto simp: dismiss_plan_def Let_def and_then_Inr strict_eq_str split: option.splits if_splits)
  have "layer_of k r = Some (ls ! j)" using ls by (simp add: layer_of_def)
  moreover have "filter (\<lambda>x. field_of x ''id'' \<noteq> JStr (trim cid)) (conflicts_of (ls ! j)) \<noteq> conflicts_of (ls ! j)"
    using ne by metis
  ultimately show ?thesis
    using r(2) ls(3) layer_of_replaced [OF ls(1,2), of "''syncConflicts''" "now m" "JArr 0 cs" for cs]
    by (intro exI [of _ r] exI [of _ "r\<lparr> it_data := d, it_updatedAt := now m \<rparr>"] exI [of _ "ls ! j"]
          exI [of _ "with_field (ls ! j) ''syncConflicts'' (JArr 0 (filter (\<lambda>x. field_of x ''id'' \<noteq> JStr (trim cid)) (conflicts_of (ls ! j))))"])
       (auto simp: conflicts_with_field field_with_field get_attrs)
qed

text \<open>Recording a lost edit appends it and keeps the latest fifty; dismissing one removes the entries with that identifier and no other. Both leave the other fields of the layer alone.\<close>

lemma conflict_ring_exact:
  assumes "noticed others"
  shows "(record_sync_conflict others now k c it = (it1, Some i) \<longrightarrow>
      (\<exists>r r' l l'. it1 = Some r' \<and> layer_of k r = Some l \<and> layer_of k r' = Some l' \<and>
        conflicts_of l' = last_of 50 (conflicts_of l @ [conflict_entry c]) \<and>
        length (conflicts_of l') \<le> 50 \<and> last (conflicts_of l') = conflict_entry c \<and>
        (\<forall>g. g \<noteq> ''syncConflicts'' \<longrightarrow> field_of l g \<noteq> Undef \<longrightarrow> field_of l' g = field_of l g))) \<and>
    (dismiss_sync_conflict others now k cid it = (it2, Inr u) \<longrightarrow>
      (\<exists>r r' l l'. it2 = Some r' \<and> layer_of k r = Some l \<and> layer_of k r' = Some l' \<and>
        conflicts_of l' = filter (\<lambda>x. field_of x ''id'' \<noteq> JStr (trim cid)) (conflicts_of l) \<and> conflicts_of l' \<noteq> conflicts_of l \<and>
        (\<forall>g. g \<noteq> ''syncConflicts'' \<longrightarrow> field_of l g \<noteq> Undef \<longrightarrow> field_of l' g = field_of l g)))"
proof -
  have l: "last (last_of 50 (xs @ [x])) = x" for xs and x :: jsval by (simp add: last_of_def)
  show ?thesis
    by (intro conjI impI; drule record_exact [OF assms] dismiss_exact [OF assms]; elim exE conjE)
       (auto simp: l last_of_bound)
qed

subsection \<open>A layer of trees\<close>

definition trees_item :: "int \<Rightarrow> int \<Rightarrow> layer_item" where
  "trees_item c t =
     \<lparr> it_type = ''data_layer'',
       it_data = JObj 0 [(''version'', JNum (Fin 3)),
         (''layers'', JArr 0 [JObj 0 [(''id'', JStr ''trees''), (''syncVersion'', JNum (Fin (of_int c)))]])],
       it_updatedAt = t \<rparr>"

lemma trees_counter: "0 \<le> c \<Longrightarrow> has_counter ''trees'' c (trees_item c t)"
  by (simp add: has_counter_def trees_item_def v3_layers_def get_def)

text \<open>One batch after the editor loaded the layer.\<close>

definition trees_run :: counter_state where
  "trees_run = \<lparr> cs_item = trees_item 6 2, cs_held = (\<lambda>_. None), cs_given = [Fin 6] \<rparr>"

lemma trees_step:
  "(counter_step ''trees'')\<^sup>*\<^sup>* \<lparr> cs_item = trees_item 5 1, cs_held = (\<lambda>_. None), cs_given = [] \<rparr> trees_run"
proof -
  let ?s = "\<lparr> cs_item = trees_item 5 1, cs_held = (\<lambda>_. None), cs_given = [] \<rparr>"
  let ?p = "(1, it_data (trees_item 6 2), Fin 6)"
  have "n_add (Fin 5) (Fin 1) = Fin 6" using next_version [of 5] by simp
  then have plan: "bump_plan ''trees'' (Some (trees_item 5 1)) = Inr ?p"
    by (simp add: bump_plan_def trees_item_def v3_layers_def get_def with_layer_def with_field_def attrs_of_def Let_def del: n_add.simps)
  have "counter_step ''trees'' ?s (?s\<lparr> cs_held := (cs_held ?s)(0 := Some ?p) \<rparr>)"
    by (rule Bump_read) (use plan in simp)
  moreover have "counter_step ''trees'' (?s\<lparr> cs_held := (cs_held ?s)(0 := Some ?p) \<rparr>) trees_run"
    using Bump_write [of "?s\<lparr> cs_held := (cs_held ?s)(0 := Some ?p) \<rparr>" 0 1 "it_data (trees_item 6 2)" "Fin 6" 2 "trees_item 6 2" True "''trees''"]
    by (simp add: write_data_def trees_run_def trees_item_def fun_upd_idem)
  ultimately show ?thesis by (rule converse_rtranclp_into_rtranclp [OF _ r_into_rtranclp])
qed

theorem versions_handed_out_once_witness:
  "cs_given trees_run = map (\<lambda>j. Fin (of_int (5 + 1 + int j))) [0..<length (cs_given trees_run)] \<and>
   read_layer_sync_version ''trees'' (Some (cs_item trees_run)) = Inr (5 + int (length (cs_given trees_run)))"
  by (rule versions_handed_out_once [OF trees_step trees_counter]) (simp_all add: trees_run_def)

theorem saved_schema_reuses_versions_witness:
  "read_layer_sync_version ''trees'' (Some (cs_item trees_run)) = Inr 6 \<and>
   read_layer_sync_version ''trees'' (Some (save_item_data (it_data (trees_item 5 1)) 3 (cs_item trees_run))) = Inr 5"
  using saved_schema_reuses_versions [OF trees_step trees_counter, of "it_data (trees_item 5 1)" 3 "\<lambda>_. 4"] trees_counter [of 5 3]
  by (simp add: trees_run_def save_item_data_def trees_item_def)

definition lost_edit :: conflict_args where
  "lost_edit = \<lparr> ca_id = ''a'', ca_at = ''2026-05-21T00:00:00.000Z'', ca_featureId = ''f'', ca_op = ''update'', ca_base = Some ''o'',
     ca_losingSide = JNull, ca_current = JNull \<rparr>"

lemma conflict_ring_example:
  "\<exists>r' l'. record_sync_conflict (\<lambda>_ _ it. it) (\<lambda>_. 2) ''trees'' lost_edit (Some (trees_item 5 1)) = (Some r', Some ''a'') \<and>
    layer_of ''trees'' r' = Some l' \<and> last (conflicts_of l') = conflict_entry lost_edit"
proof -
  have n: "noticed (\<lambda>_ _ it. it)" by (simp add: noticed_def)
  have "\<exists>d. record_plan ''trees'' lost_edit (Some (trees_item 5 1)) = Inr (1, d, ''a'')"
    by (simp add: record_plan_def trees_item_def v3_layers_def get_def Let_def lost_edit_def)
  then obtain d where "record_plan ''trees'' lost_edit (Some (trees_item 5 1)) = Inr (it_updatedAt (trees_item 5 1), d, ''a'')"
    by (auto simp: trees_item_def)
  from recording.alone [OF this, of "\<lambda>_. 2" Crash 4]
  have "\<exists>it'. record_sync_conflict (\<lambda>_ _ it. it) (\<lambda>_. 2) ''trees'' lost_edit (Some (trees_item 5 1)) = (it', Some ''a'')"
    by (simp add: record_sync_conflict_def del: optimistic.simps)
  then obtain it' where r: "record_sync_conflict (\<lambda>_ _ it. it) (\<lambda>_. 2) ''trees'' lost_edit (Some (trees_item 5 1)) = (it', Some ''a'')" ..
  show ?thesis
    using conflict_ring_exact [OF n, THEN conjunct1, THEN mp, OF r] r by blast
qed

end
