(* ===== verification/LayerDelta.thy ===== *)
theory LayerDelta
  imports LayerVersion LayerRead "HOL-Library.Product_Lexorder"
begin

text \<open>
  What changed in a layer since a version: \<open>layer-delta.ts\<close>, \<open>listDelta\<close> of
  \<open>apps/portal-api/src/data-layer/features.service.ts\<close>, \<open>listDeltaSince\<close> of \<open>engine/data-layer.ts\<close> and the \<open>delta\<close>
  handler of \<open>features.controller.ts\<close>. The list is read from the log and the counter from the item by two statements,
  so an answer has a log and an item, which need not be of the same instant. The cast of a text to \<open>bigint\<close>
  is a parameter; the stamps the service writes are numbers.
\<close>

subsection \<open>Parameters of the request\<close>

definition is_safe_integer :: "jsnum \<Rightarrow> bool" where
  "is_safe_integer n \<longleftrightarrow> is_integer n \<and> n_le (n_abs n) (Fin (2 ^ 53 - 1))"

fun int_of :: "jsnum \<Rightarrow> int" where
  "int_of (Fin q) = \<lfloor>q\<rfloor>"
| "int_of _ = 0"

definition digits_only :: "string \<Rightarrow> bool" where
  "digits_only s \<longleftrightarrow> s \<noteq> [] \<and> list_all is_digit_char s"

definition parse_since_param :: "string option \<Rightarrow> version_error + int" where
  "parse_since_param raw =
     (case raw of
        None \<Rightarrow> Inr 0
      | Some s \<Rightarrow>
          if s = [] then Inr 0
          else let bad = Inl (Bad_request ''since must be a non-negative integer (layer syncVersion cursor).'')
               in if \<not> digits_only s then bad
                  else let n = string_to_num s
                       in if \<not> is_safe_integer n \<or> n_lt n (Fin 0) then bad else Inr (int_of n))"

definition DELTA_DEFAULT_LIMIT :: int where "DELTA_DEFAULT_LIMIT = 1000"
definition DELTA_MAX_LIMIT :: int where "DELTA_MAX_LIMIT = 10000"

definition parse_delta_limit :: "string option \<Rightarrow> version_error + int" where
  "parse_delta_limit raw =
     (case raw of
        None \<Rightarrow> Inr DELTA_DEFAULT_LIMIT
      | Some s \<Rightarrow>
          if s = [] then Inr DELTA_DEFAULT_LIMIT
          else let bad = Inl (Bad_request ''limit must be an integer between 1 and 10000.'')
               in if \<not> digits_only s then bad
                  else let n = string_to_num s
                       in if \<not> is_safe_integer n \<or> n_lt n (Fin 1) \<or> n_lt (Fin (of_int DELTA_MAX_LIMIT)) n then bad
                          else Inr (int_of n))"

subsection \<open>The changes since a version\<close>

record delta_change =
  dc_observationId :: string
  dc_entity :: string
  dc_kind :: string
  dc_syncVersion :: int
  dc_txTime :: string
  dc_authorSub :: string
  dc_geometry :: jsval
  dc_properties :: jsval

record delta_args =
  da_since :: int
  da_limit :: "int option"
  da_geoLimit :: jsval
  da_ownRowsOnly :: "string option"
  da_isTable :: bool

text \<open>\<open>COALESCE((source->'details'->>'syncVersion')::bigint, 0)\<close>.\<close>

definition stamp_of :: "(string \<Rightarrow> int option) \<Rightarrow> row \<Rightarrow> read_error + int" where
  "stamp_of big r =
     (case field_of (field_of (o_source r) ''details'') ''syncVersion'' of
        Undef \<Rightarrow> Inr 0
      | JNull \<Rightarrow> Inr 0
      | JNum (Fin q) \<Rightarrow> if of_int \<lfloor>q\<rfloor> = q \<and> - (2 ^ 63) \<le> q \<and> q < 2 ^ 63 then Inr \<lfloor>q\<rfloor> else Inl Cast_failed
      | JStr s \<Rightarrow> (case big s of None \<Rightarrow> Inl Cast_failed | Some n \<Rightarrow> Inr n)
      | _ \<Rightarrow> Inl Cast_failed)"

fun with_stamps :: "(string \<Rightarrow> int option) \<Rightarrow> row list \<Rightarrow> read_error + (int \<times> row) list" where
  "with_stamps big [] = Inr []"
| "with_stamps big (r # rs) = and_then (stamp_of big r) (\<lambda>v. and_then (with_stamps big rs) (\<lambda>vs. Inr ((v, r) # vs)))"

definition delta_key :: "int \<times> row \<Rightarrow> int \<times> int \<times> string" where
  "delta_key x = (case x of (v, r) \<Rightarrow> (v, o_tx r, o_id r))"

text \<open>The database keeps a geometry as the GeoJSON it answers with.\<close>

definition delta_change_of :: "(int \<Rightarrow> string) \<Rightarrow> int \<times> row \<Rightarrow> delta_change" where
  "delta_change_of stamp x =
     (case x of (v, r) \<Rightarrow>
        \<lparr> dc_observationId = o_id r, dc_entity = o_entity r, dc_kind = o_kind r, dc_syncVersion = v,
          dc_txTime = stamp (o_tx r), dc_authorSub = o_author r, dc_geometry = o_geom r,
          dc_properties = coalesce (o_attrs r) JNull \<rparr>)"

definition delta_selected :: "gis \<Rightarrow> delta_args \<Rightarrow> int \<times> row \<Rightarrow> bool" where
  "delta_selected g args x \<longleftrightarrow>
     (case x of (v, r) \<Rightarrow>
        da_since args < v \<and>
        (case da_ownRowsOnly args of None \<Rightarrow> True | Some u \<Rightarrow> o_author r = u) \<and>
        (if \<not> da_isTable args \<and> da_geoLimit args \<noteq> Undef
         then o_geom r = JNull \<or> g_intersects g (o_geom r) (da_geoLimit args) else True))"

definition delta_limit :: "int option \<Rightarrow> nat" where
  "delta_limit n = nat (min (max (case n of None \<Rightarrow> 1000 | Some k \<Rightarrow> k) 1) 10000)"

definition in_delta_order :: "(int \<times> row) list \<Rightarrow> (int \<times> row) list" where
  "in_delta_order xs = sort_key delta_key xs"

definition list_delta_since ::
  "gis \<Rightarrow> (string \<Rightarrow> int option) \<Rightarrow> (int \<Rightarrow> string) \<Rightarrow> string \<Rightarrow> delta_args \<Rightarrow> log \<Rightarrow> read_error + delta_change list" where
  "list_delta_since g big stamp scope args lg =
     (case validate_geojson (da_geoLimit args) (Inr ()) of
        Inl e \<Rightarrow> Inl (Rejected e)
      | Inr _ \<Rightarrow>
          and_then (with_stamps big (filter (\<lambda>r. o_scope r = scope) lg)) (\<lambda>xs.
            Inr (map (delta_change_of stamp)
                   (take (delta_limit (da_limit args)) (in_delta_order (filter (delta_selected g args) xs))))))"

subsection \<open>The answer\<close>

record delta_response =
  dr_syncVersion :: int
  dr_since :: int
  dr_changes :: "delta_change list"
  dr_truncated :: bool

datatype delta_error = Delta_read read_error | Delta_sync version_error

fun on_error :: "('e \<Rightarrow> 'f) \<Rightarrow> 'e + 'a \<Rightarrow> 'f + 'a" where
  "on_error h (Inl e) = Inl (h e)"
| "on_error h (Inr x) = Inr x"

definition list_delta ::
  "gis \<Rightarrow> (string \<Rightarrow> int option) \<Rightarrow> (int \<Rightarrow> string) \<Rightarrow> string \<Rightarrow> string \<Rightarrow> delta_args \<Rightarrow> log \<Rightarrow> layer_item option \<Rightarrow>
   delta_error + delta_response" where
  "list_delta g big stamp itemId layerId args lg it =
     (let limit = (case da_limit args of None \<Rightarrow> 1000 | Some n \<Rightarrow> n)
      in and_then (on_error Delta_read
            (list_delta_since g big stamp (data_layer_scope itemId layerId) (args\<lparr> da_limit := Some (limit + 1) \<rparr>) lg)) (\<lambda>changes.
         let truncated = int (length changes) > limit;
             page = (if truncated then take (nat limit) changes else changes)
         in and_then (on_error Delta_sync (read_layer_sync_version layerId it)) (\<lambda>version.
              Inr \<lparr> dr_syncVersion = version, dr_since = da_since args, dr_changes = page, dr_truncated = truncated \<rparr>)))"

text \<open>The handler: what the caller may see of the layer has been resolved by \<open>assertV3Layer\<close>.\<close>

record layer_access =
  la_geoLimit :: jsval
  la_ownRows :: bool
  la_isTable :: bool

definition layer_delta ::
  "gis \<Rightarrow> (string \<Rightarrow> int option) \<Rightarrow> (int \<Rightarrow> string) \<Rightarrow> string \<Rightarrow> string \<Rightarrow> string \<Rightarrow> layer_access \<Rightarrow> string option \<Rightarrow> string option \<Rightarrow>
   log \<Rightarrow> layer_item option \<Rightarrow> delta_error + delta_response" where
  "layer_delta g big stamp userId itemId layerId access sinceParam limitParam lg it =
     and_then (on_error Delta_sync (parse_since_param sinceParam)) (\<lambda>since.
     and_then (on_error Delta_sync (parse_delta_limit limitParam)) (\<lambda>limit.
       list_delta g big stamp itemId layerId
         \<lparr> da_since = since, da_limit = Some limit, da_geoLimit = (if truthy (la_geoLimit access) then la_geoLimit access else Undef),
           da_ownRowsOnly = (if la_ownRows access \<and> userId \<noteq> [] then Some userId else None), da_isTable = la_isTable access \<rparr>
         lg it))"

subsection \<open>What an answer holds\<close>

lemma on_error_Inr: "on_error h r = Inr x \<longleftrightarrow> r = Inr x"
  by (cases r) auto

lemma with_stamps_Inr: "with_stamps big rs = Inr xs \<longleftrightarrow> map snd xs = rs \<and> (\<forall>(v, r) \<in> set xs. stamp_of big r = Inr v)"
proof (induction rs arbitrary: xs)
  case (Cons r rs)
  show ?case
  proof (cases xs)
    case Nil
    then show ?thesis by (auto simp: and_then_Inr)
  next
    case (Cons x ys)
    obtain v s where "x = (v, s)" by (cases x)
    then show ?thesis using Cons Cons.IH [of ys] by (auto simp: and_then_Inr)
  qed
qed auto

lemma with_stamps_append:
  "with_stamps big (rs @ ss) = and_then (with_stamps big rs) (\<lambda>xs. and_then (with_stamps big ss) (\<lambda>ys. Inr (xs @ ys)))"
proof (induction rs)
  case Nil
  then show ?case by (cases "with_stamps big ss") auto
next
  case (Cons r rs)
  then show ?case by (cases "stamp_of big r"; cases "with_stamps big rs"; cases "with_stamps big ss") auto
qed

lemma set_in_delta_order [simp]: "set (in_delta_order xs) = set xs" "length (in_delta_order xs) = length xs"
  by (simp_all add: in_delta_order_def)

lemma sorted_in_delta_order: "sorted (map delta_key (in_delta_order xs))"
  by (simp add: in_delta_order_def)

lemma delta_versions_sorted: "sorted (map fst (in_delta_order xs))"
proof -
  have "sorted_wrt (\<lambda>x y. delta_key x \<le> delta_key y) (in_delta_order xs)"
    using sorted_in_delta_order [of xs] by (simp add: sorted_map)
  then have "sorted_wrt (\<lambda>x y. fst x \<le> fst y) (in_delta_order xs)"
    by (rule sorted_wrt_mono_rel [rotated]) (auto simp: delta_key_def split: prod.splits)
  then show ?thesis by (simp add: sorted_map)
qed

lemma in_delta_order_filter: "in_delta_order (filter P xs) = filter P (in_delta_order xs)"
  by (simp add: in_delta_order_def filter_sort)

text \<open>An answer to a request without a limit of area or author.\<close>

definition whole_layer :: "int \<Rightarrow> int \<Rightarrow> delta_args" where
  "whole_layer since limit = \<lparr> da_since = since, da_limit = Some limit, da_geoLimit = Undef, da_ownRowsOnly = None, da_isTable = False \<rparr>"

definition since_version :: "int \<Rightarrow> (int \<times> row) list \<Rightarrow> (int \<times> row) list" where
  "since_version since xs = filter (\<lambda>(v, r). since < v) (in_delta_order xs)"

lemma set_since_version: "set (since_version since xs) = {x \<in> set xs. since < fst x}"
  by (auto simp: since_version_def)

lemma list_delta_whole:
  assumes "with_stamps big (filter (\<lambda>r. o_scope r = data_layer_scope itemId layerId) lg) = Inr xs"
    and "read_layer_sync_version layerId it = Inr c" and "1 \<le> limit" "limit \<le> 10000"
  shows "list_delta g big stamp itemId layerId (whole_layer since limit) lg it =
    Inr \<lparr> dr_syncVersion = c, dr_since = since, dr_changes = map (delta_change_of stamp) (take (nat limit) (since_version since xs)),
          dr_truncated = (limit < 10000 \<and> limit < int (length (since_version since xs))) \<rparr>"
proof -
  have "delta_selected g (whole_layer since limit\<lparr> da_limit := Some (limit + 1) \<rparr>) = (\<lambda>(v, r). since < v)"
    by (auto simp: delta_selected_def whole_layer_def fun_eq_iff)
  moreover have "nat (min (max (limit + 1) 1) 10000) = (if limit = 10000 then 10000 else Suc (nat limit))"
    using assms(3,4) by (simp add: nat_add_distrib)
  ultimately show ?thesis
    using assms by (cases "limit = 10000")
      (auto simp: list_delta_def list_delta_since_def validate_geojson_def whole_layer_def delta_limit_def Let_def take_map
        in_delta_order_filter since_version_def min_def)
qed

end
