(* ===== verification/DeltaPull.thy ===== *)
theory DeltaPull
  imports LayerDelta
begin

text \<open>
  The field client's refresh of a cached layer: \<open>applyDeltaChanges\<close>, \<open>pullLayerDelta\<close>, \<open>seedSyncVersionCursor\<close>,
  \<open>featureToCachedRow\<close> and the pass over a layer in \<open>downloadDeployment\<close> of
  \<open>apps/portal-web/src/lib/offline-download.ts\<close>, with \<open>putFeatures\<close> and \<open>deleteFeatures\<close> of \<open>offline-store.ts\<close>. The
  store of cached features is a map from its key path. The server is a function from the request's number and its
  parameters to an answer, so it may answer differently each time; \<open>served\<close> makes one from a log and an
  item. What the device does (the clock, whether the store takes a write) is a parameter. Byte counts and progress
  messages are left out.
\<close>

record cached_feature =
  cf_dataCollectionId :: string
  cf_dataLayerId :: string
  cf_layerKey :: string
  cf_globalId :: string
  cf_feature :: jsval
  cf_cachedAt :: string

type_synonym cache_key = "string \<times> string \<times> string \<times> string"
type_synonym cache = "cache_key \<Rightarrow> cached_feature option"

definition cache_path :: "cached_feature \<Rightarrow> cache_key" where
  "cache_path r = (cf_dataCollectionId r, cf_dataLayerId r, cf_layerKey r, cf_globalId r)"

definition put_features :: "cached_feature list \<Rightarrow> cache \<Rightarrow> cache" where
  "put_features rows c = foldl (\<lambda>c r. c(cache_path r \<mapsto> r)) c rows"

definition delete_features :: "string \<Rightarrow> string \<Rightarrow> string \<Rightarrow> string list \<Rightarrow> cache \<Rightarrow> cache" where
  "delete_features dc layer key ids c = foldl (\<lambda>c e. c((dc, layer, key, e) := None)) c ids"

subsection \<open>One page of changes\<close>

record delta_ctx =
  dx_dataCollectionId :: string
  dx_dataLayerId :: string
  dx_layerKey :: string

datatype cache_entry = Upsert cached_feature | Drop_row

definition change_feature :: "delta_change \<Rightarrow> jsval" where
  "change_feature ch =
     JObj 0 [(''type'', JStr ''Feature''), (''id'', JStr (dc_entity ch)), (''geometry'', dc_geometry ch),
             (''properties'', JObj 0 (spread (attrs_of (dc_properties ch)) [(''_global_id'', JStr (dc_entity ch))]))]"

definition cached_row :: "delta_ctx \<Rightarrow> string \<Rightarrow> delta_change \<Rightarrow> cached_feature" where
  "cached_row ctx now ch =
     \<lparr> cf_dataCollectionId = dx_dataCollectionId ctx, cf_dataLayerId = dx_dataLayerId ctx, cf_layerKey = dx_layerKey ctx,
       cf_globalId = dc_entity ch, cf_feature = change_feature ch, cf_cachedAt = now \<rparr>"

definition cache_entry_of :: "delta_ctx \<Rightarrow> string \<Rightarrow> delta_change \<Rightarrow> cache_entry" where
  "cache_entry_of ctx now ch = (if dc_kind ch = ''delete'' then Drop_row else Upsert (cached_row ctx now ch))"

definition changes_by_entity :: "delta_ctx \<Rightarrow> string \<Rightarrow> delta_change list \<Rightarrow> (string \<times> cache_entry) list" where
  "changes_by_entity ctx now changes = foldl (\<lambda>m ch. obj_set (dc_entity ch) (cache_entry_of ctx now ch) m) [] changes"

fun upserts_of :: "(string \<times> cache_entry) list \<Rightarrow> cached_feature list" where
  "upserts_of [] = []"
| "upserts_of ((e, Upsert r) # m) = r # upserts_of m"
| "upserts_of ((e, Drop_row) # m) = upserts_of m"

fun deletes_of :: "(string \<times> cache_entry) list \<Rightarrow> string list" where
  "deletes_of [] = []"
| "deletes_of ((e, Upsert r) # m) = deletes_of m"
| "deletes_of ((e, Drop_row) # m) = e # deletes_of m"

definition apply_delta_changes :: "delta_ctx \<Rightarrow> string \<Rightarrow> delta_change list \<Rightarrow> cached_feature list \<times> string list" where
  "apply_delta_changes ctx now changes = (let m = changes_by_entity ctx now changes in (upserts_of m, deletes_of m))"

subsection \<open>Pulling\<close>

definition DELTA_PAGE_LIMIT :: int where "DELTA_PAGE_LIMIT = 10000"

text \<open>The body of an answer; \<open>None\<close> stands for a \<open>syncVersion\<close> that is not a finite number.\<close>

record delta_body =
  db_syncVersion :: "int option"
  db_changes :: "delta_change list"
  db_truncated :: bool

datatype delta_answer = Delta_ok delta_body | Delta_http int | Delta_malformed

datatype pull_error = Http_status int | Malformed_body | Store_refused

record device =
  dv_now :: "nat \<Rightarrow> string"
  dv_put_ok :: "nat \<Rightarrow> bool"
  dv_delete_ok :: "nat \<Rightarrow> bool"

definition store_page :: "device \<Rightarrow> delta_ctx \<Rightarrow> nat \<Rightarrow> delta_change list \<Rightarrow> cache \<Rightarrow> cache \<times> (pull_error + nat)" where
  "store_page dev ctx page changes c =
     (case apply_delta_changes ctx (dv_now dev page) changes of (upserts, deletes) \<Rightarrow>
        if upserts \<noteq> [] \<and> \<not> dv_put_ok dev page then (c, Inl Store_refused)
        else let c1 = put_features upserts c
             in if deletes \<noteq> [] \<and> \<not> dv_delete_ok dev page then (c1, Inl Store_refused)
                else (delete_features (dx_dataCollectionId ctx) (dx_dataLayerId ctx) (dx_layerKey ctx) deletes c1,
                      Inr (length upserts + length deletes)))"

fun pull_pages ::
  "device \<Rightarrow> (nat \<Rightarrow> int \<Rightarrow> int \<Rightarrow> delta_answer) \<Rightarrow> delta_ctx \<Rightarrow> nat \<Rightarrow> nat \<Rightarrow> int \<Rightarrow> int \<Rightarrow> nat \<Rightarrow> cache \<Rightarrow>
   cache \<times> (pull_error + nat \<times> int)" where
  "pull_pages dev srv ctx 0 page since head applied c = (c, Inr (applied, head))"
| "pull_pages dev srv ctx (Suc n) page since head applied c =
     (case srv page since DELTA_PAGE_LIMIT of
        Delta_http st \<Rightarrow> (c, Inl (Http_status st))
      | Delta_malformed \<Rightarrow> (c, Inl Malformed_body)
      | Delta_ok bd \<Rightarrow>
          (case store_page dev ctx page (db_changes bd) c of
             (c', Inl e) \<Rightarrow> (c', Inl e)
           | (c', Inr k) \<Rightarrow>
               if \<not> db_truncated bd \<or> db_changes bd = []
               then (c', Inr (applied + k, case db_syncVersion bd of Some v \<Rightarrow> v | None \<Rightarrow> since))
               else let since' = dc_syncVersion (last (db_changes bd))
                    in pull_pages dev srv ctx n (Suc page) since' since' (applied + k) c'))"

definition pull_layer_delta ::
  "device \<Rightarrow> (nat \<Rightarrow> int \<Rightarrow> int \<Rightarrow> delta_answer) \<Rightarrow> delta_ctx \<Rightarrow> int \<Rightarrow> cache \<Rightarrow> cache \<times> (pull_error + nat \<times> int)" where
  "pull_layer_delta dev srv ctx since c = pull_pages dev srv ctx 100 0 since since 0 c"

text \<open>\<open>seedSyncVersionCursor\<close>: anything that is wrong with the answer gives \<open>null\<close>.\<close>

definition seed_sync_version_cursor :: "(nat \<Rightarrow> int \<Rightarrow> int \<Rightarrow> delta_answer) \<Rightarrow> int option" where
  "seed_sync_version_cursor srv = (case srv 0 0 1 of Delta_ok bd \<Rightarrow> db_syncVersion bd | _ \<Rightarrow> None)"

text \<open>A feature of a full download; the last resort for its key is a hash of its text, a parameter.\<close>

definition feature_to_cached_row :: "(jsval \<Rightarrow> string) \<Rightarrow> delta_ctx \<Rightarrow> string \<Rightarrow> jsval \<Rightarrow> cached_feature" where
  "feature_to_cached_row stable_id ctx now f =
     \<lparr> cf_dataCollectionId = dx_dataCollectionId ctx, cf_dataLayerId = dx_dataLayerId ctx, cf_layerKey = dx_layerKey ctx,
       cf_globalId = (case field_of (field_of f ''properties'') ''_global_id'' of
                        JStr s \<Rightarrow> if s \<noteq> [] then s else (case field_of f ''id'' of JStr i \<Rightarrow> if i \<noteq> [] then i else stable_id f | _ \<Rightarrow> stable_id f)
                      | _ \<Rightarrow> (case field_of f ''id'' of JStr i \<Rightarrow> if i \<noteq> [] then i else stable_id f | _ \<Rightarrow> stable_id f)),
       cf_feature = f, cf_cachedAt = now \<rparr>"

datatype layer_answer = Layer_ok "jsval list" | Layer_http int | Layer_malformed

text \<open>The pass over one layer: a delta when there is a cursor, a full download and a new cursor otherwise. It gives the
  cursor that the manifest will hold, and what went wrong.\<close>

definition fetch_layer ::
  "device \<Rightarrow> (jsval \<Rightarrow> string) \<Rightarrow> layer_answer \<Rightarrow> (nat \<Rightarrow> int \<Rightarrow> int \<Rightarrow> delta_answer) \<Rightarrow> delta_ctx \<Rightarrow> int option \<Rightarrow> cache \<Rightarrow>
   cache \<times> int option \<times> pull_error option" where
  "fetch_layer dev stable_id full srv ctx cursor c =
     (case cursor of
        Some since \<Rightarrow>
          (case pull_layer_delta dev srv ctx since c of
             (c', Inl e) \<Rightarrow> (c', cursor, Some e)
           | (c', Inr (_, version)) \<Rightarrow> (c', Some version, None))
      | None \<Rightarrow>
          (case full of
             Layer_http st \<Rightarrow> (c, None, Some (Http_status st))
           | Layer_malformed \<Rightarrow> (c, None, Some Malformed_body)
           | Layer_ok features \<Rightarrow>
               let rows = map (feature_to_cached_row stable_id ctx (dv_now dev 0)) features
               in if rows \<noteq> [] \<and> \<not> dv_put_ok dev 0 then (c, None, Some Store_refused)
                  else (put_features rows c, seed_sync_version_cursor srv, None)))"

text \<open>What the server answers from a log and an item.\<close>

fun status_of :: "delta_error \<Rightarrow> int" where
  "status_of (Delta_sync (Bad_request _)) = 400"
| "status_of (Delta_sync (Not_found _)) = 404"
| "status_of (Delta_sync (Write_conflict _)) = 409"
| "status_of (Delta_read (Rejected _)) = 400"
| "status_of _ = 500"

definition answer_of :: "delta_error + delta_response \<Rightarrow> delta_answer" where
  "answer_of r =
     (case r of
        Inl e \<Rightarrow> Delta_http (status_of e)
      | Inr resp \<Rightarrow> Delta_ok \<lparr> db_syncVersion = Some (dr_syncVersion resp), db_changes = dr_changes resp, db_truncated = dr_truncated resp \<rparr>)"

definition served ::
  "gis \<Rightarrow> (string \<Rightarrow> int option) \<Rightarrow> (int \<Rightarrow> string) \<Rightarrow> string \<Rightarrow> string \<Rightarrow> log \<Rightarrow> layer_item option \<Rightarrow> nat \<Rightarrow> int \<Rightarrow> int \<Rightarrow> delta_answer" where
  "served g big stamp itemId layerId lg it page since limit =
     answer_of (list_delta g big stamp itemId layerId (whole_layer since limit) lg it)"

subsection \<open>A page is its changes one after the other\<close>

definition apply_change :: "delta_ctx \<Rightarrow> string \<Rightarrow> cache \<Rightarrow> delta_change \<Rightarrow> cache" where
  "apply_change ctx now c ch =
     c((dx_dataCollectionId ctx, dx_dataLayerId ctx, dx_layerKey ctx, dc_entity ch) :=
       (if dc_kind ch = ''delete'' then None else Some (cached_row ctx now ch)))"

lemma put_features_Cons [simp]: "put_features (r # rs) c = put_features rs (c(cache_path r \<mapsto> r))"
  by (simp add: put_features_def)

lemma put_features_Nil [simp]: "put_features [] c = c"
  by (simp add: put_features_def)

text \<open>The place of a feature of the layer.\<close>

definition slot :: "delta_ctx \<Rightarrow> string \<Rightarrow> cache_key" where
  "slot ctx e = (dx_dataCollectionId ctx, dx_dataLayerId ctx, dx_layerKey ctx, e)"

lemma slot_eq [simp]: "slot ctx e = slot ctx e' \<longleftrightarrow> e = e'"
  by (simp add: slot_def)

lemma delete_features_iff:
  "delete_features (dx_dataCollectionId ctx) (dx_dataLayerId ctx) (dx_layerKey ctx) ids c p = (if p \<in> slot ctx ` set ids then None else c p)"
  by (induction ids arbitrary: c) (auto simp: delete_features_def slot_def)

lemma put_features_other: "p \<notin> cache_path ` set rows \<Longrightarrow> put_features rows c p = c p"
  by (induction rows arbitrary: c) auto

definition own_entries :: "delta_ctx \<Rightarrow> (string \<times> cache_entry) list \<Rightarrow> bool" where
  "own_entries ctx m \<longleftrightarrow> (\<forall>e r. (e, Upsert r) \<in> set m \<longrightarrow> cache_path r = slot ctx e)"

lemma upserts_in: "r \<in> set (upserts_of m) \<Longrightarrow> \<exists>e. (e, Upsert r) \<in> set m"
  by (induction m rule: upserts_of.induct) auto

lemma deletes_iff: "e \<in> set (deletes_of m) \<longleftrightarrow> (e, Drop_row) \<in> set m"
  by (induction m rule: deletes_of.induct) auto

text \<open>What an entry leaves in its slot.\<close>

fun left_by :: "cache_entry option \<Rightarrow> cached_feature option \<Rightarrow> cached_feature option" where
  "left_by None old = old"
| "left_by (Some Drop_row) old = None"
| "left_by (Some (Upsert r)) old = Some r"

lemma put_entries:
  assumes "obj_wf m" "own_entries ctx m"
  shows "put_features (upserts_of m) c (slot ctx e) =
    (case map_of m e of Some (Upsert r) \<Rightarrow> Some r | _ \<Rightarrow> c (slot ctx e))"
  using assms
proof (induction m arbitrary: c rule: upserts_of.induct)
  case (2 e' r m)
  have own: "own_entries ctx m" "obj_wf m" "cache_path r = slot ctx e'" "map_of m e' = None"
    using 2 by (auto simp: own_entries_def obj_wf_def map_of_eq_None_iff)
  show ?case
  proof (cases "e = e'")
    case True
    then show ?thesis using 2(1) [OF own(2,1)] own(3,4) by simp
  next
    case False
    then show ?thesis using 2(1) [OF own(2,1)] own(3) by (simp split: option.split cache_entry.split)
  qed
next
  case (3 e' m)
  have own: "own_entries ctx m" "obj_wf m" "map_of m e' = None"
    using 3 by (auto simp: own_entries_def obj_wf_def map_of_eq_None_iff)
  then show ?case using 3(1) [OF own(2,1)] by (auto split: option.split cache_entry.split)
qed simp

lemma page_slot:
  assumes "obj_wf m" "own_entries ctx m"
  shows "delete_features (dx_dataCollectionId ctx) (dx_dataLayerId ctx) (dx_layerKey ctx) (deletes_of m) (put_features (upserts_of m) c) (slot ctx e) =
    left_by (map_of m e) (c (slot ctx e))"
proof -
  have "slot ctx e \<in> slot ctx ` set (deletes_of m) \<longleftrightarrow> map_of m e = Some Drop_row"
    using assms(1) by (auto simp: deletes_iff obj_wf_def)
  then show ?thesis
    using put_entries [OF assms] by (auto simp: delete_features_iff split: option.splits cache_entry.splits)
qed

lemma page_other:
  assumes "own_entries ctx m" "p \<notin> range (slot ctx)"
  shows "delete_features (dx_dataCollectionId ctx) (dx_dataLayerId ctx) (dx_layerKey ctx) (deletes_of m) (put_features (upserts_of m) c) p = c p"
proof -
  have "p \<notin> cache_path ` set (upserts_of m)"
    using assms upserts_in [of _ m] by (fastforce simp: own_entries_def)
  moreover have "p \<notin> slot ctx ` set (deletes_of m)" using assms(2) by blast
  ultimately show ?thesis by (simp add: delete_features_iff put_features_other)
qed

lemma by_entity_append: "changes_by_entity ctx now (chs @ [ch]) = obj_set (dc_entity ch) (cache_entry_of ctx now ch) (changes_by_entity ctx now chs)"
  by (simp add: changes_by_entity_def)

lemma by_entity_wf: "obj_wf (changes_by_entity ctx now chs)"
proof (induction chs rule: rev_induct)
  case (snoc ch chs)
  then show ?case unfolding by_entity_append by (rule obj_wf_set)
qed (simp add: changes_by_entity_def)

lemma in_obj_set: "(e, x) \<in> set (obj_set k v m) \<Longrightarrow> (e, x) \<in> set m \<or> (e = k \<and> x = v)"
  by (induction m) (auto split: if_splits)

lemma by_entity_own: "own_entries ctx (changes_by_entity ctx now chs)"
proof (induction chs rule: rev_induct)
  case (snoc ch chs)
  show ?case
    unfolding own_entries_def by_entity_append
  proof (intro allI impI)
    fix e r
    assume "(e, Upsert r) \<in> set (obj_set (dc_entity ch) (cache_entry_of ctx now ch) (changes_by_entity ctx now chs))"
    then consider "(e, Upsert r) \<in> set (changes_by_entity ctx now chs)" | "e = dc_entity ch" "Upsert r = cache_entry_of ctx now ch"
      using in_obj_set by fastforce
    then show "cache_path r = slot ctx e"
      using snoc by cases (auto simp: own_entries_def cache_entry_of_def cached_row_def cache_path_def slot_def split: if_splits)
  qed
qed (simp add: changes_by_entity_def own_entries_def)

lemma apply_change_slot: "apply_change ctx now c ch = c(slot ctx (dc_entity ch) := left_by (Some (cache_entry_of ctx now ch)) None)"
  by (simp add: apply_change_def slot_def cache_entry_of_def)

lemma applied_slot: "foldl (apply_change ctx now) c chs (slot ctx e) = left_by (map_of (changes_by_entity ctx now chs) e) (c (slot ctx e))"
proof (induction chs rule: rev_induct)
  case (snoc ch chs)
  then show ?case by (cases "cache_entry_of ctx now ch") (auto simp: apply_change_slot by_entity_append)
qed (simp add: changes_by_entity_def)

lemma applied_other: "p \<notin> range (slot ctx) \<Longrightarrow> foldl (apply_change ctx now) c chs p = c p"
  by (induction chs rule: rev_induct) (auto simp: apply_change_slot)

text \<open>Writing the upserts of a page and then dropping its deletes leaves the cache that applying the changes one after the other leaves.\<close>

lemma page_applied_in_order:
  "apply_delta_changes ctx now changes = (upserts, deletes) \<Longrightarrow>
   delete_features (dx_dataCollectionId ctx) (dx_dataLayerId ctx) (dx_layerKey ctx) deletes (put_features upserts c) =
   foldl (apply_change ctx now) c changes"
proof (rule ext)
  fix p
  let ?m = "changes_by_entity ctx now changes"
  assume "apply_delta_changes ctx now changes = (upserts, deletes)"
  then have "upserts = upserts_of ?m" and "deletes = deletes_of ?m" by (auto simp: apply_delta_changes_def Let_def)
  then show "delete_features (dx_dataCollectionId ctx) (dx_dataLayerId ctx) (dx_layerKey ctx) deletes (put_features upserts c) p =
    foldl (apply_change ctx now) c changes p"
    using page_slot [OF by_entity_wf by_entity_own, of ctx now changes c] page_other [OF by_entity_own, of p ctx now changes c]
    by (cases "p \<in> range (slot ctx)") (auto simp: applied_slot applied_other)
qed

text \<open>A feature that is created and deleted within a page.\<close>

definition tree_change :: "string \<Rightarrow> int \<Rightarrow> delta_change" where
  "tree_change kind v = \<lparr> dc_observationId = ''o'', dc_entity = ''e'', dc_kind = kind, dc_syncVersion = v, dc_txTime = ''t'',
     dc_authorSub = ''u'', dc_geometry = JNull, dc_properties = JNull \<rparr>"

lemma page_applied_example:
  "delete_features ''dc'' ''i'' ''trees'' [''e''] (put_features [] Map.empty) =
   foldl (apply_change \<lparr> dx_dataCollectionId = ''dc'', dx_dataLayerId = ''i'', dx_layerKey = ''trees'' \<rparr> ''now'') Map.empty
     [tree_change ''create'' 1, tree_change ''delete'' 2]"
proof -
  have "apply_delta_changes \<lparr> dx_dataCollectionId = ''dc'', dx_dataLayerId = ''i'', dx_layerKey = ''trees'' \<rparr> ''now''
      [tree_change ''create'' 1, tree_change ''delete'' 2] = ([], [''e''])"
    by (simp add: apply_delta_changes_def changes_by_entity_def cache_entry_of_def tree_change_def Let_def)
  from page_applied_in_order [OF this, of Map.empty] show ?thesis by simp
qed

end
