(* ===== verification/DeltaSync.thy ===== *)
theory DeltaSync
  imports DeltaPull
begin

text \<open>
  What a refreshed cache shows. The reference is \<open>replay\<close>: the changes of a layer in the order of their stamps, the
  last one of an entity deciding. A refresh that meets no batch in progress brings the cache to the layer's current
  features; a refresh beside a batch in progress, or one with more changes than a page holds, moves the cursor past
  changes that no later refresh asks for.
\<close>

subsection \<open>Replaying changes\<close>

definition after_change :: "(string \<Rightarrow> jsval option) \<Rightarrow> delta_change \<Rightarrow> string \<Rightarrow> jsval option" where
  "after_change m ch = m(dc_entity ch := (if dc_kind ch = ''delete'' then None else Some (change_feature ch)))"

definition replay :: "(string \<Rightarrow> jsval option) \<Rightarrow> delta_change list \<Rightarrow> string \<Rightarrow> jsval option" where
  "replay m chs = foldl after_change m chs"

definition shows_map :: "delta_ctx \<Rightarrow> cache \<Rightarrow> (string \<Rightarrow> jsval option) \<Rightarrow> bool" where
  "shows_map ctx c m \<longleftrightarrow> (\<forall>e. map_option cf_feature (c (slot ctx e)) = m e)"

lemma replay_append: "replay m (xs @ ys) = replay (replay m xs) ys"
  by (simp add: replay_def)

lemma shows_applied: "shows_map ctx c m \<Longrightarrow> shows_map ctx (foldl (apply_change ctx now) c chs) (replay m chs)"
proof (induction chs rule: rev_induct)
  case (snoc ch chs)
  then show ?case
    by (auto simp: shows_map_def replay_append apply_change_slot cache_entry_of_def cached_row_def)
       (auto simp: replay_def after_change_def)
qed (simp add: replay_def)

lemma replay_last:
  "replay Map.empty chs e =
   (let cs = filter (\<lambda>ch. dc_entity ch = e) chs
    in if cs = [] \<or> dc_kind (last cs) = ''delete'' then None else Some (change_feature (last cs)))"
proof (induction chs rule: rev_induct)
  case (snoc ch chs)
  have "replay Map.empty (chs @ [ch]) e = after_change (replay Map.empty chs) ch e" by (simp add: replay_def)
  then show ?case
    using snoc by (auto simp: after_change_def Let_def)
qed (simp add: replay_def)

subsection \<open>One refresh\<close>

definition store_works :: "device \<Rightarrow> bool" where
  "store_works dev \<longleftrightarrow> (\<forall>n. dv_put_ok dev n \<and> dv_delete_ok dev n)"

lemma store_page_works:
  assumes "store_works dev"
  shows "\<exists>k. store_page dev ctx page chs c = (foldl (apply_change ctx (dv_now dev page)) c chs, Inr k)"
proof -
  obtain ups dels where u: "apply_delta_changes ctx (dv_now dev page) chs = (ups, dels)" by fastforce
  show ?thesis using assms page_applied_in_order [OF u] by (simp add: store_page_def u store_works_def Let_def)
qed

text \<open>The page a client asks for is as long as the server allows, so an answer never says that it was cut.\<close>

lemma served_never_truncated:
  assumes "served g big stamp itemId layerId lg it page since DELTA_PAGE_LIMIT = Delta_ok bd"
  shows "\<not> db_truncated bd" and "\<forall>ch \<in> set (db_changes bd). \<exists>r \<in> set lg. o_scope r = data_layer_scope itemId layerId \<and>
    stamp_of big r = Inr (dc_syncVersion ch) \<and> since < dc_syncVersion ch \<and> dc_entity ch = o_entity r"
proof -
  let ?rs = "filter (\<lambda>r. o_scope r = data_layer_scope itemId layerId) lg"
  obtain xs c where st: "with_stamps big ?rs = Inr xs" "read_layer_sync_version layerId it = Inr c"
    using assms by (auto simp: served_def answer_of_def list_delta_def list_delta_since_def validate_geojson_def whole_layer_def
        Let_def and_then_Inr and_then_Inl on_error_Inr split: sum.splits)
  have bd: "bd = \<lparr> db_syncVersion = Some c, db_changes = map (delta_change_of stamp) (take 10000 (since_version since xs)), db_truncated = False \<rparr>"
    using assms list_delta_whole [OF st, of 10000 g stamp since] by (simp add: served_def answer_of_def DELTA_PAGE_LIMIT_def)
  then show "\<not> db_truncated bd" by simp
  have xs: "map snd xs = ?rs" "\<forall>(v, r) \<in> set xs. stamp_of big r = Inr v" using st(1) by (simp_all add: with_stamps_Inr)
  show "\<forall>ch \<in> set (db_changes bd). \<exists>r \<in> set lg. o_scope r = data_layer_scope itemId layerId \<and> stamp_of big r = Inr (dc_syncVersion ch) \<and> since < dc_syncVersion ch \<and> dc_entity ch = o_entity r"
  proof
    fix ch
    assume "ch \<in> set (db_changes bd)"
    then obtain v r where r: "(v, r) \<in> set (since_version since xs)" "ch = delta_change_of stamp (v, r)"
      using bd by (auto dest!: in_set_takeD)
    then have "(v, r) \<in> set xs" "since < v" by (auto simp: set_since_version)
    moreover from this xs(1) have "r \<in> set ?rs" by (metis image_eqI list.set_map snd_conv)
    ultimately show "\<exists>r \<in> set lg. o_scope r = data_layer_scope itemId layerId \<and> stamp_of big r = Inr (dc_syncVersion ch) \<and> since < dc_syncVersion ch \<and> dc_entity ch = o_entity r"
      using xs(2) r(2) by (intro bexI [of _ r]) (auto simp: delta_change_of_def)
  qed
qed

lemma pull_once:
  assumes "with_stamps big (filter (\<lambda>r. o_scope r = data_layer_scope itemId layerId) lg) = Inr xs"
    and "read_layer_sync_version layerId it = Inr v" and "store_works dev"
  shows "\<exists>k. pull_layer_delta dev (served g big stamp itemId layerId lg it) ctx since c =
    (foldl (apply_change ctx (dv_now dev 0)) c (map (delta_change_of stamp) (take 10000 (since_version since xs))), Inr (k, v))"
proof -
  let ?chs = "map (delta_change_of stamp) (take 10000 (since_version since xs))"
  have s: "served g big stamp itemId layerId lg it 0 since DELTA_PAGE_LIMIT =
      Delta_ok \<lparr> db_syncVersion = Some v, db_changes = ?chs, db_truncated = False \<rparr>"
    using list_delta_whole [OF assms(1,2), of 10000 g stamp since] by (simp add: served_def answer_of_def DELTA_PAGE_LIMIT_def)
  obtain k where "store_page dev ctx 0 ?chs c = (foldl (apply_change ctx (dv_now dev 0)) c ?chs, Inr k)"
    using store_page_works [OF assms(3)] by blast
  with s show ?thesis
    by (simp add: pull_layer_delta_def pull_pages.simps(2) [of _ _ _ 99, simplified])
qed

subsection \<open>A refresh brings the cache to the layer\<close>

text \<open>The stamps of a layer agree with the order in which reads take its rows.\<close>

definition in_step :: "(int \<times> row) list \<Rightarrow> bool" where
  "in_step xs \<longleftrightarrow> inj_on delta_key (set xs) \<and>
     (\<forall>x \<in> set xs. \<forall>y \<in> set xs. o_entity (snd x) = o_entity (snd y) \<longrightarrow> delta_key x < delta_key y \<longrightarrow> older (snd x) (snd y))"

definition upto_version :: "int \<Rightarrow> (int \<times> row) list \<Rightarrow> (int \<times> row) list" where
  "upto_version v xs = filter (\<lambda>(w, r). w \<le> v) (in_delta_order xs)"

lemma filter_sorted_split:
  fixes f :: "'a \<Rightarrow> int"
  shows "sorted (map f xs) \<Longrightarrow> filter (\<lambda>x. f x \<le> a) xs @ filter (\<lambda>x. a < f x) xs = xs"
proof (induction xs)
  case (Cons x xs)
  show ?case
  proof (cases "f x \<le> a")
    case True
    then show ?thesis using Cons by simp
  next
    case False
    then have "\<forall>y \<in> set xs. a < f y" using Cons.prems by auto
    then show ?thesis using False by (auto simp: filter_empty_conv filter_id_conv)
  qed
qed simp

lemma upto_since: "upto_version v xs @ since_version v xs = in_delta_order xs"
  using filter_sorted_split [OF delta_versions_sorted, of v xs] by (simp add: upto_version_def since_version_def case_prod_beta')

lemma last_is_latest:
  assumes "in_step xs" and rs: "map snd xs = rs" and e: "filter (\<lambda>x. o_entity (snd x) = e) (in_delta_order xs) = ys" "ys \<noteq> []"
  shows "latest (filter (\<lambda>r. o_entity r = e) rs) = Some (snd (last ys))"
proof -
  have ys: "last ys \<in> set xs" "o_entity (snd (last ys)) = e" using last_in_set [OF e(2)] e(1) by auto
  have srt: "sorted (map delta_key ys)" unfolding e(1) [symmetric] using sorted_in_delta_order sorted_filter by blast
  have top: "delta_key x \<le> delta_key (last ys)" if "x \<in> set xs" "o_entity (snd x) = e" for x
  proof -
    have "x \<in> set ys" using that e(1) by auto
    then obtain i where "i < length ys" "x = ys ! i" by (auto simp: in_set_conv_nth)
    then show ?thesis using sorted_nth_mono [OF srt, of i "length ys - 1"] by (simp add: last_conv_nth [OF e(2)])
  qed
  have "snd (last ys) \<in> set (filter (\<lambda>r. o_entity r = e) rs)" using ys rs by auto
  then obtain s where s: "latest (filter (\<lambda>r. o_entity r = e) rs) = Some s"
    by (cases "latest (filter (\<lambda>r. o_entity r = e) rs)") (auto simp: filter_empty_conv)
  then obtain v where v: "(v, s) \<in> set xs" "o_entity s = e" using latest_in [OF s] rs by auto
  have "\<not> older s (snd (last ys))" using latest_max [OF s] ys rs by auto
  then have "\<not> delta_key (v, s) < delta_key (last ys)" using assms(1) v ys by (auto simp: in_step_def)
  then have "delta_key (v, s) = delta_key (last ys)" using top [of "(v, s)"] v by auto
  then have "(v, s) = last ys" using assms(1) v(1) ys(1) by (auto simp: in_step_def inj_on_def)
  then show ?thesis using s by (metis snd_conv)
qed

definition row_feature :: "row \<Rightarrow> jsval" where
  "row_feature r =
     JObj 0 [(''type'', JStr ''Feature''), (''id'', JStr (o_entity r)), (''geometry'', o_geom r),
             (''properties'', JObj 0 (spread (attrs_of (o_attrs r)) [(''_global_id'', JStr (o_entity r))]))]"

text \<open>The current features of a layer, by entity.\<close>

definition layer_map :: "log \<Rightarrow> string \<Rightarrow> string \<Rightarrow> jsval option" where
  "layer_map lg scope e =
     (case latest (history lg scope e) of
        None \<Rightarrow> None
      | Some r \<Rightarrow> if o_kind r = ''delete'' then None else Some (row_feature r))"

lemma change_row_feature: "change_feature (delta_change_of stamp (v, r)) = row_feature r"
  by (simp add: change_feature_def delta_change_of_def row_feature_def attrs_of_def coalesce_def split: jsval.split)

lemma change_kind: "dc_kind (delta_change_of stamp (v, r)) = o_kind r"
  by (simp add: delta_change_of_def)

lemma replay_layer:
  assumes "map snd xs = filter (\<lambda>r. o_scope r = scope) lg" "in_step xs"
  shows "replay Map.empty (map (delta_change_of stamp) (in_delta_order xs)) = layer_map lg scope"
proof
  fix e
  let ?ys = "filter (\<lambda>x. o_entity (snd x) = e) (in_delta_order xs)"
  have h: "history lg scope e = filter (\<lambda>r. o_entity r = e) (map snd xs)"
    using assms(1) by (simp add: history_def)
  have f: "filter (\<lambda>ch. dc_entity ch = e) (map (delta_change_of stamp) (in_delta_order xs)) = map (delta_change_of stamp) ?ys"
    by (simp add: filter_map o_def delta_change_of_def case_prod_beta')
  show "replay Map.empty (map (delta_change_of stamp) (in_delta_order xs)) e = layer_map lg scope e"
  proof (cases "?ys = []")
    case True
    then have "history lg scope e = []" by (auto simp: h filter_empty_conv)
    then show ?thesis using True by (simp add: replay_last f layer_map_def)
  next
    case False
    obtain v r where l: "last ?ys = (v, r)" by (cases "last ?ys")
    have "latest (history lg scope e) = Some r"
      using last_is_latest [OF assms(2) refl refl False] l by (simp add: h)
    moreover have "last (map (delta_change_of stamp) ?ys) = delta_change_of stamp (v, r)" using False l by (simp add: last_map)
    ultimately show ?thesis
      using False by (simp add: replay_last f layer_map_def change_row_feature change_kind Let_def)
  qed
qed

text \<open>A refresh that meets no batch in progress and finds no more changes than a page holds leaves the cache showing the current features of the layer, and the cursor at its counter.\<close>

lemma refresh_shows_layer:
  assumes "with_stamps big (filter (\<lambda>r. o_scope r = data_layer_scope itemId layerId) lg) = Inr xs"
    and "read_layer_sync_version layerId it = Inr v" and "store_works dev"
    and "in_step xs" and "\<forall>(w, r) \<in> set xs. w \<le> v" and "length (since_version since xs) \<le> 10000"
    and "shows_map ctx c (replay Map.empty (map (delta_change_of stamp) (upto_version since xs)))"
  shows "\<exists>c' k. pull_layer_delta dev (served g big stamp itemId layerId lg it) ctx since c = (c', Inr (k, v)) \<and>
    shows_map ctx c' (layer_map lg (data_layer_scope itemId layerId)) \<and>
    shows_map ctx c' (replay Map.empty (map (delta_change_of stamp) (upto_version v xs)))"
proof -
  let ?chs = "map (delta_change_of stamp) (since_version since xs)"
  let ?c = "foldl (apply_change ctx (dv_now dev 0)) c ?chs"
  obtain k where k: "pull_layer_delta dev (served g big stamp itemId layerId lg it) ctx since c = (?c, Inr (k, v))"
    using pull_once [OF assms(1-3), of g stamp ctx since c] assms(6) by auto
  have "shows_map ctx ?c (replay (replay Map.empty (map (delta_change_of stamp) (upto_version since xs))) ?chs)"
    by (rule shows_applied [OF assms(7)])
  then have all: "shows_map ctx ?c (replay Map.empty (map (delta_change_of stamp) (in_delta_order xs)))"
    using upto_since [of since xs] by (metis map_append replay_append)
  have "upto_version v xs = in_delta_order xs"
    unfolding upto_version_def using assms(5) by (intro filter_True) auto
  moreover have "map snd xs = filter (\<lambda>r. o_scope r = data_layer_scope itemId layerId) lg" using assms(1) by (simp add: with_stamps_Inr)
  ultimately show ?thesis using k all replay_layer [OF _ assms(4)] by metis
qed

subsection \<open>Changes that no refresh delivers\<close>

lemma delta_since_is_after:
  assumes "list_delta_since g big stamp scope args lg = Inr chs" "ch \<in> set chs"
  shows "da_since args < dc_syncVersion ch"
  using assms
  by (auto simp: list_delta_since_def and_then_Inr delta_selected_def delta_change_of_def split: sum.splits dest!: in_set_takeD)

lemma delta_is_after:
  assumes "list_delta g big stamp itemId layerId args lg it = Inr resp"
  shows "\<forall>ch \<in> set (dr_changes resp). da_since args < dc_syncVersion ch"
proof
  fix ch
  assume ch: "ch \<in> set (dr_changes resp)"
  obtain n chs where "list_delta_since g big stamp (data_layer_scope itemId layerId) (args\<lparr> da_limit := Some n \<rparr>) lg = Inr chs" "ch \<in> set chs"
    using assms ch by (auto simp: list_delta_def Let_def and_then_Inr on_error_Inr split: if_splits dest!: in_set_takeD)
  then show "da_since args < dc_syncVersion ch" using delta_since_is_after by fastforce
qed

text \<open>C25: With more changes than a page holds, the refresh reports success after one page and moves the cursor to the counter: the changes after the page are behind every later request.\<close>

theorem full_page_drops_changes:
  assumes "with_stamps big (filter (\<lambda>r. o_scope r = data_layer_scope itemId layerId) lg) = Inr xs"
    and "read_layer_sync_version layerId it = Inr v" and "store_works dev"
    and "\<forall>(w, r) \<in> set xs. w \<le> v" and "10000 < length (since_version since xs)"
  shows "\<exists>k. pull_layer_delta dev (served g big stamp itemId layerId lg it) ctx since c =
      (foldl (apply_change ctx (dv_now dev 0)) c (map (delta_change_of stamp) (take 10000 (since_version since xs))), Inr (k, v)) \<and>
    drop 10000 (since_version since xs) \<noteq> [] \<and>
    (\<forall>x \<in> set (drop 10000 (since_version since xs)). \<forall>args lg' it' resp.
       v \<le> da_since args \<longrightarrow> list_delta g big stamp itemId layerId args lg' it' = Inr resp \<longrightarrow>
       (\<forall>ch \<in> set (dr_changes resp). fst x < dc_syncVersion ch))"
proof -
  have "fst x \<le> v" if "x \<in> set (drop 10000 (since_version since xs))" for x
    using in_set_dropD [OF that] assms(4) by (auto simp: set_since_version)
  then show ?thesis using pull_once [OF assms(1-3)] assms(5) delta_is_after by fastforce
qed

lemma page_keeps_others:
  assumes "\<forall>ch \<in> set chs. dc_entity ch \<noteq> e"
  shows "fst (store_page dev ctx page chs c) (slot ctx e) = c (slot ctx e)"
proof -
  let ?m = "changes_by_entity ctx (dv_now dev page) chs"
  have "fst ` set ?m = dc_entity ` set chs"
  proof (induction chs rule: rev_induct)
    case (snoc ch chs)
    then show ?case by (simp add: by_entity_append keys_obj_set)
  qed (simp add: changes_by_entity_def)
  then have m: "map_of ?m e = None" using assms by (auto simp: map_of_eq_None_iff)
  have "put_features (upserts_of ?m) c (slot ctx e) = c (slot ctx e)"
    using put_entries [OF by_entity_wf by_entity_own] m by (simp split: option.split)
  moreover have "delete_features (dx_dataCollectionId ctx) (dx_dataLayerId ctx) (dx_layerKey ctx) (deletes_of ?m)
      (put_features (upserts_of ?m) c) (slot ctx e) = c (slot ctx e)"
    using page_slot [OF by_entity_wf by_entity_own] m by simp
  ultimately show ?thesis by (auto simp: store_page_def apply_delta_changes_def Let_def)
qed

text \<open>A refresh from a cursor that no row of the entity is stamped beyond.\<close>

lemma pull_skips_entity:
  assumes "\<forall>r \<in> set lg. o_scope r = data_layer_scope itemId layerId \<longrightarrow> o_entity r = e \<longrightarrow> (\<forall>w. stamp_of big r = Inr w \<longrightarrow> w \<le> since)"
    and "pull_layer_delta dev (served g big stamp itemId layerId lg it) ctx since c = (c', res)"
  shows "c' (slot ctx e) = c (slot ctx e)"
proof (cases "served g big stamp itemId layerId lg it 0 since DELTA_PAGE_LIMIT")
  case (Delta_ok bd)
  note bd = served_never_truncated [OF Delta_ok]
  have "\<forall>ch \<in> set (db_changes bd). dc_entity ch \<noteq> e" using bd(2) assms(1) by fastforce
  from page_keeps_others [OF this, of dev ctx 0 c] show ?thesis
    using assms(2) Delta_ok bd(1)
    by (auto simp: pull_layer_delta_def pull_pages.simps(2) [of _ _ _ 99, simplified] split: prod.splits sum.splits)
qed (use assms(2) in \<open>auto simp: pull_layer_delta_def pull_pages.simps(2) [of _ _ _ 99, simplified]\<close>)

lemma insert_one_source: "insert_one g obs = Inr r \<Longrightarrow> o_source r = json_value (ob_source obs)"
  unfolding insert_one_def by (auto simp: and_then_Inr)

text \<open>The row of an update.\<close>

lemma written_row:
  assumes "write_guarded g ob fresh now expected lg = Inr (lg', Wrote oid)"
  shows "\<exists>obs r. complete g ob fresh now = Inr obs \<and> insert_one g obs = Inr r \<and> lg' = lg @ [r]"
proof (cases expected)
  case None
  then show ?thesis using assms by (auto simp: write_guarded_def write_one_def and_then_Inr)
next
  case (Some e)
  then obtain obs where "write_if_head g ob fresh now e lg = Inr (lg', Written obs)"
    using assms by (cases "write_if_head g ob fresh now e lg") (auto simp: write_guarded_def split: guarded.split_asm prod.split_asm)
  then show ?thesis by (auto simp: write_if_head_def and_then_Inr Let_def split: if_splits)
qed

lemma update_row:
  assumes "write_feature_update g k args lg = Inr (lg', Wrote oid)"
  shows "\<exists>r. lg' = lg @ [r] \<and> o_entity r = to_lower (target_of args) \<and> o_scope r = scope_of args \<and>
    o_source r = json_value (coalesce (fa_source args) DEFAULT_SOURCE)"
proof -
  let ?obs = "layer_observation ''update'' (target_of args) (k_from k 0) args"
  have "\<exists>obs r. complete g ?obs (k_id k 0) (k_tx k 0) = Inr obs \<and> insert_one g obs = Inr r \<and> lg' = lg @ [r]"
    using assms unfolding write_feature_update_def by (rule written_row)
  then obtain obs r where r: "complete g ?obs (k_id k 0) (k_tx k 0) = Inr obs" "insert_one g obs = Inr r" "lg' = lg @ [r]" by blast
  then have "ob_source obs = coalesce (fa_source args) DEFAULT_SOURCE" "ob_entity obs = JStr (target_of args)"
      "ob_scope obs = JStr (scope_of args)"
    by (auto simp: complete_def and_then_Inr Let_def layer_observation_def)
  then show ?thesis using insert_one_source [OF r(2)] insert_one_row [OF r(2)] r(3) by auto
qed

lemma stamp_of_source:
  assumes "o_source r = json_value (coalesce (sync_version_source (Fin (of_int v))) DEFAULT_SOURCE)" "0 \<le> v" "v < 2 ^ 53"
  shows "stamp_of big r = Inr v"
proof -
  have "(of_int v :: rat) < of_int (2 ^ 53)" using assms(3) by (simp only: of_int_less_iff)
  then have "(of_int v :: rat) < 2 ^ 63" by simp
  moreover have "(0 :: rat) \<le> of_int v" using assms(2) by simp
  ultimately show ?thesis
    using assms(1) by (simp add: stamp_of_def sync_version_source_def coalesce_def get_def)
qed

text \<open>C3: A refresh between the two steps of an update, the new version of the layer and the row that carries it, takes the version as its cursor; no refresh from there on delivers the row, until the feature is written again.\<close>

theorem late_row_never_delivered:
  assumes "read_layer_sync_version (fa_layerId args) it = Inr v" and "0 \<le> v" "v < 2 ^ 53"
    and "pull_layer_delta dev (served g big stamp (fa_itemId args) (fa_layerId args) lg it) ctx since c = (c1, Inr (n, cursor))"
    and "\<forall>r \<in> set lg. \<forall>w. stamp_of big r = Inr w \<longrightarrow> w \<le> v"
    and "fa_source args = sync_version_source (Fin (of_int v))"
    and "write_feature_update gw k args lg = Inr (lg1, Wrote oid)"
    and "\<forall>r \<in> set later. o_entity r \<noteq> to_lower (target_of args)"
    and "pull_layer_delta dev' (served g big stamp (fa_itemId args) (fa_layerId args) (lg1 @ later) it') ctx cursor c1 = (c2, res)"
  shows "cursor = v \<and> (\<exists>r. lg1 = lg @ [r] \<and> o_entity r = to_lower (target_of args) \<and> stamp_of big r = Inr v) \<and>
    c2 (slot ctx (to_lower (target_of args))) = c1 (slot ctx (to_lower (target_of args)))"
proof -
  have "cursor = v"
  proof (cases "served g big stamp (fa_itemId args) (fa_layerId args) lg it 0 since DELTA_PAGE_LIMIT")
    case (Delta_ok bd)
    have "db_syncVersion bd = Some v"
      using Delta_ok assms(1) by (auto simp: served_def answer_of_def list_delta_def Let_def and_then_Inr on_error_Inr split: sum.splits)
    then show ?thesis
      using assms(4) Delta_ok served_never_truncated(1) [OF Delta_ok]
      by (auto simp: pull_layer_delta_def pull_pages.simps(2) [of _ _ _ 99, simplified] split: prod.splits sum.splits)
  qed (use assms(4) in \<open>auto simp: pull_layer_delta_def pull_pages.simps(2) [of _ _ _ 99, simplified]\<close>)
  moreover obtain r where r: "lg1 = lg @ [r]" "o_entity r = to_lower (target_of args)" "stamp_of big r = Inr v"
    using update_row [OF assms(7)] stamp_of_source [OF _ assms(2,3)] assms(6) by metis
  moreover have "\<forall>r \<in> set (lg1 @ later). o_entity r = to_lower (target_of args) \<longrightarrow> (\<forall>w. stamp_of big r = Inr w \<longrightarrow> w \<le> cursor)"
    using assms(5,8) r \<open>cursor = v\<close> by auto
  ultimately show ?thesis using pull_skips_entity [OF _ assms(9)] by blast
qed

text \<open>The cursor after a full download is the counter that a second request finds.\<close>

lemma seeded_cursor:
  assumes "with_stamps big (filter (\<lambda>r. o_scope r = data_layer_scope itemId layerId) lg) = Inr xs"
    and "read_layer_sync_version layerId it = Inr v"
  shows "seed_sync_version_cursor (served g big stamp itemId layerId lg it) = Some v"
  using list_delta_whole [OF assms, of 1 g stamp 0] by (simp add: seed_sync_version_cursor_def served_def answer_of_def)

text \<open>C24: A feature that is written after the download of a layer was read and before its cursor is asked for is not in the download, and no later refresh delivers it, until it is written again.\<close>

theorem seeded_cursor_skips_edits:
  assumes "with_stamps big (filter (\<lambda>r. o_scope r = data_layer_scope itemId layerId) lg) = Inr xs"
    and "read_layer_sync_version layerId it = Inr v" and "\<forall>(w, r) \<in> set xs. w \<le> v" and "store_works dev"
    and "\<forall>f \<in> set features. cf_globalId (feature_to_cached_row stable_id ctx (dv_now dev 0) f) \<noteq> e"
    and "fetch_layer dev stable_id (Layer_ok features) (served g big stamp itemId layerId lg it) ctx None c = (c1, cursor, err)"
    and "\<forall>r \<in> set later. o_entity r \<noteq> e"
    and "fetch_layer dev' stable_id full (served g big stamp itemId layerId (lg @ later) it') ctx cursor c1 = (c2, cursor', err')"
  shows "cursor = Some v \<and> err = None \<and> c1 (slot ctx e) = c (slot ctx e) \<and> c2 (slot ctx e) = c (slot ctx e)"
proof -
  let ?rows = "map (feature_to_cached_row stable_id ctx (dv_now dev 0)) features"
  have f: "c1 = put_features ?rows c" "cursor = Some v" "err = None"
    using assms(4,6) seeded_cursor [OF assms(1,2)] by (auto simp: fetch_layer_def store_works_def Let_def)
  have "slot ctx e \<notin> cache_path ` set ?rows" using assms(5) by (auto simp: slot_def cache_path_def)
  then have c1: "c1 (slot ctx e) = c (slot ctx e)" using f(1) put_features_other by metis
  have xs: "map snd xs = filter (\<lambda>r. o_scope r = data_layer_scope itemId layerId) lg" "\<forall>(w, r) \<in> set xs. stamp_of big r = Inr w"
    using assms(1) by (simp_all add: with_stamps_Inr)
  have "w \<le> v" if r: "r \<in> set lg" "o_scope r = data_layer_scope itemId layerId" "stamp_of big r = Inr w" for r w
  proof -
    have "r \<in> set (map snd xs)" using xs(1) r by simp
    then obtain w' where "(w', r) \<in> set xs" by auto
    then show ?thesis using xs(2) assms(3) r(3) by fastforce
  qed
  then have quiet: "\<forall>r \<in> set (lg @ later). o_scope r = data_layer_scope itemId layerId \<longrightarrow> o_entity r = e \<longrightarrow> (\<forall>w. stamp_of big r = Inr w \<longrightarrow> w \<le> v)"
    using assms(7) by auto
  have "c2 (slot ctx e) = c1 (slot ctx e)"
    using assms(8) pull_skips_entity [OF quiet] by (auto simp: fetch_layer_def f(2) split: prod.splits sum.splits)
  then show ?thesis using f c1 by simp
qed

subsection \<open>Limits of area and author\<close>

text \<open>A delta keeps to the author of each row and to the geometry of each row, where a listing takes the author of the
  \<open>create\<close> row and the geometry of the current one. An edit by somebody else of a feature that the user created, and
  an edit that moves a feature out of the area, are not among the changes: the cache keeps what it had.\<close>

lemma delta_row_by_row:
  assumes "list_delta_since g big stamp scope args lg = Inr chs" "ch \<in> set chs"
  shows "(\<forall>u. da_ownRowsOnly args = Some u \<longrightarrow> dc_authorSub ch = u) \<and>
    (\<not> da_isTable args \<and> da_geoLimit args \<noteq> Undef \<longrightarrow> dc_geometry ch = JNull \<or> g_intersects g (dc_geometry ch) (da_geoLimit args))"
  using assms
  by (auto simp: list_delta_since_def and_then_Inr delta_selected_def delta_change_of_def split: sum.splits dest!: in_set_takeD)

text \<open>A page that ends within a batch: the rest of the batch has the version the client goes on from.\<close>

lemma rest_of_batch_skipped:
  assumes "(v, r) \<in> set (drop n (since_version since xs))" and "v \<le> since'"
  shows "(v, r) \<notin> set (since_version since' xs)"
  using assms by (auto simp: set_since_version)

subsection \<open>Examples\<close>

definition version_row :: "int \<Rightarrow> int \<Rightarrow> string \<Rightarrow> row" where
  "version_row v t kind =
     (tree_row CHR ''1'' t kind)\<lparr> o_scope := data_layer_scope ''i'' ''trees'', o_source := sync_version_source (Fin (of_int v)) \<rparr>"

lemma stamp_stamped:
  assumes "0 \<le> v" "v < 2 ^ 53"
  shows "stamp_of big (version_row v t kind) = Inr v"
  by (rule stamp_of_source [OF _ assms])
     (simp add: version_row_def sync_version_source_def coalesce_def)

lemma stamped_all: "\<forall>r \<in> set rs. stamp_of big r = Inr v \<Longrightarrow> with_stamps big rs = Inr (map (Pair v) rs)"
  by (induction rs) auto

definition no_stamp :: "int \<Rightarrow> string" where "no_stamp = (\<lambda>_. [])"

definition phone :: device where
  "phone = \<lparr> dv_now = (\<lambda>_. ''2026-05-21T00:00:00.000Z''), dv_put_ok = (\<lambda>_. True), dv_delete_ok = (\<lambda>_. True) \<rparr>"

definition tree_ctx :: delta_ctx where
  "tree_ctx = \<lparr> dx_dataCollectionId = ''dc'', dx_dataLayerId = ''i'', dx_layerKey = ''trees'' \<rparr>"

lemma phone_works: "store_works phone"
  by (simp add: store_works_def phone_def)

lemma trees_version: "0 \<le> c \<Longrightarrow> read_layer_sync_version ''trees'' (Some (trees_item c t)) = Inr c"
  by (rule read_has_counter [OF trees_counter])

lemma version_row_simps [simp]:
  "o_scope (version_row v t kind) = data_layer_scope ''i'' ''trees''" "o_entity (version_row v t kind) = tree_id"
  "o_kind (version_row v t kind) = kind" "o_from (version_row v t kind) = t" "o_tx (version_row v t kind) = t"
  by (simp_all add: version_row_def tree_row_def)

theorem full_page_drops_changes_witness:
  "\<exists>c k. pull_layer_delta phone (served gis0 (\<lambda>_. None) no_stamp ''i'' ''trees''
      (map (\<lambda>i. version_row 1 (int i) ''update'') [0..<10001]) (Some (trees_item 1 9))) tree_ctx 0 Map.empty = (c, Inr (k, 1))"
proof -
  let ?lg = "map (\<lambda>i. version_row 1 (int i) ''update'') [0..<10001]"
  let ?xs = "map (Pair 1) ?lg"
  have "filter (\<lambda>r. o_scope r = data_layer_scope ''i'' ''trees'') ?lg = ?lg" by (intro filter_True) auto
  moreover have "with_stamps (\<lambda>_. None) ?lg = Inr ?xs" by (intro stamped_all) (auto simp: stamp_stamped)
  ultimately have st: "with_stamps (\<lambda>_. None) (filter (\<lambda>r. o_scope r = data_layer_scope ''i'' ''trees'') ?lg) = Inr ?xs" by simp
  have "since_version 0 ?xs = in_delta_order ?xs" unfolding since_version_def by (intro filter_True) auto
  then have "10000 < length (since_version 0 ?xs)" by simp
  moreover have "\<forall>(w, r) \<in> set ?xs. w \<le> (1::int)" by auto
  moreover have "read_layer_sync_version ''trees'' (Some (trees_item 1 9)) = Inr 1" by (simp add: trees_version)
  ultimately show ?thesis
    using full_page_drops_changes [OF st _ phone_works] by blast
qed

definition tree_update :: feature_args where
  "tree_update = (args_with tree_id)\<lparr> fa_layerId := ''trees'', fa_source := sync_version_source (Fin (of_int 2)) \<rparr>"

lemma tree_updated:
  "write_feature_update gis0 (clock_at CHR ''2'' 5) tree_update lg =
     Inr (lg @ [(tree_row CHR ''2'' 5 ''update'')\<lparr> o_scope := ''data_layer:i:trees'', o_source := sync_version_source (Fin (of_int 2)) \<rparr>],
          Wrote ''11111111-0000-7000-8000-000000000002'')"
  by code_simp

theorem late_row_never_delivered_witness:
  "\<exists>c1 n lg1 oid c2 res.
    pull_layer_delta phone (served gis0 (\<lambda>_. None) no_stamp ''i'' ''trees'' [version_row 1 1 ''create''] (Some (trees_item 2 9)))
      tree_ctx 0 Map.empty = (c1, Inr (n, 2)) \<and>
    write_feature_update gis0 (clock_at CHR ''2'' 5) tree_update [version_row 1 1 ''create''] = Inr (lg1, Wrote oid) \<and>
    length lg1 = 2 \<and>
    pull_layer_delta phone (served gis0 (\<lambda>_. None) no_stamp ''i'' ''trees'' lg1 (Some (trees_item 2 9))) tree_ctx 2 c1 = (c2, res) \<and>
    c2 (slot tree_ctx tree_id) = c1 (slot tree_ctx tree_id)"
proof -
  let ?lg = "[version_row 1 1 ''create'']" let ?it = "Some (trees_item 2 9)"
  have st: "with_stamps (\<lambda>_. None) (filter (\<lambda>r. o_scope r = data_layer_scope ''i'' ''trees'') ?lg) = Inr [(1, version_row 1 1 ''create'')]"
    by (simp add: stamp_stamped)
  have cnt: "read_layer_sync_version ''trees'' ?it = Inr 2" by (simp add: trees_version)
  obtain c1 n where c1: "pull_layer_delta phone (served gis0 (\<lambda>_. None) no_stamp ''i'' ''trees'' ?lg ?it) tree_ctx 0 Map.empty = (c1, Inr (n, 2))"
    using pull_once [OF st cnt phone_works, of gis0 no_stamp tree_ctx 0 Map.empty] by auto
  have low: "to_lower tree_id = tree_id" "is_uuid_text tree_id" by code_simp+
  obtain lg1 oid where w: "write_feature_update gis0 (clock_at CHR ''2'' 5) tree_update ?lg = Inr (lg1, Wrote oid)"
    using tree_updated by blast
  obtain c2 res where c2: "pull_layer_delta phone (served gis0 (\<lambda>_. None) no_stamp ''i'' ''trees'' (lg1 @ []) ?it) tree_ctx 2 c1 = (c2, res)"
    by fastforce
  have t: "fa_itemId tree_update = ''i''" "fa_layerId tree_update = ''trees''" "target_of tree_update = tree_id"
      "fa_source tree_update = sync_version_source (Fin (of_int 2))"
    by (simp_all add: tree_update_def args_with_def target_of_def)
  have "\<forall>r \<in> set ?lg. \<forall>w. stamp_of (\<lambda>_. None) r = Inr w \<longrightarrow> w \<le> 2" by (simp add: stamp_stamped)
  from late_row_never_delivered [of tree_update ?it 2 phone gis0 "\<lambda>_. None" no_stamp ?lg tree_ctx 0 Map.empty c1 n 2 gis0 "clock_at CHR ''2'' 5" lg1 oid "[]" phone ?it c2 res,
      unfolded t, OF cnt _ _ c1 this refl w _ c2]
  have "(\<exists>r. lg1 = ?lg @ [r]) \<and> c2 (slot tree_ctx tree_id) = c1 (slot tree_ctx tree_id)" by (auto simp: low)
  then show ?thesis using c1 w c2 by auto
qed

theorem seeded_cursor_skips_edits_witness:
  "\<exists>c1 c2 cursor' err'. layer_map [version_row 1 1 ''create''] (data_layer_scope ''i'' ''trees'') tree_id \<noteq> None \<and>
    fetch_layer phone (\<lambda>_. ''k'') (Layer_ok []) (served gis0 (\<lambda>_. None) no_stamp ''i'' ''trees'' [version_row 1 1 ''create''] (Some (trees_item 1 9)))
      tree_ctx None Map.empty = (c1, Some 1, None) \<and>
    fetch_layer phone (\<lambda>_. ''k'') (Layer_ok []) (served gis0 (\<lambda>_. None) no_stamp ''i'' ''trees'' [version_row 1 1 ''create''] (Some (trees_item 1 9)))
      tree_ctx (Some 1) c1 = (c2, cursor', err') \<and> c2 (slot tree_ctx tree_id) = None"
proof -
  let ?srv = "served gis0 (\<lambda>_. None) no_stamp ''i'' ''trees'' [version_row 1 1 ''create''] (Some (trees_item 1 9))"
  have st: "with_stamps (\<lambda>_. None) (filter (\<lambda>r. o_scope r = data_layer_scope ''i'' ''trees'') [version_row 1 1 ''create'']) = Inr [(1, version_row 1 1 ''create'')]"
    by (simp add: stamp_stamped)
  have cnt: "read_layer_sync_version ''trees'' (Some (trees_item 1 9)) = Inr 1" by (simp add: trees_version)
  obtain c1 cursor err where one: "fetch_layer phone (\<lambda>_. ''k'') (Layer_ok []) ?srv tree_ctx None Map.empty = (c1, cursor, err)" by (metis prod_cases3)
  obtain c2 cursor' err' where two: "fetch_layer phone (\<lambda>_. ''k'') (Layer_ok [])
      (served gis0 (\<lambda>_. None) no_stamp ''i'' ''trees'' ([version_row 1 1 ''create''] @ []) (Some (trees_item 1 9))) tree_ctx cursor c1 = (c2, cursor', err')"
    by (metis prod_cases3)
  have "cursor = Some 1 \<and> err = None \<and> c1 (slot tree_ctx tree_id) = Map.empty (slot tree_ctx tree_id) \<and> c2 (slot tree_ctx tree_id) = Map.empty (slot tree_ctx tree_id)"
    by (rule seeded_cursor_skips_edits [OF st cnt _ phone_works _ one _ two]) simp_all
  moreover have "layer_map [version_row 1 1 ''create''] (data_layer_scope ''i'' ''trees'') tree_id \<noteq> None"
    by (simp add: layer_map_def history_def)
  ultimately show ?thesis using one two by auto
qed

end
