(* ===== verification/FeatureValidate.thy ===== *)
theory FeatureValidate
  imports JsValue SqlCheck
begin

text \<open>
  Feature attributes against the schema of their layer: \<open>shared-types/src/feature-validate.ts\<close>. Values are
  those of a JSON body; a \<open>Date\<close> handed over inside the process is not modelled. An array the code
  makes has the address 0. \<open>date_parse\<close> is \<open>Date.parse\<close>. Property names inherited from
  \<open>Object.prototype\<close> are not modelled.
\<close>

subsection \<open>Fields\<close>

text \<open>A code is a text or a number.\<close>

datatype field_domain = Coded_value "(jsval \<times> string) list" | Coded_value_ref string | Range_domain jsnum jsnum

record field_storage =
  fs_max_length :: "jsnum option"
  fs_number_kind :: "string option"
  fs_precision :: "jsnum option"
  fs_scale :: "jsnum option"

text \<open>An absent label is the empty text; an absent \<open>nullable\<close> reads as \<open>True\<close>, since only \<open>false\<close> counts.\<close>

record layer_field =
  lf_name :: string
  lf_type :: field_type
  lf_label :: string
  lf_nullable :: bool
  lf_domain :: "field_domain option"
  lf_storage :: "field_storage option"

datatype violation_code = V_type | V_required | V_domain | V_range | V_max_length | V_precision

record field_violation =
  fv_field :: string
  fv_code :: violation_code
  fv_message :: string

record feature_result =
  fr_ok :: bool
  fr_violations :: "field_violation list"
  fr_unknown :: "string list"
  fr_value :: obj

text \<open>The codes of each pick list that could be resolved.\<close>

type_synonym pick_lists = "string \<Rightarrow> jsval list option"

datatype write_mode = Create | Patch

definition is_empty_value :: "jsval \<Rightarrow> bool" where
  "is_empty_value v = (case v of JStr s \<Rightarrow> trim s = [] | _ \<Rightarrow> nullish v)"

fun type_name :: "jsval \<Rightarrow> string" where
  "type_name JNull = ''null''"
| "type_name (JArr _ _) = ''a list''"
| "type_name (JObj _ _) = ''an object''"
| "type_name Undef = ''a undefined''"
| "type_name (JBool _) = ''a boolean''"
| "type_name (JNum _) = ''a number''"
| "type_name (JStr _) = ''a string''"

definition label_text :: "layer_field \<Rightarrow> string" where
  "label_text f = (if trim (lf_label f) \<noteq> [] then lf_label f else lf_name f)"

subsection \<open>Domains\<close>

record resolved_domain =
  rd_codes :: "string list"
  rd_listable :: bool

text \<open>A \<open>Set\<close> of the codes in the order they first appear.\<close>

definition code_set :: "jsval list \<Rightarrow> string list" where
  "code_set codes = rev (remdups (rev (map js_string codes)))"

definition resolve_domain :: "field_domain option \<Rightarrow> pick_lists \<Rightarrow> resolved_domain option" where
  "resolve_domain d pickLists =
     (case d of
        None \<Rightarrow> None
      | Some (Coded_value vs) \<Rightarrow> Some \<lparr> rd_codes = code_set (map fst vs), rd_listable = True \<rparr>
      | Some (Coded_value_ref i) \<Rightarrow>
          (case pickLists i of
             None \<Rightarrow> None
           | Some entries \<Rightarrow> Some \<lparr> rd_codes = code_set entries, rd_listable = False \<rparr>)
      | Some (Range_domain _ _) \<Rightarrow> None)"

definition RESERVED_PROPERTY_NAMES :: "string list" where
  "RESERVED_PROPERTY_NAMES = [''__proto__'', ''constructor'', ''prototype'']"

definition MAX_MULTI_SELECT_ENTRIES :: nat where "MAX_MULTI_SELECT_ENTRIES = 500"

subsection \<open>Coercion\<close>

fun finite_num :: "jsnum \<Rightarrow> bool" where
  "finite_num (Fin _) = True"
| "finite_num _ = False"

definition coerce_string :: "string \<Rightarrow> jsval \<Rightarrow> string + jsval" where
  "coerce_string label raw =
     (case raw of
        JStr s \<Rightarrow> Inr (JStr s)
      | JBool b \<Rightarrow> Inr (JStr (js_string (JBool b)))
      | JNum n \<Rightarrow> if finite_num n then Inr (JStr (num_to_string n))
                   else Inl (label @ '' is a text field but received '' @ type_name raw @ ''.'')
      | _ \<Rightarrow> Inl (label @ '' is a text field but received '' @ type_name raw @ ''.''))"

definition coerce_number :: "string \<Rightarrow> jsval \<Rightarrow> string + jsval" where
  "coerce_number label raw =
     (case raw of
        JNum n \<Rightarrow> if \<not> finite_num n then Inl (label @ '' is a number field and cannot hold '' @ num_to_string n @ ''.'')
                   else Inr (JNum n)
      | JStr s \<Rightarrow>
          let n = string_to_num (trim s)
          in if trim s \<noteq> [] \<and> finite_num n then Inr (JNum n)
             else Inl (label @ '' is a number field; \"'' @ s @ ''\" is not a number.'')
      | _ \<Rightarrow> Inl (label @ '' is a number field but received '' @ type_name raw @ ''.''))"

definition yes_no_word :: "jsval \<Rightarrow> bool option" where
  "yes_no_word raw =
     (case raw of
        JBool b \<Rightarrow> Some b
      | JStr t \<Rightarrow>
          let s = to_lower (trim t)
          in if s \<in> {''true'', ''yes'', ''1''} then Some True
             else if s \<in> {''false'', ''no'', ''0''} then Some False else None
      | JNum n \<Rightarrow> if n_eq n (Fin 1) then Some True else if n_eq n (Fin 0) then Some False else None
      | _ \<Rightarrow> None)"

definition coerce_boolean :: "string \<Rightarrow> jsval \<Rightarrow> string + jsval" where
  "coerce_boolean label raw =
     (case yes_no_word raw of
        Some b \<Rightarrow> Inr (JBool b)
      | None \<Rightarrow> Inl (label @ '' is a yes/no field; \"'' @ js_string raw @ ''\" is neither.''))"

definition coerce_date :: "(string \<Rightarrow> jsnum) \<Rightarrow> string \<Rightarrow> jsval \<Rightarrow> string + jsval" where
  "coerce_date date_parse label raw =
     (case raw of
        JStr s \<Rightarrow> if date_parse s = NaN then Inl (label @ '' is a date field; \"'' @ s @ ''\" is not a date we can read.'')
                   else Inr (JStr s)
      | _ \<Rightarrow> Inl (label @ '' is a date field but received '' @ type_name raw @ ''.''))"

definition comma_entries :: "string \<Rightarrow> string list" where
  "comma_entries s = filter (\<lambda>e. e \<noteq> []) (map trim (split_at_char CHR '','' s))"

text \<open>\<open>find\<close> gives \<open>undefined\<close> for an entry that is undefined as for no entry.\<close>

definition coerce_multi_select :: "string \<Rightarrow> jsval \<Rightarrow> string + jsval" where
  "coerce_multi_select label raw =
     (case raw of
        JArr _ vs \<Rightarrow>
          if MAX_MULTI_SELECT_ENTRIES < length vs
          then Inl (label @ '' accepts at most '' @ nat_digits MAX_MULTI_SELECT_ENTRIES @ '' selections; received '' @
                    nat_digits (length vs) @ ''.'')
          else
            let bad = (case find (\<lambda>e. \<not> is_str e \<and> \<not> is_num e) vs of Some b \<Rightarrow> b | None \<Rightarrow> Undef)
            in if bad \<noteq> Undef
               then Inl (label @ '' accepts a list of text values; one entry is '' @ type_name bad @ ''.'')
               else Inr (JArr 0 (map (\<lambda>e. JStr (js_string e)) vs))
      | JStr s \<Rightarrow> Inr (JArr 0 (map JStr (comma_entries s)))
      | _ \<Rightarrow> Inl (label @ '' accepts a list of text values but received '' @ type_name raw @ ''.''))"

definition coerce_value :: "(string \<Rightarrow> jsnum) \<Rightarrow> layer_field \<Rightarrow> jsval \<Rightarrow> string + jsval" where
  "coerce_value date_parse f raw =
     (case lf_type f of
        F_string \<Rightarrow> coerce_string (label_text f) raw
      | F_number \<Rightarrow> coerce_number (label_text f) raw
      | F_boolean \<Rightarrow> coerce_boolean (label_text f) raw
      | F_date \<Rightarrow> coerce_date date_parse (label_text f) raw
      | F_multi_select \<Rightarrow> coerce_multi_select (label_text f) raw)"

subsection \<open>Constraints\<close>

definition violation :: "layer_field \<Rightarrow> violation_code \<Rightarrow> string \<Rightarrow> field_violation" where
  "violation f code msg = \<lparr> fv_field = lf_name f, fv_code = code, fv_message = msg \<rparr>"

definition domain_candidates :: "jsval \<Rightarrow> jsval list" where
  "domain_candidates v = (case v of JArr _ vs \<Rightarrow> vs | _ \<Rightarrow> [v])"

definition domain_suffix :: "resolved_domain \<Rightarrow> string" where
  "domain_suffix d =
     (if rd_listable d
      then let shown = join '', '' (take 8 (rd_codes d))
           in if 8 < length (rd_codes d)
              then '' (allowed: '' @ shown @ '', and '' @ nat_digits (length (rd_codes d) - 8) @ '' more).''
              else '' (allowed: '' @ shown @ '').''
      else ''.'')"

definition domain_violation :: "layer_field \<Rightarrow> jsval \<Rightarrow> resolved_domain option \<Rightarrow> field_violation option" where
  "domain_violation f v dm =
     (case dm of
        None \<Rightarrow> None
      | Some d \<Rightarrow>
          if rd_codes d = [] then None
          else map_option (\<lambda>c. violation f V_domain (label_text f @ '' only accepts values from its list; \"'' @ js_string c @
                   ''\" is not one of them'' @ domain_suffix d))
                 (find (\<lambda>c. js_string c \<notin> set (rd_codes d)) (domain_candidates v)))"

definition range_violation :: "layer_field \<Rightarrow> jsval \<Rightarrow> field_violation option" where
  "range_violation f v =
     (case (lf_domain f, v) of
        (Some (Range_domain mn mx), JNum n) \<Rightarrow>
          if n_lt n mn \<or> n_lt mx n
          then Some (violation f V_range (label_text f @ '' must be between '' @ num_to_string mn @ '' and '' @ num_to_string mx @
                 ''; received '' @ num_to_string n @ ''.''))
          else None
      | _ \<Rightarrow> None)"

definition is_integer_num :: "jsnum \<Rightarrow> bool" where
  "is_integer_num n = (case n of Fin r \<Rightarrow> r = of_int \<lfloor>r\<rfloor> | _ \<Rightarrow> False)"

definition storage_violation :: "layer_field \<Rightarrow> jsval \<Rightarrow> field_violation option" where
  "storage_violation f v =
     (case lf_storage f of
        None \<Rightarrow> None
      | Some st \<Rightarrow>
          (case v of
             JStr s \<Rightarrow>
               (case fs_max_length st of
                  None \<Rightarrow> None
                | Some mx \<Rightarrow>
                    if n_lt (Fin 0) mx \<and> n_lt mx (Fin (of_nat (length s)))
                    then Some (violation f V_max_length (label_text f @ '' is limited to '' @ num_to_string mx @
                           '' characters; received '' @ nat_digits (length s) @ ''.''))
                    else None)
           | JNum n \<Rightarrow>
               if fs_number_kind st = Some ''integer'' \<and> \<not> is_integer_num n
               then Some (violation f V_precision (label_text f @ '' is a whole-number field; received '' @ num_to_string n @ ''.''))
               else None
           | _ \<Rightarrow> None))"

definition check_constraints :: "layer_field \<Rightarrow> jsval \<Rightarrow> resolved_domain option \<Rightarrow> field_violation option" where
  "check_constraints f v dm =
     (case domain_violation f v dm of
        Some x \<Rightarrow> Some x
      | None \<Rightarrow> (case range_violation f v of Some x \<Rightarrow> Some x | None \<Rightarrow> storage_violation f v))"

subsection \<open>The whole record\<close>

text \<open>What one field adds to the violations, and the value it leaves.\<close>

definition validate_field ::
  "(string \<Rightarrow> jsnum) \<Rightarrow> (string \<Rightarrow> resolved_domain option) \<Rightarrow> write_mode \<Rightarrow> obj \<Rightarrow> layer_field \<Rightarrow>
   field_violation list \<times> obj \<Rightarrow> field_violation list \<times> obj" where
  "validate_field date_parse domains mode input f acc =
     (let (violations, val) = acc; name = lf_name f; raw = get input name in
      if name \<in> set RESERVED_PROPERTY_NAMES
      then (violations @ [violation f V_type (''\"'' @ name @ ''\" is not a usable field name.'')], val)
      else if \<not> has_key name input
      then (if mode = Create \<and> \<not> lf_nullable f
            then (violations @ [violation f V_required (label_text f @ '' is required.'')], val) else acc)
      else if is_empty_value raw
      then (if \<not> lf_nullable f
            then (violations @ [violation f V_required (label_text f @ '' is required and cannot be cleared.'')], val)
            else (violations, obj_set name JNull val))
      else case coerce_value date_parse f raw of
             Inl msg \<Rightarrow> (violations @ [violation f V_type msg], val)
           | Inr v \<Rightarrow>
               (violations @ (case check_constraints f v (domains name) of Some x \<Rightarrow> [x] | None \<Rightarrow> []), obj_set name v val))"

definition starts_underscore :: "string \<Rightarrow> bool" where
  "starts_underscore k = starts_with ''_'' k"

text \<open>The map of resolved domains: the last of two fields of a name.\<close>

definition domains_of :: "layer_field list \<Rightarrow> pick_lists \<Rightarrow> string \<Rightarrow> resolved_domain option" where
  "domains_of flds pickLists n =
     (case map_of (rev (map (\<lambda>f. (lf_name f, resolve_domain (lf_domain f) pickLists)) flds)) n of
        None \<Rightarrow> None | Some d \<Rightarrow> d)"

definition validate_feature_properties ::
  "(string \<Rightarrow> jsnum) \<Rightarrow> layer_field list \<Rightarrow> obj \<Rightarrow> write_mode \<Rightarrow> pick_lists \<Rightarrow> feature_result" where
  "validate_feature_properties date_parse flds input mode pickLists =
     (if flds = [] then \<lparr> fr_ok = True, fr_violations = [], fr_unknown = [], fr_value = input \<rparr>
      else
        let
            (violations, val) = fold (validate_field date_parse (domains_of flds pickLists) mode input) flds ([], input);
            declared = map lf_name flds
        in \<lparr> fr_ok = (violations = []), fr_violations = violations,
             fr_unknown = filter (\<lambda>k. k \<notin> set declared \<and> \<not> starts_underscore k \<and> k \<notin> set RESERVED_PROPERTY_NAMES) (map fst input),
             fr_value = val \<rparr>)"

definition describe_violations :: "field_violation list \<Rightarrow> string" where
  "describe_violations vs =
     (if vs = [] then []
      else let shown = map fv_message (take 5 vs); more = length vs - length shown
           in join '' '' shown @ (if 0 < more then '' (and '' @ nat_digits more @ '' more.)'' else []))"

subsection \<open>One field at a time\<close>

text \<open>What a field adds does not depend on the flds before it: its violation, and the value it writes.\<close>

definition field_outcome ::
  "(string \<Rightarrow> jsnum) \<Rightarrow> (string \<Rightarrow> resolved_domain option) \<Rightarrow> write_mode \<Rightarrow> obj \<Rightarrow> layer_field \<Rightarrow>
   field_violation list \<times> jsval option" where
  "field_outcome date_parse domains mode input f =
     (let (violations, val) = validate_field date_parse domains mode input f ([], []) in (violations, map_of val (lf_name f)))"

lemma validate_field_outcome:
  "validate_field date_parse domains mode input f (vs, val) =
     (case field_outcome date_parse domains mode input f of
        (ws, w) \<Rightarrow> (vs @ ws, case w of None \<Rightarrow> val | Some v \<Rightarrow> obj_set (lf_name f) v val))"
  by (auto simp: validate_field_def field_outcome_def Let_def split: sum.split option.split)

lemma fold_violations:
  "fst (fold (validate_field dp ds mode input) flds (vs, val)) = vs @ concat (map (fst \<circ> field_outcome dp ds mode input) flds)"
  by (induction flds arbitrary: vs val) (simp_all add: validate_field_outcome split_beta)

lemma fold_other:
  "k \<notin> lf_name ` set flds \<Longrightarrow> get (snd (fold (validate_field dp ds mode input) flds (vs, val))) k = get val k"
proof (induction flds arbitrary: vs val)
  case (Cons f flds)
  then show ?case by (cases "snd (field_outcome dp ds mode input f)") (auto simp: validate_field_outcome split_beta get_obj_set)
qed simp

lemma fold_field:
  "distinct (map lf_name flds) \<Longrightarrow> f \<in> set flds \<Longrightarrow>
   get (snd (fold (validate_field dp ds mode input) flds (vs, val))) (lf_name f) =
     (case snd (field_outcome dp ds mode input f) of None \<Rightarrow> get val (lf_name f) | Some v \<Rightarrow> v)"
proof (induction flds arbitrary: vs val)
  case (Cons g flds)
  show ?case
  proof (cases "f = g")
    case True
    then have "lf_name f \<notin> lf_name ` set flds" using Cons.prems by simp
    from fold_other [OF this] True show ?thesis
      by (auto simp: validate_field_outcome split_beta get_obj_set split: option.split)
  next
    case False
    then have n: "lf_name f \<noteq> lf_name g" using Cons.prems by (metis distinct.simps(2) image_eqI list.set_map list.simps(9) set_ConsD)
    from False Cons show ?thesis
      by (auto simp: validate_field_outcome split_beta get_obj_set n split: option.split)
  qed
qed simp

lemma outcome_present: "snd (field_outcome dp ds mode input f) = Some v \<Longrightarrow> has_key (lf_name f) input"
  by (auto simp: field_outcome_def validate_field_def Let_def split: if_splits sum.splits)

lemma fold_keys:
  "set (map fst input) \<subseteq> set (map fst val) \<Longrightarrow>
   map fst (snd (fold (validate_field dp ds mode input) flds (vs, val))) = map fst val"
proof (induction flds arbitrary: vs val)
  case (Cons f flds)
  show ?case
  proof (cases "snd (field_outcome dp ds mode input f)")
    case None
    with Cons show ?thesis by (simp add: validate_field_outcome split_beta)
  next
    case (Some v)
    then have "lf_name f \<in> fst ` set val" using outcome_present Cons.prems unfolding has_key_def by fastforce
    then have "map fst (obj_set (lf_name f) v val) = map fst val" by (simp add: update_keys)
    moreover from this have "set (map fst input) \<subseteq> set (map fst (obj_set (lf_name f) v val))" using Cons.prems by metis
    from Cons.IH [OF this] have "map fst (snd (fold (validate_field dp ds mode input) flds
        (vs @ fst (field_outcome dp ds mode input f), obj_set (lf_name f) v val))) = map fst (obj_set (lf_name f) v val)" .
    ultimately show ?thesis using Some by (simp add: validate_field_outcome split_beta)
  qed
qed simp

text \<open>The resolved domain of a field, when names are distinct.\<close>

lemma domains_of_field:
  "distinct (map lf_name flds) \<Longrightarrow> f \<in> set flds \<Longrightarrow> domains_of flds pl (lf_name f) = resolve_domain (lf_domain f) pl"
proof -
  assume d: "distinct (map lf_name flds)" and f: "f \<in> set flds"
  let ?m = "map (\<lambda>f. (lf_name f, resolve_domain (lf_domain f) pl)) flds"
  have m: "map fst ?m = map lf_name flds" by (simp add: comp_def)
  have "distinct (map fst (rev ?m))" using d unfolding rev_map [symmetric] m by simp
  moreover have "(lf_name f, resolve_domain (lf_domain f) pl) \<in> set (rev ?m)" using f by auto
  ultimately have "map_of (rev ?m) (lf_name f) = Some (resolve_domain (lf_domain f) pl)" by (rule map_of_is_SomeI)
  then show ?thesis by (simp add: domains_of_def)
qed

lemma validate_unfold:
  "flds \<noteq> [] \<Longrightarrow> validate_feature_properties dp flds input mode pl =
     (let res = fold (validate_field dp (domains_of flds pl) mode input) flds ([], input) in
      \<lparr> fr_ok = (fst res = []), fr_violations = fst res,
        fr_unknown = filter (\<lambda>k. k \<notin> set (map lf_name flds) \<and> \<not> starts_underscore k \<and> k \<notin> set RESERVED_PROPERTY_NAMES) (map fst input),
        fr_value = snd res \<rparr>)"
  unfolding validate_feature_properties_def by (simp add: Let_def split_beta)

lemma ok_outcomes:
  "fr_ok (validate_feature_properties dp flds input mode pl) \<longleftrightarrow>
     (\<forall>f \<in> set flds. fst (field_outcome dp (domains_of flds pl) mode input f) = [])"
proof (cases "flds = []")
  case False
  then show ?thesis by (simp add: validate_unfold Let_def fold_violations)
qed (simp add: validate_feature_properties_def)

lemma value_keys: "map fst (fr_value (validate_feature_properties dp flds input mode pl)) = map fst input"
proof (cases "flds = []")
  case False
  then show ?thesis by (simp add: validate_unfold Let_def fold_keys)
qed (simp add: validate_feature_properties_def)

lemma value_field:
  "distinct (map lf_name flds) \<Longrightarrow> f \<in> set flds \<Longrightarrow>
   get (fr_value (validate_feature_properties dp flds input mode pl)) (lf_name f) =
     (case snd (field_outcome dp (domains_of flds pl) mode input f) of None \<Rightarrow> get input (lf_name f) | Some v \<Rightarrow> v)"
  by (cases "flds = []") (simp_all add: validate_unfold Let_def fold_field)

lemma value_other:
  "k \<notin> lf_name ` set flds \<Longrightarrow> get (fr_value (validate_feature_properties dp flds input mode pl)) k = get input k"
proof (cases "flds = []")
  case False
  assume "k \<notin> lf_name ` set flds"
  with False show ?thesis by (simp add: validate_unfold Let_def fold_other)
qed (simp add: validate_feature_properties_def)

text \<open>A field without violation: absent, cleared, or coerced and within its constraints.\<close>

lemma outcome_ok:
  assumes "fst (field_outcome dp ds mode input f) = []"
  obtains (absent) "lf_name f \<notin> set RESERVED_PROPERTY_NAMES" "\<not> has_key (lf_name f) input"
      "mode = Create \<Longrightarrow> lf_nullable f" "snd (field_outcome dp ds mode input f) = None"
    | (cleared) "lf_name f \<notin> set RESERVED_PROPERTY_NAMES" "has_key (lf_name f) input" "is_empty_value (get input (lf_name f))"
      "lf_nullable f" "snd (field_outcome dp ds mode input f) = Some JNull"
    | (coerced) v where "lf_name f \<notin> set RESERVED_PROPERTY_NAMES" "has_key (lf_name f) input"
      "\<not> is_empty_value (get input (lf_name f))"
      "coerce_value dp f (get input (lf_name f)) = Inr v" "check_constraints f v (ds (lf_name f)) = None"
      "snd (field_outcome dp ds mode input f) = Some v"
  using assms
  by (auto simp: field_outcome_def validate_field_def Let_def split: if_splits sum.splits option.splits)

subsection \<open>What the schema promises\<close>

definition type_holds :: "(string \<Rightarrow> jsnum) \<Rightarrow> field_type \<Rightarrow> jsval \<Rightarrow> bool" where
  "type_holds date_parse t v \<longleftrightarrow>
     (case t of
        F_string \<Rightarrow> is_str v
      | F_number \<Rightarrow> \<exists>r. v = JNum (Fin r)
      | F_boolean \<Rightarrow> \<exists>b. v = JBool b
      | F_date \<Rightarrow> \<exists>s. v = JStr s \<and> date_parse s \<noteq> NaN
      | F_multi_select \<Rightarrow> is_arr v \<and> list_all is_str (domain_candidates v))"

definition among_codes :: "jsval list \<Rightarrow> jsval \<Rightarrow> bool" where
  "among_codes codes v \<longleftrightarrow> codes = [] \<or> (\<forall>c \<in> set (domain_candidates v). js_string c \<in> js_string ` set codes)"

definition domain_holds :: "layer_field \<Rightarrow> pick_lists \<Rightarrow> jsval \<Rightarrow> bool" where
  "domain_holds f pickLists v \<longleftrightarrow>
     (case lf_domain f of
        None \<Rightarrow> True
      | Some (Coded_value vs) \<Rightarrow> among_codes (map fst vs) v
      | Some (Coded_value_ref i) \<Rightarrow> (case pickLists i of None \<Rightarrow> True | Some codes \<Rightarrow> among_codes codes v)
      | Some (Range_domain mn mx) \<Rightarrow> \<forall>n. v = JNum n \<longrightarrow> \<not> n_lt n mn \<and> \<not> n_lt mx n)"

definition storage_holds :: "layer_field \<Rightarrow> jsval \<Rightarrow> bool" where
  "storage_holds f v \<longleftrightarrow>
     (\<forall>st. lf_storage f = Some st \<longrightarrow>
        (\<forall>s mx. v = JStr s \<longrightarrow> fs_max_length st = Some mx \<longrightarrow> n_lt (Fin 0) mx \<longrightarrow> \<not> n_lt mx (Fin (of_nat (length s)))) \<and>
        (\<forall>n. v = JNum n \<longrightarrow> fs_number_kind st = Some ''integer'' \<longrightarrow> is_integer_num n))"

text \<open>A value a layer may hold in a field: cleared where it may be, or of the type and within every constraint.\<close>

definition field_conforms :: "(string \<Rightarrow> jsnum) \<Rightarrow> pick_lists \<Rightarrow> layer_field \<Rightarrow> jsval \<Rightarrow> bool" where
  "field_conforms date_parse pickLists f v \<longleftrightarrow>
     v = JNull \<and> lf_nullable f \<or>
     type_holds date_parse (lf_type f) v \<and> domain_holds f pickLists v \<and> storage_holds f v"

lemma coerced_type: "coerce_value dp f raw = Inr v \<Longrightarrow> type_holds dp (lf_type f) v"
  by (cases "lf_type f"; cases raw)
    (auto simp: coerce_value_def type_holds_def coerce_string_def coerce_number_def coerce_boolean_def coerce_date_def
      coerce_multi_select_def domain_candidates_def list_all_iff Let_def elim!: finite_num.elims
      split: if_splits option.splits)

lemma set_code_set [simp]: "set (code_set codes) = js_string ` set codes"
  by (simp add: code_set_def)

lemma code_set_Nil [simp]: "code_set codes = [] \<longleftrightarrow> codes = []"
  by (simp add: code_set_def)

lemma constraints_hold:
  "check_constraints f v (resolve_domain (lf_domain f) pl) = None \<longleftrightarrow> domain_holds f pl v \<and> storage_holds f v"
proof -
  have d: "domain_violation f v (resolve_domain (lf_domain f) pl) = None \<and> range_violation f v = None \<longleftrightarrow> domain_holds f pl v"
    by (auto simp: domain_violation_def range_violation_def domain_holds_def resolve_domain_def among_codes_def find_None_iff
        split: option.split field_domain.split jsval.split)
  have "storage_violation f v = None \<longleftrightarrow> storage_holds f v"
    by (auto simp: storage_violation_def storage_holds_def split: option.split jsval.split)
  with d show ?thesis by (auto simp: check_constraints_def split: option.split)
qed

text \<open>C20: an accepted record, as it is stored, conforms to the schema: every declared field it has holds a
  value of its type within its domain, range and storage, or is cleared and may be; a field that
  must be filled is there on a create. And nothing is lost or invented: the keys are those of the
  input in their order, and what the schema does not declare is stored as it came.\<close>

theorem accepted_conforms:
  assumes "distinct (map lf_name flds)" and "fr_ok (validate_feature_properties date_parse flds input mode pickLists)"
  defines "stored \<equiv> fr_value (validate_feature_properties date_parse flds input mode pickLists)"
  shows "(\<forall>f \<in> set flds.
      if has_key (lf_name f) input then field_conforms date_parse pickLists f (get stored (lf_name f))
      else mode = Create \<longrightarrow> lf_nullable f) \<and>
    map fst stored = map fst input \<and>
    (\<forall>k. k \<notin> lf_name ` set flds \<longrightarrow> get stored k = get input k)"
proof (intro conjI ballI)
  fix f assume f: "f \<in> set flds"
  let ?out = "field_outcome date_parse (domains_of flds pickLists) mode input f"
  have "fst ?out = []" using assms(2) f ok_outcomes by blast
  then show "if has_key (lf_name f) input then field_conforms date_parse pickLists f (get stored (lf_name f))
      else mode = Create \<longrightarrow> lf_nullable f"
  proof (cases rule: outcome_ok)
    case (coerced v)
    then have "get stored (lf_name f) = v" using value_field [OF assms(1) f] by (simp add: stored_def)
    moreover have "field_conforms date_parse pickLists f v"
      using coerced_type [OF coerced(4)] coerced(5) constraints_hold [of f v pickLists]
      by (simp add: field_conforms_def domains_of_field [OF assms(1) f])
    ultimately show ?thesis using coerced(2) by simp
  next
    case cleared
    then have "get stored (lf_name f) = JNull" using value_field [OF assms(1) f] by (simp add: stored_def)
    then show ?thesis using cleared by (simp add: field_conforms_def)
  qed simp
qed (simp_all add: stored_def value_keys value_other)

text \<open>A schema for the examples.\<close>

definition plain_field :: "string \<Rightarrow> field_type \<Rightarrow> bool \<Rightarrow> layer_field" where
  "plain_field name t n =
     \<lparr> lf_name = name, lf_type = t, lf_label = [], lf_nullable = n, lf_domain = None, lf_storage = None \<rparr>"

theorem accepted_conforms_witness:
  "let flds = [plain_field ''depth'' F_number False, plain_field ''open'' F_boolean True];
       input = [(''depth'', JStr '' 42 ''), (''open'', JStr ''Yes''), (''_draft'', JBool True)];
       stored = fr_value (validate_feature_properties (\<lambda>_. NaN) flds input Create Map.empty)
   in stored = [(''depth'', JNum (Fin 42)), (''open'', JBool True), (''_draft'', JBool True)] \<and>
      field_conforms (\<lambda>_. NaN) Map.empty (plain_field ''depth'' F_number False) (get stored ''depth'')"
proof -
  let ?flds = "[plain_field ''depth'' F_number False, plain_field ''open'' F_boolean True]"
  let ?input = "[(''depth'', JStr '' 42 ''), (''open'', JStr ''Yes''), (''_draft'', JBool True)]"
  let ?res = "validate_feature_properties (\<lambda>_. NaN) ?flds ?input Create Map.empty"
  have v: "fr_value ?res = [(''depth'', JNum (Fin 42)), (''open'', JBool True), (''_draft'', JBool True)]" by code_simp
  have "fr_ok ?res" by code_simp
  moreover have "distinct (map lf_name ?flds)" by code_simp
  ultimately have "\<forall>f \<in> set ?flds. if has_key (lf_name f) ?input then field_conforms (\<lambda>_. NaN) Map.empty f (get (fr_value ?res) (lf_name f))
      else Create = Create \<longrightarrow> lf_nullable f"
    using accepted_conforms [of ?flds "\<lambda>_. NaN" ?input Create Map.empty] by blast
  moreover have "has_key (lf_name (plain_field ''depth'' F_number False)) ?input" by code_simp
  ultimately have "field_conforms (\<lambda>_. NaN) Map.empty (plain_field ''depth'' F_number False) (get (fr_value ?res) ''depth'')"
    by (simp add: plain_field_def)
  then show ?thesis unfolding Let_def v by blast
qed

subsection \<open>Sending the stored record again\<close>

text \<open>The entries of an array survive; a blank text or an overlong list would not.\<close>

definition resendable :: "jsval \<Rightarrow> bool" where
  "resendable v \<longleftrightarrow> (\<forall>s. v = JStr s \<longrightarrow> trim s \<noteq> []) \<and> (\<forall>a vs. v = JArr a vs \<longrightarrow> length vs \<le> MAX_MULTI_SELECT_ENTRIES)"

lemma coerce_again: "coerce_value dp f raw = Inr v \<Longrightarrow> resendable v \<Longrightarrow> coerce_value dp f v = Inr v"
proof -
  assume c: "coerce_value dp f raw = Inr v" and r: "resendable v"
  have multi: "coerce_multi_select lb (JArr 0 (map JStr ws)) = Inr (JArr 0 (map JStr ws))"
    if "length ws \<le> MAX_MULTI_SELECT_ENTRIES" for lb ws
  proof -
    have "find (\<lambda>e. \<not> is_str e \<and> \<not> is_num e) (map JStr ws) = None" by (simp add: find_None_iff)
    then show ?thesis using that by (simp add: coerce_multi_select_def)
  qed
  show ?thesis
  proof (cases "lf_type f")
    case F_multi_select
    have "\<exists>ws. map (\<lambda>e. JStr (js_string e)) vs = map JStr ws" for vs
      by (rule exI [of _ "map js_string vs"]) simp
    then have "\<exists>ws. v = JArr 0 (map JStr ws)"
      using c F_multi_select
      by (cases raw) (auto simp: coerce_value_def coerce_multi_select_def Let_def split: if_splits)
    then obtain ws where "v = JArr 0 (map JStr ws)" by blast
    then show ?thesis using F_multi_select multi [of ws] r by (simp add: coerce_value_def resendable_def)
  next
    case F_boolean
    with c show ?thesis by (cases raw) (auto simp: coerce_value_def coerce_boolean_def yes_no_word_def split: option.splits)
  qed (use c in \<open>cases raw; auto simp: coerce_value_def coerce_string_def coerce_number_def coerce_date_def Let_def
      elim!: finite_num.elims split: if_splits\<close>)+
qed

text \<open>validating is stable: what was accepted and stored, sent back with nothing changed, is accepted
  with the same result, as long as no text in it is blank and no list longer than the limit.\<close>

theorem stored_record_stable:
  assumes "distinct (map lf_name flds)" and "fr_ok (validate_feature_properties date_parse flds input mode pickLists)"
    and "\<forall>f \<in> set flds. resendable (get (fr_value (validate_feature_properties date_parse flds input mode pickLists)) (lf_name f))"
  shows "validate_feature_properties date_parse flds
      (fr_value (validate_feature_properties date_parse flds input mode pickLists)) mode pickLists =
    validate_feature_properties date_parse flds input mode pickLists"
proof (cases "flds = []")
  case False
  let ?dom = "domains_of flds pickLists"
  let ?res = "validate_feature_properties date_parse flds input mode pickLists"
  define stored where "stored = fr_value ?res"
  have keys: "map fst stored = map fst input" unfolding stored_def by (rule value_keys)
  have hk: "has_key k stored = has_key k input" for k using keys by (metis has_key_def)
  have out: "field_outcome date_parse ?dom mode stored f = field_outcome date_parse ?dom mode input f \<and>
      (\<forall>v. snd (field_outcome date_parse ?dom mode input f) = Some v \<longrightarrow> map_of stored (lf_name f) = Some v)"
    if f: "f \<in> set flds" for f
  proof -
    let ?out = "field_outcome date_parse ?dom mode input f"
    have none: "fst ?out = []" using assms(2) f ok_outcomes by blast
    have at: "get stored (lf_name f) = (case snd ?out of None \<Rightarrow> get input (lf_name f) | Some v \<Rightarrow> v)"
      unfolding stored_def by (rule value_field [OF assms(1) f])
    from none show ?thesis
    proof (cases rule: outcome_ok)
      case absent
      with hk have "field_outcome date_parse ?dom mode stored f = ([], None)"
        by (auto simp: field_outcome_def validate_field_def Let_def)
      then show ?thesis using absent none by (simp add: prod_eq_iff)
    next
      case cleared
      have g: "get stored (lf_name f) = JNull" using at cleared by simp
      then have "map_of stored (lf_name f) = Some JNull"
        using cleared(2) hk has_key_map_of [of "lf_name f" stored] by (auto simp: get_def split: option.splits)
      moreover have "field_outcome date_parse ?dom mode stored f = ([], Some JNull)"
        using cleared hk g by (auto simp: field_outcome_def validate_field_def Let_def is_empty_value_def)
      ultimately show ?thesis using cleared none by (simp add: prod_eq_iff)
    next
      case (coerced v)
      have g: "get stored (lf_name f) = v" using at coerced by simp
      then have m: "map_of stored (lf_name f) = Some v"
        using coerced(2) hk has_key_map_of [of "lf_name f" stored] by (auto simp: get_def split: option.splits)
      have r: "resendable v" using assms(3) f g unfolding stored_def by auto
      have "\<not> is_empty_value v" using coerced_type [OF coerced(4)] r
        by (cases v; cases "lf_type f") (auto simp: is_empty_value_def type_holds_def resendable_def)
      then have "field_outcome date_parse ?dom mode stored f = ([], Some v)"
        using coerced hk g coerce_again [OF coerced(4) r]
        by (auto simp: field_outcome_def validate_field_def Let_def)
      then show ?thesis using coerced none m by (simp add: prod_eq_iff)
    qed
  qed
  have "fold (validate_field date_parse ?dom mode stored) fs ([], stored) = ([], stored)" if "set fs \<subseteq> set flds" for fs
    using that
  proof (induction fs)
    case (Cons f fs)
    then have f: "f \<in> set flds" by simp
    have "fst (field_outcome date_parse ?dom mode input f) = []" using assms(2) f ok_outcomes by blast
    then have "validate_field date_parse ?dom mode stored f ([], stored) = ([], stored)"
      using out [OF f] by (auto simp: validate_field_outcome split_beta update_triv split: option.split)
    with Cons show ?case by simp
  qed simp
  from this [of flds] have again: "fold (validate_field date_parse ?dom mode stored) flds ([], stored) = ([], stored)" by simp
  have "fr_violations ?res = []" using assms(2) False by (simp add: validate_unfold Let_def)
  then show ?thesis
    using again keys assms(2) False unfolding stored_def [symmetric]
    by (simp add: validate_unfold Let_def stored_def)
qed (simp add: validate_feature_properties_def)

theorem stored_record_stable_witness:
  "let flds = [plain_field ''kinds'' F_multi_select False, plain_field ''open'' F_boolean True];
       res = validate_feature_properties (\<lambda>_. NaN) flds [(''kinds'', JStr ''newt, frog''), (''open'', JStr '' '')] Patch Map.empty
   in fr_value res = [(''kinds'', JArr 0 [JStr ''newt'', JStr ''frog'']), (''open'', JNull)] \<and>
      validate_feature_properties (\<lambda>_. NaN) flds (fr_value res) Patch Map.empty = res"
proof -
  let ?flds = "[plain_field ''kinds'' F_multi_select False, plain_field ''open'' F_boolean True]"
  let ?res = "validate_feature_properties (\<lambda>_. NaN) ?flds [(''kinds'', JStr ''newt, frog''), (''open'', JStr '' '')] Patch Map.empty"
  have v: "fr_value ?res = [(''kinds'', JArr 0 [JStr ''newt'', JStr ''frog'']), (''open'', JNull)]" by code_simp
  have ok: "fr_ok ?res" by code_simp
  have d: "distinct (map lf_name ?flds)" by code_simp
  have "\<forall>f \<in> set ?flds. resendable (get (fr_value ?res) (lf_name f))"
    unfolding v by (simp add: plain_field_def get_def resendable_def MAX_MULTI_SELECT_ENTRIES_def)
  from stored_record_stable [OF d ok this] v show ?thesis unfolding Let_def by blast
qed

subsection \<open>Pick lists of others\<close>

text \<open>Two readings of the pick lists that agree on what the record asks of them.\<close>

definition same_answers :: "layer_field list \<Rightarrow> obj \<Rightarrow> (string \<Rightarrow> jsnum) \<Rightarrow> pick_lists \<Rightarrow> pick_lists \<Rightarrow> bool" where
  "same_answers flds input date_parse p q \<longleftrightarrow>
     (\<forall>f \<in> set flds. \<forall>i. lf_domain f = Some (Coded_value_ref i) \<longrightarrow>
        (p i = None \<longleftrightarrow> q i = None) \<and>
        (\<forall>a b. p i = Some a \<longrightarrow> q i = Some b \<longrightarrow> (a = [] \<longleftrightarrow> b = []) \<and>
           (\<forall>v. coerce_value date_parse f (get input (lf_name f)) = Inr v \<longrightarrow>
              (\<forall>c \<in> set (domain_candidates v). js_string c \<in> js_string ` set a \<longleftrightarrow> js_string c \<in> js_string ` set b))))"

lemma find_cong: "(\<And>x. x \<in> set xs \<Longrightarrow> P x = Q x) \<Longrightarrow> find P xs = find Q xs"
  by (induction xs) auto

lemma unlisted_same:
  assumes "\<And>v. coerce_value dp f (get input (lf_name f)) = Inr v \<Longrightarrow>
      \<forall>c \<in> set (domain_candidates v). js_string c \<in> js_string ` set a \<longleftrightarrow> js_string c \<in> js_string ` set b"
    and "a = [] \<longleftrightarrow> b = []" and "coerce_value dp f (get input (lf_name f)) = Inr v"
  shows "check_constraints f v (Some \<lparr> rd_codes = code_set a, rd_listable = False \<rparr>) =
    check_constraints f v (Some \<lparr> rd_codes = code_set b, rd_listable = False \<rparr>)"
proof -
  have "find (\<lambda>c. js_string c \<notin> js_string ` set a) (domain_candidates v) =
      find (\<lambda>c. js_string c \<notin> js_string ` set b) (domain_candidates v)"
    using assms(1) [OF assms(3)] by (intro find_cong) blast
  with assms(2) show ?thesis by (simp add: check_constraints_def domain_violation_def domain_suffix_def)
qed

text \<open>a shared pick list is not disclosed: what an answer says, down to the text of its messages, depends
  on a referenced list only through whether it could be resolved, whether it is empty, and whether
  the very values that were sent are in it.\<close>

theorem pick_lists_not_disclosed:
  assumes "distinct (map lf_name flds)" and "same_answers flds input date_parse p q"
  shows "validate_feature_properties date_parse flds input mode p = validate_feature_properties date_parse flds input mode q"
proof -
  have step: "validate_field date_parse (domains_of flds p) mode input f acc = validate_field date_parse (domains_of flds q) mode input f acc"
    if f: "f \<in> set flds" for f acc
  proof -
    have "check_constraints f v (resolve_domain (lf_domain f) p) = check_constraints f v (resolve_domain (lf_domain f) q)"
      if c: "coerce_value date_parse f (get input (lf_name f)) = Inr v" for v
    proof (cases "\<exists>i. lf_domain f = Some (Coded_value_ref i)")
      case True
      then obtain i where i: "lf_domain f = Some (Coded_value_ref i)" by blast
      show ?thesis
      proof (cases "p i")
        case None
        then have "q i = None" using assms(2) f i by (simp add: same_answers_def)
        with None i show ?thesis by (simp add: resolve_domain_def)
      next
        case (Some a)
        have "p i = None \<longleftrightarrow> q i = None" using assms(2) f i unfolding same_answers_def by blast
        with Some obtain b where b: "q i = Some b" by auto
        have "a = [] \<longleftrightarrow> b = []" and "\<And>v. coerce_value date_parse f (get input (lf_name f)) = Inr v \<Longrightarrow>
            \<forall>c \<in> set (domain_candidates v). js_string c \<in> js_string ` set a \<longleftrightarrow> js_string c \<in> js_string ` set b"
          using assms(2) f i Some b unfolding same_answers_def by blast+
        from unlisted_same [OF this(2,1) c] show ?thesis by (simp add: resolve_domain_def i Some b)
      qed
    next
      case False
      then have "resolve_domain (lf_domain f) p = resolve_domain (lf_domain f) q"
        by (simp add: resolve_domain_def split: option.split field_domain.split)
      then show ?thesis by simp
    qed
    then show ?thesis
      unfolding validate_field_def Let_def unfolding domains_of_field [OF assms(1) f]
      by (cases "coerce_value date_parse f (get input (lf_name f))") (simp_all only: sum.case)
  qed
  have "fold (validate_field date_parse (domains_of flds p) mode input) flds ([], input) =
      fold (validate_field date_parse (domains_of flds q) mode input) flds ([], input)"
    by (rule List.fold_cong [OF refl refl]) (rule ext, rule step)
  then show ?thesis by (simp add: validate_feature_properties_def)
qed

theorem pick_lists_not_disclosed_witness:
  "let flds = [(plain_field ''species'' F_string False)\<lparr> lf_domain := Some (Coded_value_ref ''p'') \<rparr>];
       input = [(''species'', JStr ''newt'')];
       p = [''p'' \<mapsto> [JStr ''frog'', JStr ''toad'']]; q = [''p'' \<mapsto> [JStr ''owl'']]
   in \<not> fr_ok (validate_feature_properties (\<lambda>_. NaN) flds input Patch p) \<and>
      validate_feature_properties (\<lambda>_. NaN) flds input Patch p = validate_feature_properties (\<lambda>_. NaN) flds input Patch q"
proof -
  let ?flds = "[(plain_field ''species'' F_string False)\<lparr> lf_domain := Some (Coded_value_ref ''p'') \<rparr>]"
  let ?input = "[(''species'', JStr ''newt'')]"
  let ?p = "[''p'' \<mapsto> [JStr ''frog'', JStr ''toad'']]" and ?q = "[''p'' \<mapsto> [JStr ''owl'']]"
  have d: "distinct (map lf_name ?flds)" by code_simp
  have "same_answers ?flds ?input (\<lambda>_. NaN) ?p ?q"
    by (simp add: same_answers_def plain_field_def coerce_value_def coerce_string_def domain_candidates_def get_def)
  from pick_lists_not_disclosed [OF d this]
  have "validate_feature_properties (\<lambda>_. NaN) ?flds ?input Patch ?p = validate_feature_properties (\<lambda>_. NaN) ?flds ?input Patch ?q" .
  moreover have "\<not> fr_ok (validate_feature_properties (\<lambda>_. NaN) ?flds ?input Patch ?p)" by code_simp
  ultimately show ?thesis unfolding Let_def by blast
qed

subsection \<open>Lists written as text\<close>

text \<open>A comma alone fills a list that must not be empty; and the limit on entries does not hold for text,
  so that the stored record is refused when it comes back.\<close>

lemma comma_fills_required:
  "fr_ok (validate_feature_properties dp [plain_field ''kinds'' F_multi_select False] [(''kinds'', JStr '','')] Create pl) \<and>
   fr_value (validate_feature_properties dp [plain_field ''kinds'' F_multi_select False] [(''kinds'', JStr '','')] Create pl) =
     [(''kinds'', JArr 0 [])]"
  by (simp add: validate_feature_properties_def validate_field_def plain_field_def coerce_value_def coerce_multi_select_def
      comma_entries_def check_constraints_def domain_violation_def range_violation_def storage_violation_def domains_of_def
      resolve_domain_def RESERVED_PROPERTY_NAMES_def has_key_def get_def is_empty_value_def trim_def is_space_def cu_def Let_def)

lemma many_entries: "comma_entries (concat (replicate n (''a'' @ '','')) @ ''a'') = replicate (Suc n) ''a''"
proof -
  have "split_at_char CHR '','' (concat (replicate n (''a'' @ '','')) @ ''a'') = replicate (Suc n) ''a''"
    by (induction n) simp_all
  then show ?thesis by (simp add: comma_entries_def trim_def is_space_def cu_def)
qed

lemma long_text_list:
  "MAX_MULTI_SELECT_ENTRIES \<le> n \<Longrightarrow>
   \<exists>v. coerce_multi_select lb (JStr (concat (replicate n (''a'' @ '','')) @ ''a'')) = Inr v \<and>
     (\<exists>e. coerce_multi_select lb v = Inl e)"
  unfolding coerce_multi_select_def jsval.case many_entries by (auto simp: coerce_multi_select_def)

end
