(* ===== verification/FeatureWrite.thy ===== *)
theory FeatureWrite
  imports FeatureValidate
begin

text \<open>
  Writing features: the bookkeeping columns the field client fills
  (\<open>shared-types/src/submission-stamp.ts\<close>) and the batch check of the server
  (\<open>validateAll\<close> in \<open>portal-api/src/data-layer/features.service.ts\<close>). The log of undeclared keys is left
  out. \<open>now i\<close> is the clock when row \<open>i\<close> is stamped.
\<close>

subsection \<open>The client\<close>

definition is_blank :: "jsval \<Rightarrow> bool" where
  "is_blank v = (case v of JStr s \<Rightarrow> trim s = [] | _ \<Rightarrow> nullish v)"

definition SERVER_STAMPED_FIELDS :: "string list" where
  "SERVER_STAMPED_FIELDS = [''submitted_at'', ''submitted_by'', ''schema_version'']"

definition is_server_stamped_field :: "string \<Rightarrow> bool" where
  "is_server_stamped_field name \<longleftrightarrow> name \<in> set SERVER_STAMPED_FIELDS"

record stamp_context =
  sc_user :: string
  sc_captured :: string

definition stamp_field :: "stamp_context \<Rightarrow> layer_field \<Rightarrow> obj \<Rightarrow> obj" where
  "stamp_field ctx f out =
     (if \<not> is_blank (get out (lf_name f)) then out
      else if lf_name f = ''submitted_at'' then obj_set (lf_name f) (JStr (sc_captured ctx)) out
      else if lf_name f = ''submitted_by'' then obj_set (lf_name f) (JStr (sc_user ctx)) out
      else out)"

definition stamp_submission_metadata :: "layer_field list \<Rightarrow> obj \<Rightarrow> stamp_context \<Rightarrow> obj" where
  "stamp_submission_metadata flds properties ctx =
     (if flds = [] then properties else fold (stamp_field ctx) flds properties)"

subsection \<open>The server\<close>

definition is_blank_stamp :: "jsval \<Rightarrow> bool" where
  "is_blank_stamp v = (case v of JStr s \<Rightarrow> trim s = [] | _ \<Rightarrow> nullish v)"

definition server_stamp :: "layer_field list \<Rightarrow> write_mode \<Rightarrow> string \<Rightarrow> string \<Rightarrow> obj \<Rightarrow> obj" where
  "server_stamp flds mode userId now original =
     (let declaresBy = ''submitted_by'' \<in> set (map lf_name flds); declaresAt = ''submitted_at'' \<in> set (map lf_name flds) in
      if mode = Create \<and> (declaresBy \<or> declaresAt)
      then let properties = (if declaresBy then obj_set ''submitted_by'' (JStr userId) original else original)
           in if declaresAt \<and> is_blank_stamp (get properties ''submitted_at'')
              then obj_set ''submitted_at'' (JStr now) properties else properties
      else original)"

definition row_label :: "string \<Rightarrow> nat \<Rightarrow> nat \<Rightarrow> string" where
  "row_label context count i =
     (if context \<noteq> [] then context @ '': '' else if 1 < count then ''Row '' @ nat_digits (i + 1) @ '': '' else [])"

text \<open>The rows from the \<open>i\<close>-th on: the first that is refused ends the batch.\<close>

fun validate_rows ::
  "(string \<Rightarrow> jsnum) \<Rightarrow> layer_field list \<Rightarrow> pick_lists \<Rightarrow> write_mode \<Rightarrow> string \<Rightarrow> (nat \<Rightarrow> string) \<Rightarrow> (nat \<Rightarrow> string) \<Rightarrow>
   nat \<Rightarrow> obj option list \<Rightarrow> string + obj option list" where
  "validate_rows date_parse flds pickLists mode userId now label i [] = Inr []"
| "validate_rows date_parse flds pickLists mode userId now label i (None # rows) =
     (case validate_rows date_parse flds pickLists mode userId now label (i + 1) rows of
        Inl e \<Rightarrow> Inl e | Inr outs \<Rightarrow> Inr (None # outs))"
| "validate_rows date_parse flds pickLists mode userId now label i (Some original # rows) =
     (let result = validate_feature_properties date_parse flds (server_stamp flds mode userId (now i) original) mode pickLists
      in if \<not> fr_ok result then Inl (label i @ describe_violations (fr_violations result))
         else case validate_rows date_parse flds pickLists mode userId now label (i + 1) rows of
                Inl e \<Rightarrow> Inl e | Inr outs \<Rightarrow> Inr (Some (fr_value result) # outs))"

definition validate_all ::
  "(string \<Rightarrow> jsnum) \<Rightarrow> layer_field list \<Rightarrow> pick_lists \<Rightarrow> write_mode \<Rightarrow> string \<Rightarrow> (nat \<Rightarrow> string) \<Rightarrow> string \<Rightarrow>
   obj option list \<Rightarrow> string + obj option list" where
  "validate_all date_parse flds pickLists mode userId now context originals =
     (if flds = [] then Inr originals
      else validate_rows date_parse flds pickLists mode userId now (row_label context (length originals)) 0 originals)"

subsection \<open>Authors and times\<close>

lemma get_server_stamp:
  assumes "''submitted_by'' \<in> set (map lf_name flds)" and "''submitted_at'' \<in> set (map lf_name flds)"
  shows "get (server_stamp flds Create uid t original) ''submitted_by'' = JStr uid"
    and "get (server_stamp flds Create uid t original) ''submitted_at'' =
      (if is_blank_stamp (get original ''submitted_at'') then JStr t else get original ''submitted_at'')"
  using assms by (simp_all add: server_stamp_def Let_def get_obj_set)

lemma validated_text:
  assumes "distinct (map lf_name flds)" and "fr_ok (validate_feature_properties dp flds input mode pl)"
    and "f \<in> set flds" and "lf_type f \<in> {F_string, F_date}" and "get input (lf_name f) = JStr s" and "trim s \<noteq> []"
  shows "get (fr_value (validate_feature_properties dp flds input mode pl)) (lf_name f) = JStr s"
proof -
  have ne: "\<not> is_empty_value (JStr s)" using assms(6) by (simp add: is_empty_value_def)
  have "fst (field_outcome dp (domains_of flds pl) mode input f) = []" using assms(2,3) ok_outcomes by blast
  then show ?thesis
  proof (cases rule: outcome_ok)
    case absent
    then have "get input (lf_name f) = Undef" by (simp add: get_def has_key_map_of)
    with assms(5) show ?thesis by simp
  next
    case cleared
    with ne assms(5) show ?thesis by simp
  next
    case (coerced v)
    then have "v = JStr s"
      using assms(4,5) by (auto simp: coerce_value_def coerce_string_def coerce_date_def split: if_splits)
    with coerced value_field [OF assms(1,3), of dp input mode pl] show ?thesis by simp
  qed
qed

definition stamped :: "string \<Rightarrow> string \<Rightarrow> obj option \<Rightarrow> obj option \<Rightarrow> bool" where
  "stamped uid t original out \<longleftrightarrow>
     (case (original, out) of
        (None, None) \<Rightarrow> True
      | (Some input, Some stored) \<Rightarrow>
          get stored ''submitted_by'' = JStr uid \<and>
          (is_blank_stamp (get input ''submitted_at'') \<longrightarrow> get stored ''submitted_at'' = JStr t) \<and>
          (\<forall>s. get input ''submitted_at'' = JStr s \<longrightarrow> trim s \<noteq> [] \<longrightarrow> get stored ''submitted_at'' = JStr s)
      | _ \<Rightarrow> False)"

lemma stamped_row:
  assumes d: "distinct (map lf_name flds)"
    and f: "f \<in> set flds" "lf_name f = ''submitted_by''" "lf_type f = F_string"
    and g: "g \<in> set flds" "lf_name g = ''submitted_at''" "lf_type g \<in> {F_string, F_date}"
    and t: "trim uid \<noteq> []" "trim (t :: string) \<noteq> []"
    and ok: "fr_ok (validate_feature_properties dp flds (server_stamp flds Create uid t original) Create pl)"
  shows "stamped uid t (Some original) (Some (fr_value (validate_feature_properties dp flds (server_stamp flds Create uid t original) Create pl)))"
proof -
  have m: "''submitted_by'' \<in> set (map lf_name flds)" "''submitted_at'' \<in> set (map lf_name flds)"
    using f g by (metis image_eqI list.set_map)+
  note s = get_server_stamp [OF m, of uid t original]
  let ?stored = "fr_value (validate_feature_properties dp flds (server_stamp flds Create uid t original) Create pl)"
  have "get ?stored ''submitted_by'' = JStr uid"
    using validated_text [OF d ok f(1) _ _ t(1)] s(1) f(2,3) by simp
  moreover have "get ?stored ''submitted_at'' = JStr t" if "is_blank_stamp (get original ''submitted_at'')"
    using validated_text [OF d ok g(1,3) _ t(2)] s(2) g(2) that by simp
  moreover have "get ?stored ''submitted_at'' = JStr w" if "get original ''submitted_at'' = JStr w" "trim w \<noteq> []" for w
    using validated_text [OF d ok g(1,3) _ that(2)] s(2) g(2) that by (simp add: is_blank_stamp_def)
  ultimately show ?thesis by (simp add: stamped_def)
qed

lemma stamped_rows:
  assumes d: "distinct (map lf_name flds)"
    and f: "f \<in> set flds" "lf_name f = ''submitted_by''" "lf_type f = F_string"
    and g: "g \<in> set flds" "lf_name g = ''submitted_at''" "lf_type g \<in> {F_string, F_date}"
    and t: "trim uid \<noteq> []" "\<And>i. trim (now i) \<noteq> []"
  shows "validate_rows dp flds pl Create uid now label i rows = Inr outs \<Longrightarrow>
    length outs = length rows \<and> (\<forall>j < length rows. stamped uid (now (i + j)) (rows ! j) (outs ! j))"
proof (induction rows arbitrary: i outs)
  case (Cons row rows)
  have step: "length (out # rest) = length (row # rows) \<and> (\<forall>j < length (row # rows). stamped uid (now (i + j)) ((row # rows) ! j) ((out # rest) ! j))"
    if "validate_rows dp flds pl Create uid now label (i + 1) rows = Inr rest" "stamped uid (now i) row out" for out rest
    using Cons.IH [OF that(1)] that(2) by (auto simp: nth_Cons less_Suc_eq_0_disj split: nat.split)
  show ?case
  proof (cases row)
    case None
    with Cons.prems obtain rest where "validate_rows dp flds pl Create uid now label (i + 1) rows = Inr rest" "outs = None # rest"
      by (auto split: sum.splits)
    then show ?thesis using step [of rest None] None by (simp add: stamped_def)
  next
    case (Some original)
    let ?res = "validate_feature_properties dp flds (server_stamp flds Create uid (now i) original) Create pl"
    from Some Cons.prems obtain rest where "validate_rows dp flds pl Create uid now label (i + 1) rows = Inr rest"
      and o: "outs = Some (fr_value ?res) # rest" and ok: "fr_ok ?res"
      by (auto simp: Let_def split: sum.splits if_splits)
    then show ?thesis unfolding o using step stamped_row [OF d f g t ok] Some by blast
  qed
qed simp


definition submission_fields :: "layer_field list" where
  "submission_fields = [plain_field ''submitted_by'' F_string False, plain_field ''submitted_at'' F_string False]"


end
