(* ===== verification/FeatureEdits.thy ===== *)
theory FeatureEdits
  imports DeltaSync FeatureWrite
begin

text \<open>
  Creating, changing and deleting features of a layer: \<open>insertFeatures\<close>, \<open>updateFeature\<close>, \<open>deleteFeature\<close> and
  \<open>raiseFeatureConflict\<close> of \<open>apps/portal-api/src/data-layer/features.service.ts\<close>. An operation works on the log and
  the item of the layer. What others write to the log between its read and its write is an argument, and so is what
  they do to the item while its counter or its conflicts are written. The notices to caches of derived layers and
  of extents, which do not touch the layer, are left out. The schema of the layer is given as \<open>loadLayerSchema\<close> found it.
\<close>

record edit_user =
  eu_id :: string
  eu_username :: "string option"

record edit_opts =
  eo_ownRowsOnly :: bool
  eo_isTable :: bool
  eo_base :: "string option"
  eo_checkOnly :: bool

record feature_patch =
  fp_geometry :: jsval
  fp_properties :: "obj option"

text \<open>What the operation finds around it.\<close>

record edit_env =
  ee_gis :: gis
  ee_times :: time_tests
  ee_iso :: "int \<Rightarrow> string"
  ee_date_parse :: "string \<Rightarrow> jsnum"
  ee_fields :: "FeatureValidate.layer_field list"
  ee_pickLists :: pick_lists
  ee_stamp :: "nat \<Rightarrow> string"
  ee_read :: int
  ee_readBack :: int
  ee_clock :: clock
  ee_clock2 :: clock
  ee_between :: "log \<Rightarrow> log"
  ee_bumpOthers :: "nat \<Rightarrow> bool \<Rightarrow> layer_item option \<Rightarrow> layer_item option"
  ee_conflictOthers :: "nat \<Rightarrow> bool \<Rightarrow> layer_item option \<Rightarrow> layer_item option"
  ee_itemNow :: "nat \<Rightarrow> int"
  ee_conflictId :: string
  ee_conflictAt :: string

datatype edit_error =
    Edit_refused string
  | Edit_not_found
  | Edit_conflict "layer_feature option" "jsval" "string option"
  | Edit_read read_error
  | Edit_version version_error
  | Edit_write engine_error
  | Edit_lost_row

datatype edit_ok = Edited layer_feature | Removed | Checked "string option" int

type_synonym layer_store = "log \<times> layer_item option"

subsection \<open>Parts\<close>

definition strip_underscore_keys :: "obj \<Rightarrow> obj" where
  "strip_underscore_keys props = filter (\<lambda>(k, v). \<not> starts_with ''_'' k) props"

definition principal_of :: "edit_user \<Rightarrow> jsval" where
  "principal_of user =
     JObj 0 [(''sub'', JStr (eu_id user)), (''displayName'', JStr (case eu_username user of None \<Rightarrow> [] | Some n \<Rightarrow> n))]"

definition feature_json :: "string \<Rightarrow> jsval \<Rightarrow> obj \<Rightarrow> jsval" where
  "feature_json fid geometry props =
     JObj 0 [(''type'', JStr ''Feature''), (''id'', JStr fid), (''geometry'', geometry), (''properties'', JObj 0 props)]"

definition feature_value :: "layer_feature option \<Rightarrow> jsval" where
  "feature_value f = (case f of None \<Rightarrow> JNull | Some x \<Rightarrow> feature_json (ft_id x) (ft_geometry x) (ft_properties x))"

definition entity_read :: "string \<Rightarrow> string \<Rightarrow> string \<Rightarrow> string option \<Rightarrow> bool \<Rightarrow> read_args" where
  "entity_read itemId layerId fid own isTable =
     \<lparr> ra_itemId = itemId, ra_layerId = layerId, ra_asOf = None, ra_limit = None, ra_entity = Some fid, ra_entityIds = None,
       ra_bbox = None, ra_geoLimit = Undef, ra_boundaryClip = Undef, ra_ownRowsOnly = own, ra_parentFk = None, ra_time = None,
       ra_isTable = isTable \<rparr>"

definition read_entity ::
  "edit_env \<Rightarrow> string \<Rightarrow> string \<Rightarrow> string \<Rightarrow> string option \<Rightarrow> bool \<Rightarrow> int \<Rightarrow> log \<Rightarrow> edit_error + layer_feature option" where
  "read_entity env itemId layerId fid own isTable now lg =
     (case list_features (ee_gis env) (ee_times env) (ee_iso env) None (entity_read itemId layerId fid own isTable) now lg of
        Inl e \<Rightarrow> Inl (Edit_read e)
      | Inr [] \<Rightarrow> Inr None
      | Inr (f # _) \<Rightarrow> Inr (Some f))"

definition raise_feature_conflict ::
  "edit_env \<Rightarrow> string \<Rightarrow> string \<Rightarrow> string \<Rightarrow> layer_feature option \<Rightarrow> jsval \<Rightarrow> string option \<Rightarrow> layer_store \<Rightarrow>
   layer_store \<times> (edit_error + edit_ok)" where
  "raise_feature_conflict env layerId fid op current losing base s =
     (case record_sync_conflict (ee_conflictOthers env) (ee_itemNow env) layerId
             \<lparr> ca_id = ee_conflictId env, ca_at = ee_conflictAt env, ca_featureId = fid, ca_op = op, ca_base = base,
               ca_losingSide = losing, ca_current = feature_value current \<rparr> (snd s) of
        (it', artifact) \<Rightarrow> ((fst s, it'), Inl (Edit_conflict current losing artifact)))"

text \<open>The head of a feature that was read.\<close>

definition head_seen :: "layer_feature \<Rightarrow> jsval" where
  "head_seen f = get (ft_properties f) ''_observation_id''"

definition off_base :: "edit_opts \<Rightarrow> layer_feature \<Rightarrow> bool" where
  "off_base opts f = (case eo_base opts of None \<Rightarrow> False | Some b \<Rightarrow> head_seen f \<noteq> JStr b)"

definition checked :: "string \<Rightarrow> layer_feature \<Rightarrow> layer_store \<Rightarrow> layer_store \<times> (edit_error + edit_ok)" where
  "checked layerId f s =
     (s, case read_layer_sync_version layerId (snd s) of
           Inl e \<Rightarrow> Inl (Edit_version e)
         | Inr v \<Rightarrow> Inr (Checked (case head_seen f of JStr h \<Rightarrow> Some h | _ \<Rightarrow> None) v))"

definition edit_args ::
  "string \<Rightarrow> string \<Rightarrow> edit_user \<Rightarrow> jsnum \<Rightarrow> jsval \<Rightarrow> jsval \<Rightarrow> string option \<Rightarrow> string option \<Rightarrow> feature_args" where
  "edit_args itemId layerId user version props geometry fid base =
     \<lparr> fa_itemId = itemId, fa_layerId = layerId, fa_principal = principal_of user, fa_source = sync_version_source version,
       fa_properties = props, fa_geometry = geometry, fa_globalId = fid, fa_expectedHead = base \<rparr>"

subsection \<open>Changing\<close>

definition patched ::
  "edit_env \<Rightarrow> edit_user \<Rightarrow> layer_feature \<Rightarrow> feature_patch \<Rightarrow> string + obj" where
  "patched env user existing patch =
     (let base = strip_underscore_keys (ft_properties existing)
      in case fp_properties patch of
           None \<Rightarrow> Inr base
         | Some props \<Rightarrow>
             (case validate_all (ee_date_parse env) (ee_fields env) (ee_pickLists env) Patch (eu_id user) (ee_stamp env) [] [Some props] of
                Inl e \<Rightarrow> Inl e
              | Inr outs \<Rightarrow> Inr (spread base (strip_underscore_keys (case outs of Some v # _ \<Rightarrow> v | _ \<Rightarrow> props)))))"

definition next_geometry :: "bool \<Rightarrow> layer_feature \<Rightarrow> feature_patch \<Rightarrow> jsval" where
  "next_geometry isTable existing patch =
     (if isTable then JNull else if fp_geometry patch \<noteq> Undef then fp_geometry patch else ft_geometry existing)"

definition update_feature ::
  "edit_env \<Rightarrow> string \<Rightarrow> string \<Rightarrow> string \<Rightarrow> feature_patch \<Rightarrow> edit_user \<Rightarrow> edit_opts \<Rightarrow> layer_store \<Rightarrow>
   layer_store \<times> (edit_error + edit_ok)" where
  "update_feature env itemId layerId fid patch user opts s =
     (case read_entity env itemId layerId fid (if eo_ownRowsOnly opts then Some (eu_id user) else None) (eo_isTable opts) (ee_read env) (fst s) of
        Inl e \<Rightarrow> (s, Inl e)
      | Inr None \<Rightarrow> (s, Inl Edit_not_found)
      | Inr (Some existing) \<Rightarrow>
          (case patched env user existing patch of
             Inl m \<Rightarrow> (s, Inl (Edit_refused m))
           | Inr nextProps \<Rightarrow>
               let nextGeometry = next_geometry (eo_isTable opts) existing patch;
                   losing = feature_json fid nextGeometry nextProps
               in if off_base opts existing
                  then raise_feature_conflict env layerId fid ''update'' (Some existing) losing (eo_base opts) s
                  else if eo_checkOnly opts then checked layerId existing s
                  else
                    (case bump_layer_sync_version (ee_bumpOthers env) (ee_itemNow env) layerId (snd s) of
                       (it1, Inl e) \<Rightarrow> ((fst s, it1), Inl (Edit_version e))
                     | (it1, Inr version) \<Rightarrow>
                         let lg1 = ee_between env (fst s);
                             args = edit_args itemId layerId user version (JObj 0 nextProps) nextGeometry (Some fid) (eo_base opts)
                         in case write_feature_update (ee_gis env) (ee_clock env) args lg1 of
                              Inl e \<Rightarrow> ((lg1, it1), Inl (Edit_write e))
                            | Inr (lg2, written) \<Rightarrow>
                                (case read_entity env itemId layerId fid None (eo_isTable opts) (ee_readBack env) lg2 of
                                   Inl e \<Rightarrow> ((lg2, it1), Inl e)
                                 | Inr refreshed \<Rightarrow>
                                     (case written of
                                        Lost _ \<Rightarrow> raise_feature_conflict env layerId fid ''update'' refreshed losing (eo_base opts) (lg2, it1)
                                      | Wrote _ \<Rightarrow> ((lg2, it1), case refreshed of None \<Rightarrow> Inl Edit_lost_row | Some f \<Rightarrow> Inr (Edited f)))))))"

subsection \<open>Deleting\<close>

definition delete_feature ::
  "edit_env \<Rightarrow> string \<Rightarrow> string \<Rightarrow> string \<Rightarrow> edit_user \<Rightarrow> edit_opts \<Rightarrow> layer_store \<Rightarrow> layer_store \<times> (edit_error + edit_ok)" where
  "delete_feature env itemId layerId fid user opts s =
     (case read_entity env itemId layerId fid (if eo_ownRowsOnly opts then Some (eu_id user) else None) False (ee_read env) (fst s) of
        Inl e \<Rightarrow> (s, Inl e)
      | Inr None \<Rightarrow> (s, Inl Edit_not_found)
      | Inr (Some existing) \<Rightarrow>
          if off_base opts existing
          then raise_feature_conflict env layerId fid ''delete'' (Some existing) JNull (eo_base opts) s
          else if eo_checkOnly opts then checked layerId existing s
          else
            (case bump_layer_sync_version (ee_bumpOthers env) (ee_itemNow env) layerId (snd s) of
               (it1, Inl e) \<Rightarrow> ((fst s, it1), Inl (Edit_version e))
             | (it1, Inr version) \<Rightarrow>
                 let lg1 = ee_between env (fst s)
                 in case write_feature_delete (ee_gis env) (ee_clock env)
                           (edit_args itemId layerId user version Undef Undef (Some fid) (eo_base opts)) lg1 of
                      Inl e \<Rightarrow> ((lg1, it1), Inl (Edit_write e))
                    | Inr (lg2, Wrote _) \<Rightarrow> ((lg2, it1), Inr Removed)
                    | Inr (lg2, Lost _) \<Rightarrow>
                        (case read_entity env itemId layerId fid None False (ee_readBack env) lg2 of
                           Inl e \<Rightarrow> ((lg2, it1), Inl e)
                         | Inr now \<Rightarrow> raise_feature_conflict env layerId fid ''delete'' now JNull (eo_base opts) (lg2, it1))))"

subsection \<open>Creating\<close>

record feature_insert =
  fi_globalId :: "string option"
  fi_geometry :: jsval
  fi_properties :: "obj option"

record inserted =
  in_inserted :: nat
  in_deduplicated :: nat
  in_globalIds :: "string list"

definition insert_args :: "string \<Rightarrow> string \<Rightarrow> edit_user \<Rightarrow> jsnum \<Rightarrow> feature_insert list \<Rightarrow> obj option list \<Rightarrow> feature_args list" where
  "insert_args itemId layerId user version inputs validated =
     map (\<lambda>(f, v). edit_args itemId layerId user version (case v of None \<Rightarrow> Undef | Some m \<Rightarrow> JObj 0 m) (fi_geometry f) (fi_globalId f) None)
       (zip inputs validated)"

definition insert_features ::
  "edit_env \<Rightarrow> string \<Rightarrow> string \<Rightarrow> feature_insert list \<Rightarrow> edit_user \<Rightarrow> layer_store \<Rightarrow> layer_store \<times> (edit_error + inserted)" where
  "insert_features env itemId layerId inputs user s =
     (if inputs = [] then (s, Inr \<lparr> in_inserted = 0, in_deduplicated = 0, in_globalIds = [] \<rparr>)
      else case validate_all (ee_date_parse env) (ee_fields env) (ee_pickLists env) Create (eu_id user) (ee_stamp env) []
                  (map fi_properties inputs) of
             Inl m \<Rightarrow> (s, Inl (Edit_refused m))
           | Inr validated \<Rightarrow>
               (case bump_layer_sync_version (ee_bumpOthers env) (ee_itemNow env) layerId (snd s) of
                  (it1, Inl e) \<Rightarrow> ((fst s, it1), Inl (Edit_version e))
                | (it1, Inr version) \<Rightarrow>
                    (case write_features_create_idempotent (ee_gis env) (ee_clock env) (ee_clock2 env)
                            (insert_args itemId layerId user version inputs validated) (ee_between env (fst s)) of
                       (lg2, Inl e) \<Rightarrow> ((lg2, it1), Inl (Edit_write e))
                     | (lg2, Inr written) \<Rightarrow>
                         let n = length (filter (\<lambda>w. \<not> cr_deduplicated w) written)
                         in ((lg2, it1), Inr \<lparr> in_inserted = n, in_deduplicated = length written - n,
                               in_globalIds = map cr_globalId written \<rparr>))))"

subsection \<open>What a merged record holds\<close>

lemma strip_keys: "map_of (strip_underscore_keys m) k = (if starts_with ''_'' k then None else map_of m k)"
  by (induction m) (auto simp: strip_underscore_keys_def)

lemma strip_wf: "obj_wf m \<Longrightarrow> obj_wf (strip_underscore_keys m)"
  by (auto simp: obj_wf_def strip_underscore_keys_def distinct_map inj_on_def split: prod.splits)

text \<open>What a patch says, after validation.\<close>

definition patch_value :: "edit_env \<Rightarrow> edit_user \<Rightarrow> feature_patch \<Rightarrow> string + obj" where
  "patch_value env user patch =
     (case fp_properties patch of
        None \<Rightarrow> Inr []
      | Some props \<Rightarrow>
          (case validate_all (ee_date_parse env) (ee_fields env) (ee_pickLists env) Patch (eu_id user) (ee_stamp env) [] [Some props] of
             Inl e \<Rightarrow> Inl e
           | Inr outs \<Rightarrow> Inr (case outs of Some v # _ \<Rightarrow> v | _ \<Rightarrow> props)))"

lemma patched_value:
  "patched env user existing patch =
   (case patch_value env user patch of
      Inl e \<Rightarrow> Inl e
    | Inr v \<Rightarrow> Inr (spread (strip_underscore_keys (ft_properties existing)) (strip_underscore_keys v)))"
  by (simp add: patched_def patch_value_def Let_def strip_underscore_keys_def split: option.split sum.split)

definition merged_key :: "obj \<Rightarrow> obj \<Rightarrow> string \<Rightarrow> jsval option" where
  "merged_key old new k =
     (if starts_with ''_'' k then None else case map_of new k of Some v \<Rightarrow> Some v | None \<Rightarrow> map_of old k)"

lemma map_of_patched:
  "obj_wf new \<Longrightarrow> map_of (spread (strip_underscore_keys old) (strip_underscore_keys new)) k = merged_key old new k"
  by (simp add: map_of_spread [OF strip_wf] strip_keys merged_key_def map_add_def split: option.split)

subsection \<open>What an update writes\<close>

lemma off_base_iff: "off_base opts f \<longleftrightarrow> (\<exists>b. eo_base opts = Some b \<and> head_seen f \<noteq> JStr b)"
  by (simp add: off_base_def split: option.split)

lemma update_edited:
  assumes "update_feature env itemId layerId fid patch user opts s = (s', Inr (Edited f))"
  shows "\<exists>existing nextProps it1 version oid.
    read_entity env itemId layerId fid (if eo_ownRowsOnly opts then Some (eu_id user) else None) (eo_isTable opts) (ee_read env) (fst s) = Inr (Some existing) \<and>
    patched env user existing patch = Inr nextProps \<and>
    (\<forall>b. eo_base opts = Some b \<longrightarrow> head_seen existing = JStr b) \<and> \<not> eo_checkOnly opts \<and>
    bump_layer_sync_version (ee_bumpOthers env) (ee_itemNow env) layerId (snd s) = (it1, Inr version) \<and> snd s' = it1 \<and>
    write_feature_update (ee_gis env) (ee_clock env)
      (edit_args itemId layerId user version (JObj 0 nextProps) (next_geometry (eo_isTable opts) existing patch) (Some fid) (eo_base opts))
      (ee_between env (fst s)) = Inr (fst s', Wrote oid) \<and>
    read_entity env itemId layerId fid None (eo_isTable opts) (ee_readBack env) (fst s') = Inr (Some f)"
  using assms unfolding update_feature_def
  by (auto simp: off_base_iff Let_def raise_feature_conflict_def checked_def split: sum.splits option.splits prod.splits if_splits guarded_result.splits)

lemma insert_one_payload:
  assumes "insert_one g obs = Inr r"
  shows "o_attrs r = (if ob_attrs obs = JNull then JNull else json_value (ob_attrs obs))" "field_of (ob_author obs) ''sub'' = JStr (o_author r)"
    "geom_column g (ob_geom obs) = Inr (o_geom r)"
proof -
  have text_iff: "text_column v = Inr t \<longleftrightarrow> v = JStr t" for v t by (cases v) auto
  show "o_attrs r = (if ob_attrs obs = JNull then JNull else json_value (ob_attrs obs))" "field_of (ob_author obs) ''sub'' = JStr (o_author r)"
    "geom_column g (ob_geom obs) = Inr (o_geom r)"
    using assms unfolding insert_one_def by (auto simp: and_then_Inr text_iff)
qed

lemma written_on_head:
  assumes "write_guarded g ob fresh now (Some b) lg = Inr (lg', Wrote oid)"
    and "ob_scope ob = JStr scope" "ob_entity ob = JStr e"
  shows "\<exists>h. head_of lg scope e = Some h \<and> o_id h = b"
proof -
  obtain obs where w: "write_if_head g ob fresh now b lg = Inr (lg', Written obs)"
    using assms(1) by (cases "write_if_head g ob fresh now b lg") (auto simp: write_guarded_def split: guarded.split_asm prod.split_asm)
  then obtain obs' where o: "complete g ob fresh now = Inr obs'" by (auto simp: write_if_head_def and_then_Inr)
  then have "ob_scope obs' = JStr scope" "ob_entity obs' = JStr e" using assms(2,3) by (auto simp: complete_def and_then_Inr Let_def)
  then show ?thesis using w o by (auto simp: write_if_head_def Let_def split: if_splits)
qed

text \<open>C5: An update writes one row: every key of the patch as validated, every other key as it was read, and no key that begins with an underscore. With a base it is written only on the row of that base, at the read and at the write.\<close>

theorem update_merges:
  assumes "update_feature env itemId layerId fid patch user opts s = (s', Inr (Edited f))"
    and "patch_value env user patch = Inr v" and "obj_wf v"
  shows "\<exists>existing r m. read_entity env itemId layerId fid (if eo_ownRowsOnly opts then Some (eu_id user) else None) (eo_isTable opts)
        (ee_read env) (fst s) = Inr (Some existing) \<and>
      fst s' = ee_between env (fst s) @ [r] \<and> o_entity r = to_lower fid \<and> o_kind r = ''update'' \<and> o_author r = eu_id user \<and>
      o_attrs r = json_value (JObj 0 m) \<and> map_of m = merged_key (ft_properties existing) v \<and>
      geom_column (ee_gis env) (coalesce (next_geometry (eo_isTable opts) existing patch) JNull) = Inr (o_geom r) \<and>
      (\<forall>b. eo_base opts = Some b \<longrightarrow> head_seen existing = JStr b \<and>
         (\<exists>h. head_of (ee_between env (fst s)) (data_layer_scope itemId layerId) fid = Some h \<and> o_id h = b))"
proof -
  from update_edited [OF assms(1)] obtain existing m it1 version oid where
    ex: "read_entity env itemId layerId fid (if eo_ownRowsOnly opts then Some (eu_id user) else None) (eo_isTable opts) (ee_read env) (fst s) = Inr (Some existing)"
    and m: "patched env user existing patch = Inr m" and base: "\<forall>b. eo_base opts = Some b \<longrightarrow> head_seen existing = JStr b"
    and w: "write_feature_update (ee_gis env) (ee_clock env)
        (edit_args itemId layerId user version (JObj 0 m) (next_geometry (eo_isTable opts) existing patch) (Some fid) (eo_base opts))
        (ee_between env (fst s)) = Inr (fst s', Wrote oid)" by blast
  let ?args = "edit_args itemId layerId user version (JObj 0 m) (next_geometry (eo_isTable opts) existing patch) (Some fid) (eo_base opts)"
  let ?ob = "layer_observation ''update'' (target_of ?args) (k_from (ee_clock env) 0) ?args"
  have map: "map_of m = merged_key (ft_properties existing) v"
    using m assms(2) map_of_patched [OF assms(3), of "ft_properties existing"] by (auto simp: patched_value fun_eq_iff)
  have ob: "ob_entity ?ob = JStr fid" "ob_kind ?ob = JStr ''update''" "ob_scope ?ob = JStr (data_layer_scope itemId layerId)"
      "ob_attrs ?ob = JObj 0 m" "field_of (ob_author ?ob) ''sub'' = JStr (eu_id user)"
      "ob_geom ?ob = coalesce (next_geometry (eo_isTable opts) existing patch) JNull"
    by (simp_all add: layer_observation_def edit_args_def target_of_def scope_of_def coalesce_def principal_of_def get_def)
  from w have wg: "write_guarded (ee_gis env) ?ob (k_id (ee_clock env) 0) (k_tx (ee_clock env) 0) (eo_base opts) (ee_between env (fst s)) = Inr (fst s', Wrote oid)"
    by (simp add: write_feature_update_def edit_args_def)
  from written_row [OF this] obtain obs r where r: "complete (ee_gis env) ?ob (k_id (ee_clock env) 0) (k_tx (ee_clock env) 0) = Inr obs"
      "insert_one (ee_gis env) obs = Inr r" "fst s' = ee_between env (fst s) @ [r]" by blast
  then have "ob_entity obs = ob_entity ?ob" "ob_kind obs = ob_kind ?ob" "ob_attrs obs = ob_attrs ?ob" "ob_author obs = ob_author ?ob" "ob_geom obs = ob_geom ?ob"
    by (auto simp: complete_def and_then_Inr Let_def)
  then have "o_entity r = to_lower fid" "o_kind r = ''update''" "o_author r = eu_id user" "o_attrs r = json_value (JObj 0 m)"
      "geom_column (ee_gis env) (coalesce (next_geometry (eo_isTable opts) existing patch) JNull) = Inr (o_geom r)"
    using insert_one_row [OF r(2)] insert_one_payload [OF r(2)] ob by auto
  moreover have "\<exists>h. head_of (ee_between env (fst s)) (data_layer_scope itemId layerId) fid = Some h \<and> o_id h = b" if "eo_base opts = Some b" for b
    using written_on_head [of "ee_gis env" ?ob _ _ b] wg that ob by simp
  ultimately show ?thesis using ex r(3) map base by blast
qed

subsection \<open>Every edit is stamped with the counter it leaves\<close>

text \<open>The rows an operation added carry one source.\<close>

definition adds_with :: "jsval \<Rightarrow> log \<Rightarrow> log \<Rightarrow> bool" where
  "adds_with src lg lg' \<longleftrightarrow> (\<exists>rs. lg' = lg @ rs \<and> (\<forall>r \<in> set rs. o_source r = json_value src))"

lemma adds_with_refl [simp]: "adds_with src lg lg"
  by (simp add: adds_with_def)

lemma adds_with_trans: "adds_with src a b \<Longrightarrow> adds_with src b c \<Longrightarrow> adds_with src a c"
  by (force simp: adds_with_def)

lemma guarded_adds:
  assumes "write_guarded g ob fresh now expected lg = Inr (lg', w)"
  shows "adds_with (ob_source ob) lg lg'"
proof (cases w)
  case (Wrote oid)
  then obtain obs r where r: "complete g ob fresh now = Inr obs" "insert_one g obs = Inr r" "lg' = lg @ [r]"
    using written_row assms by blast
  then have "ob_source obs = ob_source ob" by (auto simp: complete_def and_then_Inr Let_def)
  then show ?thesis using insert_one_source [OF r(2)] r(3) by (auto simp: adds_with_def)
next
  case (Lost h)
  show ?thesis
  proof (cases expected)
    case None
    then show ?thesis using assms Lost by (auto simp: write_guarded_def and_then_Inr)
  next
    case (Some e)
    then have "write_if_head g ob fresh now e lg = Inr (lg', Head_conflict h)"
      using assms Lost by (cases "write_if_head g ob fresh now e lg") (auto simp: write_guarded_def split: guarded.split_asm prod.split_asm)
    then have "lg' = lg" by (auto simp: write_if_head_def and_then_Inr Let_def split: if_splits)
    then show ?thesis by simp
  qed
qed

lemma insert_rows_sources:
  "insert_rows g obs = Inr rs \<Longrightarrow> \<forall>ob \<in> set obs. ob_source ob = src \<Longrightarrow> \<forall>r \<in> set rs. o_source r = json_value src"
  by (induction obs arbitrary: rs) (auto simp: and_then_Inr dest: insert_one_source)

lemma batches_add:
  assumes "\<forall>ob \<in> set obs. ob_source ob = src"
  shows "adds_with src lg (fst (write_batches g obs lg))"
  using assms
proof (induction g obs lg rule: write_batches.induct)
  case (1 g obs lg)
  show ?case
  proof (cases "obs = []")
    case False
    show ?thesis
    proof (cases "insert_rows g (take WRITE_BATCH_SIZE obs)")
      case (Inr rs)
      have "\<forall>ob \<in> set (take WRITE_BATCH_SIZE obs). ob_source ob = src" using 1(2) by (auto dest: in_set_takeD)
      then have "adds_with src lg (lg @ rs)" using insert_rows_sources [OF Inr] by (auto simp: adds_with_def)
      moreover have "adds_with src (lg @ rs) (fst (write_batches g (drop WRITE_BATCH_SIZE obs) (lg @ rs)))"
        using 1(1) [OF False Inr] 1(2) by (auto dest: in_set_dropD)
      ultimately show ?thesis using False Inr adds_with_trans by (simp add: write_batches.simps [of g obs])
    qed (use False in \<open>simp add: write_batches.simps [of g obs]\<close>)
  qed (simp add: write_batches.simps [of g "[]"])
qed

lemma complete_all_sources:
  "complete_all g fresh now i obs = Inr filled \<Longrightarrow> \<forall>ob \<in> set obs. ob_source ob = src \<Longrightarrow> \<forall>ob \<in> set filled. ob_source ob = src"
  by (induction obs arbitrary: i filled) (auto simp: and_then_Inr)

lemma write_many_adds:
  assumes "\<forall>ob \<in> set obs. ob_source ob = src"
  shows "adds_with src lg (fst (write_many g fresh now obs lg))"
proof (cases "complete_all g fresh now 0 obs")
  case (Inr filled)
  then show ?thesis
    using batches_add [OF complete_all_sources [OF Inr assms], of lg g]
    by (auto simp: write_many_def split: sum.split prod.split)
qed (simp add: write_many_def)

lemma unique_rows_sources:
  "unique_rows g k seen ws = Inr uniq \<Longrightarrow> \<forall>(i, args, e) \<in> set ws. coalesce (fa_source args) DEFAULT_SOURCE = src \<Longrightarrow>
   \<forall>(key, ob) \<in> set uniq. ob_source ob = src"
proof (induction ws arbitrary: seen uniq)
  case (Cons w ws)
  obtain i args e where w: "w = (i, args, e)" by (cases w) auto
  show ?case
  proof (cases "key_of w \<in> set seen")
    case True
    then show ?thesis using Cons by auto
  next
    case False
    then show ?thesis using Cons.prems Cons.IH by (force simp: w and_then_Inr Let_def layer_observation_def)
  qed
qed simp

lemma create_sources:
  "\<forall>args \<in> set inputs. coalesce (fa_source args) DEFAULT_SOURCE = src \<Longrightarrow> \<forall>ob \<in> set (create_observations k i inputs). ob_source ob = src"
  by (induction inputs arbitrary: i) (auto simp: layer_observation_def)

lemma idempotent_adds:
  assumes "\<forall>args \<in> set inputs. coalesce (fa_source args) DEFAULT_SOURCE = src"
  shows "adds_with src lg (fst (write_features_create_idempotent g k k' inputs lg))"
proof (cases "inputs = []")
  case False
  let ?new = "filter (\<lambda>a. fa_globalId a = None) inputs"
  have "adds_with src lg (fst (write_features_create g k ?new lg))"
    using write_many_adds [OF create_sources, of ?new src lg g "k_id k" "k_tx k" k 0] assms
    by (auto simp: write_features_create_def split: prod.split sum.split)
  then obtain lg1 res where w: "write_features_create g k ?new lg = (lg1, res)" "adds_with src lg lg1" by (metis fst_conv surj_pair)
  have "adds_with src lg1 lg2" if im: "insert_missing g k' (with_id 0 inputs) lg1 = Inr (lg2, keyed)" for lg2 keyed
  proof -
    obtain uniq rs where u: "unique_rows g k' [] (with_id 0 inputs) = Inr uniq" "insert_rows g (filter (missing lg1) (map snd uniq)) = Inr rs" "lg2 = lg1 @ rs"
      using im by (auto simp: insert_missing_def and_then_Inr Let_def)
    have "\<forall>(i, args, e) \<in> set (with_id 0 inputs). coalesce (fa_source args) DEFAULT_SOURCE = src"
      using with_id_in assms by fastforce
    from unique_rows_sources [OF u(1) this] have "\<forall>ob \<in> set (filter (missing lg1) (map snd uniq)). ob_source ob = src" by auto
    from insert_rows_sources [OF u(2) this] show ?thesis using u(3) by (auto simp: adds_with_def)
  qed
  then show ?thesis
    using w False adds_with_trans by (auto simp: write_features_create_idempotent_def split: sum.split)
qed (simp add: write_features_create_idempotent_def)

subsection \<open>Runs of edits\<close>

definition quiet :: "edit_env \<Rightarrow> bool" where
  "quiet env \<longleftrightarrow> ee_between env = (\<lambda>lg. lg) \<and> ee_bumpOthers env = (\<lambda>_ _ it. it) \<and> ee_conflictOthers env = (\<lambda>_ _ it. it)"

definition room :: "string \<Rightarrow> layer_item option \<Rightarrow> bool" where
  "room layerId it \<longleftrightarrow> (\<exists>r c. it = Some r \<and> has_counter layerId c r \<and> c + 1 < 2 ^ 53)"

text \<open>One operation that nobody else disturbs, on a layer whose counter is below the integers a number holds exactly.\<close>

inductive edit_step :: "string \<Rightarrow> string \<Rightarrow> layer_store \<Rightarrow> layer_store \<Rightarrow> bool" for itemId layerId where
  Update_step: "quiet env \<Longrightarrow> room layerId (snd s) \<Longrightarrow> edit_step itemId layerId s (fst (update_feature env itemId layerId fid patch user opts s))"
| Delete_step: "quiet env \<Longrightarrow> room layerId (snd s) \<Longrightarrow> edit_step itemId layerId s (fst (delete_feature env itemId layerId fid user opts s))"
| Insert_step: "quiet env \<Longrightarrow> room layerId (snd s) \<Longrightarrow> edit_step itemId layerId s (fst (insert_features env itemId layerId inputs user s))"

definition stamps_upto :: "(string \<Rightarrow> int option) \<Rightarrow> string \<Rightarrow> int \<Rightarrow> log \<Rightarrow> bool" where
  "stamps_upto big scope c lg \<longleftrightarrow> (\<forall>r \<in> set lg. o_scope r = scope \<longrightarrow> (\<exists>w. stamp_of big r = Inr w \<and> w \<le> c))"

definition stamps_behind :: "(string \<Rightarrow> int option) \<Rightarrow> string \<Rightarrow> string \<Rightarrow> layer_store \<Rightarrow> bool" where
  "stamps_behind big itemId layerId s \<longleftrightarrow>
     (\<exists>r c. snd s = Some r \<and> has_counter layerId c r \<and> stamps_upto big (data_layer_scope itemId layerId) c (fst s))"

lemma stamps_added:
  assumes "adds_with (sync_version_source (Fin (of_int v))) lg lg'" "stamps_upto big scope c lg" "c \<le> v" "0 \<le> v" "v < 2 ^ 53"
  shows "stamps_upto big scope v lg'"
proof -
  obtain rs where rs: "lg' = lg @ rs" "\<forall>r \<in> set rs. o_source r = json_value (sync_version_source (Fin (of_int v)))"
    using assms(1) by (auto simp: adds_with_def)
  have "stamp_of big r = Inr v" if "r \<in> set rs" for r
    using rs(2) that by (intro stamp_of_source [OF _ assms(4,5)]) (simp add: coalesce_def sync_version_source_def)
  then show ?thesis using assms(2,3) rs(1) by (fastforce simp: stamps_upto_def)
qed

lemma bump_quiet:
  assumes "has_counter k c r" "c + 1 < 2 ^ 53"
  shows "\<exists>r'. bump_layer_sync_version (\<lambda>_ _ it. it) now k (Some r) = (Some r', Inr (Fin (of_int (c + 1)))) \<and> has_counter k (c + 1) r'"
proof -
  obtain d where d: "bump_plan k (Some r) = Inr (it_updatedAt r, d, Fin (of_int (c + 1)))"
      "\<forall>t. has_counter k (c + 1) (r\<lparr> it_data := d, it_updatedAt := t \<rparr>)" using bump_plan_counter [OF assms] by blast
  note bumping.alone [OF d(1), of now "Write_conflict ''Could not bump layer syncVersion; try the write again.''" 7]
  then show ?thesis using d(2) by (auto simp: bump_layer_sync_version_def simp del: optimistic.simps)
qed

lemma optimistic_fails: "plan it = Inl e \<Longrightarrow> optimistic (\<lambda>_ _ it. it) now plan g (Suc n) it = (it, Inl e)"
  by simp

lemma record_quiet:
  assumes "has_counter k c r"
  shows "\<exists>r'. fst (record_sync_conflict (\<lambda>_ _ it. it) now k x (Some r)) = Some r' \<and> has_counter k c r'"
proof (cases "record_plan k x (Some r)")
  case (Inl e)
  note optimistic_fails [where plan = "record_plan k x", OF Inl, of now Crash 4]
  then show ?thesis using assms by (simp add: record_sync_conflict_def del: optimistic.simps)
next
  case (Inr y)
  then obtain ls i d where ls: "v3_layers (it_data r) = Some ls" "layer_index k ls = Inr (Some i)"
      "d = with_layer (it_data r) ls i (with_field (ls ! i) ''syncConflicts''
             (JArr 0 (last_of MAX_SYNC_CONFLICTS (conflicts_of (ls ! i) @ [conflict_entry x]))))"
    and y: "record_plan k x (Some r) = Inr (it_updatedAt r, d, ca_id x)"
    by (auto simp: record_plan_def Let_def and_then_Inr split: option.splits)
  let ?l = "with_field (ls ! i) ''syncConflicts'' (JArr 0 (last_of MAX_SYNC_CONFLICTS (conflicts_of (ls ! i) @ [conflict_entry x])))"
  note new = layer_replaced [OF ls(1,2), where f = "''syncConflicts''" and v = "JArr 0 (last_of MAX_SYNC_CONFLICTS (conflicts_of (ls ! i) @ [conflict_entry x]))"]
  obtain a m where l: "ls ! i = JObj a m" using layer_index_Some [OF ls(2)] by (cases "ls ! i") auto
  have "field_of ?l ''syncVersion'' = field_of (ls ! i) ''syncVersion''" by (simp add: field_with_field l attrs_of_def)
  moreover have "i < length ls" using layer_index_Some [OF ls(2)] by simp
  ultimately have "has_counter k c (r\<lparr> it_data := d, it_updatedAt := t \<rparr>)" for t
    using assms ls new unfolding has_counter_def by (intro exI [of _ "ls[i := ?l]"] exI [of _ i]) auto
  then show ?thesis
    using recording.alone [OF y, of now Crash 4]
    by (auto simp: record_sync_conflict_def simp del: optimistic.simps)
qed

lemma raise_log: "fst (fst (raise_feature_conflict env layerId fid op cur losing base s)) = fst s"
  by (simp add: raise_feature_conflict_def split: prod.split)

lemma raise_behind:
  assumes "quiet env" "stamps_behind big itemId layerId s"
  shows "stamps_behind big itemId layerId (fst (raise_feature_conflict env layerId fid op cur losing base s))"
proof -
  obtain r c where r: "snd s = Some r" "has_counter layerId c r" "stamps_upto big (data_layer_scope itemId layerId) c (fst s)"
    using assms(2) by (auto simp: stamps_behind_def)
  note record_quiet [OF r(2), of "ee_itemNow env" "\<lparr> ca_id = ee_conflictId env, ca_at = ee_conflictAt env, ca_featureId = fid, ca_op = op, ca_base = base,
               ca_losingSide = losing, ca_current = feature_value cur \<rparr>"]
  then show ?thesis
    using assms(1) r by (auto simp: raise_feature_conflict_def stamps_behind_def quiet_def split: prod.splits)
qed

text \<open>The state between the new version and the rows that carry it.\<close>

lemma bumped:
  assumes "quiet env" "room layerId (snd s)" "stamps_behind big itemId layerId s"
  shows "\<exists>r v. bump_layer_sync_version (ee_bumpOthers env) (ee_itemNow env) layerId (snd s) = (Some r, Inr (Fin (of_int v))) \<and>
    (\<forall>lg'. adds_with (sync_version_source (Fin (of_int v))) (fst s) lg' \<longrightarrow> stamps_behind big itemId layerId (lg', Some r))"
proof -
  obtain r c where r: "snd s = Some r" "has_counter layerId c r" "stamps_upto big (data_layer_scope itemId layerId) c (fst s)"
    using assms(3) by (auto simp: stamps_behind_def)
  then have c: "c + 1 < 2 ^ 53" using assms(2) has_counter_unique by (fastforce simp: room_def)
  obtain r' where r': "bump_layer_sync_version (\<lambda>_ _ it. it) (ee_itemNow env) layerId (Some r) = (Some r', Inr (Fin (of_int (c + 1))))"
      "has_counter layerId (c + 1) r'" using bump_quiet [OF r(2) c] by blast
  have "stamps_upto big (data_layer_scope itemId layerId) (c + 1) lg'"
    if "adds_with (sync_version_source (Fin (of_int (c + 1)))) (fst s) lg'" for lg'
    using stamps_added [OF that r(3)] has_counter_nonneg [OF r(2)] c by simp
  then show ?thesis
    using assms(1) r(1) r' by (intro exI [of _ r'] exI [of _ "c + 1"]) (auto simp: quiet_def stamps_behind_def)
qed

lemma edit_source: "coalesce (fa_source (edit_args itemId layerId user version p gm fid b)) DEFAULT_SOURCE = sync_version_source version"
  by (simp add: edit_args_def coalesce_def sync_version_source_def)

lemma update_adds:
  assumes "write_feature_update g k (edit_args itemId layerId user version p gm fid b) lg = Inr (lg', w)"
  shows "adds_with (sync_version_source version) lg lg'"
  using assms guarded_adds edit_source unfolding write_feature_update_def by (fastforce simp: layer_observation_def)

lemma delete_adds:
  assumes "write_feature_delete g k (edit_args itemId layerId user version p gm fid b) lg = Inr (lg', w)"
  shows "adds_with (sync_version_source version) lg lg'"
  using assms guarded_adds edit_source unfolding write_feature_delete_def by (fastforce simp: layer_observation_def)

lemma update_behind:
  assumes "quiet env" "room layerId (snd s)" "stamps_behind big itemId layerId s"
  shows "stamps_behind big itemId layerId (fst (update_feature env itemId layerId fid patch user opts s))"
proof -
  obtain r v where b: "bump_layer_sync_version (ee_bumpOthers env) (ee_itemNow env) layerId (snd s) = (Some r, Inr (Fin (of_int v)))"
    and k: "\<And>lg'. adds_with (sync_version_source (Fin (of_int v))) (fst s) lg' \<Longrightarrow> stamps_behind big itemId layerId (lg', Some r)"
    using bumped [OF assms] by blast
  have q: "ee_between env (fst s) = fst s" using assms(1) by (simp add: quiet_def)
  show ?thesis
    using assms(3) raise_behind [OF assms(1)] k k [OF adds_with_refl] update_adds
    by (auto simp: update_feature_def Let_def b q checked_def split: sum.split option.split prod.split guarded_result.split)
qed

lemma delete_behind:
  assumes "quiet env" "room layerId (snd s)" "stamps_behind big itemId layerId s"
  shows "stamps_behind big itemId layerId (fst (delete_feature env itemId layerId fid user opts s))"
proof -
  obtain r v where b: "bump_layer_sync_version (ee_bumpOthers env) (ee_itemNow env) layerId (snd s) = (Some r, Inr (Fin (of_int v)))"
    and k: "\<And>lg'. adds_with (sync_version_source (Fin (of_int v))) (fst s) lg' \<Longrightarrow> stamps_behind big itemId layerId (lg', Some r)"
    using bumped [OF assms] by blast
  have q: "ee_between env (fst s) = fst s" using assms(1) by (simp add: quiet_def)
  show ?thesis
    using assms(3) raise_behind [OF assms(1)] k k [OF adds_with_refl] delete_adds
    by (auto simp: delete_feature_def Let_def b q checked_def split: sum.split option.split prod.split guarded_result.split)
qed

lemma insert_behind:
  assumes "quiet env" "room layerId (snd s)" "stamps_behind big itemId layerId s"
  shows "stamps_behind big itemId layerId (fst (insert_features env itemId layerId inputs user s))"
proof -
  obtain r v where b: "bump_layer_sync_version (ee_bumpOthers env) (ee_itemNow env) layerId (snd s) = (Some r, Inr (Fin (of_int v)))"
    and k: "\<And>lg'. adds_with (sync_version_source (Fin (of_int v))) (fst s) lg' \<Longrightarrow> stamps_behind big itemId layerId (lg', Some r)"
    using bumped [OF assms] by blast
  have q: "ee_between env (fst s) = fst s" using assms(1) by (simp add: quiet_def)
  have src: "\<forall>args \<in> set (insert_args itemId layerId user (Fin (of_int v)) inputs vals). coalesce (fa_source args) DEFAULT_SOURCE = sync_version_source (Fin (of_int v))"
    for vals using edit_source by (fastforce simp: insert_args_def)
  have "stamps_behind big itemId layerId (lg2, Some r)"
    if "write_features_create_idempotent (ee_gis env) (ee_clock env) (ee_clock2 env) (insert_args itemId layerId user (Fin (of_int v)) inputs vals) (fst s) = (lg2, res)"
    for vals lg2 res using k idempotent_adds [OF src] that by (metis fst_conv)
  then show ?thesis
    using assms(3) by (auto simp: insert_features_def Let_def b q split: sum.split prod.split)
qed

text \<open>Runs of creations, changes and deletions that do not interleave keep every row of the layer at or below its counter.\<close>

lemma edits_keep_stamps_behind:
  assumes "(edit_step itemId layerId)\<^sup>*\<^sup>* s0 s" and "stamps_behind big itemId layerId s0"
  shows "stamps_behind big itemId layerId s"
  using assms
proof (induction rule: rtranclp_induct)
  case (step s s')
  from step(2) step.IH [OF step.prems] show ?case
    by cases (auto intro: update_behind delete_behind insert_behind)
qed


subsection \<open>Reading back\<close>

lemma entities_single: "rs \<noteq> [] \<Longrightarrow> \<forall>r \<in> set rs. o_entity r = e \<Longrightarrow> entities rs = [e]"
proof -
  have "rs \<noteq> [] \<Longrightarrow> \<forall>r \<in> set rs. o_entity r = e \<Longrightarrow> remdups (map o_entity rs) = [e]"
  proof (induction rs)
    case (Cons r rs)
    then show ?case by (cases rs) auto
  qed simp
  then show "rs \<noteq> [] \<Longrightarrow> \<forall>r \<in> set rs. o_entity r = e \<Longrightarrow> entities rs = [e]" by (simp add: entities_def)
qed

text \<open>The read of one feature that has one \<open>create\<close> row.\<close>

definition rows_seen :: "log \<Rightarrow> string \<Rightarrow> int \<Rightarrow> string \<Rightarrow> row list" where
  "rows_seen lg scope asOf e = filter (\<lambda>r. o_scope r = scope \<and> o_from r \<le> asOf \<and> o_entity r = e) lg"

lemma entity_rows:
  assumes "create_rows lg scope e = [cr]" and "0 < limit"
    and "latest (rows_seen lg scope asOf e) = Some c" and "o_kind c \<noteq> ''delete''"
  shows "list_rows \<lparr> rq_candidate = [\<lambda>r. o_entity r = e], rq_current = [], rq_content = [] \<rparr> scope asOf limit lg = [(c, cr)]"
proof -
  let ?f = "\<lparr> rq_candidate = [\<lambda>r. o_entity r = e], rq_current = [], rq_content = [] \<rparr>"
  have "cr \<in> set (create_rows lg scope e)" using assms(1) by simp
  then have "o_entity cr = e" by (simp add: create_rows_def)
  then have cand: "candidate_entities lg scope ?f = [e]"
    using assms(1) by (simp add: candidate_entities_def create_rows_def holds_all_def)
  have vis: "visible_rows lg scope asOf ?f (Some [e]) = rows_seen lg scope asOf e"
    by (auto simp: visible_rows_def holds_all_def rows_seen_def)
  have all: "\<forall>r \<in> set (rows_seen lg scope asOf e). o_entity r = e" by (simp add: rows_seen_def)
  moreover have "rows_seen lg scope asOf e \<noteq> []" using assms(3) by auto
  ultimately have "entities (rows_seen lg scope asOf e) = [e]" by (rule entities_single [rotated])
  moreover have "filter (\<lambda>r. o_entity r = e) (rows_seen lg scope asOf e) = rows_seen lg scope asOf e" using all by simp
  ultimately have d: "distinct_on_entity (rows_seen lg scope asOf e) = [c]" using assms(3) by (simp add: distinct_on_entity_def current_of_def)
  have ec: "o_entity c = e" using latest_in [OF assms(3)] all by blast
  obtain n where n: "limit = Suc n" using assms(2) by (cases limit) auto
  show ?thesis
    using assms(1,4) by (simp add: list_rows_def Let_def cand vis d n join_creates_def ec)
qed

lemma read_entity_live:
  assumes "is_uuid_text fid" and "create_rows lg (data_layer_scope itemId layerId) (to_lower fid) = [cr]"
    and "latest (rows_seen lg (data_layer_scope itemId layerId) now (to_lower fid)) = Some c" and "o_kind c \<noteq> ''delete''"
  shows "read_entity env itemId layerId fid None isTable now lg = Inr (Some (layer_feature (ee_iso env) c cr))"
proof -
  have f: "build_read_filters (ee_gis env) (ee_times env) (entity_read itemId layerId fid None isTable) =
      Inr \<lparr> rq_candidate = [\<lambda>r. o_entity r = to_lower fid], rq_current = [], rq_content = [] \<rparr>"
    using assms(1) by (simp add: build_read_filters_def entity_read_def validate_geojson_def candidate_filters_def current_filters_def content_filters_def)
  show ?thesis
    using f entity_rows [OF assms(2) _ assms(3,4), of 100000]
    by (simp add: read_entity_def list_features_def apply_lens_policy_def Let_def entity_read_def)
qed

subsection \<open>Examples\<close>

definition ana :: edit_user where "ana = \<lparr> eu_id = ''u'', eu_username = None \<rparr>"

definition quiet_env :: edit_env where
  "quiet_env = \<lparr> ee_gis = gis0, ee_times = \<lparr> tt_not_before = (\<lambda>_ _. True), tt_not_after = (\<lambda>_ _. True) \<rparr>, ee_iso = no_stamp,
     ee_date_parse = (\<lambda>_. NaN), ee_fields = [], ee_pickLists = (\<lambda>_. None), ee_stamp = (\<lambda>_. []), ee_read = 9, ee_readBack = 9,
     ee_clock = clock_at CHR ''2'' 5, ee_clock2 = clock_at CHR ''3'' 5, ee_between = (\<lambda>lg. lg),
     ee_bumpOthers = (\<lambda>_ _ it. it), ee_conflictOthers = (\<lambda>_ _ it. it), ee_itemNow = (\<lambda>_. 10), ee_conflictId = ''k'', ee_conflictAt = [] \<rparr>"

text \<open>A client that sends back a field of the read beside the field it set.\<close>

definition tree_patch :: feature_patch where
  "tree_patch = \<lparr> fp_geometry = Undef, fp_properties = Some [(''height'', JNum (Fin 7)), (''_edited_by'', JStr ''x'')] \<rparr>"

definition tree_opts :: edit_opts where
  "tree_opts = \<lparr> eo_ownRowsOnly = False, eo_isTable = False, eo_base = Some (o_id (version_row 1 1 ''create'')), eo_checkOnly = False \<rparr>"

abbreviation planted :: row where "planted \<equiv> version_row 1 1 ''create''"

lemma tree_low: "to_lower tree_id = tree_id" "is_uuid_text tree_id" by code_simp+

lemma planted_read:
  "read_entity quiet_env ''i'' ''trees'' tree_id None False 9 [planted] = Inr (Some (layer_feature no_stamp planted planted))"
  using read_entity_live [OF tree_low(2), of "[planted]" "''i''" "''trees''" planted 9 planted quiet_env False]
  by (simp add: tree_low create_rows_def rows_seen_def quiet_env_def)

lemma planted_patched: "patched quiet_env ana (layer_feature no_stamp planted planted) tree_patch =
   Inr [(''name'', JStr ''oak''), (''height'', JNum (Fin 7))]"
  by code_simp

lemma planted_head: "head_seen (layer_feature no_stamp planted planted) = JStr (o_id planted)"
  by code_simp

lemma planted_written:
  "write_feature_update gis0 (clock_at CHR ''2'' 5)
     (edit_args ''i'' ''trees'' ana (Fin 2) (JObj 0 [(''name'', JStr ''oak''), (''height'', JNum (Fin 7))]) JNull (Some tree_id) (Some (o_id planted))) [planted] =
   Inr ([planted, (tree_row CHR ''2'' 5 ''update'')\<lparr> o_scope := ''data_layer:i:trees'', o_source := sync_version_source (Fin 2),
     o_attrs := JObj 0 [(''name'', JStr ''oak''), (''height'', JNum (Fin 7))] \<rparr>], Wrote ''11111111-0000-7000-8000-000000000002'')"
  by code_simp

lemma planted_bumped:
  "\<exists>it. bump_layer_sync_version (\<lambda>_ _ it. it) (\<lambda>_. 10) ''trees'' (Some (trees_item 1 9)) = (Some it, Inr (Fin 2)) \<and> has_counter ''trees'' 2 it"
  using bump_quiet [OF trees_counter, of 1 "\<lambda>_. 10" 9] by auto

abbreviation grown :: row where
  "grown \<equiv> (tree_row CHR ''2'' 5 ''update'')\<lparr> o_scope := ''data_layer:i:trees'', o_source := sync_version_source (Fin 2),
     o_attrs := JObj 0 [(''name'', JStr ''oak''), (''height'', JNum (Fin 7))] \<rparr>"

lemma planted_updated:
  "\<exists>it f. has_counter ''trees'' 2 it \<and> update_feature quiet_env ''i'' ''trees'' tree_id tree_patch ana tree_opts ([planted], Some (trees_item 1 9)) = (([planted, grown], Some it), Inr (Edited f))"
proof -
  obtain it where b: "bump_layer_sync_version (ee_bumpOthers quiet_env) (ee_itemNow quiet_env) ''trees'' (Some (trees_item 1 9)) = (Some it, Inr (Fin 2))"
      "has_counter ''trees'' 2 it"
    using planted_bumped by (auto simp: quiet_env_def)
  have scope: "data_layer_scope ''i'' ''trees'' = ''data_layer:i:trees''" by code_simp
  have rb: "read_entity quiet_env ''i'' ''trees'' tree_id None False 9 [planted, grown] = Inr (Some (layer_feature no_stamp grown planted))"
    using read_entity_live [OF tree_low(2), of "[planted, grown]" "''i''" "''trees''" planted 9 grown quiet_env False]
    by (simp add: tree_low create_rows_def rows_seen_def quiet_env_def scope tree_row_def older_def)
  have q: "ee_read quiet_env = 9" "ee_readBack quiet_env = 9" "ee_gis quiet_env = gis0" "ee_clock quiet_env = clock_at CHR ''2'' 5" "ee_between quiet_env = (\<lambda>lg. lg)"
    by (simp_all add: quiet_env_def)
  have o: "eo_ownRowsOnly tree_opts = False" "eo_isTable tree_opts = False" "eo_base tree_opts = Some (o_id planted)" "eo_checkOnly tree_opts = False"
    by (simp_all add: tree_opts_def)
  have g: "next_geometry False (layer_feature no_stamp planted planted) tree_patch = JNull" by code_simp
  show ?thesis
    by (simp add: update_feature_def q o planted_read planted_patched g off_base_def planted_head b(1) planted_written rb Let_def)
       (use b(2) in blast)
qed

theorem update_merges_witness:
  "\<exists>r m. o_attrs r = json_value (JObj 0 m) \<and> map_of m ''name'' = Some (JStr ''oak'') \<and> map_of m ''height'' = Some (JNum (Fin 7)) \<and>
    map_of m ''_edited_by'' = None \<and>
    fst (fst (update_feature quiet_env ''i'' ''trees'' tree_id tree_patch ana tree_opts ([planted], Some (trees_item 1 9)))) = [planted, r]"
proof -
  obtain it f where u: "update_feature quiet_env ''i'' ''trees'' tree_id tree_patch ana tree_opts ([planted], Some (trees_item 1 9)) = (([planted, grown], Some it), Inr (Edited f))"
    using planted_updated by blast
  let ?v = "[(''height'', JNum (Fin 7)), (''_edited_by'', JStr ''x'')]"
  have v: "patch_value quiet_env ana tree_patch = Inr ?v" by code_simp
  have wf: "obj_wf ?v" by (simp add: obj_wf_def)
  have q: "ee_read quiet_env = 9" "ee_between quiet_env = (\<lambda>lg. lg)" "eo_ownRowsOnly tree_opts = False" "eo_isTable tree_opts = False"
    by (simp_all add: quiet_env_def tree_opts_def)
  from update_merges [OF u v wf] obtain r m where
    "[planted, grown] = [planted, r]" "o_attrs r = json_value (JObj 0 m)" "map_of m = merged_key (ft_properties (layer_feature no_stamp planted planted)) ?v"
    by (auto simp: q planted_read)
  moreover have "merged_key (ft_properties (layer_feature no_stamp planted planted)) ?v ''name'' = Some (JStr ''oak'')"
      "merged_key (ft_properties (layer_feature no_stamp planted planted)) ?v ''height'' = Some (JNum (Fin 7))"
      "merged_key (ft_properties (layer_feature no_stamp planted planted)) ?v ''_edited_by'' = None" by code_simp+
  ultimately show ?thesis using u by auto
qed


end
