(* ===== verification/Spec2Isabelle.thy ===== *)
theory Spec2Isabelle
  imports FormChecks FormDesign OfflineRun SqlGrammar SqlEval DerivedGate HtmlSanitize SourceScope LayerPages LayerRace FeatureEdits
begin

text \<open>
  GratisGIS is a web GIS portal: a NestJS API (\<open>apps/portal-api\<close>), a web client
  (\<open>apps/portal-web\<close>), a field client and packages they share. The core logic lives in the
  packages: \<open>form-schema\<close> defines forms, evaluates their expressions and validates responses, and
  \<open>shared-types\<close> holds the rules both clients and the server follow. Of the API, the parts that
  decide are the sharing service with its policies, and the derived layers: layers computed from
  other layers by a pipeline of tools. This development models the form engine, the offline write
  queue of the field client, the SQL expression language, sharing, derived layers, the check of
  feature attributes on writing, attribute filters and source scopes, the HTML sanitizer, and the log of
  observations with the layers of features kept on it.

  Parts and theories, in the order they build on each other:

  \<^item> \<open>Prelude\<close>: strings, plain objects, stable sorting, and the lemmas about them.
  \<^item> \<open>JsNum\<close>: numbers of the language, rationals rounded to binary64 with the infinities and
    not-a-number; conversion to and from text. There is one zero.
  \<^item> \<open>JsValue\<close>: values, with addresses on arrays and objects since \<open>===\<close> compares references, and
    the record of what the engine decides (clock, collation, regular expressions, \<open>Math.pow\<close>,
    URL and date parsing).
  \<^item> \<open>FormTypes\<close>: the data of \<open>form-schema/src/index.ts\<close>, one record per interface.
  \<^item> \<open>FormExpr\<close>: \<open>evaluate\<close>, \<open>resolve\<close>, \<open>numericResolve\<close>, \<open>cmp\<close>, \<open>callBuiltin\<close>; an expression reads only
    the questions it refers to.
  \<^item> \<open>FormValidate\<close>, \<open>FormWalk\<close>, \<open>FormChecks\<close>: \<open>validateType\<close> arm by arm, the walk over the form with
    its repeat groups, and what the checks accept. \<open>occurs\<close> says which questions a response
    reaches; \<open>validate\<close> is shown to be the check of each of them.
  \<^item> \<open>FormState\<close>: \<open>walkQuestions\<close>, \<open>applyCalculations\<close>, \<open>pruneHidden\<close> and \<open>runtime-state.ts\<close>. The locale
    \<open>reader\<close> is what a calculation pass needs of an evaluator; it is interpreted on \<open>evaluate\<close>.
  \<^item> \<open>EngineVersion\<close>: \<open>engine-version.ts\<close>; the walk is described by the set of features of a form.
  \<^item> \<open>FormDesign\<close>: default questions, question ids, export and import, column types.
  \<^item> \<open>QueueFold\<close>: \<open>shared-types/src/queue-fold.ts\<close>. The locale \<open>edit_log\<close> says when a log of edits may be
    kept folded; it is interpreted on \<open>foldQueuedEdits\<close> with the effect of an edit on the server's
    feature.
  \<^item> \<open>QueueReplay\<close>: \<open>queue-replay.ts\<close> and \<open>sync-outcome.ts\<close>: claims, backoff, ownership, chain heads.
  \<^item> \<open>OfflineStore\<close>: the queue and file stores of \<open>portal-web/src/lib/offline-store.ts\<close>. The locale
    \<open>keyed_store\<close> is what the transactions need of an object store; it is interpreted on the model of
    one (the records in key order).
  \<^item> \<open>OfflineSync\<close>: \<open>offline-sync.ts\<close>: replay of a record, its attachments, one pass over the queue.
    The network is a parameter, so every lemma holds for any server and any loss of replies.
  \<^item> \<open>OfflineRun\<close>: interleavings of the transactions of several drains and of the person's edits as
    a step relation, with an invariant by rule induction.

  \<^item> \<open>SqlName\<close>, \<open>SqlParse\<close>, \<open>SqlGrammar\<close>, \<open>SqlCheck\<close>, \<open>SqlEmit\<close>, \<open>SqlEval\<close>: \<open>shared-types/src/expression.ts\<close>,
    the language of filters and computed fields: safe column names, tokenizer and parser, its grammar,
    the type checker, the compiler to SQL and the evaluator.
  \<^item> \<open>ToolBase\<close>, \<open>ToolsSimple\<close>, \<open>ToolsMetric\<close>, \<open>ToolsExpr\<close>, \<open>ToolsSpatial\<close>, \<open>ToolsContour\<close>: the 21 tools of
    \<open>portal-api/src/derived-layers/tools\<close>, with units of length and area (\<open>length.ts\<close>). A tool is a
    record of the functions of a \<open>ToolGenerator\<close>. The locale \<open>tool_generator\<close> is what the service needs
    of every tool (its statement opens no literal and numbers its placeholders from the offset it was
    given), and its extension \<open>stored_tool\<close> what reading a stored recipe needs (what was accepted is
    accepted again without the schema, and runs); they are interpreted on the tools, all but
    \<open>spatial-filter\<close> and \<open>contour\<close> as \<open>stored_tool\<close>.
  \<^item> \<open>LayerSource\<close>: \<open>dataLayerSourceSqlFragment\<close> of \<open>engine/data-layer.ts\<close>, the leaf of a pipeline.
  \<^item> \<open>GeometryGuard\<close>: \<open>common/geometry-validation.ts\<close>, the limits on a geometry in a request.
  \<^item> \<open>Sharing\<close>: \<open>policy/entity-store.ts\<close>, the policy text of \<open>policy.service.ts\<close>, \<open>items/sharing.service.ts\<close>
    and \<open>auth/capabilities.ts\<close>. The locale \<open>policy_evaluator\<close> is what the checks need of the policy
    engine: a request is allowed when some policy permits it; it is interpreted on an evaluator of the
    policies of the text.
  \<^item> \<open>DerivedLayers\<close>, \<open>DerivedRead\<close>, \<open>DerivedGate\<close>: \<open>derived-layers.service.ts\<close> (saving a recipe, composing
    the statement of a read through the chain of layers, preview) and the gates around it in
    \<open>items/items.service.ts\<close> and \<open>items/dependency-extractor.ts\<close>.

  \<^item> \<open>HtmlText\<close>, \<open>HtmlSanitize\<close>: \<open>shared-types/src/attribution-html.ts\<close>, the sanitizer of attributions and
    popups, over lists of UTF-16 code units. \<open>clean\<close> is the grammar of what may reach the page.
  \<^item> \<open>FeatureValidate\<close>, \<open>FeatureWrite\<close>: \<open>shared-types/src/feature-validate.ts\<close>, \<open>submission-stamp.ts\<close> and
    \<open>validateAll\<close> of \<open>portal-api/src/data-layer/features.service.ts\<close>. \<open>field_conforms\<close> is what a schema
    promises of a stored value.
  \<^item> \<open>FilterMatch\<close>, \<open>SourceScope\<close>: \<open>shared-types/src/filter-match.ts\<close>, \<open>compileAttrFilter\<close> of
    \<open>engine/data-layer.ts\<close>, and \<open>source-scope.ts\<close>, what a reader's selection does to the sources of an app.

  \<^item> \<open>Uuid\<close>, \<open>Observation\<close>: \<open>packages/engine/src\<close>: identifiers as bytes, the check of an observation, cells and
    boxes of geometries.
  \<^item> \<open>ObsLog\<close>: \<open>engine/engine.service.ts\<close>, the append-only log of observations, its current rows and its
    writes. A log is the list of its rows.
  \<^item> \<open>LayerLog\<close>, \<open>LayerRead\<close>, \<open>LayerPages\<close>: \<open>engine/data-layer.ts\<close>: the writes of a layer of features on the
    log, its listings and pages, and what they answer. \<open>live_rows\<close> is the specification of a read.
  \<^item> \<open>LayerVersion\<close>, \<open>LayerDelta\<close>: the counter of write batches and the ring of lost edits that a layer carries in
    its item (\<open>data-layer/features.service.ts\<close>), and the answer to what changed since a version
    (\<open>layer-delta.ts\<close>, \<open>listDelta\<close>, \<open>listDeltaSince\<close>). The locale \<open>item_plan\<close> is what an optimistic write needs
    of the computation it repeats; it is interpreted on the three that the service repeats.
  \<^item> \<open>DeltaPull\<close>, \<open>DeltaSync\<close>: the refresh of a cached layer by the field client
    (\<open>portal-web/src/lib/offline-download.ts\<close>), with \<open>replay\<close>, the changes in the order of their versions, as
    its specification.
  \<^item> \<open>LayerRace\<close>: \<open>writeIfHead\<close> as a transaction: a step relation of the writers of one entity, with an
    invariant by rule induction.
  \<^item> \<open>FeatureEdits\<close>: \<open>insertFeatures\<close>, \<open>updateFeature\<close> and \<open>deleteFeature\<close> of \<open>features.service.ts\<close> over the log and
    the item, and runs of them as a step relation.

  What is shown. Forms: acceptance and the list of errors of \<open>validate\<close> are those of the
  occurrences, the only exception that escapes is a text pattern that does not compile, the
  errors point at questions the runtime lists (and, without hidden groups, shows), pruning and
  calculation passes write exactly what they should, passes settle for acyclic calculations,
  the engine version is exact, picked ids are fresh, export and import round-trip. Queue:
  folding refines replaying, a pass replays chain heads only, no row is stranded, claims
  exclude each other under every interleaving, an uninterrupted pass loses no edit; and an edit
  made between the listing and the claim of its row is lost, which is a defect of the code.
  Expressions: the parser accepts exactly the grammar and returns on every text, the compiler puts no
  literal into the statement, values have the types the checker infers. Sharing: the point checks
  decide exactly what the ladder of roles and tiers says, list queries agree with them but for
  admins, limits compose as a union, and a boundary in the trash lifts the limits that use it.
  Derived layers: the author of a recipe can read all it draws on, reading asks less than that, every
  statement has closed literals and one consistent numbering of its placeholders, and a recipe that
  was accepted can be read, but for the two tools whose stored parameters are refused. HTML: every
  output is a balanced fragment of listed tags, checked links and escaped text, and cleaning again
  changes nothing within the length limit. Features: what is accepted conforms to the schema, is
  accepted again unchanged, tells nothing of pick lists beyond the values sent, and is attributed to
  the caller. Filters: memory and database agree where both read a clause alike; a selection only
  narrows, and an author's choice between clauses is lost. The log: identifiers sort by their time, a
  create that is retried writes nothing, a walk over pages yields every live feature once while others
  write, a feature created twice is listed twice, and an identifier in upper case is misreported.
  Versions are given once under every interleaving of writers, but for a schema that is saved as it was
  loaded; guarded writers do not overwrite each other, but plain writers and other spellings overwrite
  them. An update keeps what the patch does not name. After edits that do not interleave a refresh shows
  the current features; beside an edit in progress, after a download, or with more changes than a page
  holds, it moves past changes for good.

  Recursion. The walks over questions are \<open>function\<close>s whose termination is the size of the
  question list; the search for a free id ends because the taken ids ahead of it are finitely
  many. The parser recurses on the tokens left. A refresh asks for at most 100 pages and an optimistic
  write is tried 8 or 5 times, as in the code. The walks up a chain of layers end by their own depth
  limits (5 layers above the one that is read or saved), a pipeline has at most 10 steps, and the
  vertices of a geometry are counted with the budget of the code. There is no fuel.

  Limits. A \<open>char\<close> is one code unit below 256. Regular expressions, collation, URL and date
  parsing and \<open>Math.pow\<close> are parameters. Properties inherited from \<open>Object.prototype\<close> are not
  modelled, and repeat-group instances and matrix answers are plain objects with distinct keys.
  Millisecond times are below \<open>2 ^ 52\<close> where arithmetic on them matters. Statements are texts
  up to white space and comments, which nothing reads; they are not run: the rows the save hooks and
  the preview ask for are parameters. Messages of errors leave out the values the code interpolates.
  The policy engine and the meaning of a database condition are parameters with their laws as
  hypotheses, and expiry times of shares are given in milliseconds. The stored data of a
  derived layer is a recipe, or a value of another shape. Not modelled: the caches and schema
  migrations of the offline store, the upload of attachments that sit inside a form answer (a
  parameter), the log of undeclared keys, the MapLibre rendering of filters, bulk loading
  through COPY (its rows carry no version, so no delta shows them), field calculation, attribute tables,
  aggregates, search and tiles of a layer, the notices to caches after a write, the importers, the rest of
  the API (ingest, export, jobs), user interface, database and network code.
\<close>

end
